(* ===== verification/Prelude.thy ===== *)
theory Prelude
  imports Main "HOL-Library.Char_ord" "HOL-Library.List_Lexorder"
    "HOL-Library.Product_Lexorder" "HOL-Library.Multiset" "HOL-Library.Sublist"
begin

text \<open>
  Shared vocabulary of the development: Python exceptions as values, Python's string
  operations on \<^typ>\<open>string\<close> (a code point is a \<^typ>\<open>char\<close>, so the model covers
  the Latin-1 range exactly), decimal numerals, dictionaries as association lists in
  insertion order, and the generic lemmas the components share.
\<close>

section \<open>Results\<close>

datatype py_exc = ValueError | KeyError | TypeError | IndexError

type_synonym 'a py = "py_exc + 'a"

named_theorems result_simps \<open>evaluation of results, their binds and their loops\<close>
named_theorems str_simps \<open>Python string operations on closed and structured arguments\<close>
named_theorems sort_facts \<open>sortedness and multiset facts of Python's sorted\<close>

fun bind_res :: "'e + 'a \<Rightarrow> ('a \<Rightarrow> 'e + 'b) \<Rightarrow> 'e + 'b" where
  "bind_res (Inl e) f = Inl e"
| "bind_res (Inr x) f = f x"

fun map_res :: "('a \<Rightarrow> 'e + 'b) \<Rightarrow> 'a list \<Rightarrow> 'e + 'b list" where
  "map_res f [] = Inr []"
| "map_res f (x # xs) =
     bind_res (f x) (\<lambda>y. bind_res (map_res f xs) (\<lambda>ys. Inr (y # ys)))"

lemma bind_res_Inr_iff [result_simps]:
  "bind_res r f = Inr y \<longleftrightarrow> (\<exists>x. r = Inr x \<and> f x = Inr y)"
  by (cases r) auto

lemma bind_res_Inl_iff [result_simps]:
  "bind_res r f = Inl e \<longleftrightarrow> r = Inl e \<or> (\<exists>x. r = Inr x \<and> f x = Inl e)"
  by (cases r) auto

lemma bind_res_Inr_right [simp]: "bind_res r Inr = r"
  by (cases r) auto

lemma map_res_append:
  "map_res f (xs @ ys) =
     bind_res (map_res f xs) (\<lambda>as. bind_res (map_res f ys) (\<lambda>bs. Inr (as @ bs)))"
proof (induction xs)
  case Nil
  show ?case by simp
next
  case (Cons x xs)
  then show ?case
    by (cases "f x"; cases "map_res f xs"; cases "map_res f ys") auto
qed

lemma map_res_length: "map_res f xs = Inr ys \<Longrightarrow> length ys = length xs"
  by (induction xs arbitrary: ys) (auto simp: result_simps)

lemma map_res_Inr: "(\<And>x. x \<in> set xs \<Longrightarrow> f x = Inr (g x)) \<Longrightarrow> map_res f xs = Inr (map g xs)"
  by (induction xs) auto

section \<open>Strings\<close>

text \<open>\<open>str.isspace\<close>, the class \<open>\s\<close> of \<open>re\<close> and the characters \<open>str.strip\<close> removes.\<close>

definition is_space :: "char \<Rightarrow> bool" where
  "is_space c \<longleftrightarrow> (let n = (of_char c :: nat) in
     (9 \<le> n \<and> n \<le> 13) \<or> (28 \<le> n \<and> n \<le> 32) \<or> n = 133 \<or> n = 160)"

definition is_digit :: "char \<Rightarrow> bool" where
  "is_digit c \<longleftrightarrow> (let n = (of_char c :: nat) in 48 \<le> n \<and> n \<le> 57)"

definition is_upper :: "char \<Rightarrow> bool" where
  "is_upper c \<longleftrightarrow> (let n = (of_char c :: nat) in 65 \<le> n \<and> n \<le> 90)"

definition is_lower :: "char \<Rightarrow> bool" where
  "is_lower c \<longleftrightarrow> (let n = (of_char c :: nat) in 97 \<le> n \<and> n \<le> 122)"

text \<open>The class \<open>[0-9A-Za-z]\<close>.\<close>

definition is_alnum :: "char \<Rightarrow> bool" where
  "is_alnum c \<longleftrightarrow> is_digit c \<or> is_upper c \<or> is_lower c"

lemma digit_not_space: "is_digit c \<Longrightarrow> \<not> is_space c"
  by (auto simp: is_digit_def is_space_def Let_def)

text \<open>\<open>str.lstrip\<close>, \<open>str.rstrip\<close> and \<open>str.strip\<close> without an argument.\<close>

definition lstrip :: "string \<Rightarrow> string" where
  "lstrip s = dropWhile is_space s"

definition rstrip :: "string \<Rightarrow> string" where
  "rstrip s = rev (dropWhile is_space (rev s))"

definition strip :: "string \<Rightarrow> string" where
  "strip s = rstrip (lstrip s)"

lemma strip_id:
  assumes "s = [] \<or> (\<not> is_space (hd s) \<and> \<not> is_space (last s))"
  shows "strip s = s"
proof (cases s)
  case Nil
  then show ?thesis by (simp add: strip_def rstrip_def lstrip_def)
next
  case (Cons c cs)
  with assms have "lstrip s = s" by (simp add: lstrip_def)
  moreover have "dropWhile is_space (rev s) = rev s"
  proof -
    from Cons have "rev s \<noteq> []" by simp
    then obtain d ds where d: "rev s = d # ds" by (cases "rev s") auto
    then have "d = last s" by (metis list.sel(1) hd_rev)
    with assms Cons d show ?thesis by simp
  qed
  ultimately show ?thesis by (simp add: strip_def rstrip_def)
qed

lemma set_strip: "set (strip s) \<subseteq> set s"
  by (auto simp: strip_def rstrip_def lstrip_def dest!: set_dropWhileD)

text \<open>\<open>str.split()\<close>: the maximal runs of characters that are no white space.\<close>

fun words_from :: "string \<Rightarrow> string \<Rightarrow> string list" where
  "words_from acc [] = (if acc = [] then [] else [rev acc])"
| "words_from acc (c # s) =
     (if is_space c then (if acc = [] then words_from [] s else rev acc # words_from [] s)
      else words_from (c # acc) s)"

definition words :: "string \<Rightarrow> string list" where
  "words s = words_from [] s"

text \<open>\<open>str.strip(chars)\<close>, \<open>str.rstrip(chars)\<close>.\<close>

definition strip_chars :: "string \<Rightarrow> string \<Rightarrow> string" where
  "strip_chars cs s = rev (dropWhile (\<lambda>c. c \<in> set cs) (rev (dropWhile (\<lambda>c. c \<in> set cs) s)))"

definition rstrip_chars :: "string \<Rightarrow> string \<Rightarrow> string" where
  "rstrip_chars cs s = rev (dropWhile (\<lambda>c. c \<in> set cs) (rev s))"

text \<open>\<open>a in s\<close>, \<open>s.startswith(a)\<close>, \<open>s.endswith(a)\<close> for strings.\<close>

definition starts_with :: "string \<Rightarrow> string \<Rightarrow> bool" where
  "starts_with s p = prefix p s"

definition ends_with :: "string \<Rightarrow> string \<Rightarrow> bool" where
  "ends_with s p = suffix p s"

definition contains :: "string \<Rightarrow> string \<Rightarrow> bool" where
  "contains s p = sublist p s"

text \<open>\<open>s.split(sep)\<close> for a non-empty separator, scanning from the left.\<close>

function split_from :: "string \<Rightarrow> string \<Rightarrow> string \<Rightarrow> string list" where
  "split_from sep acc s =
     (if s = [] then [rev acc]
      else if sep \<noteq> [] \<and> prefix sep s
        then rev acc # split_from sep [] (drop (length sep) s)
        else split_from sep (hd s # acc) (tl s))"
  by pat_completeness auto
termination
  by (relation "measure (\<lambda>(sep, acc, s). length s)") auto

declare split_from.simps [simp del]

definition split_on :: "string \<Rightarrow> string \<Rightarrow> string list" where
  "split_on sep s = split_from sep [] s"

lemma split_from_Nil [simp]: "split_from sep acc [] = [rev acc]"
  by (subst split_from.simps) simp

lemma split_from_Cons:
  "split_from sep acc (c # s) =
     (if sep \<noteq> [] \<and> prefix sep (c # s)
      then rev acc # split_from sep [] (drop (length sep) (c # s))
      else split_from sep (c # acc) s)"
  by (subst split_from.simps) simp

text \<open>A one-character separator that does not occur leaves the text whole.\<close>

lemma split_from_notin: "d \<notin> set s \<Longrightarrow> split_from [d] acc s = [rev acc @ s]"
  by (induction s arbitrary: acc) (auto simp: split_from_Cons)

lemma split_on_notin [str_simps]: "d \<notin> set s \<Longrightarrow> split_on [d] s = [s]"
  by (simp add: split_on_def split_from_notin)

lemma split_on_absent:
  assumes "d \<in> set sep" and "d \<notin> set s"
  shows "split_on sep s = [s]"
proof -
  have "split_from sep acc t = [rev acc @ t]" if "d \<notin> set t" for acc t
    using that
  proof (induction t arbitrary: acc)
    case (Cons c t)
    have "\<not> prefix sep (c # t)"
      using assms(1) Cons.prems by (meson in_mono set_mono_prefix)
    with Cons show ?case by (simp add: split_from_Cons)
  qed simp
  then show ?thesis using assms(2) by (simp add: split_on_def)
qed

lemma split_on_append:
  "split_on [d] (s @ d # t) = split_on [d] s @ split_on [d] t"
proof -
  have "split_from [d] acc (s @ d # t) = split_from [d] acc s @ split_from [d] [] t" for acc
    by (induction s arbitrary: acc) (auto simp: split_from_Cons)
  then show ?thesis by (simp add: split_on_def)
qed

lemma split_on_sep [str_simps]:
  "d \<notin> set s \<Longrightarrow> split_on [d] (s @ d # t) = s # split_on [d] t"
  by (simp add: split_on_append split_on_notin)

lemma split_on_sep2:
  assumes "d \<notin> set s"
  shows "split_on [d, d] (s @ d # d # t) = s # split_on [d, d] t"
proof -
  have "split_from [d, d] acc (s @ d # d # t) = (rev acc @ s) # split_from [d, d] [] t" for acc
    using assms by (induction s arbitrary: acc) (auto simp: split_from_Cons)
  then show ?thesis by (simp add: split_on_def)
qed

text \<open>\<open>sep.join(parts)\<close>.\<close>

fun join :: "string \<Rightarrow> string list \<Rightarrow> string" where
  "join sep [] = []"
| "join sep [x] = x"
| "join sep (x # y # zs) = x @ sep @ join sep (y # zs)"

lemma join_Cons: "join sep (x # xs) = x @ (if xs = [] then [] else sep @ join sep xs)"
  by (cases xs) auto

text \<open>Joining with a character no part contains and splitting again gives the parts.\<close>

lemma split_on_join:
  "xs \<noteq> [] \<Longrightarrow> (\<And>x. x \<in> set xs \<Longrightarrow> d \<notin> set x) \<Longrightarrow> split_on [d] (join [d] xs) = xs"
proof (induction xs)
  case (Cons x xs)
  then show ?case
    by (cases xs) (simp_all add: str_simps join_Cons)
qed simp

section \<open>Decimal numerals\<close>

definition digit_val :: "char \<Rightarrow> nat" where
  "digit_val c = of_char c - 48"

definition digit_chr :: "nat \<Rightarrow> char" where
  "digit_chr n = char_of (48 + n)"

text \<open>\<open>int(text)\<close> on a run of digits.\<close>

definition nat_of_digits :: "string \<Rightarrow> nat" where
  "nat_of_digits s = foldl (\<lambda>n c. 10 * n + digit_val c) 0 s"

text \<open>\<open>str(n)\<close> for a non-negative integer.\<close>

fun str_nat :: "nat \<Rightarrow> string" where
  "str_nat n = (if n < 10 then [digit_chr n] else str_nat (n div 10) @ [digit_chr (n mod 10)])"

declare str_nat.simps [simp del]

definition str_int :: "int \<Rightarrow> string" where
  "str_int i = (if i < 0 then CHR ''-'' # str_nat (nat (- i)) else str_nat (nat i))"

lemma digit_chr_digit: "n < 10 \<Longrightarrow> is_digit (digit_chr n)"
  by (simp add: is_digit_def digit_chr_def Let_def)

lemma digit_val_chr [simp]: "n < 10 \<Longrightarrow> digit_val (digit_chr n) = n"
  by (simp add: digit_val_def digit_chr_def)

lemma str_nat_digits: "c \<in> set (str_nat n) \<Longrightarrow> is_digit c"
proof (induction n rule: str_nat.induct)
  case (1 n)
  then show ?case
    by (cases "n < 10") (auto simp: str_nat.simps [of n] digit_chr_digit)
qed

lemma str_nat_nonempty [simp]: "str_nat n \<noteq> []"
  by (subst str_nat.simps) simp

lemma nat_of_digits_str_nat [simp]: "nat_of_digits (str_nat n) = n"
proof (induction n rule: str_nat.induct)
  case (1 n)
  then show ?case
    by (cases "n < 10") (auto simp: str_nat.simps [of n] nat_of_digits_def)
qed

lemma str_nat_inj: "str_nat m = str_nat n \<Longrightarrow> m = n"
  by (metis nat_of_digits_str_nat)

section \<open>Dictionaries as association lists in insertion order\<close>

text \<open>\<open>d[k] = v\<close> keeps the position of an existing key and appends a new one.\<close>

fun dict_set :: "'k \<Rightarrow> 'v \<Rightarrow> ('k \<times> 'v) list \<Rightarrow> ('k \<times> 'v) list" where
  "dict_set k v [] = [(k, v)]"
| "dict_set k v ((k', v') # d) = (if k = k' then (k, v) # d else (k', v') # dict_set k v d)"

lemma map_of_dict_set [simp]: "map_of (dict_set k v d) = (map_of d)(k \<mapsto> v)"
  by (induction k v d rule: dict_set.induct) auto

lemma keys_dict_set:
  "map fst (dict_set k v d) = (if k \<in> fst ` set d then map fst d else map fst d @ [k])"
  by (induction k v d rule: dict_set.induct) auto

lemma distinct_dict_set: "distinct (map fst d) \<Longrightarrow> distinct (map fst (dict_set k v d))"
  by (auto simp: keys_dict_set)

text \<open>A dictionary comprehension over a list: later entries overwrite earlier ones.\<close>

definition dict_of :: "('k \<times> 'v) list \<Rightarrow> ('k \<times> 'v) list" where
  "dict_of xs = fold (\<lambda>(k, v). dict_set k v) xs []"

lemma map_of_fold_dict_set:
  "map_of (fold (\<lambda>(k, v). dict_set k v) xs d) = map_of d ++ map_of (rev xs)"
  by (induction xs arbitrary: d) (auto simp: map_add_def fun_eq_iff split: option.splits)

lemma map_of_dict_of: "map_of (dict_of xs) = map_of (rev xs)"
  by (simp add: dict_of_def map_of_fold_dict_set)

lemma distinct_dict_of: "distinct (map fst (dict_of xs))"
proof -
  have "distinct (map fst d) \<Longrightarrow> distinct (map fst (fold (\<lambda>(k, v). dict_set k v) xs d))" for d
    by (induction xs arbitrary: d) (auto simp: distinct_dict_set)
  then show ?thesis by (simp add: dict_of_def)
qed

section \<open>Python's sorted\<close>

text \<open>\<^const>\<open>sort_key\<close> is stable, as \<open>sorted\<close> and \<open>list.sort\<close> are.\<close>

lemma sorted_map_sort_key [sort_facts]: "sorted (map f (sort_key f xs))"
  by (induction xs) (auto simp: sorted_insort_key)

lemma set_sort_key [sort_facts]: "set (sort_key f xs) = set xs"
  by simp

text \<open>Sorting on a key that separates the elements forgets the order of the input.\<close>

lemma sort_key_perm:
  assumes "mset xs = mset ys" and "inj_on f (set xs)"
  shows "sort_key f xs = sort_key f ys"
proof (rule properties_for_sort_key)
  show "mset (sort_key f ys) = mset xs" using assms(1) by simp
  show "sorted (map f (sort_key f ys))" by (rule sorted_map_sort_key)
next
  fix k
  assume "k \<in> set (sort_key f ys)"
  then have k: "k \<in> set xs" using assms(1) by (metis set_sort set_mset_mset)
  have eq: "filter (\<lambda>x. f k = f x) zs = replicate (count (mset zs) k) k"
    if "set zs = set xs" for zs
  proof -
    have "filter (\<lambda>x. f k = f x) zs = filter (\<lambda>x. k = x) zs"
      using that k assms(2) by (auto simp: inj_on_def intro!: filter_cong)
    also have "\<dots> = replicate (count (mset zs) k) k"
      by (induction zs) auto
    finally show ?thesis .
  qed
  have "set ys = set xs" using assms(1) by (metis set_mset_mset)
  then show "filter (\<lambda>x. f k = f x) (sort_key f ys) = filter (\<lambda>x. f k = f x) xs"
    using eq [of xs] eq [of "sort_key f ys"] assms(1) by simp
qed

lemma map_of_sort_key:
  "distinct (map fst d) \<Longrightarrow> map_of (sort_key f d) = map_of d"
  by (rule map_of_eqI) (auto simp: distinct_map inj_on_def intro: map_of_eqI)

lemma length_filter_split: "length (filter P xs) + length (filter (\<lambda>x. \<not> P x) xs) = length xs"
  by (induction xs) auto

end
