(* ===== verification/Bisect.thy ===== *)
theory Bisect
  imports Prelude
begin

text \<open>
  \<open>src/devrepro/reproduce/bisect.py\<close>: bisection over the dimensions in which two environments
  differ, and delta debugging over the same dimensions. The verdict comes from outside: the
  callback \<open>fails\<close> is an argument, and the closures' counters \<open>verdicts\<close> and \<open>trail\<close> are a
  state every question is threaded through. The texts of \<open>inconclusive_because\<close> are values.
\<close>

section \<open>Questions and their trail\<close>

record dimension =
  dim_name :: string
  working_value :: "string option"
  broken_value :: "string option"

datatype inconclusive =
  NoDifference | BaselineFails | NotReproduced | StoppedAfter nat

record ask_state =
  verdicts :: nat
  trail :: "(string list \<times> bool) list"

definition no_asks :: ask_state where
  "no_asks = \<lparr>verdicts = 0, trail = []\<rparr>"

definition ask :: "(dimension list \<Rightarrow> bool) \<Rightarrow> dimension list \<Rightarrow> ask_state \<Rightarrow> ask_state" where
  "ask fails candidate st =
     \<lparr>verdicts = verdicts st + 1, trail = trail st @ [(map dim_name candidate, fails candidate)]\<rparr>"

section \<open>Bisection\<close>

record bisect_result =
  culprit :: "dimension option"
  b_verdicts :: nat
  b_trail :: "(string list \<times> bool) list"
  b_inconclusive :: "inconclusive option"

text \<open>The loop: the state is (lower, remaining) and the questions asked.\<close>

function bisect_loop ::
  "(dimension list \<Rightarrow> bool) \<Rightarrow> dimension list \<Rightarrow> dimension list \<Rightarrow> ask_state \<Rightarrow>
    dimension list \<times> dimension list \<times> ask_state" where
  "bisect_loop fails lower remaining st =
     (if length remaining > 1 then
        (let half = length remaining div 2; candidate = lower @ take half remaining;
             st' = ask fails candidate st
         in if fails candidate then bisect_loop fails lower (take half remaining) st'
            else bisect_loop fails (lower @ take half remaining) (drop half remaining) st')
      else (lower, remaining, st))"
  by pat_completeness auto
termination
  by (relation "measure (\<lambda>(fails, lower, remaining, st). length remaining)") auto

declare bisect_loop.simps [simp del]

definition bisect_dimensions :: "dimension list \<Rightarrow> (dimension list \<Rightarrow> bool) \<Rightarrow> bisect_result" where
  "bisect_dimensions dimensions fails =
     (if dimensions = [] then
        \<lparr>culprit = None, b_verdicts = 0, b_trail = [], b_inconclusive = Some NoDifference\<rparr>
      else
        (let st1 = ask fails [] no_asks in
         if fails [] then
           \<lparr>culprit = None, b_verdicts = verdicts st1, b_trail = trail st1,
             b_inconclusive = Some BaselineFails\<rparr>
         else
           (let st2 = ask fails dimensions st1 in
            if \<not> fails dimensions then
              \<lparr>culprit = None, b_verdicts = verdicts st2, b_trail = trail st2,
                b_inconclusive = Some NotReproduced\<rparr>
            else
              (let (lower, remaining, st3) = bisect_loop fails [] dimensions st2 in
               \<lparr>culprit = Some (hd remaining), b_verdicts = verdicts st3, b_trail = trail st3,
                 b_inconclusive = None\<rparr>))))"

section \<open>Delta debugging\<close>

record minimisation_result =
  minimal :: "dimension list"
  m_verdicts :: nat
  m_trail :: "(string list \<times> bool) list"
  m_inconclusive :: "inconclusive option"

definition interacting :: "minimisation_result \<Rightarrow> bool" where
  "interacting r \<longleftrightarrow> length (minimal r) > 1"

text \<open>\<open>[current[i : i + size] for i in range(0, len(current), size)]\<close>\<close>

function chunks :: "nat \<Rightarrow> 'a list \<Rightarrow> 'a list list" where
  "chunks k xs =
     (if xs = [] \<or> k = 0 then [] else take k xs # chunks k (drop k xs))"
  by pat_completeness auto
termination
  by (relation "measure (\<lambda>(k, xs). length xs)") auto

declare chunks.simps [simp del]

text \<open>
  The two inner loops have one shape: ask about the non-empty candidates in turn until one
  fails.
\<close>

fun first_failing ::
  "(dimension list \<Rightarrow> bool) \<Rightarrow> dimension list list \<Rightarrow> ask_state \<Rightarrow> dimension list option \<times> ask_state" where
  "first_failing fails [] st = (None, st)"
| "first_failing fails (c # cs) st =
     (if c \<noteq> [] then
        (let st' = ask fails c st in
         if fails c then (Some c, st') else first_failing fails cs st')
      else first_failing fails cs st)"

text \<open>\<open>[d for d in current if d not in chunk]\<close>, for every chunk.\<close>

definition complements :: "dimension list \<Rightarrow> dimension list list \<Rightarrow> dimension list list" where
  "complements current cs = map (\<lambda>chunk. filter (\<lambda>d. d \<notin> set chunk) current) cs"

lemma chunks_mem: "c \<in> set (chunks k xs) \<Longrightarrow> c \<noteq> [] \<and> set c \<subseteq> set xs \<and> length c \<le> k"
proof (induction k xs rule: chunks.induct)
  case (1 k xs)
  show ?case
  proof (cases "xs = [] \<or> k = 0")
    case True
    with "1.prems" show ?thesis by (simp add: chunks.simps)
  next
    case False
    with "1.prems" have "c = take k xs \<or> c \<in> set (chunks k (drop k xs))"
      by (simp add: chunks.simps [of k xs])
    then show ?thesis
      using "1.IH" False by (auto dest: in_set_takeD in_set_dropD)
  qed
qed

lemma first_failing_Some:
  "first_failing fails cs st = (Some c, st') \<Longrightarrow> c \<in> set cs \<and> c \<noteq> [] \<and> fails c"
  by (induction cs arbitrary: st) (auto simp: Let_def split: if_splits)

lemma first_failing_chunk:
  assumes "first_failing fails (chunks (max 1 (length current div g)) current) st = (Some c, st')"
    and "1 < length current" and "2 \<le> g"
  shows "length c < length current"
proof -
  have "length current div g \<le> length current div 2" using assms(3) by (simp add: div_le_mono2)
  then have "max 1 (length current div g) < length current" using assms(2) by auto
  then show ?thesis using first_failing_Some [OF assms(1)] chunks_mem by fastforce
qed

lemma first_failing_complement:
  assumes "first_failing fails (complements current (chunks k current)) st = (Some c, st')"
  shows "length c < length current"
proof -
  from first_failing_Some [OF assms] obtain chunk where
    "chunk \<in> set (chunks k current)" and c: "c = filter (\<lambda>d. d \<notin> set chunk) current"
    by (auto simp: complements_def)
  then have "hd chunk \<in> set chunk" "hd chunk \<in> set current"
    using chunks_mem [of chunk k current] by (auto dest: hd_in_set)
  then show ?thesis unfolding c by (intro length_filter_less) auto
qed

text \<open>
  The main loop. Granularity starts at 2 and never goes below it; the conjunct in the guard
  says so, and makes the loop total.
\<close>

function minimise_loop ::
  "(dimension list \<Rightarrow> bool) \<Rightarrow> nat \<Rightarrow> nat \<Rightarrow> dimension list \<Rightarrow> ask_state \<Rightarrow> minimisation_result" where
  "minimise_loop fails max_verdicts granularity current st =
     (if length current > 1 \<and> granularity \<ge> 2 then
        if verdicts st \<ge> max_verdicts then
          \<lparr>minimal = current, m_verdicts = verdicts st, m_trail = trail st,
            m_inconclusive = Some (StoppedAfter max_verdicts)\<rparr>
        else
          (let cs = chunks (max 1 (length current div granularity)) current in
           case first_failing fails cs st of
             (Some chunk, st1) \<Rightarrow> minimise_loop fails max_verdicts 2 chunk st1
           | (None, st1) \<Rightarrow>
               (case first_failing fails (complements current cs) st1 of
                  (Some complement, st2) \<Rightarrow>
                    minimise_loop fails max_verdicts (max 2 (granularity - 1)) complement st2
                | (None, st2) \<Rightarrow>
                    if granularity \<ge> length current then
                      \<lparr>minimal = current, m_verdicts = verdicts st2, m_trail = trail st2,
                        m_inconclusive = None\<rparr>
                    else
                      minimise_loop fails max_verdicts (min (length current) (granularity * 2))
                        current st2))
      else
        \<lparr>minimal = current, m_verdicts = verdicts st, m_trail = trail st, m_inconclusive = None\<rparr>)"
  by pat_completeness auto
termination
proof (relation "measures
    [\<lambda>(fails, mv, g, current, st). length current, \<lambda>(fails, mv, g, current, st). length current - g]")
qed (use first_failing_chunk first_failing_complement in \<open>fastforce simp: eq_commute [of "(Some _, _)"] eq_commute [of "(None, _)"]\<close>)+

declare minimise_loop.simps [simp del]

definition minimise_dimensions ::
  "dimension list \<Rightarrow> (dimension list \<Rightarrow> bool) \<Rightarrow> nat \<Rightarrow> minimisation_result" where
  "minimise_dimensions dimensions fails max_verdicts =
     (if dimensions = [] then
        \<lparr>minimal = [], m_verdicts = 0, m_trail = [], m_inconclusive = Some NoDifference\<rparr>
      else
        (let st1 = ask fails dimensions no_asks in
         if \<not> fails dimensions then
           \<lparr>minimal = [], m_verdicts = verdicts st1, m_trail = trail st1,
             m_inconclusive = Some NotReproduced\<rparr>
         else minimise_loop fails max_verdicts 2 dimensions st1))"

section \<open>The audit trail\<close>

text \<open>One entry per verdict, each recording what the callback said of its candidate.\<close>

definition trail_ok :: "(dimension list \<Rightarrow> bool) \<Rightarrow> nat \<Rightarrow> (string list \<times> bool) list \<Rightarrow> bool" where
  "trail_ok fails n t \<longleftrightarrow>
     (\<exists>candidates. length candidates = n \<and> t = map (\<lambda>c. (map dim_name c, fails c)) candidates)"

lemma trail_ok_ask [simp]:
  assumes "trail_ok fails (verdicts st) (trail st)"
  shows "trail_ok fails (verdicts (ask fails c st)) (trail (ask fails c st))"
proof -
  from assms obtain cs where "length cs = verdicts st" "trail st = map (\<lambda>c. (map dim_name c, fails c)) cs"
    by (auto simp: trail_ok_def)
  then show ?thesis unfolding trail_ok_def by (intro exI [of _ "cs @ [c]"]) (simp add: ask_def)
qed

lemma trail_ok_none [simp]: "trail_ok fails (verdicts no_asks) (trail no_asks)"
  by (simp add: trail_ok_def no_asks_def)

lemma verdicts_ask [simp]: "verdicts (ask fails c st) = verdicts st + 1"
  by (simp add: ask_def)

section \<open>Bisection finds a boundary\<close>

lemma bisect_loop_facts:
  "bisect_loop fails lower remaining st = (l, r, st') \<Longrightarrow> remaining \<noteq> [] \<Longrightarrow>
     \<not> fails lower \<Longrightarrow> fails (lower @ remaining) \<Longrightarrow>
     (\<exists>c post. r = [c] \<and> lower @ remaining = l @ c # post \<and> \<not> fails l \<and> fails (l @ [c])) \<and>
     2 ^ (verdicts st' - verdicts st) < 2 * length remaining \<and> verdicts st \<le> verdicts st' \<and>
     (trail_ok fails (verdicts st) (trail st) \<longrightarrow> trail_ok fails (verdicts st') (trail st'))"
proof (induction fails lower remaining st rule: bisect_loop.induct)
  case (1 fails lower remaining st)
  show ?case
  proof (cases "length remaining > 1")
    case False
    with "1.prems"(2) obtain c where "remaining = [c]" by (cases remaining) auto
    with "1.prems" show ?thesis by (auto simp: bisect_loop.simps)
  next
    case True
    define half where "half = length remaining div 2"
    let ?cand = "lower @ take half remaining"
    let ?st = "ask fails ?cand st"
    have half: "0 < half" "half < length remaining" using True by (auto simp: half_def)
    have pow: "2 ^ (v - verdicts st) < 2 * length remaining"
      if "2 ^ (v - verdicts ?st) < 2 * m" "Suc (verdicts st) \<le> v" "m \<le> length remaining - half" for v m
    proof -
      from that(2) obtain k where k: "v = verdicts st + 1 + k" by (auto simp: le_iff_add)
      have "(2::nat) ^ k < 2 * m" using that(1) k by simp
      moreover have "m \<le> (length remaining + 1) div 2" using that(3) half_def by linarith
      ultimately show ?thesis using k True by (cases k) auto
    qed
    show ?thesis
    proof (cases "fails ?cand")
      case True
      have "bisect_loop fails lower (take half remaining) ?st = (l, r, st')"
        using "1.prems"(1) True \<open>length remaining > 1\<close>
        by (simp add: bisect_loop.simps [of fails lower remaining] half_def Let_def)
      from "1.IH"(1) [OF \<open>length remaining > 1\<close> half_def refl refl True this] half True "1.prems"(2,3)
      have IH: "(\<exists>c post. r = [c] \<and> lower @ take half remaining = l @ c # post \<and> \<not> fails l \<and> fails (l @ [c])) \<and>
         2 ^ (verdicts st' - verdicts ?st) < 2 * length (take half remaining) \<and> verdicts ?st \<le> verdicts st' \<and>
         (trail_ok fails (verdicts ?st) (trail ?st) \<longrightarrow> trail_ok fails (verdicts st') (trail st'))"
        by simp
      then obtain c post where "r = [c]" "lower @ take half remaining = l @ c # post"
        and lc: "\<not> fails l" "fails (l @ [c])" by blast
      then have "r = [c] \<and> lower @ remaining = l @ c # (post @ drop half remaining) \<and> \<not> fails l \<and> fails (l @ [c])"
        by (metis append.assoc append_Cons append_take_drop_id)
      moreover have "2 ^ (verdicts st' - verdicts st) < 2 * length remaining"
        using IH half by (intro pow [of _ half]) (auto simp: half_def)
      moreover have "trail_ok fails (verdicts st) (trail st) \<longrightarrow> trail_ok fails (verdicts st') (trail st')"
        using IH trail_ok_ask [of fails st ?cand] by blast
      moreover have "verdicts st \<le> verdicts st'" using IH by simp
      ultimately show ?thesis by blast
    next
      case False
      have "bisect_loop fails ?cand (drop half remaining) ?st = (l, r, st')"
        using "1.prems"(1) False \<open>length remaining > 1\<close>
        by (simp add: bisect_loop.simps [of fails lower remaining] half_def Let_def)
      from "1.IH"(2) [OF \<open>length remaining > 1\<close> half_def refl refl False this] half False "1.prems"(2,4)
      have IH: "(\<exists>c post. r = [c] \<and> lower @ remaining = l @ c # post \<and> \<not> fails l \<and> fails (l @ [c])) \<and>
         2 ^ (verdicts st' - verdicts ?st) < 2 * length (drop half remaining) \<and> verdicts ?st \<le> verdicts st' \<and>
         (trail_ok fails (verdicts ?st) (trail ?st) \<longrightarrow> trail_ok fails (verdicts st') (trail st'))"
        by simp
      moreover have "2 ^ (verdicts st' - verdicts st) < 2 * length remaining"
        using IH by (intro pow [of _ "length remaining - half"]) auto
      moreover have "trail_ok fails (verdicts st) (trail st) \<longrightarrow> trail_ok fails (verdicts st') (trail st')"
        using IH trail_ok_ask [of fails st ?cand] by blast
      moreover have "verdicts st \<le> verdicts st'" using IH by simp
      ultimately show ?thesis by blast
    qed
  qed
qed

text \<open>
  C12: Bisection names a real boundary of the diff, with no assumption of monotonicity: when it
  names a culprit, the differences in front of it do not fail, and adding the culprit makes them
  fail. The number of verdicts is at most two more than the logarithm of the number of
  differences, and every verdict is in the trail with what the callback answered.
\<close>

theorem bisect_finds_boundary:
  assumes "culprit (bisect_dimensions dims fails) = Some c"
  shows "\<exists>before after. dims = before @ c # after \<and> \<not> fails before \<and> fails (before @ [c]) \<and>
           2 ^ (b_verdicts (bisect_dimensions dims fails) - 2) < 2 * length dims \<and>
           trail_ok fails (b_verdicts (bisect_dimensions dims fails))
             (b_trail (bisect_dimensions dims fails))"
proof -
  from assms have d: "dims \<noteq> []" "\<not> fails []" "fails dims"
    by (auto simp: bisect_dimensions_def Let_def split: if_splits)
  let ?st = "ask fails dims (ask fails [] no_asks)"
  obtain l r st' where loop: "bisect_loop fails [] dims ?st = (l, r, st')"
    by (cases "bisect_loop fails [] dims ?st") auto
  have res: "bisect_dimensions dims fails =
      \<lparr>culprit = Some (hd r), b_verdicts = verdicts st', b_trail = trail st', b_inconclusive = None\<rparr>"
    using d loop by (simp add: bisect_dimensions_def)
  have two: "verdicts ?st = 2" by (simp add: no_asks_def)
  have "trail_ok fails (verdicts ?st) (trail ?st)" by (intro trail_ok_ask trail_ok_none)
  then have "trail_ok fails 2 (trail ?st)" using two by (simp only:)
  moreover have "fails ([] @ dims)" using d by simp
  note facts = bisect_loop_facts [OF loop d(1,2) this, unfolded two]
  ultimately have "trail_ok fails (verdicts st') (trail st')" by blast
  moreover from facts obtain c' post where "r = [c']" "[] @ dims = l @ c' # post" "\<not> fails l" "fails (l @ [c'])"
    by blast
  moreover from facts have "2 ^ (verdicts st' - 2) < 2 * length dims" by blast
  ultimately show ?thesis using assms unfolding res
    by (intro exI [of _ l] exI [of _ post]) simp
qed

definition demo_dims :: "dimension list" where
  "demo_dims = map (\<lambda>n. \<lparr>dim_name = n, working_value = None, broken_value = Some ''1''\<rparr>)
     [''PATH'', ''LANG'', ''TZ'', ''HOME'', ''SHELL'']"

lemma bisect_finds_boundary_witness:
  "\<exists>c before after. culprit (bisect_dimensions demo_dims (\<lambda>ds. length ds \<ge> 4)) = Some c \<and>
     demo_dims = before @ c # after \<and> length before = 3"
proof -
  have c: "culprit (bisect_dimensions demo_dims (\<lambda>ds. length ds \<ge> 4)) = Some (demo_dims ! 3)"
    by code_simp
  from bisect_finds_boundary [OF this] obtain before after where
    "demo_dims = before @ (demo_dims ! 3) # after" "\<not> 4 \<le> length before"
    "4 \<le> length (before @ [demo_dims ! 3])"
    by blast
  then show ?thesis using c by (intro exI [of _ "demo_dims ! 3"]) auto
qed

text \<open>
  Bisection refuses exactly when there is no boundary to look for: no differences, a
  baseline that already fails, or a diff that does not reproduce the failure; each refusal
  names its own reason, and otherwise a culprit is named with no reservation.
\<close>

theorem bisect_refuses_iff:
  "b_inconclusive (bisect_dimensions dims fails) =
     (if dims = [] then Some NoDifference
      else if fails [] then Some BaselineFails
      else if \<not> fails dims then Some NotReproduced
      else None) \<and>
   (culprit (bisect_dimensions dims fails) = None) =
     (b_inconclusive (bisect_dimensions dims fails) \<noteq> None)"
  by (auto simp: bisect_dimensions_def Let_def split: prod.splits)

lemma bisect_refuses_iff_witness:
  "b_inconclusive (bisect_dimensions demo_dims (\<lambda>ds. True)) = Some BaselineFails"
  using bisect_refuses_iff [of demo_dims "\<lambda>ds. True"] by (simp add: demo_dims_def)

section \<open>Delta debugging keeps a failing set\<close>

lemma first_failing_None:
  "first_failing fails cs st = (None, st') \<Longrightarrow> c \<in> set cs \<Longrightarrow> c \<noteq> [] \<Longrightarrow> \<not> fails c"
  by (induction cs arbitrary: st) (auto simp: Let_def split: if_splits)

lemma first_failing_verdicts:
  "first_failing fails cs st = (r, st') \<Longrightarrow> verdicts st' \<le> verdicts st + length cs"
proof (induction cs arbitrary: st)
  case (Cons c cs)
  show ?case
    using Cons.prems by (auto simp: Let_def split: if_splits intro: le_SucI dest: Cons.IH)
qed simp

lemma first_failing_trail:
  "first_failing fails cs st = (r, st') \<Longrightarrow> trail_ok fails (verdicts st) (trail st) \<Longrightarrow>
     trail_ok fails (verdicts st') (trail st')"
proof (induction cs arbitrary: st)
  case (Cons c cs)
  then show ?case
    using trail_ok_ask [of fails st c] by (auto simp: Let_def simp del: verdicts_ask trail_ok_ask split: if_splits)
qed simp

lemma chunks_length: "length (chunks k xs) \<le> length xs"
proof (induction k xs rule: chunks.induct)
  case (1 k xs)
  show ?case
  proof (cases "xs = [] \<or> k = 0")
    case False
    then have "length (chunks k (drop k xs)) \<le> length xs - k" using "1.IH" by simp
    moreover have "0 < length xs" "0 < k" using False by auto
    ultimately have "Suc (length (chunks k (drop k xs))) \<le> length xs" by linarith
    then show ?thesis using False by (simp add: chunks.simps [of k xs])
  qed (simp add: chunks.simps)
qed

lemma chunks_one: "chunks 1 xs = map (\<lambda>x. [x]) xs"
  by (induction xs) (simp_all add: chunks.simps)

lemma chunks_subseq: "c \<in> set (chunks k xs) \<Longrightarrow> subseq c xs"
proof (induction k xs rule: chunks.induct)
  case (1 k xs)
  show ?case
  proof (cases "xs = [] \<or> k = 0")
    case False
    with "1.prems" have "c = take k xs \<or> c \<in> set (chunks k (drop k xs))"
      by (simp add: chunks.simps [of k xs])
    then show ?thesis
    proof
      assume "c = take k xs"
      then show ?thesis by (simp add: take_is_prefix prefix_imp_subseq)
    next
      assume "c \<in> set (chunks k (drop k xs))"
      then have "subseq c (drop k xs)" using "1.IH" False by simp
      then show ?thesis using suffix_drop suffix_imp_subseq subseq_order.trans by blast
    qed
  qed (use "1.prems" in \<open>simp add: chunks.simps\<close>)
qed

text \<open>What the loop promises: a failing part of what it was given, found within the budget.\<close>

definition reduces ::
  "(dimension list \<Rightarrow> bool) \<Rightarrow> nat \<Rightarrow> dimension list \<Rightarrow> ask_state \<Rightarrow> minimisation_result \<Rightarrow> bool" where
  "reduces fails mv current st r \<longleftrightarrow>
     fails (minimal r) \<and> subseq (minimal r) current \<and> minimal r \<noteq> [] \<and>
     m_verdicts r \<le> max (verdicts st) (mv + 2 * length current) \<and>
     trail_ok fails (m_verdicts r) (m_trail r)"

text \<open>One-minimality: no single difference fails alone, none can be left out.\<close>

definition one_minimal :: "(dimension list \<Rightarrow> bool) \<Rightarrow> dimension list \<Rightarrow> bool" where
  "one_minimal fails ds \<longleftrightarrow>
     (length ds > 1 \<longrightarrow> (\<forall>d \<in> set ds. \<not> fails [d] \<and>
        (filter (\<lambda>x. x \<noteq> d) ds \<noteq> [] \<longrightarrow> \<not> fails (filter (\<lambda>x. x \<noteq> d) ds))))"

lemma reduces_smaller:
  assumes "reduces fails mv c st' r" "subseq c current" "verdicts st' \<le> mv + 2 * length current"
  shows "reduces fails mv current st r"
proof -
  have "length c \<le> length current" using assms(2) by (rule list_emb_length)
  then show ?thesis using assms by (auto simp: reduces_def intro: subseq_order.trans)
qed

lemma exhausted_is_minimal:
  assumes "length current \<le> g"
    and "first_failing fails (chunks (max 1 (length current div g)) current) st = (None, st1)"
    and "first_failing fails (complements current (chunks (max 1 (length current div g)) current)) st1 = (None, st2)"
  shows "one_minimal fails current"
proof -
  have "length current div g \<le> 1"
    using assms(1) by (cases "g = 0") (auto intro: order_trans [OF div_le_mono [OF assms(1), of g]])
  then have k: "max 1 (length current div g) = 1" by simp
  show ?thesis
    unfolding one_minimal_def
  proof (intro impI ballI conjI)
    fix d assume d: "d \<in> set current"
    from first_failing_None [OF assms(2)] d show "\<not> fails [d]" by (auto simp: k chunks_one simp del: One_nat_def)
    assume "filter (\<lambda>x. x \<noteq> d) current \<noteq> []"
    moreover have "filter (\<lambda>x. x \<noteq> d) current \<in> set (complements current (chunks 1 current))"
      using d by (auto simp: complements_def chunks_one image_image simp del: One_nat_def)
    ultimately show "\<not> fails (filter (\<lambda>x. x \<noteq> d) current)"
      using first_failing_None [OF assms(3)] unfolding k by blast
  qed
qed

lemma minimise_loop_facts:
  "r = minimise_loop fails mv g current st \<Longrightarrow> fails current \<Longrightarrow> current \<noteq> [] \<Longrightarrow> 2 \<le> g \<Longrightarrow>
     trail_ok fails (verdicts st) (trail st) \<Longrightarrow>
     reduces fails mv current st r \<and> (m_inconclusive r = None \<longrightarrow> one_minimal fails (minimal r))"
proof (induction fails mv g current st arbitrary: r rule: minimise_loop.induct)
  case (1 fails mv g current st)
  define cs where "cs = chunks (max 1 (length current div g)) current"
  note eq = "1.prems"(1) [unfolded minimise_loop.simps [of fails mv g current st]]
  consider "length current \<le> 1" | "length current > 1" "verdicts st \<ge> mv" | "length current > 1" "verdicts st < mv"
    by linarith
  then show ?case
  proof cases
    case 3
    obtain r1 st1 where f1: "first_failing fails cs st = (r1, st1)" by fastforce
    obtain r2 st2 where f2: "first_failing fails (complements current cs) st1 = (r2, st2)" by fastforce
    have len: "length cs \<le> length current" unfolding cs_def by (rule chunks_length)
    have v1: "verdicts st1 \<le> mv + 2 * length current"
      using first_failing_verdicts [OF f1] len 3 by linarith
    have v2: "verdicts st2 \<le> mv + 2 * length current"
      using first_failing_verdicts [OF f1] first_failing_verdicts [OF f2] len 3
      by (simp add: complements_def)
    have t1: "trail_ok fails (verdicts st1) (trail st1)"
      using first_failing_trail [OF f1] "1.prems"(5) by blast
    have t2: "trail_ok fails (verdicts st2) (trail st2)"
      using first_failing_trail [OF f2] t1 by blast
    have guard: "length current > 1 \<and> g \<ge> 2" "\<not> verdicts st \<ge> mv" using 3 "1.prems"(4) by auto
    show ?thesis
    proof (cases r1)
      case (Some chunk)
      note f = f1 [unfolded Some]
      have r: "r = minimise_loop fails mv 2 chunk st1"
        using eq guard f by (simp add: cs_def Let_def)
      have c: "chunk \<in> set cs" "chunk \<noteq> []" "fails chunk" using first_failing_Some [OF f] by auto
      have "reduces fails mv chunk st1 r \<and> (m_inconclusive r = None \<longrightarrow> one_minimal fails (minimal r))"
        using "1.IH"(3) [OF guard cs_def f [symmetric] refl r] c t1 by simp
      then show ?thesis
        using reduces_smaller v1 c(1) chunks_subseq unfolding cs_def by blast
    next
      case None
      note f = f1 [unfolded None]
      show ?thesis
      proof (cases r2)
        case (Some comp)
        note g = f2 [unfolded Some]
        have r: "r = minimise_loop fails mv (max 2 (g - 1)) comp st2"
          using eq guard f g by (simp add: cs_def Let_def)
        have c: "comp \<in> set (complements current cs)" "comp \<noteq> []" "fails comp"
          using first_failing_Some [OF g] by auto
        have "reduces fails mv comp st2 r \<and> (m_inconclusive r = None \<longrightarrow> one_minimal fails (minimal r))"
          using "1.IH"(2) [OF guard cs_def f [symmetric] refl g [symmetric] refl r] c t2 by simp
        moreover have "subseq comp current" using c(1) by (auto simp: complements_def)
        ultimately show ?thesis using reduces_smaller v2 by blast
      next
        case None
        note g = f2 [unfolded None]
        show ?thesis
        proof (cases "g \<ge> length current")
          case True
          then have r: "minimal r = current" "m_verdicts r = verdicts st2" "m_trail r = trail st2"
            using eq guard f g by (simp_all add: cs_def Let_def)
          have "one_minimal fails current"
            using exhausted_is_minimal [OF True] f g unfolding cs_def by blast
          then show ?thesis using r v2 t2 "1.prems" by (auto simp: reduces_def)
        next
          case False
          have r: "r = minimise_loop fails mv (min (length current) (g * 2)) current st2"
            using eq guard f g False by (simp add: cs_def Let_def)
          have "reduces fails mv current st2 r \<and> (m_inconclusive r = None \<longrightarrow> one_minimal fails (minimal r))"
            using "1.IH"(1) [OF guard cs_def f [symmetric] refl g [symmetric] refl False r] 3 "1.prems" t2 by simp
          then show ?thesis using reduces_smaller [OF _ subseq_order.refl v2] by blast
        qed
      qed
    qed
  qed (use eq "1.prems" in \<open>auto simp: reduces_def one_minimal_def split: if_splits\<close>)
qed

text \<open>
  C11: What delta debugging returns, when the diff reproduces the failure at all, is a non-empty
  selection of the differences, in their order, that still fails; it is one-minimal whenever the
  search was not cut short; and the verdicts spent, all of them in the trail, stay within the
  budget plus one round of questions.
\<close>

theorem minimise_returns_minimal_failing_set:
  assumes "dims \<noteq> []" and "fails dims" and "r = minimise_dimensions dims fails max_verdicts"
  shows "fails (minimal r) \<and> minimal r \<noteq> [] \<and> subseq (minimal r) dims \<and>
         m_verdicts r \<le> max_verdicts + 2 * length dims \<and>
         trail_ok fails (m_verdicts r) (m_trail r) \<and>
         (m_inconclusive r = None \<longrightarrow> one_minimal fails (minimal r))"
proof -
  let ?st = "ask fails dims no_asks"
  have t: "trail_ok fails (verdicts ?st) (trail ?st)" by (intro trail_ok_ask trail_ok_none)
  have v: "verdicts ?st = 1" by (simp add: no_asks_def)
  have "r = minimise_loop fails max_verdicts 2 dims ?st"
    using assms by (simp add: minimise_dimensions_def)
  from minimise_loop_facts [OF this assms(2,1) order.refl t]
  have "reduces fails max_verdicts dims ?st r" "m_inconclusive r = None \<longrightarrow> one_minimal fails (minimal r)"
    by blast+
  moreover have "0 < length dims" using assms(1) by simp
  ultimately show ?thesis unfolding reduces_def v by (auto simp: max_def split: if_splits)
qed

text \<open>Two differences that fail only together: no single one of them reproduces it.\<close>

definition both_first_and_last :: "dimension list \<Rightarrow> bool" where
  "both_first_and_last ds \<longleftrightarrow> demo_dims ! 0 \<in> set ds \<and> demo_dims ! 4 \<in> set ds"

lemma minimise_returns_minimal_failing_set_witness:
  "both_first_and_last (minimal (minimise_dimensions demo_dims both_first_and_last 200)) \<and>
   subseq (minimal (minimise_dimensions demo_dims both_first_and_last 200)) demo_dims \<and>
   interacting (minimise_dimensions demo_dims both_first_and_last 200)"
proof -
  have "demo_dims \<noteq> []" "both_first_and_last demo_dims" by code_simp+
  note minimise_returns_minimal_failing_set [where dims = demo_dims and fails = both_first_and_last
      and max_verdicts = 200, OF this refl]
  moreover have "interacting (minimise_dimensions demo_dims both_first_and_last 200)" by code_simp
  ultimately show ?thesis by blast
qed

text \<open>
  \<open>max_verdicts\<close> is consulted once per round, so it is not the bound its documentation calls
  it: with a budget of two the search asks for seven verdicts before it reports having stopped
  after two.
\<close>

theorem verdict_budget_is_exceeded:
  "m_inconclusive (minimise_dimensions demo_dims (\<lambda>ds. length ds = 5) 2) = Some (StoppedAfter 2) \<and>
   m_verdicts (minimise_dimensions demo_dims (\<lambda>ds. length ds = 5) 2) = 7"
  by code_simp

end
