(* ===== verification/Json.thy ===== *)
theory Json
  imports Prelude
begin

text \<open>
  The values of Python's \<open>json\<close> module and the two of its functions the program relies on:
  \<open>json.dumps(value, sort_keys=True, separators=(",", ":"))\<close>, with the escapes of
  \<open>ensure_ascii\<close>, and \<open>json.loads\<close>. Numbers are the integers: no JSON the modelled components
  write for themselves holds a float. Reading back what was written gives the value.
\<close>

datatype json =
    JNull
  | JBool bool
  | JInt int
  | JStr string
  | JList "json list"
  | JObj "(string \<times> json) list"

section \<open>Writing\<close>

definition hex_digit :: "nat \<Rightarrow> char" where
  "hex_digit n = (if n < 10 then char_of (48 + n) else char_of (87 + n))"

definition escape_char :: "char \<Rightarrow> string" where
  "escape_char c =
     (if c = CHR 0x22 then [CHR 0x5C, CHR 0x22]
      else if c = CHR 0x5C then [CHR 0x5C, CHR 0x5C]
      else if c = CHR 0x0A then [CHR 0x5C, CHR ''n'']
      else if c = CHR 0x0D then [CHR 0x5C, CHR ''r'']
      else if c = CHR 0x09 then [CHR 0x5C, CHR ''t'']
      else if c = CHR 0x0C then [CHR 0x5C, CHR ''f'']
      else if c = CHR 0x08 then [CHR 0x5C, CHR ''b'']
      else (let n = of_char c in
            if 32 \<le> n \<and> n \<le> 126 then [c]
            else CHR 0x5C # ''u00'' @ [hex_digit (n div 16), hex_digit (n mod 16)]))"

definition dump_string :: "string \<Rightarrow> string" where
  "dump_string s = CHR 0x22 # concat (map escape_char s) @ [CHR 0x22]"

fun dump_json :: "json \<Rightarrow> string" where
  "dump_json JNull = ''null''"
| "dump_json (JBool b) = (if b then ''true'' else ''false'')"
| "dump_json (JInt i) = str_int i"
| "dump_json (JStr s) = dump_string s"
| "dump_json (JList vs) = ''['' @ join '','' (map dump_json vs) @ '']''"
| "dump_json (JObj kvs) =
     ''{'' @ join '','' (map (\<lambda>(k, v). dump_string k @ '':'' @ dump_json v) kvs) @ ''}''"

text \<open>\<open>sort_keys=True\<close>, at every depth.\<close>

fun sort_keys :: "json \<Rightarrow> json" where
  "sort_keys (JList vs) = JList (map sort_keys vs)"
| "sort_keys (JObj kvs) = JObj (sort_key fst (map (\<lambda>(k, v). (k, sort_keys v)) kvs))"
| "sort_keys j = j"

definition dumps :: "json \<Rightarrow> string" where
  "dumps j = dump_json (sort_keys j)"

text \<open>The default separators, \<open>", "\<close> and \<open>": "\<close>.\<close>

fun dump_spaced :: "json \<Rightarrow> string" where
  "dump_spaced (JList vs) = ''['' @ join '', '' (map dump_spaced vs) @ '']''"
| "dump_spaced (JObj kvs) =
     ''{'' @ join '', '' (map (\<lambda>(k, v). dump_string k @ '': '' @ dump_spaced v) kvs) @ ''}''"
| "dump_spaced j = dump_json j"

section \<open>Reading\<close>

definition json_space :: "char \<Rightarrow> bool" where
  "json_space c \<longleftrightarrow> c \<in> {CHR '' '', CHR 0x09, CHR 0x0A, CHR 0x0D}"

definition skip_space :: "string \<Rightarrow> string" where
  "skip_space s = dropWhile json_space s"

definition hex_val :: "char \<Rightarrow> nat option" where
  "hex_val c = (let n = of_char c in
     if 48 \<le> n \<and> n \<le> 57 then Some (n - 48)
     else if 97 \<le> n \<and> n \<le> 102 then Some (n - 87)
     else if 65 \<le> n \<and> n \<le> 70 then Some (n - 55) else None)"

text \<open>The body of a string, after its opening quote, with the text behind the closing one.\<close>

fun load_string :: "string \<Rightarrow> (string \<times> string) option" where
  "load_string [] = None"
| "load_string (c # s) =
     (if c = CHR 0x22 then Some ([], s)
      else if c = CHR 0x5C then
        (case s of
           [] \<Rightarrow> None
         | e # t \<Rightarrow>
             (let simple = (\<lambda>d. map_option (\<lambda>(r, u). (d # r, u)) (load_string t)) in
              if e \<in> {CHR 0x22, CHR 0x5C, CHR ''/''} then simple e
              else if e = CHR ''b'' then simple (CHR 0x08)
              else if e = CHR ''f'' then simple (CHR 0x0C)
              else if e = CHR ''n'' then simple (CHR 0x0A)
              else if e = CHR ''r'' then simple (CHR 0x0D)
              else if e = CHR ''t'' then simple (CHR 0x09)
              else if e = CHR ''u'' then
                (case t of
                   z1 # z2 # h # l # u \<Rightarrow>
                     (case (hex_val z1, hex_val z2, hex_val h, hex_val l) of
                        (Some 0, Some 0, Some a, Some b) \<Rightarrow>
                          map_option (\<lambda>(r, w). (char_of (16 * a + b) # r, w)) (load_string u)
                      | _ \<Rightarrow> None)
                 | _ \<Rightarrow> None)
              else None))
      else if (of_char c :: nat) < 32 then None
      else map_option (\<lambda>(r, u). (c # r, u)) (load_string s))"

text \<open>A number: a digit run without a superfluous leading zero, and no fraction or exponent.\<close>

definition load_nat :: "string \<Rightarrow> (nat \<times> string) option" where
  "load_nat s =
     (let ds = takeWhile is_digit s; rest = dropWhile is_digit s in
      if ds = [] \<or> (length ds > 1 \<and> hd ds = CHR ''0'') then None
      else if rest \<noteq> [] \<and> hd rest \<in> {CHR ''.'', CHR ''e'', CHR ''E''} then None
      else Some (nat_of_digits ds, rest))"

text \<open>The recursive descent; the fuel bounds its depth, and every call spends one unit.\<close>

fun load_value :: "nat \<Rightarrow> string \<Rightarrow> (json \<times> string) option"
  and load_items :: "nat \<Rightarrow> string \<Rightarrow> (json list \<times> string) option"
  and load_members :: "nat \<Rightarrow> string \<Rightarrow> ((string \<times> json) list \<times> string) option" where
  "load_value 0 s = None"
| "load_value (Suc n) s =
     (case skip_space s of
        [] \<Rightarrow> None
      | c # t \<Rightarrow>
          (if c = CHR 0x22 then map_option (\<lambda>(x, u). (JStr x, u)) (load_string t)
           else if c = CHR ''['' then
             (case skip_space t of
                [] \<Rightarrow> None
              | d # u \<Rightarrow>
                  if d = CHR '']'' then Some (JList [], u)
                  else map_option (\<lambda>(vs, w). (JList vs, w)) (load_items n t))
           else if c = CHR ''{'' then
             (case skip_space t of
                [] \<Rightarrow> None
              | d # u \<Rightarrow>
                  if d = CHR ''}'' then Some (JObj [], u)
                  else map_option (\<lambda>(kvs, w). (JObj (dict_of kvs), w)) (load_members n t))
           else if prefix ''null'' (c # t) then Some (JNull, drop 3 t)
           else if prefix ''true'' (c # t) then Some (JBool True, drop 3 t)
           else if prefix ''false'' (c # t) then Some (JBool False, drop 4 t)
           else if c = CHR ''-'' then map_option (\<lambda>(i, u). (JInt (- int i), u)) (load_nat t)
           else map_option (\<lambda>(i, u). (JInt (int i), u)) (load_nat (c # t))))"
| "load_items 0 s = None"
| "load_items (Suc n) s =
     (case load_value n s of
        None \<Rightarrow> None
      | Some (v, t) \<Rightarrow>
          (case skip_space t of
             [] \<Rightarrow> None
           | c # u \<Rightarrow>
               if c = CHR '']'' then Some ([v], u)
               else if c = CHR '','' then map_option (\<lambda>(vs, w). (v # vs, w)) (load_items n u)
               else None))"
| "load_members 0 s = None"
| "load_members (Suc n) s =
     (case skip_space s of
        [] \<Rightarrow> None
      | q # s' \<Rightarrow>
          if q \<noteq> CHR 0x22 then None
          else
            (case load_string s' of
               None \<Rightarrow> None
             | Some (k, t) \<Rightarrow>
                 (case skip_space t of
                    [] \<Rightarrow> None
                  | c # u \<Rightarrow>
                      if c \<noteq> CHR '':'' then None
                      else
                        (case load_value n u of
                           None \<Rightarrow> None
                         | Some (v, w) \<Rightarrow>
                             (case skip_space w of
                                [] \<Rightarrow> None
                              | d # x \<Rightarrow>
                                  if d = CHR ''}'' then Some ([(k, v)], x)
                                  else if d = CHR '','' then
                                    map_option (\<lambda>(kvs, y). ((k, v) # kvs, y)) (load_members n x)
                                  else None)))))"

definition loads :: "string \<Rightarrow> json option" where
  "loads s =
     (case load_value (length s + 1) s of
        Some (v, rest) \<Rightarrow> if skip_space rest = [] then Some v else None
      | None \<Rightarrow> None)"

section \<open>Reading what was written\<close>

text \<open>Dictionaries have distinct keys.\<close>

fun wf_json :: "json \<Rightarrow> bool" where
  "wf_json (JList vs) = list_all wf_json vs"
| "wf_json (JObj kvs) = (distinct (map fst kvs) \<and> list_all (\<lambda>(k, v). wf_json v) kvs)"
| "wf_json j = True"

lemma hex_val_digit [simp]: "n < 16 \<Longrightarrow> hex_val (hex_digit n) = Some n"
  by (auto simp: hex_val_def hex_digit_def Let_def)

lemma load_string_escape:
  "load_string (escape_char c @ s) = map_option (\<lambda>(r, u). (c # r, u)) (load_string s)"
proof -
  define n where "n = (of_char c :: nat)"
  have n: "n < 256" "char_of n = c" by (simp_all add: n_def)
  have "16 * (n div 16) + n mod 16 = n" by simp
  moreover have "n div 16 < 16" using n(1) by simp
  moreover have "hex_val CHR ''0'' = Some 0" by (simp add: hex_val_def)
  ultimately show ?thesis
    using n by (auto simp: escape_char_def Let_def n_def [symmetric] simp del: char_of_eq_iff split: option.splits)
qed

lemma load_string_dump: "load_string (concat (map escape_char s) @ CHR 0x22 # rest) = Some (s, rest)"
  by (induction s) (simp_all add: load_string_escape)

text \<open>A text that may follow a value.\<close>

definition follows :: "string \<Rightarrow> bool" where
  "follows rest \<longleftrightarrow> rest = [] \<or> json_space (hd rest) \<or> hd rest \<in> {CHR '','', CHR '']'', CHR ''}''}"

lemma takeWhile_str_nat:
  assumes "follows rest"
  shows "takeWhile is_digit (str_nat n @ rest) = str_nat n" "dropWhile is_digit (str_nat n @ rest) = rest"
proof -
  have "takeWhile is_digit rest = [] \<and> dropWhile is_digit rest = rest"
    using assms by (cases rest) (auto simp: follows_def is_digit_def json_space_def)
  then show "takeWhile is_digit (str_nat n @ rest) = str_nat n" "dropWhile is_digit (str_nat n @ rest) = rest"
    using str_nat_digits by (simp_all add: takeWhile_append2 dropWhile_append2)
qed

lemma hd_str_nat: "hd (str_nat n) = CHR ''0'' \<Longrightarrow> n = 0"
proof (induction n rule: str_nat.induct)
  case (1 n)
  show ?case
  proof (cases "n < 10")
    case True
    with "1.prems" have "digit_val (digit_chr n) = digit_val (CHR ''0'')" by (simp add: str_nat.simps [of n])
    also have "digit_val (CHR ''0'') = 0" by (simp add: digit_val_def)
    finally show ?thesis using True by simp
  next
    case False
    then have "n div 10 = 0" using 1 by (simp add: str_nat.simps [of n])
    then show ?thesis using False by simp
  qed
qed

lemma load_nat_str:
  assumes "follows rest"
  shows "load_nat (str_nat n @ rest) = Some (n, rest)"
proof -
  have "length (str_nat 0) = 1" by (simp add: str_nat.simps)
  then have "length (str_nat n) > 1 \<and> hd (str_nat n) = CHR ''0'' \<longleftrightarrow> False"
    using hd_str_nat [of n] by auto
  moreover have "rest \<noteq> [] \<and> hd rest \<in> {CHR ''.'', CHR ''e'', CHR ''E''} \<longleftrightarrow> False"
    using assms by (auto simp: follows_def json_space_def)
  ultimately show ?thesis
    unfolding load_nat_def takeWhile_str_nat [OF assms] Let_def by simp
qed

lemma str_nat_head: "\<exists>c t. str_nat n = c # t \<and> is_digit c"
  using str_nat_digits [of _ n] str_nat_nonempty [of n] by (cases "str_nat n") auto

lemma digit_plain:
  assumes "is_digit c"
  shows "\<not> json_space c" "c \<notin> {CHR ''['', CHR '']'', CHR ''{'', CHR ''}'', CHR 0x22, CHR ''-'', CHR ''n'', CHR ''t'', CHR ''f''}"
  using assms by (auto simp: is_digit_def json_space_def)

lemma dump_json_head:
  "\<exists>c t. dump_json j = c # t \<and> \<not> json_space c \<and> c \<noteq> CHR '']'' \<and> c \<noteq> CHR ''}''"
proof (cases j)
  case (JInt i)
  then show ?thesis
    using str_nat_head [of "nat i"] digit_plain by (auto simp: str_int_def json_space_def)
qed (auto simp: json_space_def dump_string_def)

lemma skip_space_dump [simp]: "skip_space (dump_json j @ rest) = dump_json j @ rest"
  using dump_json_head [of j] by (auto simp: skip_space_def)

lemma skip_space_id [simp]: "\<not> json_space c \<Longrightarrow> skip_space (c # s) = c # s"
  by (simp add: skip_space_def)

lemma json_space_marks [simp]:
  "\<not> json_space (CHR '','')" "\<not> json_space (CHR '':'')" "\<not> json_space (CHR ''['')"
  "\<not> json_space (CHR '']'')" "\<not> json_space (CHR ''{'')" "\<not> json_space (CHR ''}'')"
  "\<not> json_space (CHR 0x22)" "\<not> json_space (CHR ''-'')"
  "\<not> json_space (CHR ''n'')" "\<not> json_space (CHR ''t'')" "\<not> json_space (CHR ''f'')"
  by (simp_all add: json_space_def)

lemma load_value_int:
  assumes "follows rest"
  shows "load_value (Suc n) (str_int i @ rest) = Some (JInt i, rest)"
proof (cases "i < 0")
  case True
  then show ?thesis using load_nat_str [OF assms] by (simp add: str_int_def)
next
  case False
  obtain c t where c: "str_nat (nat i) = c # t" "is_digit c" using str_nat_head by blast
  have "load_nat (c # t @ rest) = Some (nat i, rest)" using load_nat_str [OF assms, of "nat i"] c(1) by simp
  then show ?thesis using digit_plain [OF c(2)] False by (auto simp: str_int_def c(1))
qed

lemma load_items_dump:
  assumes "\<And>v n rest. v \<in> set vs \<Longrightarrow> length (dump_json v) < n \<Longrightarrow> follows rest \<Longrightarrow>
             load_value n (dump_json v @ rest) = Some (v, rest)"
    and "vs \<noteq> []" and "length (join '','' (map dump_json vs)) + 1 < n"
  shows "load_items n (join '','' (map dump_json vs) @ CHR '']'' # rest) = Some (vs, rest)"
  using assms
proof (induction vs arbitrary: n)
  case (Cons v vs)
  obtain m where n: "n = Suc m" using Cons.prems(3) by (cases n) auto
  have len: "length (dump_json v) < m" using Cons.prems(3) by (auto simp: join_Cons n)
  show ?case
  proof (cases "vs = []")
    case True
    then show ?thesis using Cons.prems(1) [of v m "CHR '']'' # rest"] len by (simp add: n follows_def)
  next
    case False
    obtain c t where "dump_json v = c # t" using dump_json_head by blast
    then have "length (join '','' (map dump_json vs)) + 1 < m"
      using Cons.prems(3) False by (simp add: join_Cons n)
    then have "load_items m (join '','' (map dump_json vs) @ CHR '']'' # rest) = Some (vs, rest)"
      using Cons.IH Cons.prems(1) False by simp
    then show ?thesis
      using Cons.prems(1) [of v m "CHR '','' # join '','' (map dump_json vs) @ CHR '']'' # rest"] len False
      by (simp add: n follows_def join_Cons)
  qed
qed simp

abbreviation dump_member :: "string \<times> json \<Rightarrow> string" where
  "dump_member \<equiv> (\<lambda>(k, v). dump_string k @ '':'' @ dump_json v)"

lemma load_members_dump:
  assumes "\<And>k v n rest. (k, v) \<in> set kvs \<Longrightarrow> length (dump_json v) < n \<Longrightarrow> follows rest \<Longrightarrow>
             load_value n (dump_json v @ rest) = Some (v, rest)"
    and "kvs \<noteq> []" and "length (join '','' (map dump_member kvs)) + 1 < n"
  shows "load_members n (join '','' (map dump_member kvs) @ CHR ''}'' # rest) = Some (kvs, rest)"
  using assms
proof (induction kvs arbitrary: n)
  case (Cons kv kvs)
  obtain k v where kv: "kv = (k, v)" by force
  obtain m where n: "n = Suc m" using Cons.prems(3) by (cases n) auto
  have len: "length (dump_json v) < m" using Cons.prems(3) by (auto simp: join_Cons n kv split: if_splits)
  show ?case
  proof (cases "kvs = []")
    case True
    then show ?thesis using Cons.prems(1) [of k v m "CHR ''}'' # rest"] len
      by (simp add: n kv follows_def dump_string_def load_string_dump)
  next
    case False
    have "length (join '','' (map dump_member kvs)) + 1 < m"
      using Cons.prems(3) False by (simp add: join_Cons n kv dump_string_def)
    then have "load_members m (join '','' (map dump_member kvs) @ CHR ''}'' # rest) = Some (kvs, rest)"
      by (intro Cons.IH [OF Cons.prems(1)] False) auto
    then show ?thesis
      using Cons.prems(1) [of k v m "CHR '','' # join '','' (map dump_member kvs) @ CHR ''}'' # rest"] len False
      by (simp add: n kv follows_def join_Cons dump_string_def load_string_dump)
  qed
qed simp

lemma dict_of_distinct: "distinct (map fst kvs) \<Longrightarrow> dict_of kvs = kvs"
proof -
  have "distinct (map fst (d @ kvs)) \<Longrightarrow> fold (\<lambda>(k, v). dict_set k v) kvs d = d @ kvs" for d
  proof (induction kvs arbitrary: d)
    case (Cons kv kvs)
    obtain k v where kv: "kv = (k, v)" by force
    have "dict_set k v d = d @ [(k, v)]" if "k \<notin> fst ` set d" for d
      using that by (induction d) auto
    then show ?case using Cons.IH [of "d @ [(k, v)]"] Cons.prems by (auto simp: kv)
  qed simp
  then show "distinct (map fst kvs) \<Longrightarrow> dict_of kvs = kvs" by (simp add: dict_of_def)
qed

lemma load_value_dump:
  "length (dump_json j) < n \<Longrightarrow> follows rest \<Longrightarrow> wf_json j \<Longrightarrow>
     load_value n (dump_json j @ rest) = Some (j, rest)"
proof (induction j arbitrary: n rest)
  case (JList vs)
  obtain m where n: "n = Suc m" using JList.prems(1) by (cases n) auto
  show ?case
  proof (cases "vs = []")
    case False
    then obtain c t where ct: "join '','' (map dump_json vs) = c # t" "\<not> json_space c" "c \<noteq> CHR '']''"
      using dump_json_head [of "hd vs"] by (cases vs) (auto simp: join_Cons)
    have "load_items m (join '','' (map dump_json vs) @ CHR '']'' # rest) = Some (vs, rest)"
      using JList False by (intro load_items_dump) (auto simp: n list_all_iff)
    then show ?thesis by (simp add: n ct)
  qed (simp add: n)
next
  case (JObj kvs)
  obtain m where n: "n = Suc m" using JObj.prems(1) by (cases n) auto
  show ?case
  proof (cases "kvs = []")
    case False
    then obtain t where t: "join '','' (map dump_member kvs) = CHR 0x22 # t"
      by (cases kvs) (auto simp: join_Cons dump_string_def)
    have "load_members m (join '','' (map dump_member kvs) @ CHR ''}'' # rest) = Some (kvs, rest)"
    proof (rule load_members_dump)
      fix k v n' rest'
      assume kv: "(k, v) \<in> set kvs" and *: "length (dump_json v) < n'" "follows rest'"
      have "wf_json v" using kv JObj.prems(3) by (auto simp: list_all_iff)
      with JObj.IH [OF kv _ *] show "load_value n' (dump_json v @ rest') = Some (v, rest')" by simp
    qed (use JObj.prems False in \<open>auto simp: n\<close>)
    then show ?thesis using JObj.prems(3) by (simp add: n t [simplified] dict_of_distinct)
  qed (simp add: n)
next
  case (JInt i)
  then show ?case using load_value_int by (cases n) auto
next
  case (JStr s)
  then show ?case by (cases n) (auto simp: dump_string_def load_string_dump)
next
  case (JBool b)
  then show ?case by (cases n) auto
next
  case JNull
  then show ?case by (cases n) auto
qed

lemma wf_sort_keys: "wf_json j \<Longrightarrow> wf_json (sort_keys j)"
proof (induction j)
  case (JObj kvs)
  let ?kvs = "map (\<lambda>(k, v). (k, sort_keys v)) kvs"
  have "map fst ?kvs = map fst kvs" by (induction kvs) auto
  moreover have "mset (map fst (sort_key fst xs)) = mset (map fst xs)" for xs :: "(string \<times> json) list"
    by simp
  ultimately have "distinct (map fst (sort_key fst ?kvs))"
    using JObj.prems by (metis mset_eq_imp_distinct_iff wf_json.simps(2))
  moreover have "list_all (\<lambda>(k, v). wf_json v) (sort_key fst ?kvs)"
    using JObj by (fastforce simp: list_all_iff)
  ultimately show ?case by simp
qed (auto simp: list_all_iff)

lemma loads_dump_json: "wf_json j \<Longrightarrow> loads (dump_json j) = Some j"
  using load_value_dump [of j "length (dump_json j) + 1" "[]"]
  by (simp add: loads_def follows_def skip_space_def)

lemma loads_dumps: "wf_json j \<Longrightarrow> loads (dumps j) = Some (sort_keys j)"
  using loads_dump_json wf_sort_keys by (simp add: dumps_def)

section \<open>Python's conversions of a value read from JSON\<close>

text \<open>\<open>repr\<close> of a string over Latin-1.\<close>

definition repr_char :: "char \<Rightarrow> char \<Rightarrow> string" where
  "repr_char quote c =
     (if c = quote \<or> c = CHR 0x5C then [CHR 0x5C, c]
      else if c = CHR 0x0A then [CHR 0x5C, CHR ''n'']
      else if c = CHR 0x0D then [CHR 0x5C, CHR ''r'']
      else if c = CHR 0x09 then [CHR 0x5C, CHR ''t'']
      else (let n = of_char c in
            if (32 \<le> n \<and> n \<le> 126) \<or> (161 \<le> n \<and> n \<noteq> 173) then [c]
            else CHR 0x5C # CHR ''x'' # [hex_digit (n div 16), hex_digit (n mod 16)]))"

definition repr_string :: "string \<Rightarrow> string" where
  "repr_string s =
     (let quote = (if CHR 0x27 \<in> set s \<and> CHR 0x22 \<notin> set s then CHR 0x22 else CHR 0x27)
      in quote # concat (map (repr_char quote) s) @ [quote])"

fun py_repr :: "json \<Rightarrow> string" where
  "py_repr JNull = ''None''"
| "py_repr (JBool b) = (if b then ''True'' else ''False'')"
| "py_repr (JInt i) = str_int i"
| "py_repr (JStr s) = repr_string s"
| "py_repr (JList vs) = ''['' @ join '', '' (map py_repr vs) @ '']''"
| "py_repr (JObj kvs) =
     ''{'' @ join '', '' (map (\<lambda>(k, v). repr_string k @ '': '' @ py_repr v) kvs) @ ''}''"

text \<open>\<open>str(value)\<close>.\<close>

definition py_str :: "json \<Rightarrow> string" where
  "py_str j = (case j of JStr s \<Rightarrow> s | _ \<Rightarrow> py_repr j)"

lemma py_str_JStr [simp]: "py_str (JStr s) = s"
  by (simp add: py_str_def)

text \<open>\<open>int(text)\<close>: white space around, a sign, digits with single underscores between them.\<close>

definition int_of_text :: "string \<Rightarrow> int py" where
  "int_of_text s =
     (let t = strip s;
          neg = (t \<noteq> [] \<and> hd t = CHR ''-'');
          u = (if t \<noteq> [] \<and> hd t \<in> {CHR ''-'', CHR ''+''} then tl t else t);
          groups = split_on ''_'' u
      in if list_all (\<lambda>g. g \<noteq> [] \<and> list_all is_digit g) groups
         then (let n = int (nat_of_digits (concat groups)) in Inr (if neg then - n else n))
         else Inl ValueError)"

text \<open>\<open>int(value)\<close>.\<close>

fun py_int :: "json \<Rightarrow> int py" where
  "py_int (JInt i) = Inr i"
| "py_int (JBool b) = Inr (if b then 1 else 0)"
| "py_int (JStr s) = int_of_text s"
| "py_int _ = Inl TypeError"

text \<open>\<open>value[key]\<close> on whatever was read: only a dictionary has string keys.\<close>

definition py_item :: "json \<Rightarrow> string \<Rightarrow> json py" where
  "py_item j key =
     (case j of
        JObj kvs \<Rightarrow> (case map_of kvs key of Some v \<Rightarrow> Inr v | None \<Rightarrow> Inl KeyError)
      | _ \<Rightarrow> Inl TypeError)"

text \<open>\<open>bool(value)\<close>.\<close>

fun py_truth :: "json \<Rightarrow> bool" where
  "py_truth JNull = False"
| "py_truth (JBool b) = b"
| "py_truth (JInt i) = (i \<noteq> 0)"
| "py_truth (JStr s) = (s \<noteq> [])"
| "py_truth (JList vs) = (vs \<noteq> [])"
| "py_truth (JObj kvs) = (kvs \<noteq> [])"

text \<open>\<open>type(v).__name__\<close>.\<close>

fun type_name :: "json \<Rightarrow> string" where
  "type_name JNull = ''NoneType''"
| "type_name (JBool b) = ''bool''"
| "type_name (JInt i) = ''int''"
| "type_name (JStr s) = ''str''"
| "type_name (JList vs) = ''list''"
| "type_name (JObj d) = ''dict''"

text \<open>\<open>d.get(key)\<close> and \<open>d.get(key, default)\<close> of a dictionary, and iterating over a value.\<close>

definition dict_get :: "(string \<times> json) list \<Rightarrow> string \<Rightarrow> json" where
  "dict_get d k = (case map_of d k of None \<Rightarrow> JNull | Some v \<Rightarrow> v)"

definition dict_get_or :: "(string \<times> json) list \<Rightarrow> string \<Rightarrow> json \<Rightarrow> json" where
  "dict_get_or d k dflt = (case map_of d k of None \<Rightarrow> dflt | Some v \<Rightarrow> v)"

fun py_elements :: "json \<Rightarrow> json list py" where
  "py_elements (JList vs) = Inr vs"
| "py_elements (JObj kvs) = Inr (map (\<lambda>(k, v). JStr k) kvs)"
| "py_elements (JStr s) = Inr (map (\<lambda>c. JStr [c]) s)"
| "py_elements _ = Inl TypeError"

text \<open>\<open>value or default\<close>.\<close>

definition or_json :: "json \<Rightarrow> json \<Rightarrow> json" where
  "or_json v dflt = (if py_truth v then v else dflt)"

text \<open>\<open>str.lower\<close>, over Latin-1.\<close>

definition py_lower :: "string \<Rightarrow> string" where
  "py_lower s = map (\<lambda>c. let n = (of_char c :: nat) in
     if is_upper c \<or> (192 \<le> n \<and> n \<le> 222 \<and> n \<noteq> 215) then char_of (n + 32) else c) s"

text \<open>\<open>str.upper\<close>, over Latin-1: two letters have their capitals outside it, and the sharp s has two.\<close>

definition py_upper :: "string \<Rightarrow> string" where
  "py_upper s = concat (map (\<lambda>c. let n = (of_char c :: nat) in
     if is_lower c \<or> (224 \<le> n \<and> n \<le> 254 \<and> n \<noteq> 247) then [char_of (n - 32)]
     else if n = 223 then ''SS'' else [c]) s)"

text \<open>\<open>str.isdigit\<close> over Latin-1: the superscripts one, two and three are digits.\<close>

definition py_isdigit :: "string \<Rightarrow> bool" where
  "py_isdigit s \<longleftrightarrow> s \<noteq> [] \<and> list_all (\<lambda>c. is_digit c \<or> (of_char c :: nat) \<in> {178, 179, 185}) s"

text \<open>\<open>str.replace\<close> of one character by a text.\<close>

definition replace_char :: "char \<Rightarrow> string \<Rightarrow> string \<Rightarrow> string" where
  "replace_char c t s = concat (map (\<lambda>d. if d = c then t else [d]) s)"

section \<open>Lines of a text\<close>

text \<open>\<open>str.splitlines\<close>, over Latin-1.\<close>

definition line_break :: "char \<Rightarrow> bool" where
  "line_break c \<longleftrightarrow> (let n = (of_char c :: nat) in
     (10 \<le> n \<and> n \<le> 13) \<or> (28 \<le> n \<and> n \<le> 30) \<or> n = 133)"

fun splitlines_from :: "string \<Rightarrow> string \<Rightarrow> string list" where
  "splitlines_from acc [] = (if acc = [] then [] else [rev acc])"
| "splitlines_from acc (c # s) =
     (if c = CHR 0x0D \<and> s \<noteq> [] \<and> hd s = CHR 0x0A then rev acc # splitlines_from [] (tl s)
      else if line_break c then rev acc # splitlines_from [] s
      else splitlines_from (c # acc) s)"

definition splitlines :: "string \<Rightarrow> string list" where
  "splitlines s = splitlines_from [] s"

text \<open>Lines without a break in them, each ended by a newline, come back as they are.\<close>

lemma splitlines_line:
  assumes "\<forall>c \<in> set l. \<not> line_break c"
  shows "splitlines (l @ CHR 0x0A # s) = l # splitlines s"
proof -
  have nl: "line_break (CHR 0x0A)" "line_break (CHR 0x0D)" by (simp_all add: line_break_def)
  have "splitlines_from acc (l @ CHR 0x0A # s) = (rev acc @ l) # splitlines_from [] s" for acc
    using assms
  proof (induction l arbitrary: acc)
    case (Cons c l)
    then have "c \<noteq> CHR 0x0D" using nl by auto
    with Cons show ?case by auto
  qed (simp add: nl)
  then show ?thesis by (simp add: splitlines_def)
qed

lemma splitlines_lines:
  "\<forall>l \<in> set ls. \<forall>c \<in> set l. \<not> line_break c \<Longrightarrow>
     splitlines (concat (map (\<lambda>l. l @ [CHR 0x0A]) ls)) = ls"
proof (induction ls)
  case (Cons l ls)
  then show ?case using splitlines_line [of l] by simp
qed (simp add: splitlines_def)

text \<open>What \<^const>\<open>dump_json\<close> writes is printable ASCII, so it has no line break.\<close>

definition printable :: "char \<Rightarrow> bool" where
  "printable c \<longleftrightarrow> (let n = (of_char c :: nat) in 32 \<le> n \<and> n \<le> 126)"

lemma printable_no_break: "printable c \<Longrightarrow> \<not> line_break c"
  by (auto simp: printable_def line_break_def Let_def)

lemma printable_hex: "n < 16 \<Longrightarrow> printable (hex_digit n)"
  by (auto simp: printable_def hex_digit_def Let_def)

lemma printable_escape: "x \<in> set (escape_char c) \<Longrightarrow> printable x"
proof -
  assume x: "x \<in> set (escape_char c)"
  have "(of_char c :: nat) div 16 < 16" using nat_of_char_less_256 [of c] by (simp add: less_mult_imp_div_less)
  then show ?thesis
    using x printable_hex [of "of_char c div 16"] printable_hex [of "of_char c mod 16"]
    by (auto simp: escape_char_def printable_def Let_def split: if_splits)
qed

lemma printable_string: "x \<in> set (dump_string s) \<Longrightarrow> printable x"
  using printable_escape by (auto simp: dump_string_def printable_def)

lemma set_join: "set (join sep xs) \<subseteq> set sep \<union> \<Union> (set ` set xs)"
  by (induction sep xs rule: join.induct) auto

lemma printable_dump: "x \<in> set (dump_json j) \<Longrightarrow> printable x"
proof (induction j)
  case (JInt i)
  have "is_digit c \<Longrightarrow> printable c" for c by (auto simp: is_digit_def printable_def Let_def)
  then show ?case using JInt str_nat_digits by (auto simp: str_int_def printable_def split: if_splits)
next
  case (JStr s)
  then show ?case using printable_string by simp
next
  case (JList vs)
  then show ?case using set_join [of "'',''" "map dump_json vs"] by (auto simp: printable_def)
next
  case (JObj kvs)
  have "x \<in> set ''{}:,'' \<or> (\<exists>(k, v) \<in> set kvs. x \<in> set (dump_string k) \<or> x \<in> set (dump_json v))"
    using JObj.prems set_join [of "'',''" "map dump_member kvs"] by fastforce
  then show ?case
  proof
    assume "\<exists>(k, v) \<in> set kvs. x \<in> set (dump_string k) \<or> x \<in> set (dump_json v)"
    then obtain k v where kv: "(k, v) \<in> set kvs" "x \<in> set (dump_string k) \<or> x \<in> set (dump_json v)" by auto
    from kv(2) show ?case using JObj.IH [OF kv(1)] printable_string by auto
  qed (auto simp: printable_def)
qed (auto simp: printable_def split: if_splits)

end
