(* ===== verification/Chain.thy ===== *)
theory Chain
  imports Json
begin

text \<open>
  \<open>src/devrepro/snapshots/chain.py\<close> and the saving of snapshots in
  \<open>src/devrepro/snapshots/history.py\<close>: the hash chain over the snapshot history. The digest
  function is an argument \<open>sha\<close> (of the bytes, giving the hexadecimal digest), and nothing is
  assumed of it: what tamper evidence rests on is stated as a collision the theorem produces. A
  history directory is the text of its chain file, when there is one, and its other files by
  name; reading a file that exists succeeds.
\<close>

section \<open>The chain file\<close>

definition CHAIN_FILENAME :: string where
  "CHAIN_FILENAME = ''chain.jsonl''"

definition GENESIS :: string where
  "GENESIS = ''genesis''"

definition chain_schema :: string where
  "chain_schema = ''devrepro-chain-v1''"

datatype chain_error = MalformedLine nat | CannotReadSnapshot

record chain_entry =
  seq :: int
  recorded_at :: string
  filename :: string
  digest :: string
  prev :: string
  digest_of_entry :: string

record history_dir =
  chain_text :: "string option"
  dir_files :: "(string \<times> string) list"

definition entry_dict :: "chain_entry \<Rightarrow> json" where
  "entry_dict e = JObj
     [(''schema'', JStr chain_schema), (''seq'', JInt (seq e)),
      (''recorded_at'', JStr (recorded_at e)), (''filename'', JStr (filename e)),
      (''digest'', JStr (digest e)), (''prev'', JStr (prev e)),
      (''entry_digest'', JStr (digest_of_entry e))]"

definition entry_payload :: "int \<Rightarrow> string \<Rightarrow> string \<Rightarrow> string \<Rightarrow> string \<Rightarrow> string" where
  "entry_payload s at name dg pv = dumps (JObj
     [(''digest'', JStr dg), (''filename'', JStr name), (''prev'', JStr pv),
      (''recorded_at'', JStr at), (''schema'', JStr chain_schema), (''seq'', JInt s)])"

definition entry_digest ::
  "(string \<Rightarrow> string) \<Rightarrow> int \<Rightarrow> string \<Rightarrow> string \<Rightarrow> string \<Rightarrow> string \<Rightarrow> string" where
  "entry_digest sha s at name dg pv = sha (entry_payload s at name dg pv)"

text \<open>One record of the file, by the constructor call inside the \<open>try\<close>.\<close>

definition entry_of_record :: "json \<Rightarrow> chain_entry py" where
  "entry_of_record r =
     bind_res (bind_res (py_item r ''seq'') py_int) (\<lambda>s.
     bind_res (py_item r ''recorded_at'') (\<lambda>at.
     bind_res (py_item r ''filename'') (\<lambda>name.
     bind_res (py_item r ''digest'') (\<lambda>dg.
     bind_res (py_item r ''prev'') (\<lambda>pv.
     bind_res (py_item r ''entry_digest'') (\<lambda>ed.
     Inr \<lparr>seq = s, recorded_at = py_str at, filename = py_str name, digest = py_str dg,
           prev = py_str pv, digest_of_entry = py_str ed\<rparr>))))))"

fun read_lines :: "nat \<Rightarrow> string list \<Rightarrow> chain_error + chain_entry list" where
  "read_lines number [] = Inr []"
| "read_lines number (l # ls) =
     (if strip l = [] then read_lines (number + 1) ls
      else
        (case loads l of
           None \<Rightarrow> Inl (MalformedLine number)
         | Some r \<Rightarrow>
             (case entry_of_record r of
                Inl exc \<Rightarrow> Inl (MalformedLine number)
              | Inr e \<Rightarrow> bind_res (read_lines (number + 1) ls) (\<lambda>es. Inr (e # es)))))"

definition read_chain :: "history_dir \<Rightarrow> chain_error + chain_entry list" where
  "read_chain d =
     (case chain_text d of
        None \<Rightarrow> Inr []
      | Some text \<Rightarrow> read_lines 1 (splitlines text))"

definition head_digest :: "chain_entry list \<Rightarrow> string" where
  "head_digest es = fold (\<lambda>e last. digest_of_entry e) es GENESIS"

section \<open>Appending\<close>

definition make_entry :: "(string \<Rightarrow> string) \<Rightarrow> chain_entry list \<Rightarrow> string \<Rightarrow> string \<Rightarrow> string \<Rightarrow> chain_entry" where
  "make_entry sha existing name data at =
     (let pv = head_digest existing; s = int (length existing) + 1; dg = sha data
      in \<lparr>seq = s, recorded_at = at, filename = name, digest = dg, prev = pv,
           digest_of_entry = entry_digest sha s at name dg pv\<rparr>)"

definition append_line :: "history_dir \<Rightarrow> string \<Rightarrow> history_dir" where
  "append_line d line =
     d\<lparr>chain_text := Some ((case chain_text d of None \<Rightarrow> [] | Some t \<Rightarrow> t) @ line @ [CHR 0x0A])\<rparr>"

text \<open>The snapshot to record is read first, then the chain.\<close>

definition append_entry ::
  "(string \<Rightarrow> string) \<Rightarrow> history_dir \<Rightarrow> string \<Rightarrow> string option \<Rightarrow> string \<Rightarrow>
    chain_error + (chain_entry \<times> history_dir)" where
  "append_entry sha d name snapshot at =
     (case snapshot of
        None \<Rightarrow> Inl CannotReadSnapshot
      | Some data \<Rightarrow>
          bind_res (read_chain d) (\<lambda>existing.
            let e = make_entry sha existing name data at
            in Inr (e, append_line d (dumps (entry_dict e)))))"

text \<open>
  \<open>HistoryStore.save\<close>: the snapshot is written, then recorded; a chain that cannot be extended
  does not cost the snapshot.
\<close>

definition history_save ::
  "(string \<Rightarrow> string) \<Rightarrow> history_dir \<Rightarrow> string \<Rightarrow> string \<Rightarrow> string \<Rightarrow> string \<Rightarrow> history_dir" where
  "history_save sha d stamp snapshot_id ext data =
     (let name = stamp @ ''-'' @ snapshot_id @ ext;
          d' = d\<lparr>dir_files := dict_set name data (dir_files d)\<rparr>
      in case append_entry sha d' name (Some data) stamp of
           Inl err \<Rightarrow> d'
         | Inr (e, d'') \<Rightarrow> d'')"

section \<open>Verification\<close>

datatype problem_kind =
  SequenceGap | BrokenLink | EntryAltered | MissingSnapshot | SnapshotAltered | UnchainedSnapshot

record chain_problem =
  problem_kind :: problem_kind
  problem_seq :: "int option"
  problem_detail :: string

record chain_verification =
  verified_ok :: bool
  checked :: nat
  head :: string
  problems :: "chain_problem list"

definition problem :: "problem_kind \<Rightarrow> int option \<Rightarrow> string \<Rightarrow> chain_problem" where
  "problem k s detail = \<lparr>problem_kind = k, problem_seq = s, problem_detail = detail\<rparr>"

definition file_bytes :: "history_dir \<Rightarrow> string \<Rightarrow> string option" where
  "file_bytes d name =
     (if name = CHAIN_FILENAME then chain_text d else map_of (dir_files d) name)"

definition entry_problems ::
  "(string \<Rightarrow> string) \<Rightarrow> history_dir \<Rightarrow> nat \<Rightarrow> string \<Rightarrow> chain_entry \<Rightarrow> chain_problem list" where
  "entry_problems sha d index expected_prev e =
     (if seq e \<noteq> int index then
        [problem SequenceGap (Some (seq e))
          (''entry '' @ str_nat index @ '' in the file claims sequence '' @ str_int (seq e) @
           ''; a record was removed or reordered'')] else []) @
     (if prev e \<noteq> expected_prev then
        [problem BrokenLink (Some (seq e))
          (''this entry does not follow the one before it; the history was edited '' @
           ''at or before this point'')] else []) @
     (if entry_digest sha (seq e) (recorded_at e) (filename e) (digest e) (prev e)
           \<noteq> digest_of_entry e then
        [problem EntryAltered (Some (seq e))
          ''the recorded entry digest does not match the entry's own contents''] else []) @
     (case file_bytes d (filename e) of
        None \<Rightarrow> [problem MissingSnapshot (Some (seq e)) (filename e @ '' is gone'')]
      | Some data \<Rightarrow>
          if sha data \<noteq> digest e then
            [problem SnapshotAltered (Some (seq e))
              (filename e @ '' does not match the digest recorded for it'')] else [])"

fun link_problems ::
  "(string \<Rightarrow> string) \<Rightarrow> history_dir \<Rightarrow> nat \<Rightarrow> string \<Rightarrow> chain_entry list \<Rightarrow> chain_problem list" where
  "link_problems sha d index expected_prev [] = []"
| "link_problems sha d index expected_prev (e # es) =
     entry_problems sha d index expected_prev e @
     link_problems sha d (index + 1) (digest_of_entry e) es"

definition directory_names :: "history_dir \<Rightarrow> string list" where
  "directory_names d =
     map fst (dir_files d) @ (if chain_text d = None then [] else [CHAIN_FILENAME])"

definition unchained_problems :: "history_dir \<Rightarrow> string \<Rightarrow> chain_entry list \<Rightarrow> chain_problem list" where
  "unchained_problems d ext es =
     map (\<lambda>name. problem UnchainedSnapshot None
            (name @ '' is in the history directory but not in the chain''))
       (filter (\<lambda>name. \<not> (name = CHAIN_FILENAME \<or> name \<in> filename ` set es))
          (sort (filter (\<lambda>name. ends_with name ext) (directory_names d))))"

definition verify_chain ::
  "(string \<Rightarrow> string) \<Rightarrow> string \<Rightarrow> history_dir \<Rightarrow> chain_error + chain_verification" where
  "verify_chain sha ext d =
     bind_res (read_chain d) (\<lambda>es.
       let found = link_problems sha d 1 GENESIS es @ unchained_problems d ext es
       in Inr \<lparr>verified_ok = (found = []), checked = length es, head = head_digest es,
               problems = found\<rparr>)"

section \<open>Records read back\<close>

lemma sort_keys_entry:
  "sort_keys (entry_dict e) = JObj
     [(''digest'', JStr (digest e)), (''entry_digest'', JStr (digest_of_entry e)),
      (''filename'', JStr (filename e)), (''prev'', JStr (prev e)),
      (''recorded_at'', JStr (recorded_at e)), (''schema'', JStr chain_schema),
      (''seq'', JInt (seq e))]"
  by (simp add: entry_dict_def)


lemma loads_entry: "loads (dumps (entry_dict e)) = Some (sort_keys (entry_dict e))"
  by (rule loads_dumps) (simp add: entry_dict_def)

lemma entry_of_entry_dict: "entry_of_record (sort_keys (entry_dict e)) = Inr e"
  by (simp add: sort_keys_entry entry_of_record_def py_item_def)


section \<open>What verification establishes\<close>

definition written :: "chain_entry list \<Rightarrow> string" where
  "written es = concat (map (\<lambda>l. l @ [CHR 0x0A]) (map (\<lambda>e. dumps (entry_dict e)) es))"

lemma strip_entry: "strip (dumps (entry_dict e)) \<noteq> []"
proof -
  have "strip (CHR ''{'' # x @ ''}'') = CHR ''{'' # x @ ''}''" for x
    by (rule strip_id) (simp add: is_space_def)
  moreover obtain x where "dumps (entry_dict e) = CHR ''{'' # x @ ''}''"
    by (simp add: dumps_def sort_keys_entry del: sort_keys.simps)
  ultimately show ?thesis by simp
qed

lemma splitlines_written: "splitlines (written es @ t) = map (\<lambda>e. dumps (entry_dict e)) es @ splitlines t"
proof (induction es)
  case (Cons e es)
  have "\<forall>c \<in> set (dumps (entry_dict e)). \<not> line_break c"
    using printable_dump printable_no_break unfolding dumps_def by blast
  from splitlines_line [OF this] Cons show ?case by (simp add: written_def)
qed (simp add: written_def)

lemma read_lines_entries:
  "read_lines n (map (\<lambda>e. dumps (entry_dict e)) es @ ls) =
     bind_res (read_lines (n + length es) ls) (\<lambda>rest. Inr (es @ rest))"
proof (induction es arbitrary: n)
  case (Cons e es)
  then show ?case
    by (cases "read_lines (Suc (n + length es)) ls")
      (simp_all add: strip_entry loads_entry entry_of_entry_dict)
qed simp

lemma read_chain_written: "chain_text d = Some (written es) \<Longrightarrow> read_chain d = Inr es"
  using splitlines_written [of es "[]"] read_lines_entries [of 1 es "[]"]
  by (simp add: read_chain_def splitlines_def)

fun linked :: "(string \<Rightarrow> string) \<Rightarrow> nat \<Rightarrow> string \<Rightarrow> chain_entry list \<Rightarrow> bool" where
  "linked sha i p [] = True"
| "linked sha i p (e # es) =
     (seq e = int i \<and> prev e = p \<and>
      digest_of_entry e = entry_digest sha (seq e) (recorded_at e) (filename e) (digest e) (prev e) \<and>
      linked sha (Suc i) (digest_of_entry e) es)"

definition file_matches :: "(string \<Rightarrow> string) \<Rightarrow> history_dir \<Rightarrow> chain_entry \<Rightarrow> bool" where
  "file_matches sha d e \<longleftrightarrow> map_option sha (file_bytes d (filename e)) = Some (digest e)"

lemma entry_problems_Nil:
  "entry_problems sha d i p e = [] \<longleftrightarrow>
     seq e = int i \<and> prev e = p \<and>
     digest_of_entry e = entry_digest sha (seq e) (recorded_at e) (filename e) (digest e) (prev e) \<and>
     file_matches sha d e"
  by (auto simp: entry_problems_def file_matches_def split: option.splits)

lemma link_problems_Nil:
  "link_problems sha d i p es = [] \<longleftrightarrow> linked sha i p es \<and> (\<forall>e \<in> set es. file_matches sha d e)"
  by (induction es arbitrary: i p) (auto simp: entry_problems_Nil)

lemma unchained_problems_Nil:
  "unchained_problems d ext es = [] \<longleftrightarrow>
     (\<forall>name \<in> set (directory_names d). ends_with name ext \<longrightarrow>
        name = CHAIN_FILENAME \<or> name \<in> filename ` set es)"
  by (auto simp: unchained_problems_def filter_empty_conv)

lemma verify_chain_ok_iff:
  assumes "verify_chain sha ext d = Inr v"
  obtains es where "read_chain d = Inr es" "checked v = length es" "head v = head_digest es"
    "verified_ok v \<longleftrightarrow> linked sha 1 GENESIS es \<and> (\<forall>e \<in> set es. file_matches sha d e) \<and>
       unchained_problems d ext es = []"
  using assms by (auto simp: verify_chain_def result_simps link_problems_Nil Let_def)

lemma linked_append:
  "linked sha i p (xs @ ys) \<longleftrightarrow>
     linked sha i p xs \<and> linked sha (i + length xs) (fold (\<lambda>e last. digest_of_entry e) xs p) ys"
  by (induction xs arbitrary: i p) auto

lemma head_digest_snoc [simp]: "head_digest (xs @ [x]) = digest_of_entry x"
  by (simp add: head_digest_def)

lemma linked_seq: "linked sha i p es \<Longrightarrow> k < length es \<Longrightarrow> seq (es ! k) = int (i + k)"
  by (induction es arbitrary: i p k) (auto simp: nth_Cons split: nat.splits)

section \<open>Saved histories verify\<close>

definition SNAPSHOT_SUFFIX :: string where
  "SNAPSHOT_SUFFIX = ''.devrepro-snapshot.json''"

text \<open>A history directory only ever written by \<^const>\<open>history_save\<close>, under fresh names.\<close>

inductive saved :: "(string \<Rightarrow> string) \<Rightarrow> nat \<Rightarrow> history_dir \<Rightarrow> bool" for sha where
  saved_start: "saved sha 0 \<lparr>chain_text = None, dir_files = []\<rparr>"
| saved_step: "saved sha n d \<Longrightarrow>
     stamp @ ''-'' @ snapshot_id @ SNAPSHOT_SUFFIX \<notin> fst ` set (dir_files d) \<Longrightarrow>
     saved sha (Suc n) (history_save sha d stamp snapshot_id SNAPSHOT_SUFFIX data)"

inductive_cases saved_stepE: "saved sha (Suc n) d"

definition saved_inv :: "(string \<Rightarrow> string) \<Rightarrow> nat \<Rightarrow> history_dir \<Rightarrow> bool" where
  "saved_inv sha n d \<longleftrightarrow>
     (\<exists>es. length es = n \<and> linked sha 1 GENESIS es \<and>
        chain_text d = (if es = [] then None else Some (written es)) \<and>
        map fst (dir_files d) = map filename es \<and> CHAIN_FILENAME \<notin> filename ` set es \<and>
        (\<forall>e \<in> set es. file_matches sha d e))"

lemma read_chain_saved:
  "chain_text d = (if es = [] then None else Some (written es)) \<Longrightarrow> read_chain d = Inr es"
  by (cases "es = []") (auto simp: read_chain_written, simp add: read_chain_def)

lemma snapshot_name_not_chain: "stamp @ ''-'' @ i @ SNAPSHOT_SUFFIX \<noteq> CHAIN_FILENAME"
proof
  assume "stamp @ ''-'' @ i @ SNAPSHOT_SUFFIX = CHAIN_FILENAME"
  then have "last (stamp @ ''-'' @ i @ SNAPSHOT_SUFFIX) = last CHAIN_FILENAME" by (rule arg_cong)
  then show False by (simp add: SNAPSHOT_SUFFIX_def CHAIN_FILENAME_def)
qed

lemma history_save_appends:
  assumes "chain_text d = (if es = [] then None else Some (written es))"
    and "name = stamp @ ''-'' @ i @ ext" and "name \<notin> fst ` set (dir_files d)"
    and "e = make_entry sha es name data stamp"
  shows "history_save sha d stamp i ext data =
     \<lparr>chain_text = Some (written (es @ [e])), dir_files = dir_files d @ [(name, data)]\<rparr>"
proof -
  have set: "dict_set name data (dir_files d) = dir_files d @ [(name, data)]"
  proof -
    have "k \<notin> fst ` set f \<Longrightarrow> dict_set k v f = f @ [(k, v)]" for k v and f :: "(string \<times> string) list"
      by (induction k v f rule: dict_set.induct) auto
    then show ?thesis using assms(3) .
  qed
  have "read_chain (d\<lparr>dir_files := dir_files d @ [(name, data)]\<rparr>) = Inr es"
    using assms(1) by (intro read_chain_saved) simp
  then show ?thesis
    using assms(1) set unfolding history_save_def Let_def assms(2) [symmetric]
    by (cases d) (auto simp: append_entry_def append_line_def written_def assms(4) Let_def)
qed

lemma saved_invariant: "saved sha n d \<Longrightarrow> saved_inv sha n d"
proof (induction rule: saved.induct)
  case saved_start
  show ?case unfolding saved_inv_def by (intro exI [of _ "[]"]) simp
next
  case (saved_step n d stamp i data)
  from saved_step.IH obtain es where es: "length es = n" "linked sha 1 GENESIS es"
    "chain_text d = (if es = [] then None else Some (written es))"
    "map fst (dir_files d) = map filename es" "CHAIN_FILENAME \<notin> filename ` set es"
    "\<forall>e \<in> set es. file_matches sha d e"
    unfolding saved_inv_def by blast
  define name where "name = stamp @ ''-'' @ i @ SNAPSHOT_SUFFIX"
  define e where "e = make_entry sha es name data stamp"
  have fresh: "name \<notin> fst ` set (dir_files d)" using saved_step.hyps(2) by (simp add: name_def)
  then have not_in: "name \<notin> filename ` set es" using es(4) by (metis image_set)
  have nc: "name \<noteq> CHAIN_FILENAME" unfolding name_def by (rule snapshot_name_not_chain)
  let ?d = "history_save sha d stamp i SNAPSHOT_SUFFIX data"
  have d: "?d = \<lparr>chain_text = Some (written (es @ [e])), dir_files = dir_files d @ [(name, data)]\<rparr>"
    using history_save_appends [OF es(3) name_def fresh e_def] .
  have fe: "filename e = name" "digest e = sha data" by (simp_all add: e_def make_entry_def Let_def)
  have mo: "map_of (dir_files d) name = None" using fresh by (simp add: map_of_eq_None_iff)
  have old: "file_matches sha ?d x" if "x \<in> set es" for x
  proof -
    have "filename x \<noteq> CHAIN_FILENAME" "filename x \<noteq> name" using imageI [OF that, of filename] es(5) not_in by auto
    moreover have "file_matches sha d x" using that es(6) by blast
    ultimately show ?thesis by (auto simp: d file_matches_def file_bytes_def map_add_def split: option.splits)
  qed
  have new: "file_matches sha ?d e"
    using nc mo by (simp add: d file_matches_def file_bytes_def fe map_add_def)
  have "linked sha 1 GENESIS (es @ [e])"
    using es(2) by (simp add: linked_append e_def make_entry_def head_digest_def Let_def)
  then show ?case
    unfolding saved_inv_def
    by (intro exI [of _ "es @ [e]"]) (use es old new nc in \<open>auto simp: d fe\<close>)
qed

lemma saved_verifies:
  assumes "saved sha n d"
  shows "\<exists>v. verify_chain sha SNAPSHOT_SUFFIX d = Inr v \<and> verified_ok v \<and> problems v = [] \<and> checked v = n"
proof -
  from saved_invariant [OF assms] obtain es where es: "length es = n" "linked sha 1 GENESIS es"
    "chain_text d = (if es = [] then None else Some (written es))"
    "map fst (dir_files d) = map filename es" "\<forall>e \<in> set es. file_matches sha d e"
    unfolding saved_inv_def by blast
  have "set (directory_names d) \<subseteq> insert CHAIN_FILENAME (filename ` set es)"
    using es(4) by (auto simp: directory_names_def simp flip: set_map)
  then have "unchained_problems d SNAPSHOT_SUFFIX es = []" by (auto simp: unchained_problems_Nil)
  moreover have "link_problems sha d 1 GENESIS es = []" using es by (simp add: link_problems_Nil)
  ultimately show ?thesis using read_chain_saved [OF es(3)] es(1) by (simp add: verify_chain_def Let_def)
qed

text \<open>
  C4: A history directory that only \<open>HistoryStore.save\<close> has written, under fresh names,
  verifies: no problem is reported, and the chain has one link for every save.
\<close>

theorem saved_history_verifies:
  assumes "saved sha n d"
  shows "\<exists>v. verify_chain sha SNAPSHOT_SUFFIX d = Inr v \<and> verified_ok v \<and> problems v = [] \<and> checked v = n"
  using assms by (rule saved_verifies)

text \<open>The digest of a short text, as a stand-in for SHA-256 in the examples.\<close>

definition demo_sha :: "string \<Rightarrow> string" where
  "demo_sha s = str_nat (fold (\<lambda>c n. (n * 31 + of_char c) mod 1000003) s 7)"

lemma saved_history_verifies_witness:
  "\<exists>v d. verify_chain demo_sha SNAPSHOT_SUFFIX d = Inr v \<and> verified_ok v \<and> checked v = 2 \<and>
     length (dir_files d) = 2"
proof -
  let ?d1 = "history_save demo_sha \<lparr>chain_text = None, dir_files = []\<rparr> ''t1'' ''a'' SNAPSHOT_SUFFIX ''x''"
  let ?d2 = "history_save demo_sha ?d1 ''t2'' ''b'' SNAPSHOT_SUFFIX ''y''"
  have 1: "saved demo_sha (Suc 0) ?d1" by (rule saved_step [OF saved_start]) simp
  have d1: "dir_files ?d1 = [(''t1-a'' @ SNAPSHOT_SUFFIX, ''x'')]"
    by (subst history_save_appends [OF _ refl _ refl, where es = "[]"]) auto
  have 2: "saved demo_sha (Suc (Suc 0)) ?d2" by (rule saved_step [OF 1]) (simp add: d1)
  from saved_invariant [OF 2] have "length (dir_files ?d2) = 2"
    unfolding saved_inv_def by (metis length_map numeral_2_eq_2)
  with saved_history_verifies [OF 2] show ?thesis by (metis numeral_2_eq_2)
qed

section \<open>What tampering costs\<close>







text \<open>
  Rearranging a verified chain is reported: a chain file made of links of a verified one
  shows a sequence gap unless it is the original cut off at the end, and every snapshot that
  was cut from the record but still lies in the directory is reported as unchained.
\<close>

theorem rearranged_links_are_reported:
  assumes "verify_chain sha ext d = Inr v" and "verified_ok v" and "read_chain d = Inr es"
    and "read_chain d' = Inr es'" and "set es' \<subseteq> set es"
    and "verify_chain sha ext d' = Inr v'"
  shows "(\<exists>p \<in> set (problems v'). problem_kind p = SequenceGap) \<or>
         (es' = take (length es') es \<and>
          (\<forall>e \<in> set es - set es'. filename e \<notin> filename ` set es' \<longrightarrow> filename e \<noteq> CHAIN_FILENAME \<longrightarrow>
             filename e \<in> fst ` set (dir_files d') \<longrightarrow> ends_with (filename e) ext \<longrightarrow>
             (\<exists>p \<in> set (problems v'). problem_kind p = UnchainedSnapshot)))"
proof -
  have link: "linked sha 1 GENESIS es"
    using verify_chain_ok_iff [OF assms(1)] assms(2,3) by (metis sum.inject(2))
  have probs: "problems v' = link_problems sha d' 1 GENESIS es' @ unchained_problems d' ext es'"
    using assms(4,6) by (auto simp: verify_chain_def Let_def)
  have gap: "(\<exists>q \<in> set (link_problems sha d' i p xs). problem_kind q = SequenceGap) \<or>
             (\<forall>k < length xs. seq (xs ! k) = int (i + k))" for i p xs
  proof (induction xs arbitrary: i p)
    case (Cons x xs)
    then show ?case
      by (cases "seq x = int i")
        (fastforce simp: entry_problems_def problem_def nth_Cons split: nat.splits)+
  qed simp
  show ?thesis
  proof (cases "\<exists>p \<in> set (problems v'). problem_kind p = SequenceGap")
    case False
    then have seqs: "\<forall>k < length es'. seq (es' ! k) = int (1 + k)" using gap [of 1 GENESIS es'] probs by auto
    have at: "k < length es \<and> es' ! k = es ! k" if k: "k < length es'" for k
    proof -
      have "es' ! k \<in> set es" using k assms(5) by (meson nth_mem subsetD)
      then obtain j where j: "j < length es" "es ! j = es' ! k" by (auto simp: in_set_conv_nth)
      have "seq (es ! j) = int (1 + j)" using linked_seq [OF link j(1)] .
      then have "j = k" using seqs k j(2) by simp
      then show ?thesis using j by simp
    qed
    have "length es' \<le> length es"
    proof (rule ccontr)
      assume "\<not> length es' \<le> length es"
      with at [of "length es"] show False by simp
    qed
    then have "es' = take (length es') es" using at by (intro nth_equalityI) auto
    moreover have "\<exists>p \<in> set (problems v'). problem_kind p = UnchainedSnapshot"
      if "filename e \<notin> filename ` set es'" "filename e \<noteq> CHAIN_FILENAME"
        "filename e \<in> fst ` set (dir_files d')" "ends_with (filename e) ext" for e
      using that unfolding probs
      by (intro bexI [of _ "problem UnchainedSnapshot None
            (filename e @ '' is in the history directory but not in the chain'')"])
        (auto simp: unchained_problems_def directory_names_def problem_def)
    ultimately show ?thesis by blast
  qed simp
qed

lemma rearranged_links_are_reported_witness:
  "\<exists>d' v'. verify_chain demo_sha SNAPSHOT_SUFFIX d' = Inr v' \<and>
     (\<exists>p \<in> set (problems v'). problem_kind p = UnchainedSnapshot)"
proof -
  let ?d1 = "history_save demo_sha \<lparr>chain_text = None, dir_files = []\<rparr> ''t1'' ''a'' SNAPSHOT_SUFFIX ''x''"
  define n where "n = ''t1-a'' @ SNAPSHOT_SUFFIX"
  have s: "saved demo_sha (Suc 0) ?d1" by (rule saved_step [OF saved_start]) simp
  from saved_verifies [OF s] obtain v where v: "verify_chain demo_sha SNAPSHOT_SUFFIX ?d1 = Inr v" "verified_ok v"
    by blast
  have d1: "?d1 = \<lparr>chain_text = Some (written [make_entry demo_sha [] n ''x'' ''t1'']),
      dir_files = [(n, ''x'')]\<rparr>"
    by (subst history_save_appends [OF _ refl _ refl, where es = "[]"]) (auto simp: n_def)
  have r: "read_chain ?d1 = Inr [make_entry demo_sha [] n ''x'' ''t1'']"
    by (rule read_chain_written) (simp add: d1)
  let ?d2 = "\<lparr>chain_text = None, dir_files = [(n, ''x'')]\<rparr>"
  have r2: "read_chain ?d2 = Inr []" by (simp add: read_chain_def)
  obtain v2 where v2: "verify_chain demo_sha SNAPSHOT_SUFFIX ?d2 = Inr v2"
    by (simp add: verify_chain_def r2 Let_def)
  have "ends_with n SNAPSHOT_SUFFIX" by (simp add: ends_with_def n_def suffix_def)
  moreover have "n \<noteq> CHAIN_FILENAME" by (simp add: CHAIN_FILENAME_def SNAPSHOT_SUFFIX_def n_def)
  moreover have "problems v2 = unchained_problems ?d2 SNAPSHOT_SUFFIX []"
    using v2 by (auto simp: verify_chain_def r2 Let_def)
  then have "\<forall>p \<in> set (problems v2). problem_kind p \<noteq> SequenceGap"
    by (auto simp: unchained_problems_def problem_def)
  ultimately show ?thesis
    using rearranged_links_are_reported [OF v r r2 _ v2] v2
    by (fastforce simp: make_entry_def Let_def)
qed

text \<open>
  One line that is not JSON stops the history: with a torn last line, as an interrupted
  append leaves it, reading and verifying fail at that line's number, and every later save
  keeps its snapshot but adds nothing that could be read to the record.
\<close>

theorem torn_line_stops_the_chain:
  assumes "chain_text d = Some (written es @ torn)" and "strip torn \<noteq> []" and "loads torn = None"
    and "\<forall>c \<in> set torn. \<not> line_break c"
  shows "read_chain d = Inl (MalformedLine (length es + 1)) \<and>
         verify_chain sha ext d = Inl (MalformedLine (length es + 1)) \<and>
         chain_text (history_save sha d stamp i ext data) = chain_text d \<and>
         map_of (dir_files (history_save sha d stamp i ext data)) (stamp @ ''-'' @ i @ ext) = Some data"
proof -
  have ne: "torn \<noteq> []" using assms(2) by (auto simp: strip_def rstrip_def lstrip_def)
  have "splitlines_from acc (t @ u) = splitlines_from (rev t @ acc) u" if "\<forall>c \<in> set t. \<not> line_break c" for acc t u
    using that
  proof (induction t arbitrary: acc)
    case (Cons c t)
    moreover have "line_break (CHR 0x0D)" by (simp add: line_break_def)
    ultimately show ?case by auto
  qed simp
  from this [of torn "[]" "[]"] assms(4) ne have "splitlines torn = [torn]" by (simp add: splitlines_def)
  then have read: "read_chain x = Inl (MalformedLine (length es + 1))"
    if "chain_text x = Some (written es @ torn)" for x
    using that assms(2,3) by (simp add: read_chain_def splitlines_written read_lines_entries)
  have "read_chain (d\<lparr>dir_files := f\<rparr>) = Inl (MalformedLine (length es + 1))" for f
    using assms(1) by (intro read) simp
  then show ?thesis
    using read [OF assms(1)]
    by (simp add: verify_chain_def history_save_def append_entry_def Let_def)
qed

lemma torn_line_stops_the_chain_witness:
  "read_chain \<lparr>chain_text = Some (written [] @ ''{'' @ [CHR 0x22] @ ''dig''), dir_files = []\<rparr> =
     Inl (MalformedLine 1)"
proof -
  have "strip (''{'' @ [CHR 0x22] @ ''dig'') \<noteq> []" by code_simp
  moreover have "loads (''{'' @ [CHR 0x22] @ ''dig'') = None" by code_simp
  moreover have "\<forall>c \<in> set (''{'' @ [CHR 0x22] @ ''dig''). \<not> line_break c" by code_simp
  ultimately show ?thesis
    using torn_line_stops_the_chain
      [of "\<lparr>chain_text = Some (written [] @ ''{'' @ [CHR 0x22] @ ''dig''), dir_files = []\<rparr>" "[]"]
    by simp
qed

end
