(* ===== verification/Models.thy ===== *)
theory Models
  imports Prelude
begin

text \<open>
  The domain models of \<open>src/devrepro/core/models.py\<close>, the exit codes of
  \<open>src/devrepro/core/exit_codes.py\<close> and the mapping between them. A Pydantic class is a
  record with one field per attribute (prefixed, since record fields are global names), an
  optional attribute an \<^typ>\<open>'a option\<close>, a tuple a list, a dictionary an association
  list; a validator is a function to a result. Timestamps stay the ISO strings the JSON
  carries. Paths in the models are strings, as in the source.
\<close>

type_synonym timestamp = string

section \<open>Enumerations\<close>

datatype finding_state = PASS | INFO | WARN | ERROR | BLOCKED | UNKNOWN

datatype risk_level = SAFE | LOW | MEDIUM | HIGH

datatype diff_classification =
  SAME | VERSION_DRIFT | MISSING | EXTRA | PATH_PRECEDENCE | PLATFORM_EXPECTED | PROJECT_CRITICAL

datatype requirement_kind = RUNTIME | TOOL | ENV_NAME | CONTAINER | COMPILER

text \<open>The string values of the \<open>StrEnum\<close> members.\<close>

fun state_value :: "finding_state \<Rightarrow> string" where
  "state_value PASS = ''PASS''"
| "state_value INFO = ''INFO''"
| "state_value WARN = ''WARN''"
| "state_value ERROR = ''ERROR''"
| "state_value BLOCKED = ''BLOCKED''"
| "state_value UNKNOWN = ''UNKNOWN''"

fun risk_value :: "risk_level \<Rightarrow> string" where
  "risk_value SAFE = ''SAFE''"
| "risk_value LOW = ''LOW''"
| "risk_value MEDIUM = ''MEDIUM''"
| "risk_value HIGH = ''HIGH''"

fun classification_value :: "diff_classification \<Rightarrow> string" where
  "classification_value SAME = ''same''"
| "classification_value VERSION_DRIFT = ''version-drift''"
| "classification_value MISSING = ''missing''"
| "classification_value EXTRA = ''extra''"
| "classification_value PATH_PRECEDENCE = ''path-precedence''"
| "classification_value PLATFORM_EXPECTED = ''platform-expected''"
| "classification_value PROJECT_CRITICAL = ''project-critical''"

lemma state_value_inj [simp]: "state_value s = state_value t \<longleftrightarrow> s = t"
  by (cases s; cases t) simp_all

text \<open>The rank the planner sorts on; it makes the risk levels a linear order.\<close>

fun risk_rank :: "risk_level \<Rightarrow> nat" where
  "risk_rank SAFE = 0"
| "risk_rank LOW = 1"
| "risk_rank MEDIUM = 2"
| "risk_rank HIGH = 3"

lemma risk_rank_inj [simp]: "risk_rank r = risk_rank s \<longleftrightarrow> r = s"
  by (cases r; cases s) simp_all

instantiation risk_level :: linorder
begin

definition less_eq_risk_level :: "risk_level \<Rightarrow> risk_level \<Rightarrow> bool" where
  "r \<le> s \<longleftrightarrow> risk_rank r \<le> risk_rank s"

definition less_risk_level :: "risk_level \<Rightarrow> risk_level \<Rightarrow> bool" where
  "r < s \<longleftrightarrow> risk_rank r < risk_rank s"

instance
  by standard (auto simp: less_eq_risk_level_def less_risk_level_def)

end

section \<open>Findings\<close>

record evidence =
  e_source :: string
  e_command :: "string list option"
  e_path :: "string option"
  e_excerpt :: "string option"
  e_redacted :: bool

text \<open>The validator of \<open>Evidence.source\<close>.\<close>

definition allowed_sources :: "string list" where
  "allowed_sources = [''command'', ''file'', ''env'', ''system'', ''network'']"

definition check_source :: "string \<Rightarrow> string py" where
  "check_source v = (if v \<in> set allowed_sources then Inr v else Inl ValueError)"

record finding =
  f_rule_id :: string
  f_state :: finding_state
  f_summary :: string
  f_evidence :: "evidence list"
  f_detected :: "string option"
  f_required :: "string option"
  f_component :: "string option"
  f_remediation_hint :: "string option"
  f_references :: "string list"
  f_probe_id :: "string option"

text \<open>
  What constructing a \<open>Finding\<close> enforces: at least one piece of evidence
  (\<open>min_length=1\<close>), each with an allowed source.
\<close>

definition valid_evidence :: "evidence \<Rightarrow> bool" where
  "valid_evidence e \<longleftrightarrow> e_source e \<in> set allowed_sources"

definition valid_finding :: "finding \<Rightarrow> bool" where
  "valid_finding f \<longleftrightarrow> f_evidence f \<noteq> [] \<and> list_all valid_evidence (f_evidence f)"

section \<open>Machine state\<close>

record tool_installation =
  t_name :: string
  t_version :: "string option"
  t_exe_path :: "string option"
  t_install_source :: "string option"
  t_is_active :: bool
  t_precedence :: "int option"

record path_entry =
  pe_raw :: string
  pe_normalized :: string
  pe_exists :: bool
  pe_origin :: string
  pe_index :: int

record path_analysis =
  pa_entries :: "path_entry list"
  pa_duplicates :: "string list"
  pa_dead_entries :: "string list"
  pa_shadowed_executables :: "(string \<times> string \<times> string) list"
  pa_store_aliases :: "string list"
  pa_tool_manager_interference :: "string list"
  pa_profile_inconsistencies :: "string list"

record project_requirement =
  r_ecosystem :: string
  r_name :: string
  r_spec :: string
  r_kind :: requirement_kind
  r_source_file :: string
  r_optional :: bool
  r_note :: "string option"

record platform_info =
  pl_os_name :: string
  pl_os_version :: string
  pl_arch :: string
  pl_kernel :: "string option"
  pl_shell :: "string option"
  pl_is_wsl :: bool

record container_state =
  c_docker_cli_version :: "string option"
  c_docker_daemon_ok :: bool
  c_podman_version :: "string option"
  c_compose_version :: "string option"
  c_kubectl_version :: "string option"
  c_errors :: "string list"
  c_backend :: "string option"
  c_endpoint_kind :: "string option"
  c_context_name :: "string option"
  c_server_version :: "string option"
  c_server_os :: "string option"
  c_server_arch :: "string option"
  c_storage_driver :: "string option"
  c_cgroup_version :: "string option"
  c_cgroup_driver :: "string option"
  c_rootless :: "bool option"
  c_engine_cpus :: "int option"
  c_engine_memory_bytes :: "int option"
  c_buildx_version :: "string option"
  c_reclaimable_bytes :: "int option"
  c_dangling_images :: "int option"
  c_unused_volumes :: "int option"
  c_other_runtimes :: "string list"

record wsl_state =
  w_available :: bool
  w_version :: "string option"
  w_distros :: "string list"
  w_default_distro :: "string option"
  w_interop_enabled :: "bool option"
  w_errors :: "string list"

record gpu_device_info =
  gd_index :: int
  gd_name :: string
  gd_memory_mib :: "int option"
  gd_compute_capability :: "string option"

record gpu_stack =
  g_nvidia_driver :: "string option"
  g_max_cuda_runtime :: "string option"
  g_devices :: "gpu_device_info list"
  g_cuda_toolkit :: "string option"
  g_rocm :: "string option"
  g_oneapi :: "string option"
  g_directml :: bool
  g_vulkan :: "string option"
  g_metal :: "string option"
  g_wsl_gpu_passthrough :: "bool option"
  g_notes :: "string list"

record virtualenv_info =
  ve_kind :: string
  ve_active :: bool
  ve_root_hint :: "string option"

record reproducibility_point =
  rp_criterion :: string
  rp_earned :: int
  rp_possible :: int
  rp_explanation :: string

record reproducibility_score =
  rs_total :: int
  rs_possible :: int
  rs_points :: "reproducibility_point list"

section \<open>Snapshots, diffs and remediations\<close>

text \<open>
  The \<open>privacy\<close> dictionary of a snapshot is free-form diagnostic data; the record leaves it
  out, as it leaves out \<open>snapshot_id\<close>, a digest of the JSON dump, which the diff takes as a
  parameter.
\<close>

record snapshot =
  s_schema_version :: string
  s_created_at :: timestamp
  s_devrepro_version :: string
  s_platform :: platform_info
  s_tools :: "tool_installation list"
  s_path_analysis :: "path_analysis option"
  s_compilers :: "tool_installation list"
  s_requirements_fingerprint :: "project_requirement list"
  s_containers :: "container_state option"
  s_wsl :: "wsl_state option"
  s_gpu :: "gpu_stack option"
  s_virtualenvs :: "virtualenv_info list"
  s_score :: "reproducibility_score option"

record diff_entry =
  d_component :: string
  d_name :: string
  d_classification :: diff_classification
  d_a_value :: "string option"
  d_b_value :: "string option"
  d_detail :: "string option"
  d_project_critical :: bool

record environment_diff =
  ed_a_snapshot_id :: string
  ed_b_snapshot_id :: string
  ed_entries :: "diff_entry list"

text \<open>\<open>EnvironmentDiff.counts\<close>.\<close>

definition bump_count :: "'k \<Rightarrow> ('k \<times> nat) list \<Rightarrow> ('k \<times> nat) list" where
  "bump_count k out = dict_set k ((case map_of out k of None \<Rightarrow> 0 | Some n \<Rightarrow> n) + 1) out"

definition counts :: "environment_diff \<Rightarrow> (string \<times> nat) list" where
  "counts d = fold (\<lambda>e. bump_count (classification_value (d_classification e))) (ed_entries d) []"

record remediation =
  rem_id :: string
  rem_title :: string
  rem_risk :: risk_level
  rem_preconditions :: "string list"
  rem_changes :: "string list"
  rem_rollback :: string
  rem_automatable :: bool
  rem_finding_ids :: "string list"
  rem_commands :: "string list list"

section \<open>Policy\<close>

record policy_supported_os =
  os_windows :: bool
  os_linux :: bool
  os_macos :: bool

record policy_containers =
  require_devcontainer :: bool
  require_compose :: bool

text \<open>
  The validator of \<open>PolicyRequiredEnvNames.names\<close>: after removing \<open>_\<close> and \<open>-\<close> a name must
  be alphanumeric. \<open>str.isalnum\<close> is false on the empty string; beyond ASCII the Latin-1
  letters and numerals it accepts are listed by code point.
\<close>

definition py_isalnum_char :: "char \<Rightarrow> bool" where
  "py_isalnum_char c \<longleftrightarrow> is_alnum c \<or> (let n = (of_char c :: nat) in
     n \<in> {170, 178, 179, 181, 185, 186, 188, 189, 190} \<or> (192 \<le> n \<and> n \<noteq> 215 \<and> n \<noteq> 247))"

text \<open>The class \<open>\w\<close> of \<open>re\<close>.\<close>

definition word_char :: "char \<Rightarrow> bool" where
  "word_char c \<longleftrightarrow> py_isalnum_char c \<or> c = CHR ''_''"

definition py_isalnum :: "string \<Rightarrow> bool" where
  "py_isalnum s \<longleftrightarrow> s \<noteq> [] \<and> list_all py_isalnum_char s"

definition names_look_like_names :: "string list \<Rightarrow> string list py" where
  "names_look_like_names v =
     (if list_all (\<lambda>n. py_isalnum (filter (\<lambda>c. c \<noteq> CHR ''_'' \<and> c \<noteq> CHR ''-'') n)) v
      then Inr v else Inl ValueError)"

record policy =
  p_supported_os :: policy_supported_os
  p_required_runtimes :: "(string \<times> string) list"
  p_required_tools :: "(string \<times> string) list"
  p_optional_tools :: "(string \<times> string) list"
  p_known_bad_versions :: "(string \<times> string list) list"
  p_containers :: policy_containers
  p_required_env_names :: "string list"

section \<open>Scan reports\<close>

record scan_report =
  sr_schema_version :: string
  sr_created_at :: timestamp
  sr_devrepro_version :: string
  sr_platform :: platform_info
  sr_findings :: "finding list"
  sr_tools :: "tool_installation list"
  sr_path_analysis :: "path_analysis option"
  sr_requirements :: "project_requirement list"
  sr_policy_applied :: bool
  sr_score :: "reproducibility_score option"
  sr_probe_errors :: "string list"
  sr_containers :: "container_state option"
  sr_wsl :: "wsl_state option"
  sr_gpu :: "gpu_stack option"

text \<open>\<open>ScanReport.active_versions\<close>: the loop over the tools, with the dictionary it builds.\<close>

definition active_step ::
  "tool_installation \<Rightarrow> (string \<times> string option) list \<Rightarrow> (string \<times> string option) list" where
  "active_step tool versions =
     (if \<not> t_is_active tool then versions
      else if Option.bind (map_of versions (t_name tool)) id = None
        then dict_set (t_name tool) (t_version tool) versions
      else versions)"

definition active_versions :: "scan_report \<Rightarrow> (string \<times> string option) list" where
  "active_versions r = fold active_step (sr_tools r) []"

text \<open>\<open>ScanReport.worst_state\<close>: the first state of the severity order that occurs.\<close>

definition severity_order :: "finding_state list" where
  "severity_order = [BLOCKED, ERROR, WARN, UNKNOWN, INFO, PASS]"

definition worst_state :: "scan_report \<Rightarrow> finding_state" where
  "worst_state r = (let states = set (map f_state (sr_findings r)) in
     case find (\<lambda>s. s \<in> states) severity_order of None \<Rightarrow> PASS | Some s \<Rightarrow> s)"

section \<open>Exit codes\<close>

datatype exit_code = READY | READY_WITH_WARNINGS | EXIT_BLOCKED | INTERNAL_ERROR | USAGE_ERROR

fun exit_int :: "exit_code \<Rightarrow> int" where
  "exit_int READY = 0"
| "exit_int READY_WITH_WARNINGS = 1"
| "exit_int EXIT_BLOCKED = 2"
| "exit_int INTERNAL_ERROR = 3"
| "exit_int USAGE_ERROR = 4"

fun exit_name :: "exit_code \<Rightarrow> string" where
  "exit_name READY = ''READY''"
| "exit_name READY_WITH_WARNINGS = ''READY_WITH_WARNINGS''"
| "exit_name EXIT_BLOCKED = ''BLOCKED''"
| "exit_name INTERNAL_ERROR = ''INTERNAL_ERROR''"
| "exit_name USAGE_ERROR = ''USAGE_ERROR''"

definition exit_codes :: "exit_code list" where
  "exit_codes = [READY, READY_WITH_WARNINGS, EXIT_BLOCKED, INTERNAL_ERROR, USAGE_ERROR]"

text \<open>\<open>exit_for\<close> of \<open>src/devrepro/cli/common.py\<close>, on a set of state values.\<close>

definition exit_for :: "string set \<Rightarrow> exit_code" where
  "exit_for states =
     (if ''BLOCKED'' \<in> states \<or> ''ERROR'' \<in> states then EXIT_BLOCKED
      else if ''WARN'' \<in> states \<or> ''UNKNOWN'' \<in> states then READY_WITH_WARNINGS
      else READY)"

text \<open>The exit code each single state stands for.\<close>

fun exit_of_state :: "finding_state \<Rightarrow> exit_code" where
  "exit_of_state BLOCKED = EXIT_BLOCKED"
| "exit_of_state ERROR = EXIT_BLOCKED"
| "exit_of_state WARN = READY_WITH_WARNINGS"
| "exit_of_state UNKNOWN = READY_WITH_WARNINGS"
| "exit_of_state INFO = READY"
| "exit_of_state PASS = READY"

section \<open>Lemmas\<close>

lemma state_in_values [simp]:
  "''BLOCKED'' \<in> state_value ` S \<longleftrightarrow> BLOCKED \<in> S"
  "''ERROR'' \<in> state_value ` S \<longleftrightarrow> ERROR \<in> S"
  "''WARN'' \<in> state_value ` S \<longleftrightarrow> WARN \<in> S"
  "''UNKNOWN'' \<in> state_value ` S \<longleftrightarrow> UNKNOWN \<in> S"
  by (metis (no_types, lifting) image_iff state_value.simps state_value_inj)+

lemma worst_state_cases:
  "worst_state r = (let S = f_state ` set (sr_findings r) in
     if BLOCKED \<in> S then BLOCKED else if ERROR \<in> S then ERROR else if WARN \<in> S then WARN
     else if UNKNOWN \<in> S then UNKNOWN else if INFO \<in> S then INFO else PASS)"
  by (simp add: worst_state_def severity_order_def Let_def)

lemma exit_for_cases:
  "exit_for (state_value ` S) =
     (if BLOCKED \<in> S \<or> ERROR \<in> S then EXIT_BLOCKED
      else if WARN \<in> S \<or> UNKNOWN \<in> S then READY_WITH_WARNINGS else READY)"
  by (simp add: exit_for_def)

lemma bump_count_lookup:
  "map_of (bump_count k out) x =
     (if x = k then Some ((case map_of out k of None \<Rightarrow> 0 | Some n \<Rightarrow> n) + 1) else map_of out x)"
  by (simp add: bump_count_def)

lemma fold_bump_count:
  "map_of (fold (\<lambda>e. bump_count (g e)) es out) x =
     (let old = map_of out x; n = length (filter (\<lambda>e. g e = x) es) in
      if n = 0 then old else Some ((case old of None \<Rightarrow> 0 | Some m \<Rightarrow> m) + n))"
  by (induction es arbitrary: out) (auto simp: Let_def bump_count_lookup split: option.splits)

text \<open>
  The dictionary \<^const>\<open>active_versions\<close> builds, looked up at one name: the version of the
  first active installation of that name with a readable version, else whether any is active.
\<close>

definition readable_version :: "string \<Rightarrow> tool_installation list \<Rightarrow> string option option" where
  "readable_version n ts =
     (let mine = filter (\<lambda>t. t_is_active t \<and> t_name t = n) ts in
      case find (\<lambda>t. t_version t \<noteq> None) mine of
        Some t \<Rightarrow> Some (t_version t)
      | None \<Rightarrow> if mine = [] then None else Some None)"

lemma readable_version_Nil [simp]: "readable_version n [] = None"
  by (simp add: readable_version_def)

lemma readable_version_Cons:
  "readable_version n (t # ts) =
     (if \<not> (t_is_active t \<and> t_name t = n) then readable_version n ts
      else if t_version t \<noteq> None then Some (t_version t)
      else (case readable_version n ts of None \<Rightarrow> Some None | Some w \<Rightarrow> Some w))"
  by (cases "find (\<lambda>t. t_version t \<noteq> None) (filter (\<lambda>t. t_is_active t \<and> t_name t = n) ts)")
    (auto simp: readable_version_def Let_def)

text \<open>What is kept when a dictionary entry meets the rest of the loop.\<close>

definition prefer_readable :: "string option option \<Rightarrow> string option option \<Rightarrow> string option option" where
  "prefer_readable old new = (case old of Some (Some v) \<Rightarrow> old | Some None \<Rightarrow> (case new of None \<Rightarrow> old | Some w \<Rightarrow> new) | None \<Rightarrow> new)"

lemma active_step_lookup:
  "map_of (active_step t d) n =
     prefer_readable (map_of d n) (if t_is_active t \<and> t_name t = n then Some (t_version t) else None)"
  by (cases "map_of d n"; cases "t_version t")
    (auto simp: active_step_def prefer_readable_def split: option.splits)

lemma prefer_readable_Cons:
  "prefer_readable (prefer_readable old (if t_is_active t \<and> t_name t = n then Some (t_version t) else None))
     (readable_version n ts) = prefer_readable old (readable_version n (t # ts))"
  by (cases "readable_version n ts"; cases "t_version t"; cases old)
    (auto simp: readable_version_Cons prefer_readable_def split: option.splits)

lemma fold_active_step:
  "map_of (fold active_step ts d) n = prefer_readable (map_of d n) (readable_version n ts)"
proof (induction ts arbitrary: d)
  case Nil
  show ?case by (simp add: prefer_readable_def split: option.splits)
next
  case (Cons t ts)
  show ?case by (simp add: Cons.IH active_step_lookup prefer_readable_Cons)
qed

end
