(* ===== verification/Server_DB.thy ===== *)
theory Server_DB
  imports Json Models
begin

text \<open>
  \<open>src/devrepro/server/db.py\<close>: the SQLite store of the self-hosted server. A table is the list
  of its rows with their ids in insertion order and the counter of \<open>AUTOINCREMENT\<close>; a uniqueness
  constraint is a key function that \<open>INSERT\<close> checks. SQLite leaves \<open>REFERENCES\<close> unenforced
  unless asked, so no insertion checks them here either. A transaction that raises leaves the
  store as it was: the error carries no store. Columns holding JSON are the values they encode.
  The clock is an argument: the instant in microseconds and the rendering of an instant as
  an ISO string, which is all the queries compare; the digest and the fresh secrets are
  arguments too.
\<close>

section \<open>Tables\<close>

datatype db_error = IntegrityError | DbValueError | DbTypeError

record 'r table =
  tb_seq :: int
  tb_rows :: "(int \<times> 'r) list"

definition empty_table :: "'r table" where
  "empty_table = \<lparr>tb_seq = 0, tb_rows = []\<rparr>"

text \<open>\<open>INSERT\<close> into a table without and with a uniqueness constraint.\<close>

definition append_row :: "'r \<Rightarrow> 'r table \<Rightarrow> int \<times> 'r table" where
  "append_row r t =
     (let i = tb_seq t + 1 in (i, \<lparr>tb_seq = i, tb_rows = tb_rows t @ [(i, r)]\<rparr>))"

definition insert_row :: "('r \<Rightarrow> 'k) \<Rightarrow> 'r \<Rightarrow> 'r table \<Rightarrow> db_error + (int \<times> 'r table)" where
  "insert_row key r t =
     (if key r \<in> (\<lambda>(i, x). key x) ` set (tb_rows t) then Inl IntegrityError
      else Inr (append_row r t))"

text \<open>\<open>INSERT OR REPLACE\<close> deletes the row in the way and inserts under a new id.\<close>

definition replace_row :: "('r \<Rightarrow> 'k) \<Rightarrow> 'r \<Rightarrow> 'r table \<Rightarrow> int \<times> 'r table" where
  "replace_row key r t =
     append_row r (t\<lparr>tb_rows := filter (\<lambda>(i, x). key x \<noteq> key r) (tb_rows t)\<rparr>)"

definition update_rows :: "(int \<Rightarrow> 'r \<Rightarrow> bool) \<Rightarrow> ('r \<Rightarrow> 'r) \<Rightarrow> 'r table \<Rightarrow> 'r table" where
  "update_rows P f t =
     t\<lparr>tb_rows := map (\<lambda>(i, x). if P i x then (i, f x) else (i, x)) (tb_rows t)\<rparr>"

definition delete_rows :: "(int \<Rightarrow> 'r \<Rightarrow> bool) \<Rightarrow> 'r table \<Rightarrow> 'r table" where
  "delete_rows P t = t\<lparr>tb_rows := filter (\<lambda>(i, x). \<not> P i x) (tb_rows t)\<rparr>"

definition select_rows :: "(int \<Rightarrow> 'r \<Rightarrow> bool) \<Rightarrow> 'r table \<Rightarrow> (int \<times> 'r) list" where
  "select_rows P t = filter (\<lambda>(i, x). P i x) (tb_rows t)"

definition fetchone :: "'a list \<Rightarrow> 'a option" where
  "fetchone xs = (case xs of [] \<Rightarrow> None | x # _ \<Rightarrow> Some x)"

definition find_by :: "('r \<Rightarrow> 'k) \<Rightarrow> 'k \<Rightarrow> 'r table \<Rightarrow> (int \<times> 'r) option" where
  "find_by key k t = fetchone (select_rows (\<lambda>i x. key x = k) t)"

text \<open>\<open>ORDER BY k DESC\<close>.\<close>

definition order_desc :: "('a \<Rightarrow> 'k::linorder) \<Rightarrow> 'a list \<Rightarrow> 'a list" where
  "order_desc k xs = rev (sort_key k (rev xs))"

text \<open>Ids are given out once, and no two rows share a key.\<close>

definition table_ok :: "('r \<Rightarrow> 'k) \<Rightarrow> 'r table \<Rightarrow> bool" where
  "table_ok key t \<longleftrightarrow>
     distinct (map fst (tb_rows t)) \<and> (\<forall>(i, x) \<in> set (tb_rows t). 0 < i \<and> i \<le> tb_seq t) \<and>
     distinct (map (\<lambda>(i, x). key x) (tb_rows t)) \<and> 0 \<le> tb_seq t"

section \<open>The schema\<close>

record organization_row =
  og_name :: string
  og_created_at :: timestamp

record user_row =
  u_org :: int
  u_name :: string
  u_email :: string
  u_role :: string
  u_created_at :: timestamp

record service_account_row =
  sa_org :: int
  sa_name :: string
  sa_role :: string
  sa_token_hash :: string
  sa_scopes :: "string list"
  sa_created_at :: timestamp
  sa_revoked_at :: "timestamp option"

record enrollment_row =
  en_org :: int
  en_token_hash :: string
  en_label :: string
  en_expires_at :: "timestamp option"
  en_used_by :: "int option"
  en_created_at :: timestamp
  en_revoked_at :: "timestamp option"

record project_row =
  pj_org :: int
  pj_name :: string
  pj_fingerprint :: string
  pj_created_at :: timestamp

record machine_row =
  mc_org :: int
  mc_project :: "int option"
  mc_key :: string
  mc_os_name :: string
  mc_arch :: string
  mc_label :: string
  mc_enrolled_at :: timestamp
  mc_last_seen_at :: "timestamp option"

record snapshot_row =
  sn_machine :: int
  sn_snapshot_id :: string
  sn_payload :: json
  sn_privacy_state :: string
  sn_checksum :: string
  sn_received_at :: timestamp

record baseline_row =
  bl_project :: int
  bl_baseline_id :: string
  bl_payload :: json
  bl_approved_by :: "int option"
  bl_created_at :: timestamp

record member_row =
  pm_project :: int
  pm_email :: string
  pm_role :: string
  pm_created_at :: timestamp

record policy_row =
  po_org :: int
  po_name :: string
  po_document :: json
  po_version :: int
  po_active :: bool
  po_created_at :: timestamp

record audit_row =
  au_org :: int
  au_actor :: string
  au_action :: string
  au_target :: string
  au_detail :: json
  au_occurred_at :: timestamp

datatype exception_status = Pending | Approved | Rejected | Expired

record exception_row =
  ex_org :: int
  ex_rule :: string
  ex_justification :: string
  ex_requested_by :: string
  ex_reviewed_by :: "string option"
  ex_status :: exception_status
  ex_expires_at :: "timestamp option"
  ex_created_at :: timestamp

record webhook_row =
  wh_org :: int
  wh_url :: string
  wh_secret :: string
  wh_events :: "string list"
  wh_active :: bool
  wh_created_at :: timestamp

record server_db =
  organizations :: "organization_row table"
  users :: "user_row table"
  service_accounts :: "service_account_row table"
  enrollment_tokens :: "enrollment_row table"
  projects :: "project_row table"
  machines :: "machine_row table"
  snapshots :: "snapshot_row table"
  baselines :: "baseline_row table"
  project_members :: "member_row table"
  policies :: "policy_row table"
  audit_events :: "audit_row table"
  exceptions :: "exception_row table"
  webhooks :: "webhook_row table"
  retention_policies :: "(int \<times> (int \<times> int)) list"

text \<open>The \<open>UNIQUE\<close> columns.\<close>

definition project_key :: "project_row \<Rightarrow> int \<times> string" where
  "project_key r = (pj_org r, pj_name r)"

definition machine_key_of :: "machine_row \<Rightarrow> int \<times> string" where
  "machine_key_of r = (mc_org r, mc_key r)"

definition snapshot_key :: "snapshot_row \<Rightarrow> int \<times> string" where
  "snapshot_key r = (sn_machine r, sn_snapshot_id r)"

definition baseline_key :: "baseline_row \<Rightarrow> int \<times> string" where
  "baseline_key r = (bl_project r, bl_baseline_id r)"

definition member_key :: "member_row \<Rightarrow> int \<times> string" where
  "member_key r = (pm_project r, pm_email r)"

definition policy_key :: "policy_row \<Rightarrow> int \<times> string" where
  "policy_key r = (po_org r, po_name r)"

definition empty_db :: server_db where
  "empty_db = \<lparr>organizations = empty_table, users = empty_table, service_accounts = empty_table,
     enrollment_tokens = empty_table, projects = empty_table, machines = empty_table,
     snapshots = empty_table, baselines = empty_table, project_members = empty_table,
     policies = empty_table, audit_events = empty_table, exceptions = empty_table,
     webhooks = empty_table, retention_policies = []\<rparr>"

section \<open>The clock\<close>

type_synonym clock = "(int \<Rightarrow> timestamp) \<times> int"

definition now_of :: "clock \<Rightarrow> timestamp" where
  "now_of c = (case c of (render, t) \<Rightarrow> render t)"

definition days_from_now :: "clock \<Rightarrow> int \<Rightarrow> timestamp" where
  "days_from_now c days = (case c of (render, t) \<Rightarrow> render (t + days * 86400000000))"

section \<open>Organizations and users\<close>

definition create_organization :: "clock \<Rightarrow> string \<Rightarrow> server_db \<Rightarrow> db_error + (int \<times> server_db)" where
  "create_organization c name db =
     bind_res (insert_row og_name \<lparr>og_name = name, og_created_at = now_of c\<rparr> (organizations db))
       (\<lambda>(i, t). Inr (i, db\<lparr>organizations := t\<rparr>))"

definition create_user ::
  "clock \<Rightarrow> int \<Rightarrow> string \<Rightarrow> string \<Rightarrow> string \<Rightarrow> server_db \<Rightarrow> db_error + (int \<times> server_db)" where
  "create_user c org name email role db =
     (if role \<notin> {''admin'', ''maintainer'', ''viewer''} then Inl DbValueError
      else bind_res (insert_row u_email \<lparr>u_org = org, u_name = name, u_email = email, u_role = role,
                       u_created_at = now_of c\<rparr> (users db))
             (\<lambda>(i, t). Inr (i, db\<lparr>users := t\<rparr>)))"

definition get_user_role :: "string \<Rightarrow> server_db \<Rightarrow> string option" where
  "get_user_role email db = map_option (\<lambda>(i, r). u_role r) (find_by u_email email (users db))"

section \<open>Service accounts and enrolment\<close>

text \<open>\<open>secret\<close> is what \<open>secrets.token_urlsafe(32)\<close> returned.\<close>

definition create_service_account ::
  "(string \<Rightarrow> string) \<Rightarrow> clock \<Rightarrow> string \<Rightarrow> int \<Rightarrow> string \<Rightarrow> string \<Rightarrow> server_db \<Rightarrow>
    db_error + ((int \<times> string) \<times> server_db)" where
  "create_service_account sha c secret org name role db =
     (if role \<notin> {''admin'', ''maintainer'', ''viewer'', ''agent''} then Inl DbValueError
      else
        (let token = ''ddsa_'' @ secret in
         bind_res (insert_row sa_token_hash \<lparr>sa_org = org, sa_name = name, sa_role = role,
                     sa_token_hash = sha token, sa_scopes = [], sa_created_at = now_of c,
                     sa_revoked_at = None\<rparr> (service_accounts db))
           (\<lambda>(i, t). Inr ((i, token), db\<lparr>service_accounts := t\<rparr>))))"

record service_identity =
  si_id :: int
  si_org_id :: int
  si_name :: string
  si_role :: string

definition authenticate_service_token ::
  "(string \<Rightarrow> string) \<Rightarrow> string \<Rightarrow> server_db \<Rightarrow> service_identity option" where
  "authenticate_service_token sha token db =
     map_option (\<lambda>(i, r). \<lparr>si_id = i, si_org_id = sa_org r, si_name = sa_name r, si_role = sa_role r\<rparr>)
       (fetchone (select_rows (\<lambda>i r. sa_token_hash r = sha token \<and> sa_revoked_at r = None)
          (service_accounts db)))"

definition revoke_service_account :: "clock \<Rightarrow> int \<Rightarrow> server_db \<Rightarrow> server_db" where
  "revoke_service_account c account db =
     db\<lparr>service_accounts :=
          update_rows (\<lambda>i r. i = account) (\<lambda>r. r\<lparr>sa_revoked_at := Some (now_of c)\<rparr>)
            (service_accounts db)\<rparr>"

definition create_enrollment_token ::
  "(string \<Rightarrow> string) \<Rightarrow> clock \<Rightarrow> string \<Rightarrow> int \<Rightarrow> string \<Rightarrow> int \<Rightarrow> server_db \<Rightarrow>
    db_error + (string \<times> server_db)" where
  "create_enrollment_token sha c secret org label ttl_days db =
     (let token = ''dden_'' @ secret in
      bind_res (insert_row en_token_hash \<lparr>en_org = org, en_token_hash = sha token,
                  en_label = label, en_expires_at = Some (days_from_now c ttl_days),
                  en_used_by = None, en_created_at = now_of c, en_revoked_at = None\<rparr>
                 (enrollment_tokens db))
        (\<lambda>(i, t). Inr (token, db\<lparr>enrollment_tokens := t\<rparr>)))"

definition redeem_enrollment_token ::
  "(string \<Rightarrow> string) \<Rightarrow> clock \<Rightarrow> string \<Rightarrow> string \<Rightarrow> server_db \<Rightarrow>
    db_error + (int option \<times> server_db)" where
  "redeem_enrollment_token sha c token machine_key db =
     (case fetchone (select_rows (\<lambda>i r. en_token_hash r = sha token \<and> en_revoked_at r = None \<and>
                                    en_used_by r = None) (enrollment_tokens db)) of
        None \<Rightarrow> Inr (None, db)
      | Some (row_id, row) \<Rightarrow>
          if (case en_expires_at row of None \<Rightarrow> False | Some e \<Rightarrow> e \<noteq> [] \<and> e < now_of c)
          then Inr (None, db)
          else
            bind_res (insert_row machine_key_of \<lparr>mc_org = en_org row, mc_project = None,
                        mc_key = machine_key, mc_os_name = ''unknown'', mc_arch = ''unknown'',
                        mc_label = [], mc_enrolled_at = now_of c, mc_last_seen_at = None\<rparr>
                       (machines db))
              (\<lambda>(machine_id, t).
                 Inr (Some machine_id,
                      db\<lparr>machines := t,
                         enrollment_tokens :=
                           update_rows (\<lambda>i r. i = row_id) (\<lambda>r. r\<lparr>en_used_by := Some machine_id\<rparr>)
                             (enrollment_tokens db)\<rparr>)))"

section \<open>Projects, machines and snapshots\<close>

definition upsert_project ::
  "clock \<Rightarrow> int \<Rightarrow> string \<Rightarrow> string \<Rightarrow> server_db \<Rightarrow> db_error + (int \<times> server_db)" where
  "upsert_project c org name fingerprint db =
     (case find_by project_key (org, name) (projects db) of
        Some (row_id, row) \<Rightarrow>
          Inr (row_id, db\<lparr>projects :=
            update_rows (\<lambda>i r. i = row_id) (\<lambda>r. r\<lparr>pj_fingerprint := fingerprint\<rparr>) (projects db)\<rparr>)
      | None \<Rightarrow>
          bind_res (insert_row project_key \<lparr>pj_org = org, pj_name = name,
                      pj_fingerprint = fingerprint, pj_created_at = now_of c\<rparr> (projects db))
            (\<lambda>(i, t). Inr (i, db\<lparr>projects := t\<rparr>)))"

definition register_machine ::
  "clock \<Rightarrow> int \<Rightarrow> string \<Rightarrow> string \<Rightarrow> string \<Rightarrow> server_db \<Rightarrow> db_error + (int \<times> server_db)" where
  "register_machine c org machine_key os_name arch db =
     (case find_by machine_key_of (org, machine_key) (machines db) of
        Some (row_id, row) \<Rightarrow>
          Inr (row_id, db\<lparr>machines :=
            update_rows (\<lambda>i r. i = row_id)
              (\<lambda>r. r\<lparr>mc_os_name := os_name, mc_arch := arch, mc_last_seen_at := Some (now_of c)\<rparr>)
              (machines db)\<rparr>)
      | None \<Rightarrow>
          bind_res (insert_row machine_key_of \<lparr>mc_org = org, mc_project = None,
                      mc_key = machine_key, mc_os_name = os_name, mc_arch = arch, mc_label = [],
                      mc_enrolled_at = now_of c, mc_last_seen_at = Some (now_of c)\<rparr> (machines db))
            (\<lambda>(i, t). Inr (i, db\<lparr>machines := t\<rparr>)))"

definition snapshot_id_of :: "(string \<times> json) list \<Rightarrow> string" where
  "snapshot_id_of snap =
     py_str (if py_truth (dict_get snap ''snapshot_id'') then dict_get snap ''snapshot_id''
             else if py_truth (dict_get snap ''id'') then dict_get snap ''id'' else JStr [])"

definition store_snapshot ::
  "(string \<Rightarrow> string) \<Rightarrow> clock \<Rightarrow> int \<Rightarrow> (string \<times> json) list \<Rightarrow> server_db \<Rightarrow>
    db_error + (bool \<times> server_db)" where
  "store_snapshot sha c machine snap db =
     (let sid = snapshot_id_of snap in
      if sid = [] then Inl DbValueError
      else
        (case insert_row snapshot_key \<lparr>sn_machine = machine, sn_snapshot_id = sid,
                sn_payload = JObj snap, sn_privacy_state = ''sanitized'',
                sn_checksum = sha (dump_spaced (sort_keys (JObj snap))),
                sn_received_at = now_of c\<rparr> (snapshots db) of
           Inl IntegrityError \<Rightarrow> Inr (False, db)
         | Inl err \<Rightarrow> Inl err
         | Inr (i, t) \<Rightarrow> Inr (True, db\<lparr>snapshots := t\<rparr>)))"

text \<open>The snapshots of an organization, joined with their machines, newest first.\<close>

definition org_snapshots :: "int \<Rightarrow> nat \<Rightarrow> server_db \<Rightarrow> (snapshot_row \<times> machine_row) list" where
  "org_snapshots org limit db =
     take limit (order_desc (\<lambda>(s, m). sn_received_at s)
       (concat (map (\<lambda>(i, s). map (\<lambda>(j, m). (s, m))
          (select_rows (\<lambda>j m. j = sn_machine s \<and> mc_org m = org) (machines db)))
          (tb_rows (snapshots db)))))"

record snapshot_listing =
  sl_snapshot_id :: string
  sl_received_at :: timestamp
  sl_checksum :: string
  sl_machine_key :: string
  sl_os_name :: string
  sl_arch :: string

definition list_snapshots :: "int \<Rightarrow> nat \<Rightarrow> server_db \<Rightarrow> snapshot_listing list" where
  "list_snapshots org limit db =
     map (\<lambda>(s, m). \<lparr>sl_snapshot_id = sn_snapshot_id s, sl_received_at = sn_received_at s,
            sl_checksum = sn_checksum s, sl_machine_key = mc_key m, sl_os_name = mc_os_name m,
            sl_arch = mc_arch m\<rparr>) (org_snapshots org limit db)"

definition enrolment_rows :: "int \<Rightarrow> server_db \<Rightarrow> (int \<times> timestamp) list" where
  "enrolment_rows org db =
     map (\<lambda>(i, m). (i, mc_enrolled_at m)) (select_rows (\<lambda>i m. mc_org m = org) (machines db))"

section \<open>Facts of stored snapshots\<close>

text \<open>\<open>str.upper\<close> on the letters of ASCII.\<close>

definition ascii_upper :: "string \<Rightarrow> string" where
  "ascii_upper s = map (\<lambda>c. if is_lower c then char_of ((of_char c :: nat) - 32) else c) s"

definition payload_states :: "json list \<Rightarrow> string set" where
  "payload_states fs =
     set (concat (map (\<lambda>f. case f of
        JObj d \<Rightarrow> [ascii_upper (py_str (case map_of d ''state'' of None \<Rightarrow> JStr [] | Some v \<Rightarrow> v))]
      | _ \<Rightarrow> []) fs))"

definition verdict_from_payload :: "(string \<times> json) list \<Rightarrow> string" where
  "verdict_from_payload payload =
     (case dict_get payload ''findings'' of
        JList fs \<Rightarrow>
          (let states = payload_states fs in
           if ''BLOCKED'' \<in> states \<or> ''ERROR'' \<in> states then ''BLOCKED''
           else if ''WARN'' \<in> states \<or> ''UNKNOWN'' \<in> states then ''READY_WITH_WARNINGS''
           else ''READY'')
      | _ \<Rightarrow> ''UNKNOWN'')"

text \<open>What a \<open>for\<close> loop sees of a value read from JSON.\<close>

fun py_iter :: "json \<Rightarrow> db_error + json list" where
  "py_iter (JList vs) = Inr vs"
| "py_iter (JObj kvs) = Inr (map (\<lambda>(k, v). JStr k) kvs)"
| "py_iter (JStr s) = Inr (map (\<lambda>c. JStr [c]) s)"
| "py_iter _ = Inl DbTypeError"

definition fact_tool_step :: "json \<Rightarrow> (string \<times> string) list \<Rightarrow> (string \<times> string) list" where
  "fact_tool_step tool tools =
     (case tool of
        JObj d \<Rightarrow>
          if \<not> py_truth (dict_get d ''is_active'') then tools
          else
            (case dict_get d ''name'' of
               JStr name \<Rightarrow>
                 let version = dict_get d ''version'' in
                 if py_truth version \<and> (map_of tools name = None \<or> map_of tools name = Some [])
                 then dict_set name (py_str version) tools else tools
             | _ \<Rightarrow> tools)
      | _ \<Rightarrow> tools)"

record snapshot_fact =
  sf_machine_id :: int
  sf_created_at :: json
  sf_verdict :: string
  sf_tools :: "(string \<times> string) list"

definition fact_of_row :: "snapshot_row \<Rightarrow> db_error + snapshot_fact list" where
  "fact_of_row s =
     (case sn_payload s of
        JObj payload \<Rightarrow>
          let tools = dict_get payload ''tools'' in
          bind_res (py_iter (if py_truth tools then tools else JList [])) (\<lambda>ts.
            Inr [\<lparr>sf_machine_id = sn_machine s,
                  sf_created_at = (let at = dict_get payload ''created_at'' in
                                   if py_truth at then at else JStr (sn_received_at s)),
                  sf_verdict = verdict_from_payload payload,
                  sf_tools = fold fact_tool_step ts []\<rparr>])
      | _ \<Rightarrow> Inr [])"

definition snapshot_facts :: "int \<Rightarrow> nat \<Rightarrow> server_db \<Rightarrow> db_error + snapshot_fact list" where
  "snapshot_facts org limit db =
     bind_res (map_res (\<lambda>(s, m). fact_of_row s) (org_snapshots org limit db)) (\<lambda>fs. Inr (concat fs))"

section \<open>Teams, baselines and policies\<close>

definition add_project_member ::
  "clock \<Rightarrow> int \<Rightarrow> string \<Rightarrow> string \<Rightarrow> server_db \<Rightarrow> server_db" where
  "add_project_member c project email role db =
     db\<lparr>project_members := snd (replace_row member_key
          \<lparr>pm_project = project, pm_email = email, pm_role = role, pm_created_at = now_of c\<rparr>
          (project_members db))\<rparr>"

definition members_of :: "int \<Rightarrow> server_db \<Rightarrow> (string \<times> string) list" where
  "members_of project db =
     map (\<lambda>(i, r). (pm_email r, pm_role r))
       (sort_key (\<lambda>(i, r). pm_email r) (select_rows (\<lambda>i r. pm_project r = project) (project_members db)))"

definition may_administer_project :: "int \<Rightarrow> string \<Rightarrow> string \<Rightarrow> server_db \<Rightarrow> bool" where
  "may_administer_project project email org_role db =
     (if org_role = ''admin'' then True
      else
        (let members = members_of project db in
         if members = [] then True
         else list_ex (\<lambda>(e, role). e = email \<and> role \<in> {''admin'', ''maintainer''}) members))"

definition approve_baseline ::
  "clock \<Rightarrow> int \<Rightarrow> (string \<times> json) list \<Rightarrow> string \<Rightarrow> server_db \<Rightarrow> string \<times> server_db" where
  "approve_baseline c project baseline approver db =
     (let b = dict_get baseline ''baseline_id''; bid = py_str (if py_truth b then b else JStr []) in
      (bid, db\<lparr>baselines := snd (replace_row baseline_key
          \<lparr>bl_project = project, bl_baseline_id = bid, bl_payload = JObj baseline,
            bl_approved_by = map_option fst (find_by u_email approver (users db)),
            bl_created_at = now_of c\<rparr> (baselines db))\<rparr>))"

definition latest_baseline :: "int \<Rightarrow> server_db \<Rightarrow> json option" where
  "latest_baseline project db =
     fetchone (map (\<lambda>(i, r). bl_payload r) (order_desc (\<lambda>(i, r). bl_created_at r)
       (select_rows (\<lambda>i r. bl_project r = project) (baselines db))))"

definition set_policy ::
  "clock \<Rightarrow> int \<Rightarrow> string \<Rightarrow> json \<Rightarrow> server_db \<Rightarrow> db_error + (int \<times> server_db)" where
  "set_policy c org name document db =
     bind_res (insert_row policy_key \<lparr>po_org = org, po_name = name, po_document = document,
                 po_version = 1, po_active = True, po_created_at = now_of c\<rparr> (policies db))
       (\<lambda>(i, t). Inr (i, db\<lparr>policies := t\<rparr>))"

definition active_policy :: "int \<Rightarrow> string \<Rightarrow> server_db \<Rightarrow> json option" where
  "active_policy org name db =
     fetchone (map (\<lambda>(i, r). po_document r) (order_desc (\<lambda>(i, r). po_version r)
       (select_rows (\<lambda>i r. po_org r = org \<and> po_name r = name \<and> po_active r) (policies db))))"

section \<open>Audit, exceptions, webhooks and retention\<close>

definition audit :: "clock \<Rightarrow> int \<Rightarrow> string \<Rightarrow> string \<Rightarrow> string \<Rightarrow> json \<Rightarrow> server_db \<Rightarrow> server_db" where
  "audit c org actor action target detail db =
     db\<lparr>audit_events := snd (append_row \<lparr>au_org = org, au_actor = actor, au_action = action,
          au_target = target, au_detail = detail, au_occurred_at = now_of c\<rparr> (audit_events db))\<rparr>"

definition audit_log :: "int \<Rightarrow> nat \<Rightarrow> server_db \<Rightarrow> audit_row list" where
  "audit_log org limit db =
     take limit (map snd (order_desc fst (select_rows (\<lambda>i r. au_org r = org) (audit_events db))))"

definition request_exception ::
  "clock \<Rightarrow> int \<Rightarrow> string \<Rightarrow> string \<Rightarrow> string \<Rightarrow> int \<Rightarrow> server_db \<Rightarrow> int \<times> server_db" where
  "request_exception c org rule justification requester days db =
     (case append_row \<lparr>ex_org = org, ex_rule = rule, ex_justification = justification,
             ex_requested_by = requester, ex_reviewed_by = None, ex_status = Pending,
             ex_expires_at = Some (days_from_now c days), ex_created_at = now_of c\<rparr>
             (exceptions db) of
        (i, t) \<Rightarrow> (i, db\<lparr>exceptions := t\<rparr>))"

definition review_exception :: "int \<Rightarrow> string \<Rightarrow> bool \<Rightarrow> server_db \<Rightarrow> bool \<times> server_db" where
  "review_exception exception_id reviewer approve db =
     (let P = (\<lambda>i r. i = exception_id \<and> ex_status r = Pending) in
      (select_rows P (exceptions db) \<noteq> [],
       db\<lparr>exceptions := update_rows P
            (\<lambda>r. r\<lparr>ex_status := if approve then Approved else Rejected, ex_reviewed_by := Some reviewer\<rparr>)
            (exceptions db)\<rparr>))"

definition active_exceptions :: "clock \<Rightarrow> int \<Rightarrow> server_db \<Rightarrow> (string \<times> timestamp option) list" where
  "active_exceptions c org db =
     map (\<lambda>(i, r). (ex_rule r, ex_expires_at r))
       (select_rows (\<lambda>i r. ex_org r = org \<and> ex_status r = Approved \<and>
          (case ex_expires_at r of None \<Rightarrow> True | Some e \<Rightarrow> now_of c < e)) (exceptions db))"

definition add_webhook ::
  "clock \<Rightarrow> int \<Rightarrow> string \<Rightarrow> string \<Rightarrow> string list \<Rightarrow> server_db \<Rightarrow> int \<times> server_db" where
  "add_webhook c org url secret events db =
     (case append_row \<lparr>wh_org = org, wh_url = url, wh_secret = secret, wh_events = events,
             wh_active = True, wh_created_at = now_of c\<rparr> (webhooks db) of
        (i, t) \<Rightarrow> (i, db\<lparr>webhooks := t\<rparr>))"

definition webhooks_for :: "int \<Rightarrow> string \<Rightarrow> server_db \<Rightarrow> (int \<times> webhook_row) list" where
  "webhooks_for org event db =
     filter (\<lambda>(i, r). event \<in> set (wh_events r) \<or> ''*'' \<in> set (wh_events r))
       (select_rows (\<lambda>i r. wh_org r = org \<and> wh_active r) (webhooks db))"

definition set_retention :: "int \<Rightarrow> int \<Rightarrow> int \<Rightarrow> server_db \<Rightarrow> server_db" where
  "set_retention org snapshot_days audit_days db =
     db\<lparr>retention_policies := dict_set org (snapshot_days, audit_days) (retention_policies db)\<rparr>"

definition apply_retention :: "clock \<Rightarrow> int \<Rightarrow> server_db \<Rightarrow> (nat \<times> nat) \<times> server_db" where
  "apply_retention c org db =
     (let (snap_days, audit_days) =
            (case map_of (retention_policies db) org of None \<Rightarrow> (90, 365) | Some p \<Rightarrow> p);
          snap_cutoff = days_from_now c (- snap_days);
          audit_cutoff = days_from_now c (- audit_days);
          S = (\<lambda>i s. sn_received_at s < snap_cutoff \<and>
                 sn_machine s \<in> fst ` set (select_rows (\<lambda>j m. mc_org m = org) (machines db)));
          A = (\<lambda>i a. au_org a = org \<and> au_occurred_at a < audit_cutoff)
      in ((length (select_rows S (snapshots db)), length (select_rows A (audit_events db))),
          db\<lparr>snapshots := delete_rows S (snapshots db),
             audit_events := delete_rows A (audit_events db)\<rparr>))"

definition organization_count :: "server_db \<Rightarrow> nat" where
  "organization_count db = length (tb_rows (organizations db))"

section \<open>Tables with a key\<close>

text \<open>What a client of a table with a uniqueness constraint relies on.\<close>

locale unique_store =
  fixes ins :: "'r \<Rightarrow> 't \<Rightarrow> db_error + (int \<times> 't)"
    and look :: "'k \<Rightarrow> 't \<Rightarrow> (int \<times> 'r) option"
    and key :: "'r \<Rightarrow> 'k"
    and ok :: "'t \<Rightarrow> bool"
  assumes ins_fresh: "ok t \<Longrightarrow> look (key r) t = None \<Longrightarrow>
      \<exists>i t'. ins r t = Inr (i, t') \<and> ok t' \<and> look (key r) t' = Some (i, r) \<and>
             (\<forall>k. k \<noteq> key r \<longrightarrow> look k t' = look k t)"
    and ins_taken: "ok t \<Longrightarrow> look (key r) t = Some x \<Longrightarrow> ins r t = Inl IntegrityError"
begin

lemma ins_Inr:
  assumes "ok t" and "ins r t = Inr (i, t')"
  shows "ok t'" and "look (key r) t = None" and "look (key r) t' = Some (i, r)"
    and "k \<noteq> key r \<Longrightarrow> look k t' = look k t"
proof -
  show none: "look (key r) t = None"
    using ins_taken [OF assms(1), of r] assms(2) by (cases "look (key r) t") auto
  from ins_fresh [OF assms(1) none] assms(2)
  show "ok t'" "look (key r) t' = Some (i, r)" "k \<noteq> key r \<Longrightarrow> look k t' = look k t" by auto
qed

lemma ins_again:
  assumes "ok t" and "ins r t = Inr (i, t')" and "key r' = key r"
  shows "ins r' t' = Inl IntegrityError"
  using ins_taken [of t' r'] ins_Inr [OF assms(1,2)] assms(3) by simp

lemma ins_Inl: "ok t \<Longrightarrow> ins r t = Inl e \<Longrightarrow> e = IntegrityError \<and> look (key r) t \<noteq> None"
  using ins_fresh [of t r] ins_taken [of t r] by (cases "look (key r) t") auto

end

lemma fetchone_None: "fetchone xs = None \<longleftrightarrow> xs = []"
  by (simp add: fetchone_def split: list.splits)

lemma fetchone_Some: "fetchone xs = Some x \<Longrightarrow> x \<in> set xs"
  by (auto simp: fetchone_def split: list.splits)

lemma find_by_None: "find_by key k t = None \<longleftrightarrow> k \<notin> (\<lambda>(i, x). key x) ` set (tb_rows t)"
  unfolding find_by_def fetchone_None select_rows_def filter_empty_conv by fastforce

lemma find_by_Some: "find_by key k t = Some (i, x) \<Longrightarrow> (i, x) \<in> set (tb_rows t) \<and> key x = k"
  using fetchone_Some [of _ "(i, x)"] by (fastforce simp: find_by_def select_rows_def)

lemma insert_row_store: "unique_store (insert_row key) (find_by key) key (table_ok key)"
proof
  fix t :: "'a table" and r
  assume ok: "table_ok key t" and none: "find_by key (key r) t = None"
  let ?i = "tb_seq t + 1"
  let ?t = "\<lparr>tb_seq = ?i, tb_rows = tb_rows t @ [(?i, r)]\<rparr>"
  have fresh: "?i \<notin> fst ` set (tb_rows t)" using ok by (fastforce simp: table_ok_def)
  have new: "key r \<notin> (\<lambda>(i, x). key x) ` set (tb_rows t)" using none by (simp add: find_by_None)
  have "insert_row key r t = Inr (?i, ?t)"
    using new by (simp add: insert_row_def append_row_def Let_def)
  moreover have "table_ok key ?t"
    unfolding table_ok_def
  proof (intro conjI)
    show "\<forall>(i, x) \<in> set (tb_rows ?t). 0 < i \<and> i \<le> tb_seq ?t"
      using ok by (fastforce simp: table_ok_def)
  qed (use ok fresh new in \<open>auto simp: table_ok_def\<close>)
  moreover have "filter (\<lambda>(i, x). key x = key r) (tb_rows t) = []"
    using none by (simp add: find_by_def select_rows_def fetchone_None)
  then have "find_by key (key r) ?t = Some (?i, r)"
    by (simp add: find_by_def select_rows_def fetchone_def)
  moreover have "find_by key k ?t = find_by key k t" if "k \<noteq> key r" for k
    using that by (simp add: find_by_def select_rows_def)
  ultimately show "\<exists>i t'. insert_row key r t = Inr (i, t') \<and> table_ok key t' \<and>
      find_by key (key r) t' = Some (i, r) \<and> (\<forall>k. k \<noteq> key r \<longrightarrow> find_by key k t' = find_by key k t)"
    by blast
next
  fix t :: "'a table" and r x
  assume "find_by key (key r) t = Some x"
  then have "\<not> find_by key (key r) t = None" by simp
  then show "insert_row key r t = Inl IntegrityError" by (simp add: find_by_None insert_row_def)
qed

interpretation organization_store:
  unique_store "insert_row og_name" "find_by og_name" og_name "table_ok og_name"
  by (rule insert_row_store)

interpretation user_store:
  unique_store "insert_row u_email" "find_by u_email" u_email "table_ok u_email"
  by (rule insert_row_store)

interpretation account_store:
  unique_store "insert_row sa_token_hash" "find_by sa_token_hash" sa_token_hash "table_ok sa_token_hash"
  by (rule insert_row_store)

interpretation enrollment_store:
  unique_store "insert_row en_token_hash" "find_by en_token_hash" en_token_hash "table_ok en_token_hash"
  by (rule insert_row_store)

interpretation project_store:
  unique_store "insert_row project_key" "find_by project_key" project_key "table_ok project_key"
  by (rule insert_row_store)

interpretation machine_store:
  unique_store "insert_row machine_key_of" "find_by machine_key_of" machine_key_of "table_ok machine_key_of"
  by (rule insert_row_store)

interpretation snapshot_store:
  unique_store "insert_row snapshot_key" "find_by snapshot_key" snapshot_key "table_ok snapshot_key"
  by (rule insert_row_store)

interpretation policy_store:
  unique_store "insert_row policy_key" "find_by policy_key" policy_key "table_ok policy_key"
  by (rule insert_row_store)

lemma table_ok_update:
  assumes "table_ok key t" and "\<And>x. key (f x) = key x"
  shows "table_ok key (update_rows P f t)"
proof -
  have "map fst (tb_rows (update_rows P f t)) = map fst (tb_rows t)"
    and "map (\<lambda>(i, x). key x) (tb_rows (update_rows P f t)) = map (\<lambda>(i, x). key x) (tb_rows t)"
    using assms(2) by (auto simp: update_rows_def split: prod.splits)
  moreover have "\<forall>(i, x) \<in> set (tb_rows (update_rows P f t)). 0 < i \<and> i \<le> tb_seq t"
    using assms(1) by (auto simp: update_rows_def table_ok_def split: if_splits)
  moreover have "tb_seq (update_rows P f t) = tb_seq t" by (simp add: update_rows_def)
  ultimately show ?thesis using assms(1) unfolding table_ok_def by simp
qed

lemma distinct_map_filter': "distinct (map f xs) \<Longrightarrow> distinct (map f (filter P xs))"
  by (induction xs) auto

lemma table_ok_delete: "table_ok key t \<Longrightarrow> table_ok key (delete_rows P t)"
  by (auto simp: table_ok_def delete_rows_def intro!: distinct_map_filter')

lemma table_ok_replace:
  assumes "table_ok key t"
  shows "table_ok key (snd (replace_row key r t))"
proof -
  let ?t = "t\<lparr>tb_rows := filter (\<lambda>(i, x). key x \<noteq> key r) (tb_rows t)\<rparr>"
  have ok: "table_ok key ?t"
    using assms table_ok_delete [of key t "\<lambda>i x. key x = key r"]
    by (simp add: delete_rows_def case_prod_unfold)
  have "find_by key (key r) ?t = None" by (auto simp: find_by_None)
  then have "insert_row key r ?t = Inr (append_row r ?t)" by (simp add: find_by_None insert_row_def)
  moreover obtain i t' where "append_row r ?t = (i, t')" by force
  ultimately show ?thesis
    using unique_store.ins_Inr(1) [OF insert_row_store ok] by (simp add: replace_row_def)
qed

lemma table_ok_empty [simp]: "table_ok key empty_table"
  by (simp add: table_ok_def empty_table_def)

section \<open>The steps of the server\<close>

inductive db_step :: "(string \<Rightarrow> string) \<Rightarrow> server_db \<Rightarrow> server_db \<Rightarrow> bool" for sha where
  step_organization: "create_organization c name db = Inr (i, db') \<Longrightarrow> db_step sha db db'"
| step_user: "create_user c org name email role db = Inr (i, db') \<Longrightarrow> db_step sha db db'"
| step_account: "create_service_account sha c secret org name role db = Inr (r, db') \<Longrightarrow> db_step sha db db'"
| step_revoke: "db_step sha db (revoke_service_account c account db)"
| step_enrollment: "create_enrollment_token sha c secret org label ttl db = Inr (token, db') \<Longrightarrow> db_step sha db db'"
| step_redeem: "redeem_enrollment_token sha c token mkey db = Inr (m, db') \<Longrightarrow> db_step sha db db'"
| step_project: "upsert_project c org name fingerprint db = Inr (i, db') \<Longrightarrow> db_step sha db db'"
| step_machine: "register_machine c org mkey os_name arch db = Inr (i, db') \<Longrightarrow> db_step sha db db'"
| step_snapshot: "store_snapshot sha c machine snap db = Inr (b, db') \<Longrightarrow> db_step sha db db'"
| step_member: "db_step sha db (add_project_member c project email role db)"
| step_baseline: "approve_baseline c project baseline approver db = (bid, db') \<Longrightarrow> db_step sha db db'"
| step_policy: "set_policy c org name document db = Inr (i, db') \<Longrightarrow> db_step sha db db'"
| step_audit: "db_step sha db (audit c org actor action target detail db)"
| step_request: "request_exception c org rule justification requester days db = (i, db') \<Longrightarrow> db_step sha db db'"
| step_review: "review_exception ex reviewer approve db = (b, db') \<Longrightarrow> db_step sha db db'"
| step_webhook: "add_webhook c org url secret events db = (i, db') \<Longrightarrow> db_step sha db db'"
| step_retention: "db_step sha db (set_retention org days adays db)"
| step_apply: "apply_retention c org db = (n, db') \<Longrightarrow> db_step sha db db'"

definition db_reachable :: "(string \<Rightarrow> string) \<Rightarrow> server_db \<Rightarrow> bool" where
  "db_reachable sha db \<longleftrightarrow> (db_step sha)\<^sup>*\<^sup>* empty_db db"

lemmas db_ops = create_organization_def create_user_def create_service_account_def
  revoke_service_account_def create_enrollment_token_def redeem_enrollment_token_def
  upsert_project_def register_machine_def store_snapshot_def add_project_member_def
  approve_baseline_def set_policy_def audit_def request_exception_def review_exception_def
  add_webhook_def set_retention_def apply_retention_def

lemma redeem_cases:
  assumes "redeem_enrollment_token sha c token mkey db = Inr (m, db')"
  obtains (no) "m = None" and "db' = db"
  | (yes) row_id row mid t where "m = Some mid"
      "fetchone (select_rows (\<lambda>i r. en_token_hash r = sha token \<and> en_revoked_at r = None \<and>
          en_used_by r = None) (enrollment_tokens db)) = Some (row_id, row)"
      "insert_row machine_key_of \<lparr>mc_org = en_org row, mc_project = None, mc_key = mkey,
          mc_os_name = ''unknown'', mc_arch = ''unknown'', mc_label = [],
          mc_enrolled_at = now_of c, mc_last_seen_at = None\<rparr> (machines db) = Inr (mid, t)"
      "db' = db\<lparr>machines := t, enrollment_tokens :=
          update_rows (\<lambda>i r. i = row_id) (\<lambda>r. r\<lparr>en_used_by := Some mid\<rparr>) (enrollment_tokens db)\<rparr>"
proof (cases "fetchone (select_rows (\<lambda>i r. en_token_hash r = sha token \<and> en_revoked_at r = None \<and>
          en_used_by r = None) (enrollment_tokens db))")
  case None
  then show ?thesis using assms no unfolding redeem_enrollment_token_def by simp
next
  case (Some ir)
  obtain row_id row where ir: "ir = (row_id, row)" by force
  show ?thesis
  proof (cases "case en_expires_at row of None \<Rightarrow> False | Some e \<Rightarrow> e \<noteq> [] \<and> e < now_of c")
    case True
    then show ?thesis using assms Some ir no by (simp add: redeem_enrollment_token_def)
  next
    case False
    let ?ins = "insert_row machine_key_of \<lparr>mc_org = en_org row, mc_project = None, mc_key = mkey,
          mc_os_name = ''unknown'', mc_arch = ''unknown'', mc_label = [],
          mc_enrolled_at = now_of c, mc_last_seen_at = None\<rparr> (machines db)"
    have eq: "redeem_enrollment_token sha c token mkey db = bind_res ?ins
       (\<lambda>(machine_id, t). Inr (Some machine_id, db\<lparr>machines := t, enrollment_tokens :=
          update_rows (\<lambda>i r. i = row_id) (\<lambda>r. r\<lparr>en_used_by := Some machine_id\<rparr>) (enrollment_tokens db)\<rparr>))"
      using False Some ir by (simp add: redeem_enrollment_token_def)
    show ?thesis
    proof (cases ?ins)
      case (Inr mt)
      obtain mid t where mt: "mt = (mid, t)" by force
      have "m = Some mid" and "db' = db\<lparr>machines := t, enrollment_tokens :=
          update_rows (\<lambda>i r. i = row_id) (\<lambda>r. r\<lparr>en_used_by := Some mid\<rparr>) (enrollment_tokens db)\<rparr>"
        using assms Inr mt unfolding eq by auto
      then show ?thesis using Some Inr unfolding ir mt by (intro yes)
    qed (use assms eq in simp)
  qed
qed

lemma redeem_token_table:
  assumes "redeem_enrollment_token sha c token mkey db = Inr (m, db')"
  shows "enrollment_tokens db' = enrollment_tokens db \<or> (\<exists>row_id m. enrollment_tokens db' =
        update_rows (\<lambda>i r. i = row_id) (\<lambda>r. r\<lparr>en_used_by := Some m\<rparr>) (enrollment_tokens db))"
  using assms by (rule redeem_cases) (simp_all, blast)

text \<open>What one step can do to each table that carries a promise.\<close>

lemma step_enrollment_tokens:
  assumes "db_step sha db db'"
  shows "enrollment_tokens db' = enrollment_tokens db \<or>
     (\<exists>r i. insert_row en_token_hash r (enrollment_tokens db) = Inr (i, enrollment_tokens db') \<and> en_used_by r = None) \<or>
     (\<exists>row_id m. enrollment_tokens db' =
        update_rows (\<lambda>i r. i = row_id) (\<lambda>r. r\<lparr>en_used_by := Some m\<rparr>) (enrollment_tokens db))"
  using assms
proof cases
  case (step_enrollment c secret org label ttl token)
  then show ?thesis by (fastforce simp: create_enrollment_token_def result_simps Let_def)
next
  case (step_redeem c token mkey m)
  then show ?thesis using redeem_token_table by blast
qed (rule disjI1, (auto simp: db_ops result_simps Let_def
      split: option.splits if_splits sum.splits db_error.splits prod.splits)[1])+

lemma step_service_accounts:
  assumes "db_step sha db db'"
  shows "service_accounts db' = service_accounts db \<or>
     (\<exists>r i. insert_row sa_token_hash r (service_accounts db) = Inr (i, service_accounts db')) \<or>
     (\<exists>account c. service_accounts db' =
        update_rows (\<lambda>i r. i = account) (\<lambda>r. r\<lparr>sa_revoked_at := Some (now_of c)\<rparr>) (service_accounts db))"
  using assms
proof cases
  case (step_account c secret org name role r)
  then show ?thesis by (auto simp: create_service_account_def result_simps Let_def split: if_splits)
next
  case (step_revoke c account)
  then have "service_accounts db' = update_rows (\<lambda>i r. i = account)
      (\<lambda>r. r\<lparr>sa_revoked_at := Some (now_of c)\<rparr>) (service_accounts db)"
    by (simp add: revoke_service_account_def)
  then show ?thesis by blast
next
  case (step_redeem c token mkey m)
  from step_redeem(1) show ?thesis by (rule redeem_cases) auto
qed (rule disjI1, (auto simp: db_ops result_simps Let_def
      split: option.splits if_splits sum.splits db_error.splits prod.splits)[1])+

lemma step_exceptions:
  assumes "db_step sha db db'"
  shows "exceptions db' = exceptions db \<or>
     (\<exists>r i. (i, exceptions db') = append_row r (exceptions db) \<and> ex_status r = Pending) \<or>
     (\<exists>k s w. exceptions db' =
        update_rows (\<lambda>i r. i = k \<and> ex_status r = Pending)
          (\<lambda>r. r\<lparr>ex_status := if s then Approved else Rejected, ex_reviewed_by := Some w\<rparr>) (exceptions db))"
  using assms
proof cases
  case (step_request c org rule justification requester days i)
  then have "(i, exceptions db') = append_row \<lparr>ex_org = org, ex_rule = rule, ex_justification = justification,
             ex_requested_by = requester, ex_reviewed_by = None, ex_status = Pending,
             ex_expires_at = Some (days_from_now c days), ex_created_at = now_of c\<rparr> (exceptions db)"
    by (auto simp: request_exception_def split: prod.splits)
  moreover have "ex_status \<lparr>ex_org = org, ex_rule = rule, ex_justification = justification,
             ex_requested_by = requester, ex_reviewed_by = None, ex_status = Pending,
             ex_expires_at = Some (days_from_now c days), ex_created_at = now_of c\<rparr> = Pending"
    by simp
  ultimately show ?thesis by blast
next
  case (step_review ex reviewer approve b)
  then have "exceptions db' = update_rows (\<lambda>i r. i = ex \<and> ex_status r = Pending)
      (\<lambda>r. r\<lparr>ex_status := if approve then Approved else Rejected, ex_reviewed_by := Some reviewer\<rparr>)
      (exceptions db)" by (auto simp: review_exception_def Let_def)
  then show ?thesis by blast
next
  case (step_redeem c token mkey m)
  from step_redeem(1) show ?thesis by (rule redeem_cases) auto
qed (rule disjI1, (auto simp: db_ops result_simps Let_def
      split: option.splits if_splits sum.splits db_error.splits prod.splits)[1])+

section \<open>What stays true\<close>

text \<open>The row behind an id; ids and rows of a table only ever change through the steps.\<close>

definition row_of :: "'r table \<Rightarrow> int \<Rightarrow> 'r option" where
  "row_of t i = map_of (tb_rows t) i"

lemma tb_rows_update [simp]:
  "tb_rows (update_rows P f t) = map (\<lambda>(i, x). if P i x then (i, f x) else (i, x)) (tb_rows t)"
  by (simp add: update_rows_def)

lemma insert_row_rows:
  "insert_row key r t = Inr (i, t') \<Longrightarrow> tb_rows t' = tb_rows t @ [(i, r)] \<and> key r \<notin> (\<lambda>(i, x). key x) ` set (tb_rows t)"
  by (auto simp: insert_row_def append_row_def Let_def split: if_splits)

lemma db_steps_invariant:
  assumes "(db_step sha)\<^sup>*\<^sup>* db db'" and "P db"
    and "\<And>a b. db_step sha a b \<Longrightarrow> P a \<Longrightarrow> P b"
  shows "P db'"
  using assms(1,2) by (induction rule: rtranclp_induct) (auto intro: assms(3))

text \<open>A key whose row is there and has a mark that the updates never take away.\<close>

definition marked :: "('r \<Rightarrow> 'k) \<Rightarrow> ('r \<Rightarrow> bool) \<Rightarrow> 'k \<Rightarrow> 'r table \<Rightarrow> bool" where
  "marked key Q k t \<longleftrightarrow>
     k \<in> key ` snd ` set (tb_rows t) \<and> (\<forall>x \<in> snd ` set (tb_rows t). key x = k \<longrightarrow> Q x)"

lemma marked_insert:
  assumes "insert_row key r t = Inr (i, t')" and "marked key Q k t"
  shows "marked key Q k t'"
proof -
  have "key r \<notin> key ` snd ` set (tb_rows t)" using insert_row_rows [OF assms(1)] by (force simp: image_iff)
  then show ?thesis using insert_row_rows [OF assms(1)] assms(2) by (auto simp: marked_def)
qed

lemma snd_update_rows:
  "snd ` set (tb_rows (update_rows P f t)) =
     {if P i x then f x else x | i x. (i, x) \<in> set (tb_rows t)}"
  by (force simp: image_iff split: if_splits)

lemma marked_update:
  assumes "marked key Q k t" and "\<And>x. key (f x) = key x" and "\<And>x. Q x \<Longrightarrow> Q (f x)"
  shows "marked key Q k (update_rows P f t)"
proof -
  obtain i x where x: "(i, x) \<in> set (tb_rows t)" "key x = k" using assms(1) by (auto simp: marked_def)
  then have "key (if P i x then f x else x) = k" using assms(2) by simp
  with x(1) have "k \<in> key ` snd ` set (tb_rows (update_rows P f t))"
    unfolding snd_update_rows by blast
  moreover have "Q x" if "(i, x) \<in> set (tb_rows t)" "key x = k" for i x
    using assms(1) that by (force simp: marked_def)
  ultimately show ?thesis
    unfolding marked_def snd_update_rows using assms(2,3) by (auto split: if_splits)
qed

lemma marked_once:
  assumes "table_ok key t" and "(i, x) \<in> set (tb_rows t)" and "key x = k"
    and "\<And>x. key (f x) = key x" and "Q (f x)"
  shows "marked key Q k (update_rows (\<lambda>j y. j = i) f t)"
proof -
  have inj: "inj_on (\<lambda>(i, x). key x) (set (tb_rows t))"
    using assms(1) by (simp add: table_ok_def distinct_map)
  have same: "j = i \<and> y = x" if "(j, y) \<in> set (tb_rows t)" "key y = k" for j y
    using inj_onD [OF inj _ that(1) assms(2)] that(2) assms(3) by simp
  have "key (f x) \<in> key ` snd ` set (tb_rows (update_rows (\<lambda>j y. j = i) f t))"
    unfolding snd_update_rows using assms(2) by (intro imageI) auto
  moreover have "Q y" if y: "y \<in> snd ` set (tb_rows (update_rows (\<lambda>j y. j = i) f t))" "key y = k" for y
  proof -
    from y(1) obtain j z where z: "y = (if j = i then f z else z)" "(j, z) \<in> set (tb_rows t)"
      unfolding snd_update_rows by blast
    then have "key z = k" using y(2) assms(4) by (auto split: if_splits)
    with same [OF z(2)] z(1) assms(5) show ?thesis by simp
  qed
  moreover have "key (f x) = k" using assms(3,4) by simp
  ultimately show ?thesis unfolding marked_def by simp
qed

definition keyed_ok :: "server_db \<Rightarrow> bool" where
  "keyed_ok db \<longleftrightarrow>
     table_ok en_token_hash (enrollment_tokens db) \<and> table_ok sa_token_hash (service_accounts db)"

lemma keyed_ok_step:
  assumes "db_step sha a b" and "keyed_ok a"
  shows "keyed_ok b"
proof -
  have "table_ok en_token_hash (enrollment_tokens b)"
    using step_enrollment_tokens [OF assms(1)]
  proof (elim disjE exE conjE)
    fix k m
    assume "enrollment_tokens b = update_rows (\<lambda>i r. i = k) (\<lambda>r. r\<lparr>en_used_by := Some m\<rparr>) (enrollment_tokens a)"
    then show ?thesis using assms(2) by (simp add: keyed_ok_def table_ok_update)
  qed (use assms(2) enrollment_store.ins_Inr(1) in \<open>auto simp: keyed_ok_def\<close>)
  moreover have "table_ok sa_token_hash (service_accounts b)"
    using step_service_accounts [OF assms(1)]
  proof (elim disjE exE conjE)
    fix k c
    assume "service_accounts b = update_rows (\<lambda>i r. i = k) (\<lambda>r. r\<lparr>sa_revoked_at := Some (now_of c)\<rparr>) (service_accounts a)"
    then show ?thesis using assms(2) by (simp add: keyed_ok_def table_ok_update)
  qed (use assms(2) account_store.ins_Inr(1) in \<open>auto simp: keyed_ok_def\<close>)
  ultimately show ?thesis by (simp add: keyed_ok_def)
qed

lemma reachable_keyed_ok: "db_reachable sha db \<Longrightarrow> keyed_ok db"
  unfolding db_reachable_def
proof (erule db_steps_invariant [of sha empty_db db keyed_ok])
  show "keyed_ok empty_db" by (simp add: keyed_ok_def empty_db_def)
qed (rule keyed_ok_step)

abbreviation spent :: "string \<Rightarrow> server_db \<Rightarrow> bool" where
  "spent h db \<equiv> marked en_token_hash (\<lambda>r. en_used_by r \<noteq> None) h (enrollment_tokens db)"

abbreviation revoked :: "string \<Rightarrow> server_db \<Rightarrow> bool" where
  "revoked h db \<equiv> marked sa_token_hash (\<lambda>r. sa_revoked_at r \<noteq> None) h (service_accounts db)"

lemma spent_step:
  assumes "db_step sha a b" and "spent h a"
  shows "spent h b"
  using step_enrollment_tokens [OF assms(1)]
proof (elim disjE exE conjE)
  fix k m
  assume "enrollment_tokens b = update_rows (\<lambda>i r. i = k) (\<lambda>r. r\<lparr>en_used_by := Some m\<rparr>) (enrollment_tokens a)"
  then show ?thesis using assms(2) by (simp add: marked_update)
qed (use assms(2) marked_insert in auto)

lemma revoked_step:
  assumes "db_step sha a b" and "revoked h a"
  shows "revoked h b"
  using step_service_accounts [OF assms(1)]
proof (elim disjE exE conjE)
  fix k c
  assume "service_accounts b = update_rows (\<lambda>i r. i = k) (\<lambda>r. r\<lparr>sa_revoked_at := Some (now_of c)\<rparr>) (service_accounts a)"
  then show ?thesis using assms(2) by (simp add: marked_update)
qed (use assms(2) marked_insert in auto)

lemma spent_not_redeemed:
  assumes "spent (sha token) db"
  shows "redeem_enrollment_token sha c token mkey db = Inr (None, db)"
proof -
  have "select_rows (\<lambda>i r. en_token_hash r = sha token \<and> en_revoked_at r = None \<and> en_used_by r = None)
          (enrollment_tokens db) = []"
    using assms by (force simp: marked_def select_rows_def filter_empty_conv)
  then show ?thesis by (simp add: redeem_enrollment_token_def fetchone_def)
qed

lemma redeemed_is_spent:
  assumes "keyed_ok db" and "redeem_enrollment_token sha c token mkey db = Inr (Some m, db')"
  shows "spent (sha token) db'"
  using assms(2)
proof (cases rule: redeem_cases)
  case (yes row_id row mid t)
  have row: "(row_id, row) \<in> set (tb_rows (enrollment_tokens db))" "en_token_hash row = sha token"
    using fetchone_Some [OF yes(2)] by (auto simp: select_rows_def)
  have "table_ok en_token_hash (enrollment_tokens db)" using assms(1) by (simp add: keyed_ok_def)
  from marked_once [OF this row, where f = "\<lambda>r. r\<lparr>en_used_by := Some mid\<rparr>"] show ?thesis by (simp add: yes(4))
qed simp

text \<open>
  C6: An enrolment token works once: when it has been redeemed in a reachable store, no later
  attempt enrols a machine with it, whatever happened in between, and the attempt changes
  nothing.
\<close>

theorem enrollment_token_single_use:
  assumes "db_reachable sha db"
    and "redeem_enrollment_token sha c token mkey db = Inr (Some machine, db')"
    and "(db_step sha)\<^sup>*\<^sup>* db' later"
  shows "redeem_enrollment_token sha c' token mkey' later = Inr (None, later)"
proof -
  have "spent (sha token) db'" using redeemed_is_spent reachable_keyed_ok assms(1,2) by blast
  then have "spent (sha token) later"
    by (rule db_steps_invariant [OF assms(3)]) (rule spent_step)
  then show ?thesis by (rule spent_not_redeemed)
qed

definition demo_clock :: clock where
  "demo_clock = ((\<lambda>t. if t \<le> 1000 then ''2026-01-01'' else ''2026-02-01''), 1000)"

definition enrolling_db :: server_db where
  "enrolling_db = empty_db\<lparr>enrollment_tokens := \<lparr>tb_seq = 1, tb_rows = [(1, \<lparr>en_org = 1,
     en_token_hash = ''dden_k'', en_label = ''laptop'', en_expires_at = Some ''2026-02-01'',
     en_used_by = None, en_created_at = ''2026-01-01'', en_revoked_at = None\<rparr>)]\<rparr>\<rparr>"

lemma enrolling_db_reachable: "db_reachable (\<lambda>s. s) enrolling_db"
proof -
  have "create_enrollment_token (\<lambda>s. s) demo_clock ''k'' 1 ''laptop'' 30 empty_db = Inr (''dden_k'', enrolling_db)"
    by (simp add: create_enrollment_token_def enrolling_db_def empty_db_def empty_table_def
        insert_row_def append_row_def demo_clock_def now_of_def days_from_now_def Let_def)
  then show ?thesis unfolding db_reachable_def by (intro r_into_rtranclp) (rule step_enrollment)
qed

lemma enrollment_token_single_use_witness:
  "\<exists>db'. redeem_enrollment_token (\<lambda>s. s) demo_clock ''dden_k'' ''m1'' enrolling_db = Inr (Some 1, db') \<and>
     redeem_enrollment_token (\<lambda>s. s) demo_clock ''dden_k'' ''m2'' db' = Inr (None, db')"
proof -
  have "\<not> ''2026-02-01'' < ''2026-01-01''" by code_simp
  then obtain db' where r: "redeem_enrollment_token (\<lambda>s. s) demo_clock ''dden_k'' ''m1'' enrolling_db = Inr (Some 1, db')"
    by (simp add: redeem_enrollment_token_def enrolling_db_def select_rows_def fetchone_def
        insert_row_def append_row_def empty_db_def empty_table_def demo_clock_def now_of_def)
  from enrollment_token_single_use [OF enrolling_db_reachable r rtranclp.rtrancl_refl] r show ?thesis
    by blast
qed

lemma revoking_marks:
  assumes "db_reachable sha db" and "authenticate_service_token sha token db = Some who"
  shows "revoked (sha token) (revoke_service_account c (si_id who) db)"
proof -
  from assms(2) obtain i r where f: "fetchone (select_rows (\<lambda>i r. sa_token_hash r = sha token \<and>
      sa_revoked_at r = None) (service_accounts db)) = Some (i, r)" and who: "si_id who = i"
    by (auto simp: authenticate_service_token_def)
  from fetchone_Some [OF f] have row: "(i, r) \<in> set (tb_rows (service_accounts db))" "sa_token_hash r = sha token"
    by (auto simp: select_rows_def)
  have "table_ok sa_token_hash (service_accounts db)"
    using reachable_keyed_ok [OF assms(1)] by (simp add: keyed_ok_def)
  from marked_once [OF this row, where f = "\<lambda>r. r\<lparr>sa_revoked_at := Some (now_of c)\<rparr>"]
  show ?thesis by (simp add: revoke_service_account_def who)
qed

lemma revoked_is_refused: "revoked (sha token) db \<Longrightarrow> authenticate_service_token sha token db = None"
proof -
  assume "revoked (sha token) db"
  then have "select_rows (\<lambda>i r. sa_token_hash r = sha token \<and> sa_revoked_at r = None) (service_accounts db) = []"
    by (force simp: marked_def select_rows_def filter_empty_conv)
  then show ?thesis by (simp add: authenticate_service_token_def fetchone_def)
qed

lemma revoked_steps: "(db_step sha)\<^sup>*\<^sup>* db db' \<Longrightarrow> revoked h db \<Longrightarrow> revoked h db'"
  by (erule db_steps_invariant) (assumption, rule revoked_step)

text \<open>
  Revocation is final: a service token that authenticates before its account is revoked is
  refused from then on, whatever else the server does.
\<close>

theorem revoked_account_never_authenticates:
  assumes "db_reachable sha db" and "authenticate_service_token sha token db = Some who"
    and "(db_step sha)\<^sup>*\<^sup>* (revoke_service_account c (si_id who) db) later"
  shows "authenticate_service_token sha token later = None"
  using revoked_is_refused [of sha token later] revoked_steps [OF assms(3) revoking_marks [OF assms(1,2)]] by simp

lemma revoked_account_never_authenticates_witness:
  "\<exists>db. authenticate_service_token (\<lambda>s. s) ''ddsa_k'' db \<noteq> None \<and>
     authenticate_service_token (\<lambda>s. s) ''ddsa_k'' (revoke_service_account demo_clock 1 db) = None"
proof -
  obtain r db where db: "create_service_account (\<lambda>s. s) demo_clock ''k'' 1 ''bot'' ''agent'' empty_db = Inr (r, db)"
    and a: "authenticate_service_token (\<lambda>s. s) ''ddsa_k'' db =
       Some \<lparr>si_id = 1, si_org_id = 1, si_name = ''bot'', si_role = ''agent''\<rparr>"
    by (simp add: create_service_account_def empty_db_def empty_table_def insert_row_def append_row_def
        Let_def authenticate_service_token_def select_rows_def fetchone_def)
  have "db_reachable (\<lambda>s. s) db" unfolding db_reachable_def by (rule r_into_rtranclp) (rule step_account [OF db])
  from revoked_account_never_authenticates [OF this a rtranclp.rtrancl_refl, of demo_clock] a show ?thesis
    by (intro exI [of _ db]) simp
qed

section \<open>Exceptions are decided once\<close>

definition ids_ok :: "'r table \<Rightarrow> bool" where
  "ids_ok t \<longleftrightarrow> distinct (map fst (tb_rows t)) \<and> (\<forall>i \<in> fst ` set (tb_rows t). i \<le> tb_seq t)"

lemma ids_ok_append: "(i, t') = append_row r t \<Longrightarrow> ids_ok t \<Longrightarrow> ids_ok t'"
  by (force simp: ids_ok_def append_row_def Let_def)

lemma ids_ok_update: "ids_ok t \<Longrightarrow> ids_ok (update_rows P f t)"
proof -
  have "map fst (tb_rows (update_rows P f t)) = map fst (tb_rows t)" by (auto split: prod.splits)
  moreover from arg_cong [OF this, of set] have "fst ` set (tb_rows (update_rows P f t)) = fst ` set (tb_rows t)"
    unfolding set_map .
  moreover have "tb_seq (update_rows P f t) = tb_seq t" by (simp add: update_rows_def)
  ultimately show "ids_ok t \<Longrightarrow> ids_ok (update_rows P f t)" unfolding ids_ok_def by metis
qed

lemma row_of_update: "row_of (update_rows P f t) i = map_option (\<lambda>x. if P i x then f x else x) (row_of t i)"
proof -
  have "map_of (map (\<lambda>(i, x). if P i x then (i, f x) else (i, x)) xs) i =
        map_option (\<lambda>x. if P i x then f x else x) (map_of xs i)" for xs
    by (induction xs) auto
  then show ?thesis by (simp add: row_of_def)
qed

lemma row_of_append: "(k, t') = append_row r t \<Longrightarrow> row_of t i = Some x \<Longrightarrow> row_of t' i = Some x"
  by (simp add: row_of_def append_row_def Let_def map_add_def)

lemma exceptions_ids_step: "db_step sha a b \<Longrightarrow> ids_ok (exceptions a) \<Longrightarrow> ids_ok (exceptions b)"
  using step_exceptions [of sha a b] ids_ok_append ids_ok_update by metis

lemma reachable_exception_ids: "db_reachable sha db \<Longrightarrow> ids_ok (exceptions db)"
  unfolding db_reachable_def
proof (erule db_steps_invariant [of sha empty_db db "\<lambda>db. ids_ok (exceptions db)"])
  show "ids_ok (exceptions empty_db)" by (simp add: ids_ok_def empty_db_def empty_table_def)
qed (rule exceptions_ids_step)

lemma decided_step:
  assumes "db_step sha a b" and "row_of (exceptions a) k = Some r \<and> ex_status r \<noteq> Pending"
  shows "row_of (exceptions b) k = Some r \<and> ex_status r \<noteq> Pending"
  using step_exceptions [OF assms(1)] assms(2) by (auto simp: row_of_update row_of_append)

lemma pending_rows:
  assumes "ids_ok t" and "row_of t k = Some r"
  shows "select_rows (\<lambda>i x. i = k \<and> Q x) t \<noteq> [] \<longleftrightarrow> Q r"
proof -
  have "(k, x) \<in> set (tb_rows t) \<longleftrightarrow> x = r" for x
    using assms map_of_eq_Some_iff [of "tb_rows t" k x] by (auto simp: ids_ok_def row_of_def)
  then show ?thesis by (auto simp: select_rows_def filter_empty_conv)
qed

text \<open>
  An exception request is decided once: reviewing a pending request succeeds and records the
  decision and the reviewer, and from then on that row never changes and every further review
  reports failure.
\<close>

theorem exception_decided_once:
  assumes "db_reachable sha db" and "row_of (exceptions db) k = Some r" and "ex_status r = Pending"
    and "review_exception k reviewer approve db = (b, db')"
    and "(db_step sha)\<^sup>*\<^sup>* db' later"
  shows "b \<and> row_of (exceptions later) k =
           Some (r\<lparr>ex_status := if approve then Approved else Rejected, ex_reviewed_by := Some reviewer\<rparr>) \<and>
         \<not> fst (review_exception k reviewer' approve' later)"
proof -
  let ?r = "r\<lparr>ex_status := if approve then Approved else Rejected, ex_reviewed_by := Some reviewer\<rparr>"
  have ids: "ids_ok (exceptions db)" using reachable_exception_ids assms(1) by blast
  have b: "b" using pending_rows [OF ids assms(2)] assms(3,4) by (auto simp: review_exception_def Let_def)
  have "row_of (exceptions db') k = Some ?r \<and> ex_status ?r \<noteq> Pending"
    using assms(2,3,4) by (auto simp: review_exception_def Let_def row_of_update)
  then have row: "row_of (exceptions later) k = Some ?r \<and> ex_status ?r \<noteq> Pending"
    by (rule db_steps_invariant [OF assms(5)]) (rule decided_step)
  have "db_step sha db db'" using assms(4) by (rule step_review)
  then have "ids_ok (exceptions db')" using ids exceptions_ids_step by blast
  then have "ids_ok (exceptions later)"
    by (rule db_steps_invariant [OF assms(5)]) (rule exceptions_ids_step)
  from pending_rows [OF this, of k ?r "\<lambda>x. ex_status x = Pending"] row b
  show ?thesis by (simp add: review_exception_def Let_def)
qed

lemma exception_decided_once_witness:
  "\<exists>db. \<not> fst (review_exception 1 ''eve'' False db) \<and>
     map_option ex_reviewed_by (row_of (exceptions db) 1) = Some (Some ''ann'')"
proof -
  obtain db where req: "request_exception demo_clock 1 ''DR001'' ''legacy'' ''bob'' 30 empty_db = (1, db)"
    and row: "row_of (exceptions db) 1 = Some \<lparr>ex_org = 1, ex_rule = ''DR001'', ex_justification = ''legacy'',
       ex_requested_by = ''bob'', ex_reviewed_by = None, ex_status = Pending,
       ex_expires_at = Some ''2026-02-01'', ex_created_at = ''2026-01-01''\<rparr>"
    by (simp add: request_exception_def append_row_def empty_db_def empty_table_def row_of_def
        demo_clock_def days_from_now_def now_of_def Let_def)
  obtain b db' where rev: "review_exception 1 ''ann'' True db = (b, db')" by force
  have "db_reachable (\<lambda>s. s) db" unfolding db_reachable_def by (rule r_into_rtranclp) (rule step_request [OF req])
  from exception_decided_once [OF this row _ rev rtranclp.rtrancl_refl, of "''eve''" False]
  show ?thesis by (intro exI [of _ db']) simp
qed

section \<open>Idempotence, versions and retention\<close>

text \<open>
  Storing a snapshot is idempotent per machine and snapshot id: the second submission under
  the same id is refused without an error and changes nothing, whatever its content, and a
  submission without an id is an error.
\<close>

theorem store_snapshot_idempotent:
  assumes "table_ok snapshot_key (snapshots db)"
    and "store_snapshot sha c machine snap db = Inr (stored, db')"
    and "snapshot_id_of snap' = snapshot_id_of snap"
  shows "store_snapshot sha c' machine snap' db' = Inr (False, db') \<and>
         table_ok snapshot_key (snapshots db') \<and> (\<not> stored \<longrightarrow> db' = db) \<and>
         (snapshot_id_of snap = [] \<longrightarrow> store_snapshot sha c machine snap db = Inl DbValueError)"
proof -
  have sid: "snapshot_id_of snap \<noteq> []" using assms(2) by (auto simp: store_snapshot_def Let_def)
  let ?row = "\<lambda>c snap. \<lparr>sn_machine = machine, sn_snapshot_id = snapshot_id_of snap,
      sn_payload = JObj snap, sn_privacy_state = ''sanitized'',
      sn_checksum = sha (dump_spaced (sort_keys (JObj snap))), sn_received_at = now_of c\<rparr>"
  have key: "snapshot_key (?row c' snap') = snapshot_key (?row c snap)"
    using assms(3) by (simp add: snapshot_key_def)
  show ?thesis
  proof (cases "insert_row snapshot_key (?row c snap) (snapshots db)")
    case (Inl e)
    then have e: "e = IntegrityError" and taken: "find_by snapshot_key (snapshot_key (?row c snap)) (snapshots db) \<noteq> None"
      using snapshot_store.ins_Inl [OF assms(1) Inl] by auto
    have "insert_row snapshot_key (?row c' snap') (snapshots db) = Inl IntegrityError"
      using snapshot_store.ins_taken [OF assms(1), of "?row c' snap'"] taken key by auto
    then show ?thesis using assms sid Inl e by (simp add: store_snapshot_def Let_def)
  next
    case (Inr it)
    obtain i t where it: "it = (i, t)" by force
    note ins = Inr [unfolded it]
    have db': "stored" "db' = db\<lparr>snapshots := t\<rparr>"
      using assms(2) sid ins by (auto simp: store_snapshot_def Let_def)
    have "insert_row snapshot_key (?row c' snap') t = Inl IntegrityError"
      using snapshot_store.ins_again [OF assms(1) ins key] .
    then show ?thesis using db' sid assms(3) snapshot_store.ins_Inr(1) [OF assms(1) ins]
      by (simp add: store_snapshot_def Let_def)
  qed
qed

lemma store_snapshot_idempotent_witness:
  "\<exists>db. store_snapshot (\<lambda>s. s) demo_clock 7 [(''snapshot_id'', JStr ''s1''), (''score'', JInt 3)] db = Inr (False, db)"
proof -
  let ?a = "[(''snapshot_id'', JStr ''s1'')]" let ?b = "[(''snapshot_id'', JStr ''s1''), (''score'', JInt 3)]"
  have ok: "table_ok snapshot_key (snapshots empty_db)" by (simp add: empty_db_def)
  have ids: "snapshot_id_of ?a = ''s1''" "snapshot_id_of ?b = ''s1''"
    by (simp_all add: snapshot_id_of_def dict_get_def)
  obtain db where "store_snapshot (\<lambda>s. s) demo_clock 7 ?a empty_db = Inr (True, db)"
    using ids(1) by (simp add: store_snapshot_def empty_db_def empty_table_def insert_row_def append_row_def Let_def)
  from store_snapshot_idempotent [OF ok this, of ?b demo_clock] ids show ?thesis by auto
qed

text \<open>
  Policy versions never advance: every stored policy document carries version 1, because a
  second document under the name of an existing policy is refused as an integrity error instead
  of becoming the next version; the first one stays the active one.
\<close>

theorem policy_versions_never_advance:
  assumes "table_ok policy_key (policies db)" and "set_policy c org name doc db = Inr (i, db')"
  shows "set_policy c' org name doc' db' = Inl IntegrityError \<and> active_policy org name db' = Some doc \<and>
         table_ok policy_key (policies db')"
proof -
  let ?row = "\<lambda>c doc. \<lparr>po_org = org, po_name = name, po_document = doc, po_version = 1,
      po_active = True, po_created_at = now_of c\<rparr>"
  from assms(2) obtain t where ins: "insert_row policy_key (?row c doc) (policies db) = Inr (i, t)"
    and db': "db' = db\<lparr>policies := t\<rparr>"
    by (auto simp: set_policy_def result_simps)
  have "insert_row policy_key (?row c' doc') t = Inl IntegrityError"
    by (rule policy_store.ins_again [OF assms(1) ins]) (simp add: policy_key_def)
  moreover have "select_rows (\<lambda>i r. po_org r = org \<and> po_name r = name \<and> po_active r) t = [(i, ?row c doc)]"
    using ins by (force simp: insert_row_def append_row_def select_rows_def policy_key_def
        filter_empty_conv Let_def split: if_splits)
  then have "active_policy org name db' = Some doc"
    by (simp add: active_policy_def db' order_desc_def fetchone_def)
  ultimately show ?thesis using policy_store.ins_Inr(1) [OF assms(1) ins]
    by (simp add: set_policy_def db')
qed

lemma policy_versions_never_advance_witness:
  "\<exists>db. set_policy demo_clock 1 ''base'' (JInt 1) empty_db = Inr (1, db) \<and>
     set_policy demo_clock 1 ''base'' (JInt 2) db = Inl IntegrityError"
proof -
  have ok: "table_ok policy_key (policies empty_db)" by (simp add: empty_db_def)
  obtain db where s: "set_policy demo_clock 1 ''base'' (JInt 1) empty_db = Inr (1, db)"
    by (simp add: set_policy_def empty_db_def empty_table_def insert_row_def append_row_def Let_def)
  from policy_versions_never_advance [OF ok s, of demo_clock "JInt 2"] s show ?thesis by blast
qed

text \<open>
  Retention deletes what is old and only that: a snapshot goes exactly when it was received
  before the cut-off and its machine belongs to the organization, an audit event exactly when it
  is the organization's and older than its own cut-off; the counts are the numbers of rows that
  went, and the cut-offs are the organization's or 90 and 365 days.
\<close>

theorem retention_exact:
  assumes "apply_retention c org db = ((n, m), db')"
    and "(days_s, days_a) = (case map_of (retention_policies db) org of None \<Rightarrow> (90, 365) | Some p \<Rightarrow> p)"
  shows "tb_rows (snapshots db') = filter (\<lambda>(i, s). \<not> (sn_received_at s < days_from_now c (- days_s) \<and>
             (\<exists>mach. (sn_machine s, mach) \<in> set (tb_rows (machines db)) \<and> mc_org mach = org)))
           (tb_rows (snapshots db)) \<and>
         tb_rows (audit_events db') = filter (\<lambda>(i, a). \<not> (au_org a = org \<and>
             au_occurred_at a < days_from_now c (- days_a))) (tb_rows (audit_events db)) \<and>
         n = length (tb_rows (snapshots db)) - length (tb_rows (snapshots db')) \<and>
         m = length (tb_rows (audit_events db)) - length (tb_rows (audit_events db')) \<and>
         machines db' = machines db"
proof -
  have *: "sn_machine s \<in> fst ` set (select_rows (\<lambda>j m. mc_org m = org) (machines db)) \<longleftrightarrow>
      (\<exists>mach. (sn_machine s, mach) \<in> set (tb_rows (machines db)) \<and> mc_org mach = org)" for s
    by (force simp: select_rows_def image_iff)
  have len: "length xs - length (filter (\<lambda>(i, x). \<not> P i x) xs) = length (filter (\<lambda>(i, x). P i x) xs)"
    for P and xs :: "(int \<times> 'x) list"
    using length_filter_split [of "\<lambda>(i, x). P i x" xs] by (simp add: case_prod_unfold)
  have eq: "apply_retention c org db =
     (let S = (\<lambda>i s. sn_received_at s < days_from_now c (- days_s) \<and>
            (\<exists>mach. (sn_machine s, mach) \<in> set (tb_rows (machines db)) \<and> mc_org mach = org));
          A = (\<lambda>i a. au_org a = org \<and> au_occurred_at a < days_from_now c (- days_a))
      in ((length (select_rows S (snapshots db)), length (select_rows A (audit_events db))),
          db\<lparr>snapshots := delete_rows S (snapshots db),
             audit_events := delete_rows A (audit_events db)\<rparr>))"
    unfolding apply_retention_def assms(2) [symmetric] Let_def prod.case * ..
  note parts = assms(1) [unfolded eq Let_def prod.inject]
  note db' = conjunct2 [OF parts, symmetric]
  have snap: "snapshots db' = delete_rows (\<lambda>i s. sn_received_at s < days_from_now c (- days_s) \<and>
            (\<exists>mach. (sn_machine s, mach) \<in> set (tb_rows (machines db)) \<and> mc_org mach = org)) (snapshots db)"
    and aud: "audit_events db' = delete_rows (\<lambda>i a. au_org a = org \<and>
            au_occurred_at a < days_from_now c (- days_a)) (audit_events db)"
    and mach: "machines db' = machines db"
    unfolding db' by simp_all
  have "n = length (tb_rows (snapshots db)) - length (tb_rows (snapshots db'))"
    using conjunct1 [OF conjunct1 [OF parts]] unfolding snap by (simp add: delete_rows_def select_rows_def len del: de_Morgan_conj)
  moreover have "m = length (tb_rows (audit_events db)) - length (tb_rows (audit_events db'))"
    using conjunct2 [OF conjunct1 [OF parts]] unfolding aud by (simp add: delete_rows_def select_rows_def len del: de_Morgan_conj)
  ultimately show ?thesis using snap aud mach by (simp add: delete_rows_def)
qed

lemma retention_exact_witness:
  "\<exists>db. tb_rows (audit_events (snd (apply_retention demo_clock 1 db))) = [] \<and> length (tb_rows (audit_events db)) = 1"
proof -
  define db where "db = audit ((\<lambda>t. ''2025-01-01''), 0) 1 ''ann'' ''login'' ''server'' JNull empty_db"
  have r: "map_of (retention_policies db) 1 = None"
    by (simp add: db_def audit_def append_row_def empty_db_def Let_def)
  have rows: "tb_rows (audit_events db) = [(1, \<lparr>au_org = 1, au_actor = ''ann'', au_action = ''login'',
     au_target = ''server'', au_detail = JNull, au_occurred_at = ''2025-01-01''\<rparr>)]"
    by (simp add: db_def audit_def append_row_def empty_db_def empty_table_def now_of_def Let_def)
  obtain n m db' where a: "apply_retention demo_clock 1 db = ((n, m), db')" by (metis surj_pair)
  have "''2025-01-01'' < days_from_now demo_clock (- 365)" by code_simp
  with retention_exact [OF a, of 90 365] r rows show ?thesis
    by (intro exI [of _ db]) (simp add: a)
qed

section \<open>Authority and verdicts\<close>

text \<open>
  Who may change a project: an organization admin always; otherwise, once the project has
  members, exactly those listed under the given address as admin or maintainer; and the latest
  role given to an address on a project is the one that counts.
\<close>

theorem project_authority:
  "may_administer_project project email org_role (add_project_member c project email role db) \<longleftrightarrow>
     org_role = ''admin'' \<or> role = ''admin'' \<or> role = ''maintainer''"
proof -
  let ?db = "add_project_member c project email role db"
  let ?row = "\<lparr>pm_project = project, pm_email = email, pm_role = role, pm_created_at = now_of c\<rparr>"
  have rows: "tb_rows (project_members ?db) =
      filter (\<lambda>(i, x). member_key x \<noteq> (project, email)) (tb_rows (project_members db)) @
      [(tb_seq (project_members db) + 1, ?row)]"
    by (simp add: add_project_member_def replace_row_def append_row_def Let_def member_key_def)
  have mem: "set (members_of project ?db) =
      insert (email, role) {(pm_email r, pm_role r) | i r. (i, r) \<in> set (tb_rows (project_members db)) \<and>
         pm_project r = project \<and> pm_email r \<noteq> email}"
    unfolding members_of_def select_rows_def rows by (force simp: member_key_def image_iff)
  then have "members_of project ?db \<noteq> []" by auto
  then show ?thesis
    unfolding may_administer_project_def Let_def list_ex_iff mem by auto
qed

text \<open>
  A stored report gives the verdict the command line gives: for a payload with the findings
  of a report, each an object holding its state, the verdict derived by the server is the name
  of the exit code of those states; a payload without a findings list is UNKNOWN, never READY.
\<close>

theorem stored_verdict_is_exit_verdict:
  "verdict_from_payload (dict_set ''findings'' (JList (map (\<lambda>f. JObj
       [(''rule_id'', JStr (f_rule_id f)), (''state'', JStr (state_value (f_state f)))]) fs)) payload) =
     exit_name (exit_for (state_value ` f_state ` set fs)) \<and>
   verdict_from_payload (filter (\<lambda>(k, v). k \<noteq> ''findings'') payload) = ''UNKNOWN''"
proof
  have up: "ascii_upper (state_value s) = state_value s" for s 
  proof -
    have "list_all (\<lambda>s. ascii_upper (state_value s) = state_value s) [PASS, INFO, WARN, ERROR, BLOCKED, UNKNOWN]"
      by code_simp
    then show ?thesis by (cases s) simp_all
  qed
  have "payload_states (map (\<lambda>f. JObj [(''rule_id'', JStr (f_rule_id f)),
      (''state'', JStr (state_value (f_state f)))]) fs) = state_value ` f_state ` set fs"
    unfolding payload_states_def by (induction fs) (auto simp: up)
  then show "verdict_from_payload (dict_set ''findings'' (JList (map (\<lambda>f. JObj
       [(''rule_id'', JStr (f_rule_id f)), (''state'', JStr (state_value (f_state f)))]) fs)) payload) =
     exit_name (exit_for (state_value ` f_state ` set fs))"
    unfolding verdict_from_payload_def dict_get_def by (auto simp: exit_for_def Let_def)
  have "map_of (filter (\<lambda>(k, v). k \<noteq> ''findings'') payload) ''findings'' = None"
    by (auto simp: map_of_eq_None_iff)
  then show "verdict_from_payload (filter (\<lambda>(k, v). k \<noteq> ''findings'') payload) = ''UNKNOWN''"
    by (simp add: verdict_from_payload_def dict_get_def)
qed

end
