(* ===== verification/Mcp.thy ===== *)
theory Mcp
  imports Json Models
begin

text \<open>
  \<open>src/devrepro/mcp/protocol.py\<close> and \<open>src/devrepro/mcp/stdio.py\<close>: the Model Context Protocol
  server. A request is the JSON value that was read; what the handler needs of the rest of the
  program and of the machine - the scanner, the rule catalog, Pydantic's JSON dumps, the file
  system's resolution of a path, the reading of agent manifests - is an argument, and the cache
  is a state every call returns. A directory is the list of the segments of its absolute path.
  An exception that is no \<open>McpError\<close> is a \<open>Crash\<close> with its type and message.
\<close>

section \<open>Errors\<close>

datatype mcp_exc = McpErr int string json | Crash string string

definition PARSE_ERROR :: int where "PARSE_ERROR = -32700"
definition INVALID_REQUEST :: int where "INVALID_REQUEST = -32600"
definition METHOD_NOT_FOUND :: int where "METHOD_NOT_FOUND = -32601"
definition INVALID_PARAMS :: int where "INVALID_PARAMS = -32602"
definition CONFINEMENT_ERROR :: int where "CONFINEMENT_ERROR = -32000"

definition PROTOCOL_VERSION :: string where "PROTOCOL_VERSION = ''2024-11-05''"

definition REFUSED_TOOLS :: "(string \<times> string) list" where
  "REFUSED_TOOLS =
    [(''fix'', (''`fix` executes remediations behind an explicit `--yes`, and that gate exists'' @
      '' so a person agrees before anything above LOW risk is applied. A tool call h'' @
      ''as no person in it: the model decides to make it. Exposing this would move t'' @
      ''he confirmation from a human to a model, which is the thing the gate was bui'' @
      ''lt to prevent.'')),
     (''serve'', (''Starts a long-lived HTTP server; a tool call must not leave a process behind'' @
      ''.'')),
     (''server-backup'', ''Moves data on disk.''),
     (''server-restore'', ''Moves data on disk.''),
     (''init'', ''Writes files into the repository.''),
     (''generate'', ''Writes files into the repository.'')]"

section \<open>What the server is given\<close>

type_synonym path = "string list"

record mcp_env =
  scanner :: "path \<Rightarrow> (string \<times> string) + scan_report"
  explain_rule :: "string \<Rightarrow> json option"
  dump_finding :: "finding \<Rightarrow> json"
  dump_score :: "reproducibility_score \<Rightarrow> json"
  dump_platform :: "platform_info \<Rightarrow> json"
  readiness :: "path \<Rightarrow> (string \<times> json) list"
  realpath :: "path \<Rightarrow> path"
  package_version :: string

record server_config =
  root :: path
  config_cache_seconds :: int

record report_cache =
  cache_seconds :: int
  cached_report :: "scan_report option"
  taken_at :: "int option"
  scans :: nat

definition fresh_cache :: "int \<Rightarrow> report_cache" where
  "fresh_cache seconds =
     \<lparr>cache_seconds = seconds, cached_report = None, taken_at = None, scans = 0\<rparr>"

text \<open>\<open>ReportCache.get\<close>, at the clock reading \<open>now\<close>.\<close>

definition cache_get ::
  "mcp_env \<Rightarrow> int \<Rightarrow> path \<Rightarrow> bool \<Rightarrow> report_cache \<Rightarrow>
    (mcp_exc + (scan_report \<times> bool)) \<times> report_cache" where
  "cache_get env now where_to refresh cache =
     (case (cached_report cache, taken_at cache) of
        (Some report, Some at) \<Rightarrow>
          if now - at < cache_seconds cache \<and> \<not> refresh then (Inr (report, False), cache)
          else
            (case scanner env where_to of
               Inl (t, msg) \<Rightarrow> (Inl (Crash t msg), cache)
             | Inr r \<Rightarrow> (Inr (r, True),
                 cache\<lparr>cached_report := Some r, taken_at := Some now, scans := scans cache + 1\<rparr>))
      | _ \<Rightarrow>
          (case scanner env where_to of
             Inl (t, msg) \<Rightarrow> (Inl (Crash t msg), cache)
           | Inr r \<Rightarrow> (Inr (r, True),
               cache\<lparr>cached_report := Some r, taken_at := Some now, scans := scans cache + 1\<rparr>)))"

text \<open>\<open>_verdict\<close>.\<close>

definition verdict :: "scan_report \<Rightarrow> string \<times> int" where
  "verdict report =
     (let code = exit_int (exit_for (state_value ` f_state ` set (sr_findings report)));
          name = (if code = 0 then ''READY'' else if code = 1 then ''READY_WITH_WARNINGS''
                  else if code = 2 then ''BLOCKED'' else ''UNKNOWN'')
      in (name, code))"

section \<open>Arguments\<close>

definition get_or :: "json \<Rightarrow> (string \<times> json) list \<Rightarrow> string \<Rightarrow> json" where
  "get_or def d k = (case map_of d k of None \<Rightarrow> def | Some v \<Rightarrow> v)"

text \<open>The dictionary of a value that the schema's author made a dictionary.\<close>

definition as_dict :: "json \<Rightarrow> (string \<times> json) list" where
  "as_dict j = (case j of JObj d \<Rightarrow> d | _ \<Rightarrow> [])"

definition as_strings :: "json \<Rightarrow> string list" where
  "as_strings j =
     (case j of JList vs \<Rightarrow> concat (map (\<lambda>v. case v of JStr s \<Rightarrow> [s] | _ \<Rightarrow> []) vs) | _ \<Rightarrow> [])"

text \<open>\<open>_JSON_TYPES\<close> with \<open>isinstance\<close>; a boolean is an integer to \<open>isinstance\<close>.\<close>

definition json_types :: "(string \<times> string list) list" where
  "json_types =
     [(''string'', [''str'']), (''boolean'', [''bool'']), (''number'', [''int'', ''float'', ''bool'']),
      (''integer'', [''int'', ''bool'']), (''object'', [''dict'']), (''array'', [''list''])]"

fun check_types :: "(string \<times> json) list \<Rightarrow> (string \<times> json) list \<Rightarrow> mcp_exc option" where
  "check_types properties [] = None"
| "check_types properties ((key, value) # rest) =
     (let expected = get_or JNull (as_dict (get_or (JObj []) properties key)) ''type'';
          expected_name = (case expected of JStr s \<Rightarrow> s | _ \<Rightarrow> [])
      in case map_of json_types expected_name of
           None \<Rightarrow> check_types properties rest
         | Some allowed \<Rightarrow>
             if (type_name value = ''bool'') \<noteq> (expected_name = ''boolean'') \<or> type_name value \<notin> set allowed
             then Some (McpErr INVALID_PARAMS
               (repr_string key @ '' must be a '' @ expected_name @ '', got '' @ type_name value) JNull)
             else check_types properties rest)"

fun check_required :: "string list \<Rightarrow> (string \<times> json) list \<Rightarrow> mcp_exc option" where
  "check_required [] arguments = None"
| "check_required (key # keys) arguments =
     (if key \<in> fst ` set arguments then check_required keys arguments
      else Some (McpErr INVALID_PARAMS (repr_string key @ '' is required'') JNull))"

definition validate_arguments ::
  "(string \<times> json) list \<Rightarrow> (string \<times> json) list \<Rightarrow> mcp_exc option" where
  "validate_arguments schema arguments =
     (let properties = as_dict (get_or (JObj []) schema ''properties'');
          unknown = sort (filter (\<lambda>k. k \<notin> fst ` set properties) (remdups (map fst arguments)));
          known = sort (map fst properties)
      in if get_or JNull schema ''additionalProperties'' = JBool False \<and> unknown \<noteq> []
         then Some (McpErr INVALID_PARAMS (''unknown argument(s): '' @ join '', '' unknown)
                (JObj [(''accepted'', JList (map JStr known)),
                       (''hint'', JStr (''This tool takes '' @
                          (if known = [] then ''no arguments'' else join '', '' known) @ ''.''))]))
         else
           (case check_required (as_strings (get_or (JList []) schema ''required'')) arguments of
              Some e \<Rightarrow> Some e
            | None \<Rightarrow> check_types properties arguments))"

text \<open>
  \<open>resolve_within\<close>. \<open>realpath\<close> is \<open>Path.resolve\<close> of an absolute path; a candidate is absolute
  when it starts with a slash, and empty and \<open>.\<close> segments are none.
\<close>

definition path_segments :: "string \<Rightarrow> path" where
  "path_segments s = filter (\<lambda>x. x \<noteq> [] \<and> x \<noteq> ''.'') (split_on ''/'' s)"

definition resolve_within :: "mcp_env \<Rightarrow> path \<Rightarrow> string option \<Rightarrow> mcp_exc + path" where
  "resolve_within env r candidate =
     (let base = realpath env r in
      case candidate of
        None \<Rightarrow> Inr base
      | Some [] \<Rightarrow> Inr base
      | Some c \<Rightarrow>
          let target = realpath env
                (if starts_with c ''/'' then path_segments c else base @ path_segments c)
          in if target \<noteq> base \<and> \<not> strict_prefix base target
             then Inl (McpErr CONFINEMENT_ERROR
                    (''path '' @ repr_string c @ '' is outside the configured root'')
                    (JObj [(''hint'', JStr (''The server was started with a root and every path is resolved '' @
                       ''against it. Restart it with a different --root to inspect elsewhere.''))]))
             else Inr target)"

section \<open>Tools\<close>

definition project_arg :: "(string \<times> json) list" where
  "project_arg = [(''type'', JStr ''object''),
    (''properties'', JObj [(''project'', JObj [(''type'', JStr ''string''),
    (''description'', JStr ''Directory within the configured root. Defaults to the root.'')]),
    (''refresh'', JObj [(''type'', JStr ''boolean''),
    (''description'', JStr ''Re-scan instead of using the cached report.'')])]),
    (''additionalProperties'', JBool False)]"

definition which_arg :: "(string \<times> json) list" where
  "which_arg = [(''type'', JStr ''object''),
    (''properties'', JObj [(''tool'', JObj [(''type'', JStr ''string''),
    (''description'', JStr ''Command name, e.g. python.'')]),
    (''refresh'', JObj [(''type'', JStr ''boolean'')])]),
    (''required'', JList [JStr ''tool'']),
    (''additionalProperties'', JBool False)]"

definition explain_arg :: "(string \<times> json) list" where
  "explain_arg = [(''type'', JStr ''object''),
    (''properties'', JObj [(''rule_id'', JObj [(''type'', JStr ''string'')])]),
    (''required'', JList [JStr ''rule_id'']),
    (''additionalProperties'', JBool False)]"

definition tool_definitions :: "(string \<times> string \<times> (string \<times> json) list) list" where
  "tool_definitions =
    [(''doctor'', (''What is wrong with this machine, with evidence for each finding. Read-only: '' @
      ''it inspects the machine and changes nothing.''), project_arg),
     (''check'', (''Does this machine meet the project's declared requirements in .devrepro.toml'' @
      ''? Returns a verdict and the findings behind it.''), project_arg),
     (''info'', ''What toolchains are installed here, and at which versions.'', project_arg),
     (''which'', (''Which binary a given command actually resolves to, every other candidate on '' @
      ''PATH, and why that one wins.''), which_arg),
     (''explain'', (''What a rule id means, why it matters, and how to fix it. Use this when a fin'' @
      ''ding's id needs expanding for a human.''), explain_arg),
     (''agent_readiness'', (''Whether an automated contributor can work in this repository: do the command'' @
      ''s its AGENTS.md declares resolve here, does the manifest match what CI enfor'' @
      ''ces, and what could a session reach from here.''), project_arg)]"

definition tool_json :: "string \<times> string \<times> (string \<times> json) list \<Rightarrow> json" where
  "tool_json t = (case t of (name, description, schema) \<Rightarrow>
     JObj [(''name'', JStr name), (''description'', JStr description), (''inputSchema'', JObj schema)])"

text \<open>\<open>json.dumps(payload, indent=2)\<close>.\<close>

fun dump_indented :: "nat \<Rightarrow> json \<Rightarrow> string" where
  "dump_indented n (JList vs) =
     (if vs = [] then ''[]''
      else CHR ''['' # CHR 0x0A # join (CHR '','' # [CHR 0x0A])
             (map (\<lambda>v. replicate (n + 2) (CHR '' '') @ dump_indented (n + 2) v) vs) @
           CHR 0x0A # replicate n (CHR '' '') @ '']'')"
| "dump_indented n (JObj d) =
     (if d = [] then ''{}''
      else CHR ''{'' # CHR 0x0A # join (CHR '','' # [CHR 0x0A])
             (map (\<lambda>(k, v). replicate (n + 2) (CHR '' '') @ dump_string k @ '': '' @ dump_indented (n + 2) v) d) @
           CHR 0x0A # replicate n (CHR '' '') @ ''}'')"
| "dump_indented n j = dump_json j"

definition content :: "(string \<times> json) list \<Rightarrow> json" where
  "content payload = JObj
     [(''content'', JList [JObj [(''type'', JStr ''text''), (''text'', JStr (dump_indented 0 (JObj payload)))]]),
      (''structuredContent'', JObj payload),
      (''isError'', JBool False)]"

definition opt_str :: "string option \<Rightarrow> json" where
  "opt_str x = (case x of None \<Rightarrow> JNull | Some s \<Rightarrow> JStr s)"

text \<open>The branches of \<open>_call_tool\<close> that extend the base payload.\<close>

definition doctor_fields :: "mcp_env \<Rightarrow> scan_report \<Rightarrow> (string \<times> json) list" where
  "doctor_fields env report =
     [(''findings'', JList (map (dump_finding env) (sr_findings report))),
      (''score'', (case sr_score report of None \<Rightarrow> JNull | Some s \<Rightarrow> dump_score env s))]"

definition check_fields :: "mcp_env \<Rightarrow> scan_report \<Rightarrow> (string \<times> json) list" where
  "check_fields env report =
     [(''findings'', JList (map (dump_finding env)
         (filter (\<lambda>f. state_value (f_state f) \<notin> {''PASS'', ''INFO''}) (sr_findings report)))),
      (''policy_applied'', JBool (sr_policy_applied report))]"

definition info_fields :: "mcp_env \<Rightarrow> scan_report \<Rightarrow> (string \<times> json) list" where
  "info_fields env report =
     [(''platform'', dump_platform env (sr_platform report)),
      (''tools'', JList (map (\<lambda>t. JObj [(''name'', JStr (t_name t)), (''version'', opt_str (t_version t)),
          (''active'', JBool (t_is_active t))]) (filter t_is_active (sr_tools report))))]"

definition which_fields :: "scan_report \<Rightarrow> string \<Rightarrow> (string \<times> json) list" where
  "which_fields report wanted =
     (let matches = filter (\<lambda>t. t_name t = wanted) (sr_tools report) in
      [(''tool'', JStr wanted),
       (''resolves_to'',
          (case find t_is_active matches of
             Some t \<Rightarrow> opt_str (t_exe_path t)
           | None \<Rightarrow> (if matches = [] then JNull else opt_str (t_exe_path (hd matches))))),
       (''candidates'', JList (map (\<lambda>t. JObj [(''path'', opt_str (t_exe_path t)),
          (''version'', opt_str (t_version t)), (''active'', JBool (t_is_active t)),
          (''install_source'', opt_str (t_install_source t))]) matches))])"

definition str_or_empty :: "(string \<times> json) list \<Rightarrow> string \<Rightarrow> string" where
  "str_or_empty d k = (let v = get_or JNull d k in py_str (if py_truth v then v else JStr []))"

text \<open>\<open>_call_tool\<close>: the answer from a report, the scan in front of it, and the guards in front of both.\<close>

definition tool_answer ::
  "mcp_env \<Rightarrow> string \<Rightarrow> (string \<times> json) list \<Rightarrow> path \<Rightarrow> scan_report \<Rightarrow> bool \<Rightarrow> mcp_exc + json" where
  "tool_answer env name arguments project report was_fresh =
     (let base = [(''verdict'', JStr (fst (verdict report))), (''exit_code'', JInt (snd (verdict report))),
                  (''from_cache'', JBool (\<not> was_fresh)), (''scanned_at'', JStr (sr_created_at report))]
      in if name = ''doctor'' then Inr (content (base @ doctor_fields env report))
         else if name = ''check'' then Inr (content (base @ check_fields env report))
         else if name = ''info'' then Inr (content (base @ info_fields env report))
         else if name = ''which'' then
           (let wanted = strip (str_or_empty arguments ''tool'') in
            if wanted = [] then Inl (McpErr INVALID_PARAMS ''`tool` is required'' JNull)
            else Inr (content (base @ which_fields report wanted)))
         else if name = ''agent_readiness'' then Inr (content (base @ readiness env project))
         else Inr (content base))"

definition scan_tool ::
  "mcp_env \<Rightarrow> int \<Rightarrow> server_config \<Rightarrow> string \<Rightarrow> (string \<times> json) list \<Rightarrow> report_cache \<Rightarrow>
    (mcp_exc + json) \<times> report_cache" where
  "scan_tool env now config name arguments cache =
     (case resolve_within env (root config)
             (case get_or JNull arguments ''project'' of JStr s \<Rightarrow> Some s | _ \<Rightarrow> None) of
        Inl e \<Rightarrow> (Inl e, cache)
      | Inr project \<Rightarrow>
          (case cache_get env now project (py_truth (get_or (JBool False) arguments ''refresh'')) cache of
             (Inl e, cache') \<Rightarrow> (Inl e, cache')
           | (Inr (report, was_fresh), cache') \<Rightarrow>
               (tool_answer env name arguments project report was_fresh, cache')))"

definition call_tool ::
  "mcp_env \<Rightarrow> int \<Rightarrow> server_config \<Rightarrow> string \<Rightarrow> (string \<times> json) list \<Rightarrow> report_cache \<Rightarrow>
    (mcp_exc + json) \<times> report_cache" where
  "call_tool env now config name arguments cache =
     (case map_of REFUSED_TOOLS name of
        Some reason \<Rightarrow> (Inl (McpErr INVALID_PARAMS (name @ '' is deliberately not exposed'')
                          (JObj [(''reason'', JStr reason)])), cache)
      | None \<Rightarrow>
     (case map_of tool_definitions name of
        None \<Rightarrow> (Inl (McpErr METHOD_NOT_FOUND (''unknown tool '' @ repr_string name) JNull), cache)
      | Some (description, schema) \<Rightarrow>
     (case validate_arguments schema arguments of
        Some e \<Rightarrow> (Inl e, cache)
      | None \<Rightarrow>
          if name = ''explain'' then
            (let rule_id = str_or_empty arguments ''rule_id'' in
             case explain_rule env rule_id of
               None \<Rightarrow> (Inl (McpErr INVALID_PARAMS (''no such rule id: '' @ repr_string rule_id) JNull), cache)
             | Some doc \<Rightarrow> (Inr (content [(''verdict'', JStr ''READY''), (''exit_code'', JInt 0), (''rule'', doc)]), cache))
          else scan_tool env now config name arguments cache)))"

section \<open>Dispatch\<close>

definition instructions :: string where
  "instructions =
     ''Read-only diagnostics for the machine this server runs on. Every '' @
     ''result carries an explicit `verdict` field; there is no exit code '' @
     ''to read. Reports are cached for a few minutes -- pass '' @
     ''`refresh: true` when you need a fresh scan. Paths are confined to '' @
     ''the root the server was started with.''"

definition initialize_result :: "mcp_env \<Rightarrow> json" where
  "initialize_result env = JObj
     [(''protocolVersion'', JStr PROTOCOL_VERSION),
      (''capabilities'', JObj [(''tools'', JObj [(''listChanged'', JBool False)])]),
      (''serverInfo'', JObj [(''name'', JStr ''devrepro-doctor''), (''version'', JStr (package_version env))]),
      (''instructions'', JStr instructions)]"

text \<open>\<open>params.get\<close> of something that is no dictionary is an \<open>AttributeError\<close>.\<close>

definition dispatch ::
  "mcp_env \<Rightarrow> int \<Rightarrow> server_config \<Rightarrow> string \<Rightarrow> json \<Rightarrow> report_cache \<Rightarrow>
    (mcp_exc + json) \<times> report_cache" where
  "dispatch env now config meth params cache =
     (if meth = ''initialize'' then (Inr (initialize_result env), cache)
      else if meth \<in> {''notifications/initialized'', ''initialized''} then (Inr (JObj []), cache)
      else if meth = ''ping'' then (Inr (JObj []), cache)
      else if meth = ''tools/list'' then
        (Inr (JObj [(''tools'', JList (map tool_json tool_definitions))]), cache)
      else if meth = ''tools/call'' then
        (case params of
           JObj d \<Rightarrow>
             (let name = str_or_empty d ''name'';
                  arguments = (let a = get_or JNull d ''arguments'' in if py_truth a then a else JObj [])
              in case arguments of
                   JObj a \<Rightarrow> call_tool env now config name a cache
                 | _ \<Rightarrow> (Inl (McpErr INVALID_PARAMS ''`arguments` must be an object'' JNull), cache))
         | _ \<Rightarrow> (Inl (Crash ''AttributeError''
                   (repr_string (type_name params) @ '' object has no attribute '' @ repr_string ''get'')), cache))
      else (Inl (McpErr METHOD_NOT_FOUND (''unknown method '' @ repr_string meth) JNull), cache))"

definition error_response :: "json \<Rightarrow> int \<Rightarrow> string \<Rightarrow> (string \<times> json) list \<Rightarrow> json" where
  "error_response request_id code message extra = JObj
     [(''jsonrpc'', JStr ''2.0''), (''id'', request_id),
      (''error'', JObj ([(''code'', JInt code), (''message'', JStr message)] @ extra))]"

definition handle_request ::
  "mcp_env \<Rightarrow> int \<Rightarrow> server_config \<Rightarrow> json \<Rightarrow> report_cache \<Rightarrow>
    (mcp_exc + json option) \<times> report_cache" where
  "handle_request env now config request cache =
     (case request of
        JObj d \<Rightarrow>
          if get_or JNull d ''jsonrpc'' \<noteq> JStr ''2.0'' then
            (Inl (McpErr INVALID_REQUEST ''not a JSON-RPC 2.0 request'' JNull), cache)
          else
            (let meth = get_or JNull d ''method'';
                 request_id = get_or JNull d ''id'';
                 is_notification = (''id'' \<notin> fst ` set d);
                 params = (let p = get_or JNull d ''params'' in if py_truth p then p else JObj [])
             in case dispatch env now config (py_str meth) params cache of
                  (Inl (McpErr code message data), cache') \<Rightarrow>
                    (Inr (if is_notification then None
                          else Some (error_response request_id code message [(''data'', data)])), cache')
                | (Inl (Crash t msg), cache') \<Rightarrow> (Inl (Crash t msg), cache')
                | (Inr result, cache') \<Rightarrow>
                    (Inr (if is_notification then None
                          else Some (JObj [(''jsonrpc'', JStr ''2.0''), (''id'', request_id), (''result'', result)])),
                     cache'))
      | _ \<Rightarrow> (Inl (McpErr INVALID_REQUEST ''not a JSON-RPC 2.0 request'' JNull), cache))"

section \<open>The transport\<close>

definition request_id_of :: "json \<Rightarrow> json" where
  "request_id_of request = (case request of JObj d \<Rightarrow> get_or JNull d ''id'' | _ \<Rightarrow> JNull)"

text \<open>One line of input at its clock reading: the responses written and the cache after it.\<close>

definition serve_line ::
  "mcp_env \<Rightarrow> (string \<Rightarrow> string) \<Rightarrow> server_config \<Rightarrow> int \<times> string \<Rightarrow> report_cache \<Rightarrow>
    json list \<times> report_cache" where
  "serve_line env json_reason config line cache =
     (case line of (now, raw) \<Rightarrow>
      let text = strip raw in
      if text = [] then ([], cache)
      else
        (case loads text of
           None \<Rightarrow> ([error_response JNull PARSE_ERROR (''invalid JSON: '' @ json_reason text) []], cache)
         | Some request \<Rightarrow>
             (case handle_request env now config request cache of
                (Inr None, cache') \<Rightarrow> ([], cache')
              | (Inr (Some response), cache') \<Rightarrow> ([response], cache')
              | (Inl (McpErr code message data), cache') \<Rightarrow>
                  ([error_response (request_id_of request) code message [(''data'', data)]], cache')
              | (Inl (Crash t msg), cache') \<Rightarrow>
                  ([error_response (request_id_of request) (-32603)
                      (''internal error: '' @ t @ '': '' @ msg) []], cache'))))"

fun serve_stdio ::
  "mcp_env \<Rightarrow> (string \<Rightarrow> string) \<Rightarrow> server_config \<Rightarrow> (int \<times> string) list \<Rightarrow> report_cache \<Rightarrow>
    json list \<times> report_cache" where
  "serve_stdio env json_reason config [] cache = ([], cache)"
| "serve_stdio env json_reason config (line # lines) cache =
     (case serve_line env json_reason config line cache of
        (out, cache') \<Rightarrow>
          (case serve_stdio env json_reason config lines cache' of
             (outs, cache'') \<Rightarrow> (out @ outs, cache'')))"

section \<open>Confinement\<close>

lemma resolve_within_inside:
  "resolve_within env r candidate = Inr p \<Longrightarrow> prefix (realpath env r) p"
  by (auto simp: resolve_within_def Let_def strict_prefix_def split: option.splits list.splits if_splits)


definition report_from :: "mcp_env \<Rightarrow> server_config \<Rightarrow> scan_report \<Rightarrow> bool" where
  "report_from env config r \<longleftrightarrow>
     (\<exists>p. prefix (realpath env (root config)) p \<and> scanner env p = Inr r)"

definition cache_confined :: "mcp_env \<Rightarrow> server_config \<Rightarrow> report_cache \<Rightarrow> bool" where
  "cache_confined env config cache \<longleftrightarrow>
     (\<forall>r. cached_report cache = Some r \<longrightarrow> report_from env config r)"

lemma cache_get_cases:
  obtains (hit) r at where "cached_report cache = Some r" "taken_at cache = Some at"
      "now - at < cache_seconds cache" "\<not> refresh"
      "cache_get env now p refresh cache = (Inr (r, False), cache)"
  | (fail) t msg where "scanner env p = Inl (t, msg)"
      "cache_get env now p refresh cache = (Inl (Crash t msg), cache)"
  | (scan) r where "scanner env p = Inr r"
      "cache_get env now p refresh cache = (Inr (r, True),
         cache\<lparr>cached_report := Some r, taken_at := Some now, scans := scans cache + 1\<rparr>)"
proof (cases "\<exists>r at. cached_report cache = Some r \<and> taken_at cache = Some at \<and>
      now - at < cache_seconds cache \<and> \<not> refresh")
  case True
  then show thesis using hit by (auto simp: cache_get_def)
next
  case False
  then have "cache_get env now p refresh cache =
     (case scanner env p of
        Inl (t, msg) \<Rightarrow> (Inl (Crash t msg), cache)
      | Inr r \<Rightarrow> (Inr (r, True), cache\<lparr>cached_report := Some r, taken_at := Some now, scans := scans cache + 1\<rparr>))"
    unfolding cache_get_def by (cases "cached_report cache"; cases "taken_at cache") auto
  then show thesis using fail scan by (cases "scanner env p") auto
qed

lemma cache_get_confined:
  assumes "prefix (realpath env (root config)) p" and "cache_confined env config cache"
  shows "cache_confined env config (snd (cache_get env now p refresh cache))"
  using assms by (cases rule: cache_get_cases [of cache now refresh env p]) (auto simp: cache_confined_def report_from_def)

text \<open>What a call of a tool can do to the cache: nothing, or one \<^const>\<open>cache_get\<close> inside the root.\<close>

lemma scan_tool_cache:
  "snd (scan_tool env now config name arguments cache) = cache \<or>
   (\<exists>p refresh. prefix (realpath env (root config)) p \<and>
      snd (scan_tool env now config name arguments cache) = snd (cache_get env now p refresh cache))"
proof -
  define cand where "cand = (case get_or JNull arguments ''project'' of JStr s \<Rightarrow> Some s | _ \<Rightarrow> None)"
  show ?thesis
  proof (cases "resolve_within env (root config) cand")
    case (Inr p)
    let ?get = "cache_get env now p (py_truth (get_or (JBool False) arguments ''refresh'')) cache"
    obtain res cache' where get: "?get = (res, cache')" by force
    have "snd (scan_tool env now config name arguments cache) = cache'"
      by (cases res) (auto simp: scan_tool_def cand_def [symmetric] Inr get split: prod.split)
    then show ?thesis using resolve_within_inside [OF Inr] get by (metis snd_conv)
  qed (simp add: scan_tool_def cand_def [symmetric])
qed

lemma call_tool_cases:
  "(\<exists>r. call_tool env now config name arguments cache = (r, cache)) \<or>
   call_tool env now config name arguments cache = scan_tool env now config name arguments cache"
  unfolding call_tool_def Let_def by (auto split: option.split)

lemma call_tool_cache:
  "snd (call_tool env now config name arguments cache) = cache \<or>
   (\<exists>p refresh. prefix (realpath env (root config)) p \<and>
      snd (call_tool env now config name arguments cache) = snd (cache_get env now p refresh cache))"
  using call_tool_cases [of env now config name arguments cache]
    scan_tool_cache [of env now config name arguments cache] by fastforce

lemma call_tool_confined:
  "cache_confined env config cache \<Longrightarrow>
     cache_confined env config (snd (call_tool env now config name arguments cache))"
  using call_tool_cache [of env now config name arguments cache] cache_get_confined by metis

lemma dispatch_confined:
  "cache_confined env config cache \<Longrightarrow> cache_confined env config (snd (dispatch env now config meth params cache))"
  unfolding dispatch_def by (auto simp: Let_def call_tool_confined split: json.split)

lemma handle_request_cache:
  "snd (handle_request env now config request cache) = cache \<or>
   (\<exists>meth params. snd (handle_request env now config request cache) =
      snd (dispatch env now config meth params cache))"
proof (cases request)
  case (JObj d)
  define params where "params = (let p = get_or JNull d ''params'' in if py_truth p then p else JObj [])"
  obtain res cache' where dis: "dispatch env now config (py_str (get_or JNull d ''method'')) params cache = (res, cache')"
    by force
  have "snd (handle_request env now config request cache) \<in> {cache, cache'}"
    unfolding handle_request_def JObj json.case Let_def params_def [unfolded Let_def, symmetric] dis
    by (auto split: sum.split mcp_exc.split)
  then show ?thesis using dis by (metis insertE singletonD snd_conv)
qed (simp_all add: handle_request_def)

lemma handle_request_confined:
  "cache_confined env config cache \<Longrightarrow> cache_confined env config (snd (handle_request env now config request cache))"
  using handle_request_cache [of env now config request cache] dispatch_confined by metis

lemma serve_line_confined:
  assumes "cache_confined env config cache"
  shows "cache_confined env config (snd (serve_line env jr config line cache))"
proof -
  obtain now raw where line: "line = (now, raw)" by force
  show ?thesis
  proof (cases "loads (strip raw)")
    case (Some request)
    obtain res cache' where h: "handle_request env now config request cache = (res, cache')" by force
    then have "cache_confined env config cache'" using handle_request_confined [OF assms] by (metis snd_conv)
    then show ?thesis using assms
      by (auto simp: serve_line_def line Let_def Some h split: sum.split option.split mcp_exc.split)
  qed (use assms in \<open>simp add: serve_line_def line Let_def\<close>)
qed

text \<open>
  The server never holds a report from outside its root: whatever lines arrive on its input,
  the report it answers from was scanned at the root or at a directory below it.
\<close>

theorem server_confined:
  "cache_confined env config (snd (serve_stdio env jr config lines (fresh_cache seconds)))"
proof -
  have "cache_confined env config cache \<Longrightarrow>
      cache_confined env config (snd (serve_stdio env jr config lines cache))" for cache
  proof (induction lines arbitrary: cache)
    case (Cons line lines)
    obtain out cache' where l: "serve_line env jr config line cache = (out, cache')" by force
    then have "cache_confined env config cache'"
      using serve_line_confined [OF Cons.prems, of jr line] by simp
    from Cons.IH [OF this] show ?case
      by (cases "serve_stdio env jr config lines cache'") (simp add: l)
  qed simp
  moreover have "cache_confined env config (fresh_cache seconds)"
    by (simp add: cache_confined_def fresh_cache_def)
  ultimately show ?thesis .
qed

section \<open>Calls that never scan\<close>

text \<open>
  What must be refused is refused before any scan: a tool on the refusal list, a tool that
  does not exist, an argument the tool does not advertise, a missing required argument and an
  argument of the wrong JSON type all give an error and leave the cache as it was.
\<close>

theorem refusals_never_scan:
  assumes "name \<in> fst ` set REFUSED_TOOLS \<or> map_of tool_definitions name = None \<or>
      (\<exists>description schema. map_of tool_definitions name = Some (description, schema) \<and>
         ((\<exists>k \<in> fst ` set arguments. k \<notin> fst ` set (as_dict (get_or (JObj []) schema ''properties''))) \<or>
          (\<exists>k \<in> set (as_strings (get_or (JList []) schema ''required'')). k \<notin> fst ` set arguments) \<or>
          (\<exists>v \<in> snd ` set (filter (\<lambda>(k, v). k = ''refresh'') arguments). type_name v \<noteq> ''bool'')))"
  shows "\<exists>e. call_tool env now config name arguments cache = (Inl e, cache)"
proof (cases "map_of REFUSED_TOOLS name")
  case None
  then have nr: "name \<notin> fst ` set REFUSED_TOOLS" by (simp add: map_of_eq_None_iff)
  show ?thesis
  proof (cases "map_of tool_definitions name")
    case None
    then show ?thesis using \<open>map_of REFUSED_TOOLS name = None\<close> by (simp add: call_tool_def)
  next
    case (Some ds)
    obtain description schema where ds: "ds = (description, schema)" by force
    have schema: "schema \<in> {project_arg, which_arg, explain_arg}"
      using map_of_SomeD [OF Some [unfolded ds]] by (auto simp: tool_definitions_def)
    have closed: "get_or JNull schema ''additionalProperties'' = JBool False"
      using schema by (auto simp: get_or_def project_arg_def which_arg_def explain_arg_def)
    have req: "check_required keys arguments \<noteq> None" if "k \<in> set keys" "k \<notin> fst ` set arguments" for k keys
      using that by (induction keys) auto
    have types_fail: "check_types (as_dict (get_or (JObj []) schema ''properties'')) args \<noteq> None"
      if "(''refresh'', v) \<in> set args" "type_name v \<noteq> ''bool''"
        "''refresh'' \<in> fst ` set (as_dict (get_or (JObj []) schema ''properties''))" for v args
    proof -
      have "get_or JNull (as_dict (get_or (JObj []) (as_dict (get_or (JObj []) schema ''properties'')) ''refresh'')) ''type'' =
            JStr ''boolean''"
        using schema that(3) by (auto simp: get_or_def project_arg_def which_arg_def explain_arg_def as_dict_def)
      then show ?thesis
        using that(1,2)
        by (induction args) (auto simp: json_types_def Let_def split: option.split)
    qed
    have "validate_arguments schema arguments \<noteq> None"
      using assms nr Some ds
    proof (elim disjE exE conjE bexE)
      fix k d s assume "map_of tool_definitions name = Some (d, s)" "k \<in> fst ` set arguments"
        "k \<notin> fst ` set (as_dict (get_or (JObj []) s ''properties''))"
      then have "k \<in> set (sort (filter (\<lambda>k. k \<notin> fst ` set (as_dict (get_or (JObj []) schema ''properties'')))
            (remdups (map fst arguments))))" using Some ds by auto
      then show ?thesis using closed unfolding validate_arguments_def Let_def by (metis empty_iff list.set(1) option.distinct(1))
    next
      fix k d s assume "map_of tool_definitions name = Some (d, s)"
        "k \<in> set (as_strings (get_or (JList []) s ''required''))" "k \<notin> fst ` set arguments"
      then have "check_required (as_strings (get_or (JList []) schema ''required'')) arguments \<noteq> None"
        using req Some ds by auto
      then show ?thesis unfolding validate_arguments_def Let_def by (auto split: option.split)
    next
      fix d s v assume "map_of tool_definitions name = Some (d, s)"
        and v: "v \<in> snd ` set (filter (\<lambda>(k, v). k = ''refresh'') arguments)" "type_name v \<noteq> ''bool''"
      then have mem: "(''refresh'', v) \<in> set arguments" by auto
      show ?thesis
      proof (cases "''refresh'' \<in> fst ` set (as_dict (get_or (JObj []) schema ''properties''))")
        case True
        from types_fail [OF mem v(2) True] show ?thesis
          unfolding validate_arguments_def Let_def by (auto split: option.split)
      next
        case False
        then have "''refresh'' \<in> set (sort (filter (\<lambda>k. k \<notin> fst ` set (as_dict (get_or (JObj []) schema ''properties'')))
            (remdups (map fst arguments))))" using mem by (auto simp: image_iff intro!: bexI [OF _ mem])
        then show ?thesis using closed unfolding validate_arguments_def Let_def by (metis empty_iff list.set(1) option.distinct(1))
      qed
    qed simp_all
    then show ?thesis using None Some ds \<open>map_of REFUSED_TOOLS name = None\<close> by (auto simp: call_tool_def)
  qed
qed (simp add: call_tool_def)

lemma refusals_never_scan_witness:
  "\<forall>env now config cache. \<exists>e. call_tool env now config ''agent_readiness'' [(''path'', JStr ''.'')] cache = (Inl e, cache)"
proof (intro allI, rule refusals_never_scan)
  have "map_of tool_definitions ''agent_readiness'' = Some (fst (the (map_of tool_definitions ''agent_readiness'')), project_arg)"
    by (simp add: tool_definitions_def)
  moreover have "''path'' \<notin> fst ` set (as_dict (get_or (JObj []) project_arg ''properties''))"
    by (simp add: project_arg_def get_or_def as_dict_def)
  ultimately show "''agent_readiness'' \<in> fst ` set REFUSED_TOOLS \<or> map_of tool_definitions ''agent_readiness'' = None \<or>
      (\<exists>description schema. map_of tool_definitions ''agent_readiness'' = Some (description, schema) \<and>
         ((\<exists>k \<in> fst ` set [(''path'', JStr ''.'')]. k \<notin> fst ` set (as_dict (get_or (JObj []) schema ''properties''))) \<or>
          (\<exists>k \<in> set (as_strings (get_or (JList []) schema ''required'')). k \<notin> fst ` set [(''path'', JStr ''.'')]) \<or>
          (\<exists>v \<in> snd ` set (filter (\<lambda>(k, v). k = ''refresh'') [(''path'', JStr ''.'')]). type_name v \<noteq> ''bool'')))"
    by auto
qed

section \<open>What a tool call answers\<close>

definition payload_of :: "json \<Rightarrow> (string \<times> json) list" where
  "payload_of j = as_dict (get_or JNull (as_dict j) ''structuredContent'')"

lemma payload_of_content [simp]: "payload_of (content p) = p"
  by (simp add: payload_of_def content_def get_or_def as_dict_def)

lemma verdict_worst:
  "verdict r = (exit_name (exit_of_state (worst_state r)), exit_int (exit_of_state (worst_state r)))"
proof -
  have "exit_for (state_value ` f_state ` set (sr_findings r)) = exit_of_state (worst_state r)"
    by (simp add: exit_for_cases worst_state_cases Let_def)
  then show ?thesis
    by (cases "worst_state r") (simp_all add: verdict_def Let_def)
qed

lemma cache_get_caches:
  "cache_get env now p refresh cache = (Inr (r, b), cache') \<Longrightarrow> cached_report cache' = Some r"
  by (cases rule: cache_get_cases [of cache now refresh env p]) auto

lemma call_tool_success:
  assumes "call_tool env now config name arguments cache = (Inr j, cache')" and "name \<noteq> ''explain''"
  obtains p refresh r b fields where
    "resolve_within env (root config) (case get_or JNull arguments ''project'' of JStr s \<Rightarrow> Some s | _ \<Rightarrow> None) = Inr p"
    "refresh = py_truth (get_or (JBool False) arguments ''refresh'')"
    "cache_get env now p refresh cache = (Inr (r, b), cache')"
    "j = content ([(''verdict'', JStr (fst (verdict r))), (''exit_code'', JInt (snd (verdict r))),
        (''from_cache'', JBool (\<not> b)), (''scanned_at'', JStr (sr_created_at r))] @ fields)"
proof -
  define cand where "cand = (case get_or JNull arguments ''project'' of JStr s \<Rightarrow> Some s | _ \<Rightarrow> None)"
  have scan: "scan_tool env now config name arguments cache = (Inr j, cache')"
    using assms unfolding call_tool_def by (auto split: option.splits prod.splits)
  then obtain p where p: "resolve_within env (root config) cand = Inr p"
    unfolding scan_tool_def cand_def [symmetric]
    by (cases "resolve_within env (root config) cand") auto
  let ?get = "cache_get env now p (py_truth (get_or (JBool False) arguments ''refresh'')) cache"
  obtain res c' where get: "?get = (res, c')" by force
  from scan have eq: "(case res of Inl e \<Rightarrow> (Inl e, c')
      | Inr (r, b) \<Rightarrow> (tool_answer env name arguments p r b, c')) = (Inr j, cache')"
    by (cases res) (auto simp: scan_tool_def cand_def [symmetric] p get)
  then obtain r b where res: "res = Inr (r, b)" by (cases res) auto
  with eq have ans: "tool_answer env name arguments p r b = Inr j" and c': "c' = cache'" by auto
  have "\<exists>fields. j = content ([(''verdict'', JStr (fst (verdict r))), (''exit_code'', JInt (snd (verdict r))),
        (''from_cache'', JBool (\<not> b)), (''scanned_at'', JStr (sr_created_at r))] @ fields)"
    using ans unfolding tool_answer_def Let_def by (auto split: if_splits)
  then show thesis using that [OF p [unfolded cand_def] refl get [unfolded res c']] by blast
qed

text \<open>
  The verdict travels in the payload: every tool that answers from a scan reports as
  \<open>verdict\<close> and \<open>exit_code\<close> exactly what the command line's exit code says of the worst
  finding of the report it answered from.
\<close>

theorem verdict_in_payload:
  assumes "call_tool env now config name arguments cache = (Inr j, cache')" and "name \<noteq> ''explain''"
  shows "\<exists>r. cached_report cache' = Some r \<and>
     map_of (payload_of j) ''verdict'' = Some (JStr (exit_name (exit_of_state (worst_state r)))) \<and>
     map_of (payload_of j) ''exit_code'' = Some (JInt (exit_int (exit_of_state (worst_state r))))"
  using assms
proof (rule call_tool_success)
  fix p refresh r b fields
  assume get: "cache_get env now p refresh cache = (Inr (r, b), cache')"
    and j: "j = content ([(''verdict'', JStr (fst (verdict r))), (''exit_code'', JInt (snd (verdict r))),
        (''from_cache'', JBool (\<not> b)), (''scanned_at'', JStr (sr_created_at r))] @ fields)"
  show ?thesis
    by (intro exI [of _ r]) (simp add: j cache_get_caches [OF get] verdict_worst)
qed

section \<open>The cache\<close>

definition demo_report :: "string \<Rightarrow> finding_state \<Rightarrow> scan_report" where
  "demo_report at state =
     \<lparr>sr_schema_version = ''1.0'', sr_created_at = at, sr_devrepro_version = ''1'',
       sr_platform = \<lparr>pl_os_name = ''linux'', pl_os_version = ''6'', pl_arch = ''x86_64'',
          pl_kernel = None, pl_shell = None, pl_is_wsl = False\<rparr>,
       sr_findings = [\<lparr>f_rule_id = ''x/y'', f_state = state, f_summary = [], f_evidence = [],
          f_detected = None, f_required = None, f_component = None, f_remediation_hint = None,
          f_references = [], f_probe_id = None\<rparr>],
       sr_tools = [], sr_path_analysis = None, sr_requirements = [], sr_policy_applied = False,
       sr_score = None, sr_probe_errors = [], sr_containers = None, sr_wsl = None, sr_gpu = None\<rparr>"

text \<open>A machine with one project that is blocked and everything else ready.\<close>

definition demo_env :: mcp_env where
  "demo_env =
     \<lparr>scanner = (\<lambda>p. Inr (demo_report ''t'' (if p = [''w'', ''b''] then BLOCKED else PASS))),
       explain_rule = (\<lambda>r. None), dump_finding = (\<lambda>f. JStr (f_rule_id f)), dump_score = (\<lambda>s. JNull),
       dump_platform = (\<lambda>p. JNull), readiness = (\<lambda>p. []), realpath = (\<lambda>p. p), package_version = ''1''\<rparr>"

definition demo_config :: server_config where
  "demo_config = \<lparr>root = [''w''], config_cache_seconds = 300\<rparr>"

lemma demo_project:
  "validate_arguments project_arg [(''project'', JStr s)] = None"
  by (simp add: validate_arguments_def project_arg_def get_or_def as_dict_def as_strings_def
      json_types_def Let_def)

lemma doctor_call:
  assumes "resolve_within env (root config) (Some s) = Inr p"
    and "cache_get env now p False cache = (Inr (r, b), cache')"
  shows "call_tool env now config ''doctor'' [(''project'', JStr s)] cache =
     (Inr (content ([(''verdict'', JStr (fst (verdict r))), (''exit_code'', JInt (snd (verdict r))),
        (''from_cache'', JBool (\<not> b)), (''scanned_at'', JStr (sr_created_at r))] @ doctor_fields env r)), cache')"
proof -
  have "map_of REFUSED_TOOLS ''doctor'' = None" by (simp add: REFUSED_TOOLS_def)
  moreover obtain d where "map_of tool_definitions ''doctor'' = Some (d, project_arg)"
    by (simp add: tool_definitions_def)
  ultimately show ?thesis
    using assms by (simp add: call_tool_def scan_tool_def tool_answer_def demo_project get_or_def Let_def)
qed

text \<open>
  The report cache ignores the directory it was filled from: within the cache's lifetime a
  second project is answered with the first project's report, findings, verdict and all, and is
  never scanned.
\<close>

theorem cache_answers_for_another_project:
  assumes "resolve_within env (root config) (Some a) = Inr p" and "scanner env p = Inr r"
    and "resolve_within env (root config) (Some b) = Inr q"
    and "later - now < seconds"
    and "call_tool env now config ''doctor'' [(''project'', JStr a)] (fresh_cache seconds) = (first_answer, cache)"
  shows "call_tool env later config ''doctor'' [(''project'', JStr b)] cache =
     (Inr (content ([(''verdict'', JStr (fst (verdict r))), (''exit_code'', JInt (snd (verdict r))),
        (''from_cache'', JBool True), (''scanned_at'', JStr (sr_created_at r))] @ doctor_fields env r)), cache) \<and>
     scans cache = 1"
proof -
  let ?cache = "\<lparr>cache_seconds = seconds, cached_report = Some r, taken_at = Some now, scans = 1\<rparr>"
  have "cache_get env now p False (fresh_cache seconds) = (Inr (r, True), ?cache)"
    by (simp add: cache_get_def fresh_cache_def assms(2))
  from doctor_call [OF assms(1) this] assms(5) have cache: "cache = ?cache" by simp
  have "cache_get env later q False ?cache = (Inr (r, False), ?cache)"
    using assms(4) by (simp add: cache_get_def)
  from doctor_call [OF assms(3) this] show ?thesis by (simp add: cache)
qed

lemma cache_answers_for_another_project_witness:
  "\<exists>cache. map_of (payload_of (case fst (call_tool demo_env 10 demo_config ''doctor'' [(''project'', JStr ''b'')] cache) of
        Inr j \<Rightarrow> j | Inl e \<Rightarrow> JNull)) ''verdict'' = Some (JStr ''READY'') \<and>
     verdict (demo_report ''t'' BLOCKED) = (''BLOCKED'', 2) \<and>
     scanner demo_env [''w'', ''b''] = Inr (demo_report ''t'' BLOCKED)"
proof -
  have "resolve_within demo_env (root demo_config) (Some ''a'') = Inr [''w'', ''a'']"
    and "resolve_within demo_env (root demo_config) (Some ''b'') = Inr [''w'', ''b'']" by code_simp+
  moreover have "scanner demo_env [''w'', ''a''] = Inr (demo_report ''t'' PASS)" by (simp add: demo_env_def)
  moreover obtain ans cache where "call_tool demo_env 0 demo_config ''doctor'' [(''project'', JStr ''a'')] (fresh_cache 300) = (ans, cache)"
    by force
  ultimately have "call_tool demo_env 10 demo_config ''doctor'' [(''project'', JStr ''b'')] cache =
     (Inr (content ([(''verdict'', JStr (fst (verdict (demo_report ''t'' PASS)))), (''exit_code'', JInt (snd (verdict (demo_report ''t'' PASS)))),
        (''from_cache'', JBool True), (''scanned_at'', JStr (sr_created_at (demo_report ''t'' PASS)))] @ doctor_fields demo_env (demo_report ''t'' PASS))), cache) \<and>
     scans cache = 1"
    by (intro cache_answers_for_another_project [where a = "''a''" and p = "[''w'', ''a'']" and now = 0]) auto
  moreover have "fst (verdict (demo_report ''t'' PASS)) = ''READY''" "verdict (demo_report ''t'' BLOCKED) = (''BLOCKED'', 2)"
    by code_simp+
  ultimately show ?thesis by (intro exI [of _ cache]) (simp add: demo_env_def)
qed

lemma verdict_in_payload_witness:
  "\<exists>j c. call_tool demo_env 0 demo_config ''doctor'' [(''project'', JStr ''b'')] (fresh_cache 300) = (Inr j, c) \<and>
     map_of (payload_of j) ''verdict'' = Some (JStr ''BLOCKED'')"
proof -
  have r: "resolve_within demo_env (root demo_config) (Some ''b'') = Inr [''w'', ''b'']" by code_simp
  obtain c where g: "cache_get demo_env 0 [''w'', ''b''] False (fresh_cache 300) = (Inr (demo_report ''t'' BLOCKED, True), c)"
    and c: "cached_report c = Some (demo_report ''t'' BLOCKED)"
    by (simp add: cache_get_def fresh_cache_def demo_env_def)
  obtain j where call: "call_tool demo_env 0 demo_config ''doctor'' [(''project'', JStr ''b'')] (fresh_cache 300) = (Inr j, c)"
    using doctor_call [OF r g] by blast
  have "exit_name (exit_of_state (worst_state (demo_report ''t'' BLOCKED))) = ''BLOCKED''" by code_simp
  with verdict_in_payload [OF call] c call show ?thesis by auto
qed

section \<open>Notifications\<close>

text \<open>
  A notification is never answered by the handler: a JSON-RPC 2.0 request without an id
  gives no response, whatever its method, unless handling it ends in an exception that is no
  protocol error; and every request with an id that is handled gets one response with that id.
\<close>

theorem notifications_get_no_response:
  assumes "map_of d ''jsonrpc'' = Some (JStr ''2.0'')"
  shows "(case fst (handle_request env now config (JObj d) cache) of
            Inr None \<Rightarrow> map_of d ''id'' = None
          | Inr (Some response) \<Rightarrow> map_of d ''id'' \<noteq> None \<and>
              map_of (as_dict response) ''id'' = map_of d ''id'' \<and>
              (map_of (as_dict response) ''result'' = None) \<noteq> (map_of (as_dict response) ''error'' = None)
          | Inl (Crash t msg) \<Rightarrow> True
          | Inl (McpErr code msg data) \<Rightarrow> False)"
proof -
  define params where "params = (let p = get_or JNull d ''params'' in if py_truth p then p else JObj [])"
  obtain res cache' where dis: "dispatch env now config (py_str (get_or JNull d ''method'')) params cache = (res, cache')"
    by force
  have notif: "''id'' \<notin> fst ` set d \<longleftrightarrow> map_of d ''id'' = None" by (simp add: map_of_eq_None_iff)
  have "get_or JNull d ''jsonrpc'' = JStr ''2.0''" using assms by (simp add: get_or_def)
  then have "fst (handle_request env now config (JObj d) cache) =
     (case res of
        Inl (McpErr code message data) \<Rightarrow> Inr (if map_of d ''id'' = None then None
          else Some (error_response (get_or JNull d ''id'') code message [(''data'', data)]))
      | Inl (Crash t msg) \<Rightarrow> Inl (Crash t msg)
      | Inr result \<Rightarrow> Inr (if map_of d ''id'' = None then None
          else Some (JObj [(''jsonrpc'', JStr ''2.0''), (''id'', get_or JNull d ''id''), (''result'', result)])))"
    unfolding handle_request_def json.case Let_def params_def [unfolded Let_def, symmetric] dis notif
    by (simp split: sum.split mcp_exc.split)
  moreover have "map_of d ''id'' = Some x \<Longrightarrow> get_or JNull d ''id'' = x" for x by (simp add: get_or_def)
  ultimately show ?thesis
    by (cases "map_of d ''id''") (auto simp: error_response_def as_dict_def split: sum.split mcp_exc.split)
qed

lemma notifications_get_no_response_witness:
  "fst (handle_request demo_env 0 demo_config
      (JObj [(''jsonrpc'', JStr ''2.0''), (''method'', JStr ''ping'')]) (fresh_cache 300)) = Inr None"
proof -
  let ?d = "[(''jsonrpc'', JStr ''2.0''), (''method'', JStr ''ping'')]"
  have "fst (handle_request demo_env 0 demo_config (JObj ?d) (fresh_cache 300)) \<noteq> Inl (Crash t m)" for t m
    by (simp add: handle_request_def dispatch_def get_or_def Let_def)
  with notifications_get_no_response [of ?d demo_env 0 demo_config "fresh_cache 300"] show ?thesis
    by (auto split: sum.splits option.splits mcp_exc.splits)
qed

text \<open>
  A notification whose parameters are a list is answered all the same: the handler ends in
  an \<open>AttributeError\<close>, and the transport writes an error response with a null id for a message
  that asked for none.
\<close>

theorem crashing_notification_is_answered:
  "serve_line env jr config
     (now, dumps (JObj [(''jsonrpc'', JStr ''2.0''), (''method'', JStr ''tools/call''), (''params'', JList [JInt 1])]))
     cache =
   ([error_response JNull (-32603)
       (''internal error: AttributeError: '' @ repr_string ''list'' @ '' object has no attribute '' @ repr_string ''get'') []],
    cache)"
proof -
  let ?j = "JObj [(''jsonrpc'', JStr ''2.0''), (''method'', JStr ''tools/call''), (''params'', JList [JInt 1])]"
  have s: "sort_keys ?j = ?j" by simp
  then have "loads (dumps ?j) = Some ?j" by (simp add: loads_dumps del: sort_keys.simps)
  moreover have "strip (dumps ?j) = dumps ?j"
  proof (rule strip_id)
    have "dumps ?j = CHR ''{'' # (x @ ''}'')" if "x = join '','' (map dump_member (case ?j of JObj d \<Rightarrow> d | _ \<Rightarrow> []))" for x
      unfolding dumps_def s using that by simp
    then obtain x where "dumps ?j = CHR ''{'' # (x @ ''}'')" by blast
    then show "dumps ?j = [] \<or> \<not> is_space (hd (dumps ?j)) \<and> \<not> is_space (last (dumps ?j))"
      by (simp add: is_space_def)
  qed
  moreover have "dumps ?j \<noteq> []" by (simp add: dumps_def s del: sort_keys.simps)
  ultimately show ?thesis
    by (simp add: serve_line_def handle_request_def dispatch_def get_or_def request_id_of_def Let_def
        del: sort_keys.simps)
qed

section \<open>Every request is answered\<close>







end
