(* ===== verification/Diff_Engine.thy ===== *)
theory Diff_Engine
  imports Models
begin

text \<open>
  \<open>src/devrepro/diff/engine.py\<close> and \<open>compute_drift\<close> of \<open>src/devrepro/snapshots/history.py\<close>:
  the comparison of two snapshots. \<open>_PLATFORM_KEYS\<close> is a set of strings, whose iteration order
  Python does not fix: the order is an argument. The digest that identifies a snapshot is an
  argument too.
\<close>

section \<open>Entries\<close>

datatype diff_error = IncompatibleSchemas string string

definition entry ::
  "string \<Rightarrow> string \<Rightarrow> diff_classification \<Rightarrow> string option \<Rightarrow> string option \<Rightarrow> string option \<Rightarrow> bool \<Rightarrow> diff_entry" where
  "entry component name cls va vb detail critical =
     \<lparr>d_component = component, d_name = name, d_classification = cls, d_a_value = va, d_b_value = vb,
       d_detail = detail, d_project_critical = critical\<rparr>"

text \<open>\<open>str\<close> of an optional string and of an optional boolean.\<close>

definition str_opt :: "string option \<Rightarrow> string" where
  "str_opt v = (case v of None \<Rightarrow> ''None'' | Some s \<Rightarrow> s)"

definition bool_text :: "bool \<Rightarrow> string" where
  "bool_text b = (if b then ''True'' else ''False'')"

definition compare_optional ::
  "string \<Rightarrow> string \<Rightarrow> string option \<Rightarrow> string option \<Rightarrow> diff_classification \<Rightarrow> string \<Rightarrow> bool \<Rightarrow> diff_entry list" where
  "compare_optional component name va vb cls detail critical =
     (if va = vb \<or> (va = None \<and> vb = None) then []
      else [entry component name cls (Some (str_opt va)) (Some (str_opt vb)) (Some detail) critical])"

section \<open>The sections of the comparison\<close>

definition PLATFORM_KEYS :: "string list" where
  "PLATFORM_KEYS = [''os_name'', ''os_version'', ''arch'', ''kernel'']"

definition platform_attr :: "platform_info \<Rightarrow> string \<Rightarrow> string option" where
  "platform_attr p k =
     (if k = ''os_name'' then Some (pl_os_name p) else if k = ''os_version'' then Some (pl_os_version p)
      else if k = ''arch'' then Some (pl_arch p) else pl_kernel p)"

definition platform_entries :: "string list \<Rightarrow> platform_info \<Rightarrow> platform_info \<Rightarrow> diff_entry list" where
  "platform_entries keys pa pb =
     concat (map (\<lambda>key.
       let va = platform_attr pa key; vb = platform_attr pb key in
       if va \<noteq> vb then
         [entry ''platform'' key PLATFORM_EXPECTED (Some (str_opt va)) (Some (str_opt vb))
            (Some (''Platform differences are expected across machines; '' @
                   ''only flag if the project targets one OS.'')) False]
       else []) keys)"

text \<open>\<open>{t.name: t for t in tools}\<close>.\<close>

definition tools_by_name :: "tool_installation list \<Rightarrow> (string \<times> tool_installation) list" where
  "tools_by_name ts = dict_of (map (\<lambda>t. (t_name t, t)) ts)"

definition or_empty :: "string option \<Rightarrow> string" where
  "or_empty v = (case v of None \<Rightarrow> [] | Some s \<Rightarrow> s)"

definition quoted :: "string \<Rightarrow> string" where
  "quoted s = [CHR 0x27] @ s @ [CHR 0x27]"

definition tool_entry ::
  "string \<Rightarrow> tool_installation option \<Rightarrow> tool_installation option \<Rightarrow> bool \<Rightarrow> diff_entry list" where
  "tool_entry name ta tb critical =
     (case (ta, tb) of
        (None, Some y) \<Rightarrow>
          [entry ''tool'' name MISSING None (t_version y) (Some (quoted name @ '' exists on B but not on A.'')) critical]
      | (Some x, None) \<Rightarrow>
          [entry ''tool'' name MISSING (t_version x) None (Some (quoted name @ '' exists on A but not on B.'')) critical]
      | (Some x, Some y) \<Rightarrow>
          if or_empty (t_version x) \<noteq> or_empty (t_version y) then
            [entry ''tool'' name VERSION_DRIFT (t_version x) (t_version y)
               (Some (''Version drift on '' @ quoted name @ ''.'')) critical]
          else if or_empty (t_exe_path x) \<noteq> or_empty (t_exe_path y) then
            [entry ''tool'' name PATH_PRECEDENCE (t_exe_path x) (t_exe_path y)
               (Some (quoted name @ '' resolves to different executables (same version).'')) critical]
          else [entry ''tool'' name SAME (t_version x) (t_version y) None False]
      | (None, None) \<Rightarrow> [])"

definition sorted_union :: "('k::linorder \<times> 'a) list \<Rightarrow> ('k \<times> 'b) list \<Rightarrow> 'k list" where
  "sorted_union xs ys = sorted_list_of_set (set (map fst xs) \<union> set (map fst ys))"

definition tool_entries :: "snapshot \<Rightarrow> snapshot \<Rightarrow> diff_entry list" where
  "tool_entries a b =
     (let ta = tools_by_name (s_tools a); tb = tools_by_name (s_tools b);
          critical_names = map r_name (s_requirements_fingerprint a) @ map r_name (s_requirements_fingerprint b)
      in concat (map (\<lambda>name. tool_entry name (map_of ta name) (map_of tb name) (name \<in> set critical_names))
           (sorted_union ta tb)))"

definition path_norm :: "snapshot \<Rightarrow> string list" where
  "path_norm s = (case s_path_analysis s of None \<Rightarrow> [] | Some p \<Rightarrow> map pe_normalized (pa_entries p))"

definition path_side :: "string \<Rightarrow> string list \<Rightarrow> string list \<Rightarrow> string" where
  "path_side label mine other =
     (let only = filter (\<lambda>p. p \<notin> set other) mine in
      str_nat (length mine) @ '' entries'' @
      (if only = [] then [] else ''; '' @ label @ ''-only: '' @ str_nat (length only)))"

definition path_entries :: "snapshot \<Rightarrow> snapshot \<Rightarrow> diff_entry list" where
  "path_entries a b =
     (if path_norm a \<noteq> path_norm b then
        [entry ''path'' ''PATH'' PATH_PRECEDENCE
           (Some (path_side ''A'' (path_norm a) (path_norm b)))
           (Some (path_side ''B'' (path_norm b) (path_norm a)))
           (Some (''PATH composition differs; resolution order may differ even for '' @
                  ''identical tool versions.'')) False]
      else [])"

definition requirement_specs :: "snapshot \<Rightarrow> ((string \<times> string) \<times> string) list" where
  "requirement_specs s =
     dict_of (map (\<lambda>r. ((r_ecosystem r, r_name r), r_spec r)) (s_requirements_fingerprint s))"

definition requirement_entries :: "snapshot \<Rightarrow> snapshot \<Rightarrow> diff_entry list" where
  "requirement_entries a b =
     (let ra = requirement_specs a; rb = requirement_specs b in
      concat (map (\<lambda>key.
        if map_of ra key \<noteq> map_of rb key then
          [entry ''requirement'' (fst key @ '':'' @ snd key) PROJECT_CRITICAL (map_of ra key) (map_of rb key)
             (Some ''Declared project requirements differ between the two snapshots.'') True]
        else []) (sorted_union ra rb)))"

definition daemon_entries :: "container_state option \<Rightarrow> container_state option \<Rightarrow> diff_entry list" where
  "daemon_entries ca cb =
     (let value = (\<lambda>c. Some (case c of None \<Rightarrow> ''None'' | Some x \<Rightarrow> bool_text (c_docker_daemon_ok x))) in
      if (ca = None) \<noteq> (cb = None) \<or>
         (case (ca, cb) of (Some x, Some y) \<Rightarrow> c_docker_daemon_ok x \<noteq> c_docker_daemon_ok y | _ \<Rightarrow> False)
      then [entry ''container'' ''docker-daemon'' PROJECT_CRITICAL (value ca) (value cb)
              (Some ''Docker daemon health differs; container builds will behave differently.'') True]
      else [])"

definition CONTAINER_AXES :: "(string \<times> (container_state \<Rightarrow> string option) \<times> string \<times> bool) list" where
  "CONTAINER_AXES =
     [(''engine-backend'', c_backend,
       ''A different container engine is behind `docker`. Bind-mount behaviour, '' @
       ''file-sharing performance and available host paths all differ between them.'', True),
      (''engine-arch'', c_server_arch,
       ''The engines run different architectures; one of these is emulating, which '' @
       ''is correct and roughly ten times slower.'', True),
      (''cgroup-version'', c_cgroup_version,
       ''cgroup versions differ. Memory and CPU limits behave differently, so a '' @
       ''container that is OOM-killed on one machine can pass on the other.'', True),
      (''storage-driver'', c_storage_driver,
       ''Storage drivers differ. Layer caching and build times differ with them, and '' @
       ''some drivers are removed in current engines.'', False),
      (''engine-version'', c_server_version, ''Container engine versions differ.'', False),
      (''buildx-version'', c_buildx_version,
       ''buildx versions differ. Multi-platform builds, build secrets and cache '' @
       ''mounts depend on it.'', False),
      (''rootless'', (\<lambda>c. map_option bool_text (c_rootless c)),
       ''One engine runs rootless and the other does not. Port binding below 1024, '' @
       ''file ownership in bind mounts and some network modes differ.'', True)]"

definition axis_entries :: "container_state option \<Rightarrow> container_state option \<Rightarrow> diff_entry list" where
  "axis_entries ca cb =
     (case (ca, cb) of
        (Some x, Some y) \<Rightarrow>
          concat (map (\<lambda>(name, get, detail, critical).
            if get x = get y then []
            else [entry ''container'' name (if critical then PROJECT_CRITICAL else VERSION_DRIFT)
                    (get x) (get y) (Some detail) critical]) CONTAINER_AXES)
      | _ \<Rightarrow> [])"

definition docker_cli_entries :: "container_state option \<Rightarrow> container_state option \<Rightarrow> diff_entry list" where
  "docker_cli_entries ca cb =
     compare_optional ''container'' ''docker-cli'' (Option.bind ca c_docker_cli_version)
       (Option.bind cb c_docker_cli_version) VERSION_DRIFT
       ''Docker CLI version differs between the two machines.'' False"

definition wsl_entries :: "wsl_state option \<Rightarrow> wsl_state option \<Rightarrow> diff_entry list" where
  "wsl_entries wa wb =
     compare_optional ''wsl'' ''wsl-available'' (map_option (\<lambda>w. bool_text (w_available w)) wa)
       (map_option (\<lambda>w. bool_text (w_available w)) wb) PLATFORM_EXPECTED
       ''WSL availability differs; Linux-path builds behave differently.'' False @
     compare_optional ''wsl'' ''wsl-default-distro'' (Option.bind wa w_default_distro)
       (Option.bind wb w_default_distro) PLATFORM_EXPECTED
       ''The default WSL distro differs; commands run against another filesystem.'' False"

definition gpu_entries :: "gpu_stack option \<Rightarrow> gpu_stack option \<Rightarrow> diff_entry list" where
  "gpu_entries ga gb =
     concat (map (\<lambda>(name, get). compare_optional ''gpu'' name (Option.bind ga get) (Option.bind gb get)
         PROJECT_CRITICAL (name @ '' differs; GPU workloads may not reproduce.'') True)
       [(''nvidia-driver'', g_nvidia_driver), (''cuda-toolkit'', g_cuda_toolkit), (''rocm'', g_rocm)])"

definition diff_entries :: "string list \<Rightarrow> snapshot \<Rightarrow> snapshot \<Rightarrow> diff_entry list" where
  "diff_entries keys a b =
     platform_entries keys (s_platform a) (s_platform b) @ tool_entries a b @ path_entries a b @
     requirement_entries a b @ daemon_entries (s_containers a) (s_containers b) @
     axis_entries (s_containers a) (s_containers b) @ docker_cli_entries (s_containers a) (s_containers b) @
     wsl_entries (s_wsl a) (s_wsl b) @ gpu_entries (s_gpu a) (s_gpu b)"

definition diff_snapshots ::
  "string list \<Rightarrow> (snapshot \<Rightarrow> string) \<Rightarrow> snapshot \<Rightarrow> snapshot \<Rightarrow> diff_error + environment_diff" where
  "diff_snapshots keys snapshot_id a b =
     (if s_schema_version a \<noteq> s_schema_version b then
        Inl (IncompatibleSchemas (s_schema_version a) (s_schema_version b))
      else Inr \<lparr>ed_a_snapshot_id = snapshot_id a, ed_b_snapshot_id = snapshot_id b,
                ed_entries = diff_entries keys a b\<rparr>)"

section \<open>Drift\<close>

record drift_item =
  drift_name :: string
  drift_kind :: string
  drift_detail :: string

definition drift_kind_of :: "diff_entry \<Rightarrow> string" where
  "drift_kind_of e =
     (if d_component e = ''tool'' \<and> d_classification e = VERSION_DRIFT then ''runtime-changed''
      else if d_component e = ''container'' then ''docker-state-changed''
      else if d_component e = ''path'' then ''path-precedence-changed''
      else if d_classification e = MISSING then ''tool-missing''
      else classification_value (d_classification e))"

definition compute_drift ::
  "string list \<Rightarrow> (snapshot \<Rightarrow> string) \<Rightarrow> snapshot \<Rightarrow> snapshot \<Rightarrow> diff_error + drift_item list" where
  "compute_drift keys snapshot_id previous current =
     bind_res (diff_snapshots keys snapshot_id previous current) (\<lambda>diff.
       Inr (map (\<lambda>e. \<lparr>drift_name = d_name e, drift_kind = drift_kind_of e,
                       drift_detail = or_empty (d_detail e)\<rparr>)
             (filter (\<lambda>e. d_classification e \<noteq> SAME) (ed_entries diff))))"

section \<open>Lemmas\<close>

named_theorems diff_sections \<open>the sections of a comparison\<close>

lemmas [diff_sections] = platform_entries_def tool_entries_def path_entries_def requirement_entries_def
  daemon_entries_def axis_entries_def docker_cli_entries_def wsl_entries_def gpu_entries_def compare_optional_def

text \<open>The tool a name stands for: the last one listed under it.\<close>

lemma map_of_find: "map_of (map (\<lambda>t. (f t, t)) ts) n = find (\<lambda>t. f t = n) ts"
  by (induction ts) auto

lemma tools_by_name_last:
  "map_of (tools_by_name ts) n = find (\<lambda>t. t_name t = n) (rev ts)"
  unfolding tools_by_name_def map_of_dict_of rev_map by (rule map_of_find)

lemma fst_tools_by_name: "fst ` set (tools_by_name ts) = t_name ` set ts"
proof -
  have "n \<in> fst ` set (tools_by_name ts) \<longleftrightarrow> n \<in> t_name ` set ts" for n
  proof -
    have "n \<in> fst ` set (tools_by_name ts) \<longleftrightarrow> map_of (tools_by_name ts) n \<noteq> None"
      by (auto simp: map_of_eq_None_iff image_iff)
    also have "\<dots> \<longleftrightarrow> n \<in> t_name ` set ts"
      unfolding tools_by_name_last by (auto simp: find_None_iff image_iff)
    finally show ?thesis .
  qed
  then show ?thesis by blast
qed

lemma sorted_union_comm: "sorted_union xs xs' = sorted_union ys ys' \<longleftrightarrow>
    set (map fst xs) \<union> set (map fst xs') = set (map fst ys) \<union> set (map fst ys')"
  unfolding sorted_union_def
  by (metis List.finite_set finite_UnI set_sorted_list_of_set)

lemma set_sorted_union: "set (sorted_union xs ys) = fst ` set xs \<union> fst ` set ys"
  by (simp add: sorted_union_def)

text \<open>The key of an entry: what is the same seen from either side.\<close>

definition entry_key :: "diff_entry \<Rightarrow> string \<times> string \<times> diff_classification \<times> bool" where
  "entry_key e = (d_component e, d_name e, d_classification e, d_project_critical e)"

lemma entry_key_entry [simp]:
  "entry_key (entry component name cls va vb detail critical) = (component, name, cls, critical)"
  by (simp add: entry_key_def entry_def)

lemma tool_entry_swap: "map entry_key (tool_entry name tb ta c) = map entry_key (tool_entry name ta tb c)"
  by (cases ta; cases tb) (auto simp: tool_entry_def)

lemma map_concat_cong:
  "(\<And>x. x \<in> set xs \<Longrightarrow> map f (g x) = map f (h x)) \<Longrightarrow> map f (concat (map g xs)) = map f (concat (map h xs))"
  by (induction xs) auto

lemma diff_entries_swap: "map entry_key (diff_entries keys b a) = map entry_key (diff_entries keys a b)"
proof -
  have "map entry_key (platform_entries keys (s_platform b) (s_platform a)) =
        map entry_key (platform_entries keys (s_platform a) (s_platform b))"
    unfolding platform_entries_def by (rule map_concat_cong) (auto simp: Let_def)
  moreover have "map entry_key (tool_entries b a) = map entry_key (tool_entries a b)"
  proof -
    have u: "sorted_union (tools_by_name (s_tools b)) (tools_by_name (s_tools a)) =
          sorted_union (tools_by_name (s_tools a)) (tools_by_name (s_tools b))"
      unfolding sorted_union_comm by auto
    have c: "name \<in> set (map r_name (s_requirements_fingerprint b) @ map r_name (s_requirements_fingerprint a)) \<longleftrightarrow>
          name \<in> set (map r_name (s_requirements_fingerprint a) @ map r_name (s_requirements_fingerprint b))" for name
      by auto
    show ?thesis
      unfolding tool_entries_def Let_def u c by (rule map_concat_cong) (rule tool_entry_swap)
  qed
  moreover have "map entry_key (path_entries b a) = map entry_key (path_entries a b)"
    by (auto simp: path_entries_def)
  moreover have "map entry_key (requirement_entries b a) = map entry_key (requirement_entries a b)"
  proof -
    have u: "sorted_union (requirement_specs b) (requirement_specs a) =
          sorted_union (requirement_specs a) (requirement_specs b)"
      unfolding sorted_union_comm by auto
    show ?thesis unfolding requirement_entries_def Let_def u by (rule map_concat_cong) auto
  qed
  moreover have "map entry_key (daemon_entries (s_containers b) (s_containers a)) =
        map entry_key (daemon_entries (s_containers a) (s_containers b))"
    by (cases "s_containers a"; cases "s_containers b") (auto simp: daemon_entries_def Let_def)
  moreover have "map entry_key (axis_entries (s_containers b) (s_containers a)) =
        map entry_key (axis_entries (s_containers a) (s_containers b))"
    by (cases "s_containers a"; cases "s_containers b")
      (auto simp: axis_entries_def intro!: map_concat_cong)
  moreover have "map entry_key (docker_cli_entries (s_containers b) (s_containers a)) =
        map entry_key (docker_cli_entries (s_containers a) (s_containers b))"
    by (auto simp: docker_cli_entries_def compare_optional_def)
  moreover have "map entry_key (wsl_entries (s_wsl b) (s_wsl a)) = map entry_key (wsl_entries (s_wsl a) (s_wsl b))"
    by (auto simp: wsl_entries_def compare_optional_def)
  moreover have "map entry_key (gpu_entries (s_gpu b) (s_gpu a)) = map entry_key (gpu_entries (s_gpu a) (s_gpu b))"
    unfolding gpu_entries_def by (rule map_concat_cong) (auto simp: compare_optional_def)
  ultimately show ?thesis unfolding diff_entries_def map_append by metis
qed

lemma same_sections:
  "platform_entries keys p p = []" "path_entries a a = []" "requirement_entries a a = []"
  "daemon_entries c c = []" "axis_entries c c = []" "docker_cli_entries c c = []"
  "wsl_entries w w = []" "gpu_entries g g = []"
  by (auto simp: diff_sections Let_def split: option.splits)

lemma tool_entries_same:
  "tool_entries a a = map (\<lambda>n. entry ''tool'' n SAME
       (t_version (the (map_of (tools_by_name (s_tools a)) n))) (t_version (the (map_of (tools_by_name (s_tools a)) n)))
       None False) (sorted_list_of_set (t_name ` set (s_tools a)))"
proof -
  have dom: "map_of (tools_by_name (s_tools a)) n \<noteq> None" if "n \<in> t_name ` set (s_tools a)" for n
    using that fst_tools_by_name [of "s_tools a"] by (auto simp: map_of_eq_None_iff image_iff)
  have u: "sorted_union (tools_by_name (s_tools a)) (tools_by_name (s_tools a)) = sorted_list_of_set (t_name ` set (s_tools a))"
    by (simp add: sorted_union_def fst_tools_by_name)
  have "concat (map (\<lambda>name. tool_entry name (map_of (tools_by_name (s_tools a)) name)
          (map_of (tools_by_name (s_tools a)) name) (c name)) ns) =
        map (\<lambda>n. entry ''tool'' n SAME
       (t_version (the (map_of (tools_by_name (s_tools a)) n))) (t_version (the (map_of (tools_by_name (s_tools a)) n)))
       None False) ns" if "set ns \<subseteq> t_name ` set (s_tools a)" for ns c
    using that by (induction ns) (auto simp: tool_entry_def dest!: dom)
  then show ?thesis unfolding tool_entries_def Let_def u by simp
qed

text \<open>
  A snapshot does not differ from itself: whatever it lists, even one tool several times,
  the comparison with itself has one entry per tool name, all of them \<open>same\<close>, and there is no
  drift.
\<close>

theorem diff_with_itself:
  "\<exists>d. diff_snapshots keys snapshot_id a a = Inr d \<and>
     map d_name (ed_entries d) = sorted_list_of_set (t_name ` set (s_tools a)) \<and>
     (\<forall>e. e \<in> set (ed_entries d) \<longrightarrow> d_classification e = SAME) \<and>
     compute_drift keys snapshot_id a a = Inr []"
proof -
  let ?es = "tool_entries a a"
  have d: "diff_snapshots keys snapshot_id a a =
      Inr \<lparr>ed_a_snapshot_id = snapshot_id a, ed_b_snapshot_id = snapshot_id a, ed_entries = ?es\<rparr>"
    by (simp add: diff_snapshots_def diff_entries_def same_sections)
  moreover have "map d_name ?es = sorted_list_of_set (t_name ` set (s_tools a))"
    unfolding tool_entries_same by (simp add: entry_def comp_def)
  moreover have same: "\<forall>e. e \<in> set ?es \<longrightarrow> d_classification e = SAME"
    unfolding tool_entries_same by (auto simp: entry_def)
  then have "compute_drift keys snapshot_id a a = Inr []"
    by (simp add: compute_drift_def d filter_empty_conv)
  ultimately show ?thesis using same by auto
qed

lemma diff_with_itself_witness:
  "\<forall>keys (a :: snapshot). compute_drift keys (\<lambda>s. s_created_at s) a a = Inr []"
  using diff_with_itself by blast

text \<open>
  C24: The comparison is symmetric in everything but the sides: swapped snapshots give the same
  entries in the same order with the same classification and criticality, and schemas are
  incompatible in both directions or in neither.
\<close>

theorem diff_symmetric:
  "(case (diff_snapshots keys snapshot_id a b, diff_snapshots keys snapshot_id b a) of
      (Inr d, Inr d') \<Rightarrow> map entry_key (ed_entries d') = map entry_key (ed_entries d) \<and>
        s_schema_version a = s_schema_version b
    | (Inl e, Inl e') \<Rightarrow> s_schema_version a \<noteq> s_schema_version b
    | _ \<Rightarrow> False)"
  by (auto simp: diff_snapshots_def diff_entries_swap)

text \<open>
  An unreadable duplicate is reported as drift: when one machine lists a tool at a version
  and the other lists the same installation followed by a second, active one whose version
  could not be read, both have the same active version, but the comparison looks at the last
  listed installation only and reports a version drift to nothing.
\<close>

theorem unreadable_duplicate_is_drift:
  assumes "t_is_active tool" and "t_version tool = Some v" and "v \<noteq> []"
    and "t_is_active stub" and "t_name stub = t_name tool" and "t_version stub = None"
    and "s_tools a = [tool]" and "s_tools b = [tool, stub]"
    and "sr_tools ra = s_tools a" and "sr_tools rb = s_tools b"
  shows "map_of (active_versions ra) (t_name tool) = map_of (active_versions rb) (t_name tool) \<and>
         (\<exists>e \<in> set (diff_entries keys a b). d_component e = ''tool'' \<and> d_name e = t_name tool \<and>
            d_classification e = VERSION_DRIFT \<and> d_a_value e = Some v \<and> d_b_value e = None)"
proof
  show "map_of (active_versions ra) (t_name tool) = map_of (active_versions rb) (t_name tool)"
    using assms by (simp add: active_versions_def active_step_def)
  have ta: "map_of (tools_by_name (s_tools a)) (t_name tool) = Some tool"
    and tb: "map_of (tools_by_name (s_tools b)) (t_name tool) = Some stub"
    using assms by (simp_all add: tools_by_name_last)
  have names: "sorted_union (tools_by_name (s_tools a)) (tools_by_name (s_tools b)) = [t_name tool]"
    using assms by (simp add: sorted_union_def fst_tools_by_name)
  have "\<exists>d c. tool_entries a b = [entry ''tool'' (t_name tool) VERSION_DRIFT (Some v) None d c]"
  proof -
    define crit where "crit = (t_name tool \<in> set (map r_name (s_requirements_fingerprint a) @
        map r_name (s_requirements_fingerprint b)))"
    have "tool_entries a b = tool_entry (t_name tool) (Some tool) (Some stub) crit"
      unfolding tool_entries_def Let_def names crit_def
      by (simp only: list.map concat.simps append_Nil2 ta tb)
    then have "tool_entries a b = [entry ''tool'' (t_name tool) VERSION_DRIFT (Some v) None
        (Some (''Version drift on '' @ quoted (t_name tool) @ ''.'')) crit]"
      using assms by (simp add: tool_entry_def or_empty_def)
    then show ?thesis by blast
  qed
  then obtain d c where t: "tool_entries a b = [entry ''tool'' (t_name tool) VERSION_DRIFT (Some v) None d c]"
    by blast
  have "entry ''tool'' (t_name tool) VERSION_DRIFT (Some v) None d c \<in> set (diff_entries keys a b)"
    by (simp add: diff_entries_def t)
  then show "\<exists>e \<in> set (diff_entries keys a b). d_component e = ''tool'' \<and> d_name e = t_name tool \<and>
            d_classification e = VERSION_DRIFT \<and> d_a_value e = Some v \<and> d_b_value e = None"
    by (rule bexI [rotated]) (simp add: entry_def)
qed

definition demo_tool :: "string option \<Rightarrow> tool_installation" where
  "demo_tool v = \<lparr>t_name = ''python'', t_version = v, t_exe_path = Some ''/usr/bin/python'',
     t_install_source = None, t_is_active = True, t_precedence = None\<rparr>"

definition demo_snapshot :: "tool_installation list \<Rightarrow> snapshot" where
  "demo_snapshot ts = \<lparr>s_schema_version = ''1.0'', s_created_at = ''t'', s_devrepro_version = ''1'',
     s_platform = \<lparr>pl_os_name = ''windows'', pl_os_version = ''11'', pl_arch = ''x86_64'',
        pl_kernel = None, pl_shell = None, pl_is_wsl = False\<rparr>,
     s_tools = ts, s_path_analysis = None, s_compilers = [], s_requirements_fingerprint = [],
     s_containers = None, s_wsl = None, s_gpu = None, s_virtualenvs = [], s_score = None\<rparr>"

definition demo_scan :: "tool_installation list \<Rightarrow> scan_report" where
  "demo_scan ts = \<lparr>sr_schema_version = ''1.0'', sr_created_at = ''t'', sr_devrepro_version = ''1'',
     sr_platform = s_platform (demo_snapshot ts), sr_findings = [], sr_tools = ts, sr_path_analysis = None,
     sr_requirements = [], sr_policy_applied = False, sr_score = None, sr_probe_errors = [],
     sr_containers = None, sr_wsl = None, sr_gpu = None\<rparr>"

lemma unreadable_duplicate_is_drift_witness:
  "\<exists>e \<in> set (diff_entries PLATFORM_KEYS (demo_snapshot [demo_tool (Some ''3.12.1'')])
       (demo_snapshot [demo_tool (Some ''3.12.1''), demo_tool None])).
     d_classification e = VERSION_DRIFT \<and> d_b_value e = None"
  using unreadable_duplicate_is_drift
    [of "demo_tool (Some ''3.12.1'')" "''3.12.1''" "demo_tool None"
        "demo_snapshot [demo_tool (Some ''3.12.1'')]" "demo_snapshot [demo_tool (Some ''3.12.1''), demo_tool None]"
        "demo_scan [demo_tool (Some ''3.12.1'')]" "demo_scan [demo_tool (Some ''3.12.1''), demo_tool None]" PLATFORM_KEYS]
  by (auto simp: demo_tool_def demo_snapshot_def demo_scan_def)

end
