(* ===== verification/Regex.thy ===== *)
theory Regex
  imports Prelude
begin

text \<open>
  The part of Python's \<open>re\<close> module the program relies on. A matcher maps the remaining
  text to its successful matches as (matched text, rest) in the order Python's backtracking
  engine tries them, so \<open>re.match\<close> is the first element and a pattern that must backtrack
  (as \<open>_VERSION_RE\<close> does on \<open>1.2..3\<close>) is modelled exactly.
\<close>

type_synonym matcher = "string \<Rightarrow> (string \<times> string) list"

section \<open>Combinators\<close>

text \<open>One character of a class; a literal; the empty match.\<close>

fun m_one :: "(char \<Rightarrow> bool) \<Rightarrow> matcher" where
  "m_one P [] = []"
| "m_one P (c # cs) = (if P c then [([c], cs)] else [])"

definition m_lit :: "string \<Rightarrow> matcher" where
  "m_lit p s = (if prefix p s then [(p, drop (length p) s)] else [])"

lemma m_lit_simps [simp]:
  "m_lit [] s = [([], s)]"
  "m_lit (c # cs) [] = []"
  "m_lit (c # cs) (d # ds) = (if c = d then map (\<lambda>(x, r). (c # x, r)) (m_lit cs ds) else [])"
  by (auto simp: m_lit_def)

text \<open>Sequence, alternation, greedy optional.\<close>

definition m_seq :: "matcher \<Rightarrow> matcher \<Rightarrow> matcher" where
  "m_seq m n s = concat (map (\<lambda>(x, r). map (\<lambda>(y, r'). (x @ y, r')) (n r)) (m s))"

definition m_alt :: "matcher \<Rightarrow> matcher \<Rightarrow> matcher" where
  "m_alt m n s = m s @ n s"

definition m_opt :: "matcher \<Rightarrow> matcher" where
  "m_opt m s = m s @ [([], s)]"

text \<open>Sequences and alternations of several parts.\<close>

fun m_alts :: "matcher list \<Rightarrow> matcher" where
  "m_alts [] = (\<lambda>s. [])"
| "m_alts (m # ms) = m_alt m (m_alts ms)"

fun m_seqs :: "matcher list \<Rightarrow> matcher" where
  "m_seqs [] = (\<lambda>s. [([], s)])"
| "m_seqs (m # ms) = m_seq m (m_seqs ms)"

text \<open>A greedy star over a character class, and the plus.\<close>

fun m_star :: "(char \<Rightarrow> bool) \<Rightarrow> matcher" where
  "m_star P [] = [([], [])]"
| "m_star P (c # cs) =
     (if P c then map (\<lambda>(x, r). (c # x, r)) (m_star P cs) @ [([], c # cs)] else [([], c # cs)])"

definition m_plus :: "(char \<Rightarrow> bool) \<Rightarrow> matcher" where
  "m_plus P = m_seq (m_one P) (m_star P)"

text \<open>
  A greedy star over a group. Every iteration must consume, so the length of the text
  bounds the number of iterations.
\<close>

fun m_rep_n :: "nat \<Rightarrow> matcher \<Rightarrow> matcher" where
  "m_rep_n 0 m s = [([], s)]"
| "m_rep_n (Suc n) m s =
     concat (map (\<lambda>(x, r). if x = [] then [] else map (\<lambda>(y, r'). (x @ y, r')) (m_rep_n n m r)) (m s))
     @ [([], s)]"

definition m_rep :: "matcher \<Rightarrow> matcher" where
  "m_rep m s = m_rep_n (length s) m s"

text \<open>At least a number of characters of a class (\<open>{n,}\<close>), greedy.\<close>

definition m_atleast :: "nat \<Rightarrow> (char \<Rightarrow> bool) \<Rightarrow> matcher" where
  "m_atleast n P s = filter (\<lambda>(x, r). n \<le> length x) (m_star P s)"

text \<open>An optional capture group: \<^const>\<open>None\<close> when the group did not take part.\<close>

definition m_group_opt :: "matcher \<Rightarrow> string \<Rightarrow> (string option \<times> string) list" where
  "m_group_opt m s = map (\<lambda>(x, r). (Some x, r)) (m s) @ [(None, s)]"

text \<open>The anchor \<open>$\<close>: the end of the text, or just before a final newline.\<close>

definition at_end :: "string \<Rightarrow> bool" where
  "at_end r \<longleftrightarrow> r = [] \<or> r = [CHR 0x0A]"

text \<open>\<open>re.search\<close>: the first position from the left with a match.\<close>

fun m_search :: "matcher \<Rightarrow> string \<Rightarrow> (string \<times> string) option" where
  "m_search m [] = (case m [] of [] \<Rightarrow> None | y # ys \<Rightarrow> Some y)"
| "m_search m (c # cs) = (case m (c # cs) of [] \<Rightarrow> m_search m cs | y # ys \<Rightarrow> Some y)"

text \<open>\<open>re.sub\<close> with a constant replacement, for a pattern that never matches the empty text.\<close>

function m_sub :: "matcher \<Rightarrow> string \<Rightarrow> string \<Rightarrow> string" where
  "m_sub m w s =
     (case s of [] \<Rightarrow> []
      | c # cs \<Rightarrow>
          (case m (c # cs) of
             [] \<Rightarrow> c # m_sub m w cs
           | (x, r) # _ \<Rightarrow> if length r < length s then w @ m_sub m w r else c # m_sub m w cs))"
  by pat_completeness auto
termination
  by (relation "measure (\<lambda>(m, w, s). length s)") auto

declare m_sub.simps [simp del]

section \<open>Searching lines\<close>

text \<open>
  \<open>re.search\<close> of a pattern that starts with \<open>^\<close> under \<open>re.M\<close>: \<open>f\<close> gives the captured groups of the
  matches at a position, the flag says whether the position is the start of a line.
\<close>

fun search_lines :: "(string \<Rightarrow> 'a list) \<Rightarrow> bool \<Rightarrow> string \<Rightarrow> 'a option" where
  "search_lines f bol [] = (case (if bol then f [] else []) of x # _ \<Rightarrow> Some x | [] \<Rightarrow> None)"
| "search_lines f bol (c # cs) =
     (case (if bol then f (c # cs) else []) of x # _ \<Rightarrow> Some x | [] \<Rightarrow> search_lines f (c = CHR 0x0A) cs)"

text \<open>The last group of a pattern.\<close>

definition m_capture :: "matcher \<Rightarrow> matcher \<Rightarrow> string \<Rightarrow> string list" where
  "m_capture lead grp s = concat (map (\<lambda>(x, r). map fst (grp r)) (lead s))"

text \<open>
  \<open>findall\<close> of such a pattern with one group: \<open>f\<close> gives the group, the match and the rest; matches do
  not overlap. The parts of a pattern with a group in the middle, and the look-ahead \<open>(?!...)\<close>.
\<close>

function find_groups :: "(string \<Rightarrow> ('a \<times> string \<times> string) list) \<Rightarrow> bool \<Rightarrow> string \<Rightarrow> 'a list" where
  "find_groups f bol s =
     (case s of
        [] \<Rightarrow> []
      | c # cs \<Rightarrow>
          (case (if bol then f (c # cs) else []) of
             [] \<Rightarrow> find_groups f (c = CHR 0x0A) cs
           | (g, x, r) # _ \<Rightarrow>
               if length r < length s then g # find_groups f (last x = CHR 0x0A) r
               else find_groups f (c = CHR 0x0A) cs))"
  by pat_completeness auto
termination
  by (relation "measure (\<lambda>(f, bol, s). length s)") auto

declare find_groups.simps [simp del]

definition m_grouped :: "matcher \<Rightarrow> matcher \<Rightarrow> string \<Rightarrow> (string \<times> string \<times> string) list" where
  "m_grouped grp after s = concat (map (\<lambda>(g, r). map (\<lambda>(y, r'). (g, g @ y, r')) (after r)) (grp s))"

definition m_not_next :: "(char \<Rightarrow> bool) \<Rightarrow> matcher" where
  "m_not_next P s = (if s \<noteq> [] \<and> P (hd s) then [] else [([], s)])"

text \<open>
  \<open>re.search\<close> and \<open>findall\<close> of a pattern without an anchor: \<open>f\<close> gives the group and the rest of the
  matches at a position.
\<close>

fun search_group :: "(string \<Rightarrow> ('a \<times> string) list) \<Rightarrow> string \<Rightarrow> 'a option" where
  "search_group f [] = (case f [] of (g, r) # _ \<Rightarrow> Some g | [] \<Rightarrow> None)"
| "search_group f (c # cs) = (case f (c # cs) of (g, r) # _ \<Rightarrow> Some g | [] \<Rightarrow> search_group f cs)"

function find_all :: "(string \<Rightarrow> ('a \<times> string) list) \<Rightarrow> string \<Rightarrow> 'a list" where
  "find_all f s =
     (case s of
        [] \<Rightarrow> []
      | c # cs \<Rightarrow>
          (case f (c # cs) of
             [] \<Rightarrow> find_all f cs
           | (g, r) # _ \<Rightarrow> if length r < length s then g # find_all f r else find_all f cs))"
  by pat_completeness auto
termination
  by (relation "measure (\<lambda>(f, s). length s)") auto

declare find_all.simps [simp del]

text \<open>The group in the middle of a pattern, with what follows the match.\<close>

definition m_within :: "matcher \<Rightarrow> matcher \<Rightarrow> matcher \<Rightarrow> string \<Rightarrow> (string \<times> string) list" where
  "m_within lead grp after s =
     concat (map (\<lambda>(x, r). concat (map (\<lambda>(g, r'). map (\<lambda>(y, r''). (g, r'')) (after r')) (grp r))) (lead s))"

abbreviation m_empty :: matcher where
  "m_empty \<equiv> \<lambda>s. [([], s)]"

section \<open>Soundness: a match is a split of the text\<close>

named_theorems match_sound \<open>every reported match splits the text\<close>

definition sound :: "matcher \<Rightarrow> bool" where
  "sound m \<longleftrightarrow> (\<forall>s x r. (x, r) \<in> set (m s) \<longrightarrow> s = x @ r)"

lemma soundD: "sound m \<Longrightarrow> (x, r) \<in> set (m s) \<Longrightarrow> s = x @ r"
  by (auto simp: sound_def)

lemma sound_one [match_sound]: "sound (m_one P)"
proof -
  have "(x, r) \<in> set (m_one P s) \<Longrightarrow> s = x @ r" for s x r
    by (cases s) (auto split: if_splits)
  then show ?thesis by (simp add: sound_def)
qed

lemma sound_lit [match_sound]: "sound (m_lit p)"
  by (auto simp: sound_def m_lit_def prefix_def)

lemma sound_seq [match_sound]: "sound m \<Longrightarrow> sound n \<Longrightarrow> sound (m_seq m n)"
  by (fastforce simp: sound_def m_seq_def)

lemma sound_alt [match_sound]: "sound m \<Longrightarrow> sound n \<Longrightarrow> sound (m_alt m n)"
  by (auto simp: sound_def m_alt_def)

lemma sound_opt [match_sound]: "sound m \<Longrightarrow> sound (m_opt m)"
  by (auto simp: sound_def m_opt_def)

lemma sound_star [match_sound]: "sound (m_star P)"
proof -
  have "(x, r) \<in> set (m_star P s) \<Longrightarrow> s = x @ r" for s x r
    by (induction s arbitrary: x r) (auto split: if_splits)
  then show ?thesis by (simp add: sound_def)
qed

lemma sound_plus [match_sound]: "sound (m_plus P)"
  by (simp add: m_plus_def match_sound)

lemma sound_rep [match_sound]: "sound m \<Longrightarrow> sound (m_rep m)"
proof -
  assume m: "sound m"
  have "(x, r) \<in> set (m_rep_n n m s) \<Longrightarrow> s = x @ r" for n s x r
  proof (induction n arbitrary: s x r)
    case (Suc n)
    then show ?case by (fastforce dest: soundD [OF m] split: if_splits)
  qed simp
  then show ?thesis by (simp add: sound_def m_rep_def)
qed

lemma sound_atleast [match_sound]: "sound (m_atleast n P)"
  using sound_star by (auto simp: sound_def m_atleast_def)

text \<open>A search that succeeds exhibits the matched text inside the searched one.\<close>

lemma m_search_contains:
  "sound m \<Longrightarrow> m_search m s = Some (x, r) \<Longrightarrow> contains s x"
proof (induction s)
  case Nil
  then have "(x, r) \<in> set (m [])" by (auto split: list.splits)
  with Nil.prems(1) have "[] = x @ r" by (rule soundD)
  then show ?case by (simp add: contains_def)
next
  case (Cons c s)
  show ?case
  proof (cases "m (c # s)")
    case Nil
    with Cons have "contains s x" by auto
    then show ?thesis by (auto simp: contains_def sublist_Cons_right)
  next
    case (Cons y ys)
    with Cons.prems have "c # s = x @ r" by (auto simp: sound_def)
    then show ?thesis by (simp add: contains_def)
  qed
qed

text \<open>A match anywhere makes the search succeed.\<close>

lemma m_search_complete:
  "m t \<noteq> [] \<Longrightarrow> m_search m (p @ t) \<noteq> None"
proof (induction p)
  case Nil
  then show ?case by (cases t) (auto split: list.splits)
next
  case (Cons c p)
  then show ?case by (auto split: list.splits)
qed

section \<open>The first match\<close>

text \<open>
  Where the greedy path succeeds it is the first match; these rules compose it without
  looking at the alternatives.
\<close>

definition first :: "('a \<times> 'b) list \<Rightarrow> 'a \<Rightarrow> 'b \<Rightarrow> bool" where
  "first ms x r \<longleftrightarrow> (\<exists>t. ms = (x, r) # t)"

named_theorems first_intro \<open>first matches of the combinators\<close>

lemma first_one [first_intro]: "P c \<Longrightarrow> first (m_one P (c # cs)) [c] cs"
  by (simp add: first_def)

lemma first_lit [first_intro]: "first (m_lit p (p @ s)) p s"
  by (simp add: first_def m_lit_def)

lemma first_seq [first_intro]:
  "first (m s) x r \<Longrightarrow> first (n r) y r' \<Longrightarrow> first (m_seq m n s) (x @ y) r'"
  by (auto simp: first_def m_seq_def)

lemma first_opt_yes: "first (m s) x r \<Longrightarrow> first (m_opt m s) x r"
  by (auto simp: first_def m_opt_def)

lemma first_opt_no: "m s = [] \<Longrightarrow> first (m_opt m s) [] s"
  by (simp add: first_def m_opt_def)

lemma first_star [first_intro]: "first (m_star P s) (takeWhile P s) (dropWhile P s)"
  by (induction s) (auto simp: first_def)

lemma takeWhile_all_stop:
  "(\<And>c. c \<in> set ds \<Longrightarrow> P c) \<Longrightarrow> s = [] \<or> \<not> P (hd s) \<Longrightarrow>
     takeWhile P (ds @ s) = ds \<and> dropWhile P (ds @ s) = s"
  by (induction ds) (cases s; auto)+

lemma first_plus:
  assumes "ds \<noteq> []" and "\<And>c. c \<in> set ds \<Longrightarrow> P c" and "s = [] \<or> \<not> P (hd s)"
  shows "first (m_plus P (ds @ s)) ds s"
proof -
  from assms(1) obtain d es where ds: "ds = d # es" by (cases ds) auto
  have "first (m_star P (es @ s)) es s"
    using first_star [of P "es @ s"] takeWhile_all_stop [of es P s] assms(2,3) ds by simp
  moreover have "first (m_one P (d # es @ s)) [d] (es @ s)"
    using assms(2) ds by (intro first_one) auto
  ultimately have "first (m_seq (m_one P) (m_star P) (d # es @ s)) ([d] @ es) s"
    by (intro first_seq)
  then show ?thesis by (simp add: m_plus_def ds)
qed

lemma first_rep_n_stop: "m s = [] \<Longrightarrow> first (m_rep_n n m s) [] s"
  by (cases n) (auto simp: first_def)

lemma first_rep_n_step:
  "first (m s) x r \<Longrightarrow> x \<noteq> [] \<Longrightarrow> first (m_rep_n n m r) y r' \<Longrightarrow>
     first (m_rep_n (Suc n) m s) (x @ y) r'"
  by (auto simp: first_def)

lemma first_concat [first_intro]:
  "first xs a b \<Longrightarrow> first (f (a, b)) c d \<Longrightarrow> first (concat (map f xs)) c d"
  by (auto simp: first_def)

lemma first_single [first_intro]: "first [(x, r)] x r"
  by (simp add: first_def)

lemma first_Cons: "first ms x r \<Longrightarrow> \<exists>t. ms = (x, r) # t"
  by (simp add: first_def)

lemma at_end_Nil [simp]: "at_end []"
  by (simp add: at_end_def)

lemma first_rep_mono:
  "first (m_rep_n n m s) x r \<Longrightarrow> n = length s \<Longrightarrow> first (m_rep m s) x r"
  by (simp add: m_rep_def)

section \<open>Local matchers\<close>

text \<open>
  Without look-around and anchors a match depends on the matched text only: it is found wherever
  that text stands.
\<close>

named_theorems match_local \<open>matches that do not depend on what follows\<close>

definition local :: "matcher \<Rightarrow> bool" where
  "local m \<longleftrightarrow> (\<forall>x r r'. (x, r) \<in> set (m (x @ r)) \<longrightarrow> (x, r') \<in> set (m (x @ r')))"

lemma localD: "local m \<Longrightarrow> (x, r) \<in> set (m (x @ r)) \<Longrightarrow> (x, r') \<in> set (m (x @ r'))"
  unfolding local_def by blast

text \<open>A fixed number of characters of a class, and a literal without regard to case.\<close>

fun m_times :: "nat \<Rightarrow> (char \<Rightarrow> bool) \<Rightarrow> matcher" where
  "m_times 0 P = (\<lambda>s. [([], s)])"
| "m_times (Suc n) P = m_seq (m_one P) (m_times n P)"

definition m_lit_ci :: "(char \<Rightarrow> char) \<Rightarrow> string \<Rightarrow> matcher" where
  "m_lit_ci lower p s =
     (if length p \<le> length s \<and> map lower (take (length p) s) = map lower p
      then [(take (length p) s, drop (length p) s)] else [])"

lemma one_match: "(x, r) \<in> set (m_one P s) \<longleftrightarrow> (\<exists>c. s = c # r \<and> x = [c] \<and> P c)"
  by (cases s) auto

lemma local_one [match_local]: "local (m_one P)"
  unfolding local_def one_match by auto

lemma local_lit [match_local]: "local (m_lit p)"
  by (auto simp: local_def m_lit_def)

lemma sound_lit_ci [match_sound]: "sound (m_lit_ci lower p)"
  by (auto simp: sound_def m_lit_ci_def)

lemma lit_ci_match:
  "(x, r) \<in> set (m_lit_ci lower p s) \<longleftrightarrow> s = x @ r \<and> map lower x = map lower p"
proof -
  have "length x = length p" if "map lower x = map lower p" using map_eq_imp_length_eq [OF that] .
  then show ?thesis by (auto simp: m_lit_ci_def)
qed

lemma local_lit_ci [match_local]: "local (m_lit_ci lower p)"
  unfolding local_def lit_ci_match by auto

lemma local_seq [match_local]:
  assumes "sound m" and "sound n" and "local m" and "local n"
  shows "local (m_seq m n)"
proof -
  have "(z, r') \<in> set (m_seq m n (z @ r'))" if z: "(z, r) \<in> set (m_seq m n (z @ r))" for z r r'
  proof -
    obtain x t y where xy: "(x, t) \<in> set (m (z @ r))" "(y, r) \<in> set (n t)" "z = x @ y"
      using z by (auto simp: m_seq_def)
    have t: "t = y @ r" using soundD [OF assms(2) xy(2)] .
    have "(x, y @ r') \<in> set (m (x @ y @ r'))"
      using localD [OF assms(3), of x "y @ r"] xy(1) t by (simp add: xy(3))
    moreover have "(y, r') \<in> set (n (y @ r'))" using localD [OF assms(4), of y r] xy(2) t by simp
    ultimately show ?thesis by (force simp: m_seq_def xy(3))
  qed
  then show ?thesis unfolding local_def by blast
qed

lemma local_alt [match_local]: "local m \<Longrightarrow> local n \<Longrightarrow> local (m_alt m n)"
  unfolding local_def m_alt_def by (metis Un_iff set_append)

lemma local_opt [match_local]: "local m \<Longrightarrow> local (m_opt m)"
  by (auto simp: local_def m_opt_def)

lemma star_match: "(x, r) \<in> set (m_star P s) \<longleftrightarrow> s = x @ r \<and> list_all P x"
proof (induction s arbitrary: x)
  case (Cons c s)
  then show ?case by (cases x) auto
qed auto

lemma seq_match: "(x, r) \<in> set (m_seq m n s) \<longleftrightarrow> (\<exists>y t z. (y, t) \<in> set (m s) \<and> (z, r) \<in> set (n t) \<and> x = y @ z)"
  by (force simp: m_seq_def)

lemma seq_matchE:
  assumes "(x, r) \<in> set (m_seq m n s)"
  obtains y t z where "(y, t) \<in> set (m s)" and "(z, r) \<in> set (n t)" and "x = y @ z"
  using assms unfolding seq_match by blast

lemma plus_match: "(x, r) \<in> set (m_plus P s) \<longleftrightarrow> s = x @ r \<and> x \<noteq> [] \<and> list_all P x"
  unfolding m_plus_def seq_match one_match star_match by (cases x) auto

lemma lit_match: "(x, r) \<in> set (m_lit p s) \<longleftrightarrow> x = p \<and> s = p @ r"
  by (auto simp: m_lit_def prefix_def)

lemma atleast_match: "(x, r) \<in> set (m_atleast n P s) \<longleftrightarrow> s = x @ r \<and> list_all P x \<and> n \<le> length x"
  by (auto simp: m_atleast_def star_match)

lemma local_star [match_local]: "local (m_star P)"
  by (auto simp: local_def star_match)

lemma local_plus [match_local]: "local (m_plus P)"
  by (simp add: m_plus_def match_local match_sound)

lemma local_atleast [match_local]: "local (m_atleast n P)"
  by (auto simp: local_def m_atleast_def star_match)

lemma sound_times [match_sound]: "sound (m_times n P)"
  by (induction n) (auto simp: match_sound sound_def [of "\<lambda>s. [([], s)]"])

lemma local_times [match_local]: "local (m_times n P)"
  by (induction n) (auto simp: match_sound match_local local_def [of "\<lambda>s. [([], s)]"])

text \<open>A text in which a local matcher finds nothing.\<close>

definition free_of :: "matcher \<Rightarrow> string \<Rightarrow> bool" where
  "free_of m s \<longleftrightarrow> (\<forall>u v. s = u @ v \<longrightarrow> m v = [])"

lemma free_of_search: "free_of m s \<longleftrightarrow> m_search m s = None"
proof
  show "m_search m s = None" if "free_of m s"
    using that
  proof (induction s)
    case (Cons c s)
    have "m (c # s) = []" using Cons.prems unfolding free_of_def by (metis append_Nil)
    moreover have "free_of m s" using Cons.prems unfolding free_of_def by (metis append_Cons)
    ultimately show ?case using Cons.IH by simp
  qed (simp add: free_of_def)
  show "free_of m s" if "m_search m s = None"
    using that m_search_complete [of m] unfolding free_of_def by blast
qed

lemma free_of_Cons: "free_of m (c # s) \<longleftrightarrow> m (c # s) = [] \<and> free_of m s"
  unfolding free_of_def by (metis append_Cons append_Nil list.exhaust_sel list.sel(3) tl_append2)

lemma free_of_append:
  assumes "free_of m t" and "\<And>u v. w = u @ v \<Longrightarrow> v \<noteq> [] \<Longrightarrow> m (v @ t) = []"
  shows "free_of m (w @ t)"
  using assms(2)
proof (induction w)
  case (Cons c w)
  have "m (c # w @ t) = []" using Cons.prems [of "[]" "c # w"] by simp
  moreover have "free_of m (w @ t)" using Cons.prems by (intro Cons.IH) (metis append_Cons)
  ultimately show ?case by (simp add: free_of_Cons)
qed (simp add: assms(1))

text \<open>A match inside a text is a match inside every text around it.\<close>

lemma search_in_context:
  assumes "sound m" and "local m" and "m_search m s \<noteq> None"
  shows "m_search m (p @ s @ q) \<noteq> None"
proof -
  have "\<not> free_of m s" using assms(3) by (simp add: free_of_search)
  then obtain u v where s: "s = u @ v" "m v \<noteq> []" unfolding free_of_def by blast
  then obtain x r where "(x, r) \<in> set (m v)" by (cases "m v") auto
  moreover have v: "v = x @ r" using soundD [OF assms(1)] calculation by blast
  ultimately have "(x, r @ q) \<in> set (m (x @ r @ q))" using localD [OF assms(2), of x r] by simp
  then have "m (v @ q) \<noteq> []" using v by auto
  then show ?thesis using m_search_complete [of m "v @ q" "p @ u"] s(1) by simp
qed

text \<open>The characters a match can have.\<close>

definition chars :: "(char \<Rightarrow> bool) \<Rightarrow> matcher \<Rightarrow> bool" where
  "chars P m \<longleftrightarrow> (\<forall>s x r. (x, r) \<in> set (m s) \<longrightarrow> list_all P x)"

lemma charsD: "chars P m \<Longrightarrow> (x, r) \<in> set (m s) \<Longrightarrow> list_all P x"
  unfolding chars_def by blast

lemma chars_empty: "chars P (\<lambda>s. [([], s)])"
  by (simp add: chars_def)

lemma chars_lit: "list_all P p \<Longrightarrow> chars P (m_lit p)"
  by (simp add: chars_def lit_match)

lemma chars_plus: "(\<And>c. Q c \<Longrightarrow> P c) \<Longrightarrow> chars P (m_plus Q)"
  by (auto simp: chars_def plus_match list_all_iff)

lemma chars_atleast: "(\<And>c. Q c \<Longrightarrow> P c) \<Longrightarrow> chars P (m_atleast n Q)"
  by (auto simp: chars_def atleast_match list_all_iff)

lemma chars_seq: "chars P m \<Longrightarrow> chars P n \<Longrightarrow> chars P (m_seq m n)"
  unfolding chars_def seq_match list_all_append by (metis list_all_append)

text \<open>A matcher that never matches the empty text.\<close>

definition consumes :: "matcher \<Rightarrow> bool" where
  "consumes m \<longleftrightarrow> (\<forall>s r. ([], r) \<notin> set (m s))"

lemma consumes_lit: "p \<noteq> [] \<Longrightarrow> consumes (m_lit p)"
  by (auto simp: consumes_def lit_match)

lemma consumes_lit_ci: "p \<noteq> [] \<Longrightarrow> consumes (m_lit_ci lower p)"
  by (auto simp: consumes_def lit_ci_match)

lemma consumes_plus: "consumes (m_plus P)"
  by (simp add: consumes_def plus_match)

lemma consumes_seq: "consumes m \<Longrightarrow> consumes (m_seq m n)"
  by (auto simp: consumes_def seq_match)

lemma sub_Nil [simp]: "m_sub m w [] = []"
  by (simp add: m_sub.simps)

lemma sub_skip: "m (c # cs) = [] \<Longrightarrow> m_sub m w (c # cs) = c # m_sub m w cs"
  by (subst m_sub.simps) simp

lemma sub_take:
  assumes "sound m" and "consumes m" and "m (c # cs) = (x, r) # t"
  shows "m_sub m w (c # cs) = w @ m_sub m w r" and "length r \<le> length cs"
proof -
  have "(x, r) \<in> set (m (c # cs))" by (simp add: assms(3))
  then have "c # cs = x @ r" "x \<noteq> []"
    using soundD [OF assms(1)] assms(2) unfolding consumes_def by blast+
  then show "length r \<le> length cs" by (cases x) auto
  then show "m_sub m w (c # cs) = w @ m_sub m w r" by (subst m_sub.simps) (simp add: assms(3))
qed

text \<open>
  The texts a substitution by \<open>w\<close> can give: a character is copied where \<open>K\<close> holds of the
  remaining text, and some pieces are replaced.
\<close>

inductive replaced :: "(string \<Rightarrow> bool) \<Rightarrow> string \<Rightarrow> string \<Rightarrow> string \<Rightarrow> bool" for K w where
  replaced_Nil: "replaced K w [] []"
| replaced_copy: "K (c # cs) \<Longrightarrow> replaced K w cs out \<Longrightarrow> replaced K w (c # cs) (c # out)"
| replaced_take: "replaced K w r out \<Longrightarrow> replaced K w (y @ r) (w @ out)"

lemma replaced_refl: "(\<And>v. K v) \<Longrightarrow> replaced K w s s"
  by (induction s) (auto intro: replaced.intros)

lemma sub_replaced:
  assumes "sound n" and "consumes n"
  shows "replaced (\<lambda>v. n v = []) w s (m_sub n w s)"
proof (induction "length s" arbitrary: s rule: less_induct)
  case less
  show ?case
  proof (cases s)
    case s: (Cons c cs)
    show ?thesis
    proof (cases "n (c # cs)")
      case Nil
      then show ?thesis using less [of cs] s by (auto simp: sub_skip intro: replaced.intros)
    next
      case (Cons yr t)
      obtain y r where yr: "yr = (y, r)" by force
      have "replaced (\<lambda>v. n v = []) w r (m_sub n w r)"
        using sub_take(2) [OF assms Cons [unfolded yr]] s by (intro less) auto
      moreover have "c # cs = y @ r" using soundD [OF assms(1), of y r "c # cs"] Cons yr by simp
      ultimately show ?thesis
        using sub_take(1) [OF assms Cons [unfolded yr], of w] replaced_take s by metis
    qed
  qed (simp add: replaced_Nil)
qed

text \<open>
  Replacing by a text that starts with a character no match of \<open>m\<close> has keeps the beginnings of a
  text that such a match could be.
\<close>

lemma replaced_prefix:
  "replaced K (a # w) s out \<Longrightarrow> prefix x out \<Longrightarrow> a \<notin> set x \<Longrightarrow> prefix x s"
proof (induction arbitrary: x rule: replaced.induct)
  case (replaced_copy c cs out)
  then show ?case by (cases x) auto
next
  case (replaced_take r out y)
  then show ?case by (cases x) auto
qed simp

text \<open>
  Where no match of \<open>m\<close> has the first character of the replacement and none starts inside the
  replacement, a substitution that copies only where \<open>m\<close> does not match leaves no match of \<open>m\<close>.
\<close>

lemma replaced_free:
  assumes m: "sound m" "local m"
    and a: "\<And>s x r. (x, r) \<in> set (m s) \<Longrightarrow> x \<noteq> [] \<and> a \<notin> set x"
    and w: "\<And>u v t. w = u @ v \<Longrightarrow> v \<noteq> [] \<Longrightarrow> m (v @ t) = []"
  shows "replaced K (a # w) s out \<Longrightarrow> (\<And>u v. s = u @ v \<Longrightarrow> K v \<Longrightarrow> m v = []) \<Longrightarrow> free_of m out"
proof (induction rule: replaced.induct)
  case replaced_Nil
  have "m [] = []"
  proof (rule ccontr)
    assume "m [] \<noteq> []"
    then obtain x r where x: "(x, r) \<in> set (m [])" by (cases "m []") auto
    then show False using soundD [OF m(1) x] a [OF x] by auto
  qed
  then show ?case by (simp add: free_of_def)
next
  case (replaced_copy c cs out)
  have "free_of m out" using replaced_copy.prems [of "c # u" v for u v] by (intro replaced_copy.IH) auto
  moreover have "m (c # out) = []"
  proof (rule ccontr)
    assume "m (c # out) \<noteq> []"
    then obtain x r where x: "(x, r) \<in> set (m (c # out))" by (cases "m (c # out)") auto
    have out: "c # out = x @ r" using soundD [OF m(1) x] .
    then have "prefix x (c # cs)"
      using replaced_prefix [OF replaced.replaced_copy [of K, OF replaced_copy.hyps], of x] a [OF x] by simp
    then obtain q where q: "c # cs = x @ q" by (auto simp: prefix_def)
    then have "(x, q) \<in> set (m (c # cs))" using localD [OF m(2)] x out by metis
    then show False using replaced_copy.prems [of "[]" "c # cs"] replaced_copy.hyps(1) by simp
  qed
  ultimately show ?case by (simp add: free_of_Cons)
next
  case (replaced_take r out y)
  have "free_of m out" using replaced_take.prems [of "y @ u" v for u v] by (intro replaced_take.IH) auto
  then have "free_of m (w @ out)" by (rule free_of_append) (simp add: w)
  moreover have "m (a # w @ out) = []"
  proof (rule ccontr)
    assume "m (a # w @ out) \<noteq> []"
    then obtain x r where x: "(x, r) \<in> set (m (a # w @ out))" by (cases "m (a # w @ out)") auto
    then show False using soundD [OF m(1) x] a [OF x] by (cases x) auto
  qed
  ultimately show ?case by (simp add: free_of_Cons)
qed

section \<open>Sequences and alternations; what a search finds is in the text\<close>

lemma sound_seqs: "list_all sound ms \<Longrightarrow> sound (m_seqs ms)"
  by (induction ms) (auto simp: match_sound sound_def [of "\<lambda>s. [([], s)]"])

lemma local_seqs: "list_all sound ms \<Longrightarrow> list_all local ms \<Longrightarrow> local (m_seqs ms)"
  by (induction ms) (auto simp: match_local sound_seqs local_def [of "\<lambda>s. [([], s)]"])

lemma sound_alts: "list_all sound ms \<Longrightarrow> sound (m_alts ms)"
  by (induction ms) (auto simp: match_sound sound_def [of "\<lambda>s. []"])

lemma local_alts: "list_all local ms \<Longrightarrow> local (m_alts ms)"
  by (induction ms) (auto simp: match_local local_def [of "\<lambda>s. []"])

lemma sound_empty [match_sound]: "sound m_empty"
  by (simp add: sound_def)

lemmas pattern_rules = match_sound match_local sound_seqs local_seqs sound_alts local_alts

lemma capture_sub: "sound lead \<Longrightarrow> sound grp \<Longrightarrow> x \<in> set (m_capture lead grp s) \<Longrightarrow> sublist x s"
  by (auto simp: m_capture_def dest!: soundD)

lemma within_sub:
  "sound lead \<Longrightarrow> sound grp \<Longrightarrow> sound after \<Longrightarrow> (g, r) \<in> set (m_within lead grp after s) \<Longrightarrow>
     sublist g s \<and> suffix r s"
  by (auto simp: m_within_def suffix_def dest!: soundD)

lemma search_lines_sub:
  assumes "\<And>s g. g \<in> set (f s) \<Longrightarrow> sublist g s"
  shows "search_lines f bol s = Some g \<Longrightarrow> sublist g s"
proof (induction s arbitrary: bol)
  case Nil
  then show ?case using assms [of g "[]"] by (auto split: if_splits list.splits)
next
  case (Cons c s)
  then show ?case using assms [of g "c # s"] by (auto simp: sublist_Cons_right split: if_splits list.splits)
qed

lemma search_group_sub:
  assumes "\<And>s g r. (g, r) \<in> set (f s) \<Longrightarrow> sublist g s"
  shows "search_group f s = Some g \<Longrightarrow> sublist g s"
proof (induction s)
  case Nil
  then show ?case using assms [of g _ "[]"] by (auto split: list.splits)
next
  case (Cons c s)
  then show ?case using assms [of g _ "c # s"] by (auto simp: sublist_Cons_right split: list.splits)
qed

lemma find_all_sub:
  assumes f: "\<And>s g r. (g, r) \<in> set (f s) \<Longrightarrow> sublist g s \<and> suffix r s"
  shows "g \<in> set (find_all f s) \<Longrightarrow> sublist g s"
proof (induction s rule: length_induct)
  case (1 s)
  then have ih: "g \<in> set (find_all f r) \<Longrightarrow> suffix r s \<Longrightarrow> length r < length s \<Longrightarrow> sublist g s" for r
    by (meson sublist_order.order.trans suffix_imp_sublist)
  show ?case
  proof (cases s)
    case (Cons c cs)
    then have skip: "suffix cs s" "length cs < length s" by (simp_all add: suffix_ConsI)
    show ?thesis
    proof (cases "f s")
      case Nil
      then have "g \<in> set (find_all f cs)" using 1(2) Cons by (subst (asm) find_all.simps) simp
      then show ?thesis using ih skip by blast
    next
      case found: (Cons m ms)
      obtain h r where m: "m = (h, r)" by force
      have hit: "sublist h s" "suffix r s" using f [of h r s] found m by auto
      from 1(2) have "g = h \<or> g \<in> set (find_all f r) \<and> length r < length s \<or> g \<in> set (find_all f cs)"
        using Cons found m by (subst (asm) find_all.simps) (auto split: if_splits)
      then show ?thesis using ih hit skip by blast
    qed
  qed (use 1(2) in \<open>simp add: find_all.simps\<close>)
qed

end
