(* ===== verification/Versioning.thy ===== *)
theory Versioning
  imports Regex
begin

text \<open>
  \<open>src/devrepro/core/versioning.py\<close>: version strings, their two orderings (the comparison
  operators of \<open>Version\<close>, by \<open>_key\<close>, and \<open>_cmp_versions\<close>, which the specifications use),
  range specifications and their satisfaction. The regular expressions are the matchers of
  \<open>Regex\<close>, backtracking included. The locale \<open>comparator\<close> states what a three-way comparison
  promises; \<open>_cmp_versions\<close> is shown to keep that contract.
\<close>

section \<open>Versions\<close>

record version =
  vraw :: string
  nums :: "nat list"
  vtag :: "string option"

text \<open>\<open>_VERSION_RE\<close>: all its matches as (nums, tag), in the engine's order.\<close>

definition is_tag_char :: "char \<Rightarrow> bool" where
  "is_tag_char c \<longleftrightarrow> is_alnum c \<or> c = CHR ''.'' \<or> c = CHR ''-''"

definition nums_matcher :: matcher where
  "nums_matcher = m_seq (m_plus is_digit) (m_rep (m_seq (m_lit ''.'') (m_plus is_digit)))"

definition sep_matcher :: matcher where
  "sep_matcher = m_opt (m_one (\<lambda>c. c \<in> set ''.-+''))"

definition tag_matcher :: matcher where
  "tag_matcher = m_seq (m_one is_alnum) (m_star is_tag_char)"

definition version_matches :: "string \<Rightarrow> (string \<times> string option) list" where
  "version_matches s =
     concat (map (\<lambda>(v, r1).
       concat (map (\<lambda>(ns, r2).
         concat (map (\<lambda>(sep, r3).
           concat (map (\<lambda>(t, r4). if at_end r4 then [(ns, t)] else [])
             (m_group_opt tag_matcher r3)))
           (sep_matcher r2)))
         (nums_matcher r1)))
       (m_opt (m_lit ''v'') s))"

text \<open>\<open>Version.__init__\<close> and \<open>parse_version\<close>.\<close>

definition parse_version :: "string \<Rightarrow> version py" where
  "parse_version raw =
     (let text = strip raw in
      case version_matches text of
        [] \<Rightarrow> Inl ValueError
      | (ns, t) # _ \<Rightarrow>
          Inr \<lparr>vraw = text, nums = map nat_of_digits (split_on ''.'' ns), vtag = t\<rparr>)"

text \<open>\<open>Version._key\<close> and the comparison operators, on tuples.\<close>

definition version_key :: "version \<Rightarrow> nat list \<times> nat \<times> nat list" where
  "version_key v =
     (nums v, (if vtag v = None then 0 else 1),
      (case vtag v of None \<Rightarrow> [] | Some t \<Rightarrow> map of_char t))"

definition version_eq :: "version \<Rightarrow> version \<Rightarrow> bool" where
  "version_eq a b \<longleftrightarrow> version_key a = version_key b"

definition version_lt :: "version \<Rightarrow> version \<Rightarrow> bool" where
  "version_lt a b \<longleftrightarrow> version_key a < version_key b"

definition version_le :: "version \<Rightarrow> version \<Rightarrow> bool" where
  "version_le a b \<longleftrightarrow> version_key a \<le> version_key b"

text \<open>\<open>_pad\<close> and \<open>_cmp_versions\<close>.\<close>

definition pad :: "nat list \<Rightarrow> nat list \<Rightarrow> nat list \<times> nat list" where
  "pad a b = (let n = max (length a) (length b) in
     (a @ replicate (n - length a) 0, b @ replicate (n - length b) 0))"

definition cmp_versions :: "version \<Rightarrow> version \<Rightarrow> int" where
  "cmp_versions a b =
     (let (an, bn) = pad (nums a) (nums b) in
      if an < bn then -1
      else if an > bn then 1
      else
        (let at = (if vtag a = None then 1 else 0); bt = (if vtag b = None then 1 else 0 :: nat) in
         if at \<noteq> bt then (if at < bt then -1 else 1)
         else if at = 1 then 0
         else
           (case (vtag a, vtag b) of
              (Some x, Some y) \<Rightarrow> if x < y then -1 else if x > y then 1 else 0
            | _ \<Rightarrow> 0)))"

section \<open>Specifications\<close>

text \<open>
  The operators are the strings \<open>*\<close>, \<open>>=\<close>, \<open><=\<close>, \<open>!=\<close>, \<open>==\<close>, \<open>=\<close>, \<open>>\<close> and \<open><\<close>;
  nothing else reaches \<open>SpecClause\<close>, so the lookup by operator cannot miss.
\<close>

datatype cmp_op = Star | GeOp | LeOp | NeOp | EqEqOp | EqOp | GtOp | LtOp

record spec_clause =
  cl_op :: cmp_op
  cl_version :: version

type_synonym spec_set = "spec_clause list list"

fun op_holds :: "cmp_op \<Rightarrow> int \<Rightarrow> bool" where
  "op_holds Star c = True"
| "op_holds GeOp c = (c \<ge> 0)"
| "op_holds LeOp c = (c \<le> 0)"
| "op_holds GtOp c = (c > 0)"
| "op_holds LtOp c = (c < 0)"
| "op_holds NeOp c = (c \<noteq> 0)"
| "op_holds EqEqOp c = (c = 0)"
| "op_holds EqOp c = (c = 0)"

definition clause_satisfied :: "spec_clause \<Rightarrow> version \<Rightarrow> bool" where
  "clause_satisfied cl candidate \<longleftrightarrow>
     (if cl_op cl = Star then True
      else op_holds (cl_op cl) (cmp_versions candidate (cl_version cl)))"

definition spec_satisfied :: "spec_set \<Rightarrow> version \<Rightarrow> bool" where
  "spec_satisfied groups candidate \<longleftrightarrow>
     list_ex (list_all (\<lambda>cl. clause_satisfied cl candidate)) groups"

section \<open>Parsing specifications\<close>

text \<open>\<open>_CLAUSE_RE\<close>: the operator group and the version group of each match.\<close>

definition op_alternatives :: "(string \<times> cmp_op) list" where
  "op_alternatives =
     [(''*'', Star), (''>='', GeOp), (''<='', LeOp), (''!='', NeOp), (''=='', EqEqOp),
      (''='', EqOp), (''>'', GtOp), (''<'', LtOp)]"

definition op_group :: "string \<Rightarrow> (cmp_op option \<times> string) list" where
  "op_group s =
     concat (map (\<lambda>(w, opr). map (\<lambda>(x, r). (Some opr, r)) (m_lit w s)) op_alternatives)
     @ [(None, s)]"

definition clause_matches :: "string \<Rightarrow> (cmp_op option \<times> string) list" where
  "clause_matches s =
     concat (map (\<lambda>(opr, r1).
       concat (map (\<lambda>(sp, r2).
         concat (map (\<lambda>(ver, r3). if at_end r3 then [(opr, ver)] else [])
           (m_plus (\<lambda>c. c \<noteq> CHR 0x0A) r2)))
         (m_star is_space r1)))
       (op_group s))"

text \<open>
  The prefix match \<open>(\d+)(?:\.(\d+))?(?:\.(\d+))?\<close> of \<open>_partial_clauses\<close>: it has no anchor at
  the end, so the greedy path is the match.
\<close>

definition dotted_digits :: "string \<Rightarrow> (string option \<times> string)" where
  "dotted_digits s =
     (case s of
        c # ds \<Rightarrow>
          if c = CHR ''.'' \<and> takeWhile is_digit ds \<noteq> []
          then (Some (takeWhile is_digit ds), dropWhile is_digit ds) else (None, s)
      | [] \<Rightarrow> (None, s))"

definition partial_groups :: "string \<Rightarrow> (string \<times> string option \<times> string option) option" where
  "partial_groups s =
     (let major = takeWhile is_digit s in
      if major = [] then None
      else
        (let (minor, r1) = dotted_digits (dropWhile is_digit s); (patch, r2) = dotted_digits r1
         in Some (major, minor, patch)))"

definition mk_clause :: "cmp_op \<Rightarrow> string \<Rightarrow> spec_clause py" where
  "mk_clause opr t = bind_res (parse_version t) (\<lambda>v. Inr \<lparr>cl_op = opr, cl_version = v\<rparr>)"

text \<open>\<open>op or "=="\<close> for an absent operator.\<close>

definition op_or_eq :: "cmp_op option \<Rightarrow> cmp_op" where
  "op_or_eq opr = (case opr of None \<Rightarrow> EqEqOp | Some p \<Rightarrow> p)"

text \<open>\<open>f"{major}.{minor or 0}.0"\<close> and \<open>f"{major + 1}.0.0"\<close>.\<close>

definition lower_text :: "nat \<Rightarrow> string option \<Rightarrow> string" where
  "lower_text major minor =
     str_nat major @ ''.'' @ (case minor of None \<Rightarrow> ''0'' | Some m \<Rightarrow> m) @ ''.0''"

definition next_major_text :: "nat \<Rightarrow> string" where
  "next_major_text major = str_nat (major + 1) @ ''.0.0''"

definition partial_clauses :: "cmp_op option \<Rightarrow> string \<Rightarrow> spec_clause list py" where
  "partial_clauses opr ver_text =
     (case partial_groups ver_text of
        None \<Rightarrow> map_res (mk_clause (op_or_eq opr)) [ver_text]
      | Some (major_text, minor, patch) \<Rightarrow>
          (let major = nat_of_digits major_text in
           if \<not> (minor = None \<or> patch = None) then map_res (mk_clause (op_or_eq opr)) [ver_text]
           else if opr \<in> {Some LtOp, Some LeOp} then
             (if minor = None then map_res (mk_clause LtOp) [next_major_text major]
              else map_res (mk_clause (op_or_eq opr)) [ver_text])
           else if opr \<in> {Some GtOp, Some GeOp} then
             map_res (mk_clause GeOp) [lower_text major minor]
           else if opr \<in> {None, Some Star, Some EqEqOp, Some EqOp} then
             map_res (\<lambda>(p, t). mk_clause p t)
               [(GeOp, lower_text major minor), (LtOp, next_major_text major)]
           else map_res (mk_clause (op_or_eq opr)) [ver_text]))"

text \<open>The clause \<open>SpecClause("*", Version("0"))\<close>.\<close>

definition any_clause :: spec_clause where
  "any_clause = \<lparr>cl_op = Star, cl_version = \<lparr>vraw = ''0'', nums = [0], vtag = None\<rparr>\<rparr>"

text \<open>The clauses one comma-separated piece contributes; an empty piece contributes none.\<close>

definition parse_clause :: "string \<Rightarrow> spec_clause list py" where
  "parse_clause raw_clause =
     (let text = strip raw_clause in
      if text = [] then Inr []
      else if text = ''*'' then Inr [any_clause]
      else case clause_matches text of
             [] \<Rightarrow> Inl ValueError
           | (opr, ver) # _ \<Rightarrow> partial_clauses opr ver)"

definition parse_group :: "string \<Rightarrow> spec_clause list py" where
  "parse_group raw_group =
     bind_res (map_res parse_clause (split_on '','' raw_group)) (\<lambda>cls. Inr (concat cls))"

definition parse_spec :: "string \<Rightarrow> spec_set py" where
  "parse_spec spec =
     bind_res (map_res parse_group (split_on ''||'' spec)) (\<lambda>gs.
       let groups = filter (\<lambda>g. g \<noteq> []) gs in
       Inr (if groups = [] then [[any_clause]] else groups))"

text \<open>\<open>satisfies\<close> and its alias \<open>spec_satisfied_by\<close>.\<close>

definition satisfies :: "string \<Rightarrow> string \<Rightarrow> bool py" where
  "satisfies ver spec =
     (if strip spec \<in> {''*'', [], ''any''} then Inr True
      else bind_res (parse_spec spec) (\<lambda>s. bind_res (parse_version ver) (\<lambda>v.
             Inr (spec_satisfied s v))))"

definition spec_satisfied_by :: "string \<Rightarrow> string \<Rightarrow> bool py" where
  "spec_satisfied_by spec ver = satisfies ver spec"

section \<open>Three-way comparisons\<close>

locale comparator =
  fixes cmp :: "'a \<Rightarrow> 'a \<Rightarrow> int"
  assumes cmp_flip: "cmp b a = - cmp a b"
    and cmp_trans: "cmp a b \<le> 0 \<Longrightarrow> cmp b c \<le> 0 \<Longrightarrow> cmp a c \<le> 0"
begin

lemma cmp_refl [simp]: "cmp a a = 0"
  using cmp_flip [of a a] by simp

lemma cmp_eq_sym: "cmp a b = 0 \<longleftrightarrow> cmp b a = 0"
  using cmp_flip [of a b] by simp

lemma cmp_eq_left:
  assumes "cmp a b = 0"
  shows "cmp a c \<le> 0 \<longleftrightarrow> cmp b c \<le> 0"
proof -
  have "cmp a b \<le> 0" "cmp b a \<le> 0" using assms cmp_flip [of a b] by simp_all
  then show ?thesis using cmp_trans by blast
qed

lemma cmp_less_trans:
  assumes "cmp a b < 0" and "cmp b c \<le> 0"
  shows "cmp a c < 0"
proof (rule ccontr)
  assume "\<not> cmp a c < 0"
  then have "cmp c a \<le> 0" using cmp_flip [of c a] by simp
  then have "cmp b a \<le> 0" using assms(2) cmp_trans by blast
  then show False using assms(1) cmp_flip [of a b] by simp
qed

lemma cmp_le_less_trans:
  assumes "cmp a b \<le> 0" and "cmp b c < 0"
  shows "cmp a c < 0"
proof (rule ccontr)
  assume "\<not> cmp a c < 0"
  then have "cmp c a \<le> 0" using cmp_flip [of c a] by simp
  then have "cmp c b \<le> 0" using assms(1) cmp_trans by blast
  then show False using assms(2) cmp_flip [of b c] by simp
qed

text \<open>The half-open interval between two bounds is convex.\<close>

lemma interval_convex:
  assumes "0 \<le> cmp a lo" and "cmp c hi < 0" and "cmp a b \<le> 0" and "cmp b c \<le> 0"
  shows "0 \<le> cmp b lo \<and> cmp b hi < 0"
proof
  have "cmp lo a \<le> 0" using assms(1) cmp_flip [of a lo] by simp
  then have "cmp lo b \<le> 0" using assms(3) by (rule cmp_trans)
  then show "0 \<le> cmp b lo" using cmp_flip [of lo b] by simp
  show "cmp b hi < 0" using assms(4,2) by (rule cmp_le_less_trans)
qed

lemma cmp_eq_cong:
  assumes "cmp a b = 0"
  shows "cmp a c < 0 \<longleftrightarrow> cmp b c < 0" and "cmp a c = 0 \<longleftrightarrow> cmp b c = 0"
proof -
  have ab: "cmp a b \<le> 0" and ba: "cmp b a \<le> 0" using assms cmp_flip [of a b] by simp_all
  show lt: "cmp a c < 0 \<longleftrightarrow> cmp b c < 0"
    using cmp_le_less_trans [OF ab] cmp_le_less_trans [OF ba] by blast
  have "cmp a c \<le> 0 \<longleftrightarrow> cmp b c \<le> 0" using assms by (rule cmp_eq_left)
  with lt show "cmp a c = 0 \<longleftrightarrow> cmp b c = 0" by linarith
qed

end

section \<open>The comparison of versions is one\<close>

text \<open>
  Padding two lists to a common length compares them as padding both to any larger length
  does, so three versions can be compared on keys of one length.
\<close>

definition three_way :: "'a::linorder \<Rightarrow> 'a \<Rightarrow> int" where
  "three_way x y = (if x < y then -1 else if x > y then 1 else 0)"

definition tag_rank :: "string option \<Rightarrow> nat \<times> string" where
  "tag_rank t = (case t of None \<Rightarrow> (1, []) | Some x \<Rightarrow> (0, x))"

definition padded_rank :: "nat \<Rightarrow> version \<Rightarrow> nat list \<times> nat \<times> string" where
  "padded_rank n v = (nums v @ replicate (n - length (nums v)) 0, tag_rank (vtag v))"

lemma list_less_append_same:
  "length xs = length ys \<Longrightarrow> xs @ zs < ys @ zs \<longleftrightarrow> xs < (ys :: 'a::linorder list)"
  by (induction xs ys rule: list_induct2) auto

lemma pad_widen:
  assumes "max (length a) (length b) \<le> n" and "pad a b = (an, bn)"
  shows "an < bn \<longleftrightarrow> a @ replicate (n - length a) 0 < b @ replicate (n - length b) 0"
proof -
  let ?m = "max (length a) (length b)"
  have widen: "c @ replicate (n - length c) 0 = (c @ replicate (?m - length c) 0) @ replicate (n - ?m) 0"
    if "length c \<le> ?m" for c :: "nat list"
  proof -
    have "n - length c = (?m - length c) + (n - ?m)" using that assms(1) by simp
    then show ?thesis by (simp add: replicate_add)
  qed
  have "an = a @ replicate (?m - length a) 0" "bn = b @ replicate (?m - length b) 0"
    using assms(2) by (auto simp: pad_def Let_def)
  then show ?thesis
    using widen [of a] widen [of b] list_less_append_same [of an bn] by simp
qed

lemma pad_flip: "pad b a = prod.swap (pad a b)"
  by (simp add: pad_def Let_def max.commute)

lemma cmp_versions_rank:
  assumes "max (length (nums a)) (length (nums b)) \<le> n"
  shows "cmp_versions a b = three_way (padded_rank n a) (padded_rank n b)"
proof -
  obtain an bn where p: "pad (nums a) (nums b) = (an, bn)" by (cases "pad (nums a) (nums b)")
  then have q: "pad (nums b) (nums a) = (bn, an)" by (simp add: pad_flip [of "nums b"])
  have lt: "an < bn \<longleftrightarrow> fst (padded_rank n a) < fst (padded_rank n b)"
    using pad_widen [OF assms p] by (simp add: padded_rank_def)
  have gt: "bn < an \<longleftrightarrow> fst (padded_rank n b) < fst (padded_rank n a)"
    using pad_widen [OF _ q] assms by (simp add: padded_rank_def max.commute)
  have "cmp_versions a b =
    (if an < bn then -1 else if bn < an then 1 else three_way (tag_rank (vtag a)) (tag_rank (vtag b)))"
    using p by (auto simp: cmp_versions_def three_way_def tag_rank_def split: option.splits)
  also have "\<dots> = three_way (padded_rank n a) (padded_rank n b)"
    unfolding lt gt by (auto simp: three_way_def padded_rank_def less_prod_def')
  finally show ?thesis .
qed

interpretation version_order: comparator cmp_versions
proof unfold_locales
  fix a b c :: version
  define n where "n = max (length (nums a)) (max (length (nums b)) (length (nums c)))"
  have ab: "cmp_versions a b = three_way (padded_rank n a) (padded_rank n b)"
    and ba: "cmp_versions b a = three_way (padded_rank n b) (padded_rank n a)"
    and bc: "cmp_versions b c = three_way (padded_rank n b) (padded_rank n c)"
    and ac: "cmp_versions a c = three_way (padded_rank n a) (padded_rank n c)"
    by (rule cmp_versions_rank; simp add: n_def)+
  show "cmp_versions b a = - cmp_versions a b"
    unfolding ab ba by (auto simp: three_way_def)
  assume "cmp_versions a b \<le> 0" and "cmp_versions b c \<le> 0"
  then have "padded_rank n a \<le> padded_rank n b" and "padded_rank n b \<le> padded_rank n c"
    unfolding ab bc by (auto simp: three_way_def split: if_splits)
  then have "padded_rank n a \<le> padded_rank n c" by (rule order_trans)
  then show "cmp_versions a c \<le> 0"
    unfolding ac by (auto simp: three_way_def)
qed

section \<open>Reading a rendered version\<close>

definition dotted :: "nat list \<Rightarrow> string" where
  "dotted ns = join ''.'' (map str_nat ns)"

definition release :: "nat list \<Rightarrow> version" where
  "release ns = \<lparr>vraw = dotted ns, nums = ns, vtag = None\<rparr>"

lemma digit_neq:
  "is_digit c \<Longrightarrow> c \<notin> set ''*<>=!|,v. ''"
  by (auto simp: is_digit_def Let_def)

lemma str_nat_Cons: obtains d ds where "str_nat n = d # ds" and "is_digit d" and "\<And>c. c \<in> set ds \<Longrightarrow> is_digit c"
  using str_nat_digits [of _ n] by (cases "str_nat n") auto

lemma dotted_Nil [simp]: "dotted [] = []"
  by (simp add: dotted_def)

lemma str_nat_ends [simp]: "is_digit (hd (str_nat n))" "is_digit (last (str_nat n))"
  by (rule str_nat_digits [of _ n], simp)+

lemma dotted_Cons:
  "dotted (n # ns) = str_nat n @ (if ns = [] then [] else CHR ''.'' # dotted ns)"
  by (simp add: dotted_def join_Cons)

lemma dotted_chars:
  "c \<in> set (dotted ns) \<Longrightarrow> is_digit c \<or> c = CHR ''.''"
  by (induction ns) (auto simp: dotted_Cons split: if_splits dest: str_nat_digits)

lemma dotted_hd: "ns \<noteq> [] \<Longrightarrow> dotted ns \<noteq> [] \<and> is_digit (hd (dotted ns))"
  by (cases ns) (auto simp: dotted_Cons hd_append)

lemma dotted_last: "ns \<noteq> [] \<Longrightarrow> is_digit (last (dotted ns))"
proof (induction ns)
  case (Cons n ns)
  then show ?case
    using dotted_hd [of ns] by (cases "ns = []") (auto simp: dotted_Cons)
qed simp

lemma strip_dotted: "ns \<noteq> [] \<Longrightarrow> strip (dotted ns) = dotted ns"
  using dotted_hd dotted_last by (intro strip_id) (auto dest: digit_not_space)

lemma split_dotted: "ns \<noteq> [] \<Longrightarrow> map nat_of_digits (split_on ''.'' (dotted ns)) = ns"
proof -
  assume "ns \<noteq> []"
  moreover have "CHR ''.'' \<notin> set (str_nat n)" for n
    using str_nat_digits digit_neq by fastforce
  ultimately have "split_on ''.'' (dotted ns) = map str_nat ns"
    unfolding dotted_def by (intro split_on_join) auto
  then show ?thesis by (simp add: comp_def)
qed

lemma first_digits:
  assumes "s = [] \<or> \<not> is_digit (hd s)"
  shows "first (m_plus is_digit (str_nat n @ s)) (str_nat n) s"
  using assms by (intro first_plus) (auto dest: str_nat_digits)

lemma first_dot_digits:
  assumes "s = [] \<or> \<not> is_digit (hd s)"
  shows "first (m_seq (m_lit ''.'') (m_plus is_digit) (CHR ''.'' # str_nat n @ s))
     (CHR ''.'' # str_nat n) s"
proof -
  have "first (m_lit ''.'' (''.'' @ str_nat n @ s)) ''.'' (str_nat n @ s)"
    by (rule first_lit)
  then have "first (m_seq (m_lit ''.'') (m_plus is_digit) (''.'' @ str_nat n @ s))
      (''.'' @ str_nat n) s"
    by (rule first_seq) (rule first_digits [OF assms])
  then show ?thesis by simp
qed

lemma first_rep_dotted:
  "length (concat (map (\<lambda>n. CHR ''.'' # str_nat n) ns)) \<le> k \<Longrightarrow>
   first (m_rep_n k (m_seq (m_lit ''.'') (m_plus is_digit)) (concat (map (\<lambda>n. CHR ''.'' # str_nat n) ns)))
     (concat (map (\<lambda>n. CHR ''.'' # str_nat n) ns)) []"
proof (induction ns arbitrary: k)
  case Nil
  show ?case by (simp, rule first_rep_n_stop) (simp add: m_seq_def m_lit_def)
next
  case (Cons n ns)
  let ?rest = "concat (map (\<lambda>n. CHR ''.'' # str_nat n) ns)"
  from Cons.prems obtain j where k: "k = Suc j" by (cases k) auto
  have "?rest = [] \<or> \<not> is_digit (hd ?rest)"
    by (cases ns) (auto simp: is_digit_def)
  then have step: "first (m_seq (m_lit ''.'') (m_plus is_digit) (CHR ''.'' # str_nat n @ ?rest))
      (CHR ''.'' # str_nat n) ?rest"
    by (rule first_dot_digits)
  have "first (m_rep_n j (m_seq (m_lit ''.'') (m_plus is_digit)) ?rest) ?rest []"
    using Cons.prems k by (intro Cons.IH) simp
  from first_rep_n_step [where x = "CHR ''.'' # str_nat n", OF step _ this] show ?case by (simp add: k)
qed

lemma dotted_concat:
  "dotted (n # ns) = str_nat n @ concat (map (\<lambda>n. CHR ''.'' # str_nat n) ns)"
  by (induction ns arbitrary: n) (simp_all add: dotted_Cons)

lemma first_nums: "ns \<noteq> [] \<Longrightarrow> first (nums_matcher (dotted ns)) (dotted ns) []"
proof (cases ns)
  case (Cons n ms)
  let ?rest = "concat (map (\<lambda>n. CHR ''.'' # str_nat n) ms)"
  have "?rest = [] \<or> \<not> is_digit (hd ?rest)"
    by (cases ms) (auto simp: is_digit_def)
  then have "first (m_plus is_digit (str_nat n @ ?rest)) (str_nat n) ?rest"
    by (rule first_digits)
  moreover have "first (m_rep (m_seq (m_lit ''.'') (m_plus is_digit)) ?rest) ?rest []"
    by (intro first_rep_mono [OF first_rep_dotted]) simp_all
  ultimately have "first (nums_matcher (str_nat n @ ?rest)) (str_nat n @ ?rest) []"
    unfolding nums_matcher_def by (rule first_seq)
  then show ?thesis by (simp add: Cons dotted_concat)
qed simp

lemma version_matches_dotted:
  assumes "ns \<noteq> []"
  shows "first (version_matches (dotted ns)) (dotted ns) None"
proof -
  have "m_lit ''v'' (dotted ns) = []"
    using dotted_hd [OF assms] digit_neq [of "hd (dotted ns)"]
    by (cases "dotted ns") (auto simp: m_lit_def)
  then have v: "first (m_opt (m_lit ''v'') (dotted ns)) [] (dotted ns)" by (rule first_opt_no)
  have sep: "first (sep_matcher []) [] []" by (simp add: sep_matcher_def m_opt_def first_def)
  have tg: "first (m_group_opt tag_matcher []) None []"
    by (simp add: m_group_opt_def tag_matcher_def m_seq_def first_def)
  show ?thesis
    unfolding version_matches_def
    by (rule first_concat [OF v], unfold prod.case, rule first_concat [OF first_nums [OF assms]],
        unfold prod.case, rule first_concat [OF sep], unfold prod.case, rule first_concat [OF tg])
      (simp add: first_def)
qed

lemma parse_dotted: "ns \<noteq> [] \<Longrightarrow> parse_version (dotted ns) = Inr (release ns)"
  using version_matches_dotted [of ns]
  by (auto simp: parse_version_def strip_dotted split_dotted release_def dest!: first_Cons)

section \<open>Reading a clause\<close>

lemma op_group_first:
  assumes "is_digit d" and "(w, opr) \<in> set op_alternatives"
  shows "first (op_group (w @ d # ds)) (Some opr) (d # ds)"
proof -
  have d: "d \<noteq> CHR ''*''" "d \<noteq> CHR ''<''" "d \<noteq> CHR ''>''" "d \<noteq> CHR ''=''" "d \<noteq> CHR ''!''"
    using digit_neq [OF assms(1)] by auto
  from assms(2) consider "w = ''*'' \<and> opr = Star" | "w = ''>='' \<and> opr = GeOp"
    | "w = ''<='' \<and> opr = LeOp" | "w = ''!='' \<and> opr = NeOp" | "w = ''=='' \<and> opr = EqEqOp"
    | "w = ''='' \<and> opr = EqOp" | "w = ''>'' \<and> opr = GtOp" | "w = ''<'' \<and> opr = LtOp"
    by (auto simp: op_alternatives_def)
  then show ?thesis
    by cases (use d in \<open>simp_all add: op_group_def op_alternatives_def first_def eq_commute [of _ d]\<close>)
qed

lemma op_group_first_bare:
  assumes "is_digit d"
  shows "first (op_group (d # ds)) None (d # ds)"
proof -
  have d: "d \<noteq> CHR ''*''" "d \<noteq> CHR ''<''" "d \<noteq> CHR ''>''" "d \<noteq> CHR ''=''" "d \<noteq> CHR ''!''"
    using digit_neq [OF assms(1)] by auto
  then show ?thesis
    by (simp add: op_group_def op_alternatives_def first_def eq_commute [of _ d])
qed

lemma clause_tail:
  assumes "t \<noteq> []" and "is_digit (hd t)" and "CHR 0x0A \<notin> set t" and "first (op_group s) opr t"
  shows "first (clause_matches s) opr t"
proof -
  have sp: "first (m_star is_space t) [] t"
    using first_star [of is_space t] digit_not_space [OF assms(2)] assms(1) by (cases t) auto
  have "first (m_plus (\<lambda>c. c \<noteq> CHR 0x0A) (t @ [])) t []"
    using assms(1,3) by (intro first_plus) auto
  then have ver: "first (m_plus (\<lambda>c. c \<noteq> CHR 0x0A) t) t []" by simp
  show ?thesis
    unfolding clause_matches_def
    by (rule first_concat [OF assms(4)], unfold prod.case, rule first_concat [OF sp],
        unfold prod.case, rule first_concat [OF ver]) (simp add: first_def)
qed

text \<open>The text of a clause: an operator of the table, or none, before a numeral.\<close>

fun op_symbol :: "cmp_op \<Rightarrow> string" where
  "op_symbol Star = ''*''"
| "op_symbol GeOp = ''>=''"
| "op_symbol LeOp = ''<=''"
| "op_symbol NeOp = ''!=''"
| "op_symbol EqEqOp = ''==''"
| "op_symbol EqOp = ''=''"
| "op_symbol GtOp = ''>''"
| "op_symbol LtOp = ''<''"

fun op_text :: "cmp_op option \<Rightarrow> string" where
  "op_text None = []"
| "op_text (Some p) = op_symbol p"

lemma op_text_table: "(op_symbol p, p) \<in> set op_alternatives"
  by (cases p) (simp_all add: op_alternatives_def)

lemma op_text_chars: "c \<in> set (op_text opr) \<Longrightarrow> c \<in> set ''*<>=!''"
proof (cases opr)
  case (Some p)
  assume "c \<in> set (op_text opr)"
  with Some show ?thesis by (cases p) auto
qed simp

definition clause_body :: "string \<Rightarrow> bool" where
  "clause_body t \<longleftrightarrow> t \<noteq> [] \<and> is_digit (hd t) \<and> is_digit (last t) \<and>
     CHR 0x0A \<notin> set t \<and> CHR ''|'' \<notin> set t \<and> CHR '','' \<notin> set t"

lemma clause_matches_text:
  assumes "clause_body t"
  shows "first (clause_matches (op_text opr @ t)) opr t"
proof (rule clause_tail)
  from assms obtain d ds where "t = d # ds" and "is_digit d"
    by (cases t) (auto simp: clause_body_def)
  then show "first (op_group (op_text opr @ t)) opr t"
    using op_group_first [OF _ op_text_table] op_group_first_bare by (cases opr) auto
qed (use assms in \<open>auto simp: clause_body_def\<close>)

lemma strip_clause: "clause_body t \<Longrightarrow> strip (op_text opr @ t) = op_text opr @ t"
proof (rule strip_id, rule disjI2, rule conjI)
  assume t: "clause_body t"
  show "\<not> is_space (hd (op_text opr @ t))"
  proof (cases "op_text opr")
    case Nil
    with t show ?thesis by (simp add: clause_body_def digit_not_space)
  next
    case (Cons c cs)
    then have "c \<in> set ''*<>=!''" using op_text_chars [of c opr] by simp
    with Cons show ?thesis by (auto simp: is_space_def Let_def)
  qed
  show "\<not> is_space (last (op_text opr @ t))"
    using t by (simp add: clause_body_def digit_not_space)
qed

lemma clause_not_word:
  assumes "clause_body t"
  shows "op_text opr @ t \<notin> {''*'', [], ''any''}"
proof -
  have "is_digit (last (op_text opr @ t))" using assms by (simp add: clause_body_def)
  moreover have "op_text opr @ t \<noteq> []" using assms by (simp add: clause_body_def)
  moreover have "\<not> is_digit (last ''*'')" "\<not> is_digit (last ''any'')" by (simp_all add: is_digit_def)
  ultimately show ?thesis by (metis empty_iff insert_iff)
qed

lemma parse_clause_text:
  assumes "clause_body t"
  shows "parse_clause (op_text opr @ t) = partial_clauses opr t"
  using first_Cons [OF clause_matches_text [OF assms, of opr]] clause_not_word [OF assms, of opr]
  by (auto simp: parse_clause_def strip_clause [OF assms])

lemma parse_spec_single:
  assumes "clause_body t" and "partial_clauses opr t = Inr cls" and "cls \<noteq> []"
  shows "parse_spec (op_text opr @ t) = Inr [cls]"
proof -
  let ?s = "op_text opr @ t"
  have chars: "CHR ''|'' \<notin> set ?s" "CHR '','' \<notin> set ?s"
    using assms(1) op_text_chars [of _ opr] by (auto simp: clause_body_def)
  have "split_on ''||'' ?s = [?s]" "split_on '','' ?s = [?s]"
    using chars by (auto intro: split_on_absent split_on_notin)
  then show ?thesis
    using assms by (simp add: parse_spec_def parse_group_def parse_clause_text)
qed

lemma satisfies_single:
  assumes "clause_body t" and "partial_clauses opr t = Inr cls" and "cls \<noteq> []" and "ns \<noteq> []"
  shows "satisfies (dotted ns) (op_text opr @ t) =
    Inr (list_all (\<lambda>cl. clause_satisfied cl (release ns)) cls)"
  using assms clause_not_word [OF assms(1), of opr]
  by (auto simp: satisfies_def strip_clause parse_spec_single parse_dotted spec_satisfied_def
      clause_body_def)

lemma cmp_major:
  assumes "ns \<noteq> []"
  shows "cmp_versions (release ns) (release [m, 0, 0]) < 0 \<longleftrightarrow> hd ns < m"
proof -
  from assms obtain n ms where ns: "ns = n # ms" by (cases ns) auto
  define k where "k = max (length ns) 3"
  have z: "\<not> xs < replicate (length xs) 0" for xs :: "nat list"
    by (induction xs) auto
  let ?xs = "ms @ replicate (k - length ns) 0"
  have "3 \<le> k" by (simp add: k_def)
  then obtain j where "k = j + 3" by (metis le_add_diff_inverse2)
  then have k: "k = Suc (Suc (Suc j))" by simp
  have "length ?xs = Suc (Suc j)" using k by (auto simp: k_def ns)
  then have "[m, 0, 0] @ replicate (k - length [m, 0, 0]) 0 = m # replicate (length ?xs) 0"
    by (simp add: k)
  then have B: "padded_rank k (release [m, 0, 0]) = (m # replicate (length ?xs) 0, (1, []))"
    by (simp only: padded_rank_def release_def tag_rank_def version.simps option.case)
  have A: "padded_rank k (release ns) = (n # ?xs, (1, []))"
    by (simp add: padded_rank_def release_def tag_rank_def ns)
  have "cmp_versions (release ns) (release [m, 0, 0]) =
      three_way (padded_rank k (release ns)) (padded_rank k (release [m, 0, 0]))"
    by (rule cmp_versions_rank) (simp add: k_def release_def)
  also have "\<dots> < 0 \<longleftrightarrow> n # ?xs < m # replicate (length ?xs) 0"
    unfolding A B by (simp add: three_way_def less_prod_def' del: length_append)
  also have "\<dots> \<longleftrightarrow> hd ns < m" using z [of ?xs] by (auto simp: ns)
  finally show ?thesis .
qed

section \<open>Partial versions\<close>

lemma clause_body_str_nat: "clause_body (str_nat m)"
proof -
  have "\<not> is_digit (CHR 0x0A)" "\<not> is_digit (CHR ''|'')" "\<not> is_digit (CHR '','')"
    by (simp_all add: is_digit_def)
  then show ?thesis by (auto simp: clause_body_def dest: str_nat_digits)
qed

lemma takeWhile_str_nat_dot [simp]:
  "takeWhile is_digit (str_nat m) = str_nat m" "dropWhile is_digit (str_nat m) = []"
  by (auto simp: takeWhile_eq_all_conv dropWhile_eq_Nil_conv dest: str_nat_digits)

lemma partial_groups_major [simp]: "partial_groups (str_nat m) = Some (str_nat m, None, None)"
  by (simp add: partial_groups_def dotted_digits_def)

lemma str_nat_0 [simp]: "str_nat 0 = ''0''"
  by code_simp

lemma lower_text_major: "lower_text m None = dotted [m, 0, 0]"
  by (simp add: lower_text_def dotted_def)

lemma next_major_dotted: "next_major_text m = dotted [m + 1, 0, 0]"
  by (simp add: next_major_text_def dotted_def)

lemma mk_clause_dotted [simp]: "ns \<noteq> [] \<Longrightarrow> mk_clause p (dotted ns) = Inr \<lparr>cl_op = p, cl_version = release ns\<rparr>"
  by (simp add: mk_clause_def parse_dotted)

definition ge_clause :: "nat \<Rightarrow> spec_clause" where
  "ge_clause m = \<lparr>cl_op = GeOp, cl_version = release [m, 0, 0]\<rparr>"

definition lt_clause :: "nat \<Rightarrow> spec_clause" where
  "lt_clause m = \<lparr>cl_op = LtOp, cl_version = release [m, 0, 0]\<rparr>"

lemma ge_clause_iff: "ns \<noteq> [] \<Longrightarrow> clause_satisfied (ge_clause m) (release ns) \<longleftrightarrow> m \<le> hd ns"
  using cmp_major [of ns m] by (auto simp: clause_satisfied_def ge_clause_def)

lemma lt_clause_iff: "ns \<noteq> [] \<Longrightarrow> clause_satisfied (lt_clause m) (release ns) \<longleftrightarrow> hd ns < m"
  using cmp_major [of ns m] by (auto simp: clause_satisfied_def lt_clause_def)

lemma partial_clauses_major:
  "opr \<in> {Some LtOp, Some LeOp} \<Longrightarrow> partial_clauses opr (str_nat m) = Inr [lt_clause (m + 1)]"
  "opr \<in> {Some GtOp, Some GeOp} \<Longrightarrow> partial_clauses opr (str_nat m) = Inr [ge_clause m]"
  "opr \<in> {None, Some Star, Some EqEqOp, Some EqOp} \<Longrightarrow>
     partial_clauses opr (str_nat m) = Inr [ge_clause m, lt_clause (m + 1)]"
  by (auto simp: partial_clauses_def lower_text_major next_major_dotted ge_clause_def lt_clause_def)

lemma satisfies_major:
  assumes "ns \<noteq> []"
  shows "opr \<in> {Some LtOp, Some LeOp} \<Longrightarrow> satisfies (dotted ns) (op_text opr @ str_nat m) = Inr (hd ns \<le> m)"
    and "opr \<in> {Some GtOp, Some GeOp} \<Longrightarrow> satisfies (dotted ns) (op_text opr @ str_nat m) = Inr (m \<le> hd ns)"
    and "opr \<in> {None, Some Star, Some EqEqOp, Some EqOp} \<Longrightarrow>
      satisfies (dotted ns) (op_text opr @ str_nat m) = Inr (hd ns = m)"
  using satisfies_single [OF clause_body_str_nat partial_clauses_major(1) _ assms]
    satisfies_single [OF clause_body_str_nat partial_clauses_major(2) _ assms]
    satisfies_single [OF clause_body_str_nat partial_clauses_major(3) _ assms] assms
  by (auto simp: lt_clause_iff ge_clause_iff)

section \<open>Full clauses, ranges and alternatives\<close>

lemma takeWhile_digits:
  assumes "s = [] \<or> \<not> is_digit (hd s)"
  shows "takeWhile is_digit (str_nat n @ s) = str_nat n" and "dropWhile is_digit (str_nat n @ s) = s"
  using takeWhile_all_stop [of "str_nat n" is_digit s, OF str_nat_digits assms] by simp_all

lemma dotted_digits_dot:
  assumes "s = [] \<or> \<not> is_digit (hd s)"
  shows "dotted_digits (CHR ''.'' # str_nat n @ s) = (Some (str_nat n), s)"
  by (simp add: dotted_digits_def takeWhile_digits [OF assms])

lemma partial_groups_full:
  assumes "3 \<le> length ms"
  shows "\<exists>a b c. partial_groups (dotted ms) = Some (a, Some b, Some c)"
proof -
  from assms obtain a b c rest where ms: "ms = a # b # c # rest"
    by (metis Suc_le_length_iff numeral_3_eq_3)
  let ?t = "if rest = [] then [] else CHR ''.'' # dotted rest"
  let ?u = "CHR ''.'' # str_nat c @ ?t"
  have nd: "\<not> is_digit (CHR ''.'')" by (simp add: is_digit_def)
  have t: "?t = [] \<or> \<not> is_digit (hd ?t)" and u: "?u = [] \<or> \<not> is_digit (hd ?u)"
    using nd by auto
  have w: "CHR ''.'' # str_nat b @ ?u = [] \<or> \<not> is_digit (hd (CHR ''.'' # str_nat b @ ?u))"
    using nd by simp
  have "dotted ms = str_nat a @ CHR ''.'' # str_nat b @ ?u"
    by (simp add: ms dotted_Cons)
  then have "partial_groups (dotted ms) = Some (str_nat a, Some (str_nat b), Some (str_nat c))"
    unfolding partial_groups_def
    by (simp only: takeWhile_digits [OF w] dotted_digits_dot [OF u] dotted_digits_dot [OF t]
        Let_def prod.case str_nat_nonempty if_False)
  then show ?thesis by blast
qed

lemma clause_body_dotted: "ms \<noteq> [] \<Longrightarrow> clause_body (dotted ms)"
proof -
  have nd: "\<not> is_digit (CHR 0x0A)" "\<not> is_digit (CHR ''|'')" "\<not> is_digit (CHR '','')"
    by (simp_all add: is_digit_def)
  assume "ms \<noteq> []"
  with nd show ?thesis
    using dotted_hd [of ms] dotted_last [of ms] by (auto simp: clause_body_def dest: dotted_chars)
qed

lemma partial_clauses_full:
  assumes "3 \<le> length ms"
  shows "partial_clauses opr (dotted ms) = Inr [\<lparr>cl_op = op_or_eq opr, cl_version = release ms\<rparr>]"
proof -
  from assms have "ms \<noteq> []" by auto
  with partial_groups_full [OF assms] show ?thesis by (auto simp: partial_clauses_def)
qed

lemma satisfies_full:
  assumes "3 \<le> length ms" and "ns \<noteq> []"
  shows "satisfies (dotted ns) (op_text opr @ dotted ms) =
    Inr (op_holds (op_or_eq opr) (cmp_versions (release ns) (release ms)))"
proof -
  from assms(1) have "ms \<noteq> []" by auto
  then show ?thesis
    using satisfies_single [OF clause_body_dotted partial_clauses_full [OF assms(1)] _ assms(2)]
    by (auto simp: clause_satisfied_def)
qed

text \<open>A range written with a space, as npm writes it, is one clause: the upper bound is lost.\<close>

lemma partial_clauses_spaced:
  "partial_clauses (Some GeOp) (str_nat a @ '' <'' @ str_nat b) = Inr [ge_clause a]"
proof -
  have "\<not> is_digit (CHR '' '')" by (simp add: is_digit_def)
  then have "partial_groups (str_nat a @ '' <'' @ str_nat b) = Some (str_nat a, None, None)"
    using takeWhile_digits [of "'' <'' @ str_nat b" a] by (simp add: partial_groups_def dotted_digits_def)
  then show ?thesis by (simp add: partial_clauses_def lower_text_major ge_clause_def)
qed

lemma satisfies_spaced:
  assumes "ns \<noteq> []"
  shows "satisfies (dotted ns) (''>='' @ str_nat a @ '' <'' @ str_nat b) = Inr (a \<le> hd ns)"
proof -
  have "clause_body (str_nat a @ '' <'' @ str_nat b)"
    using clause_body_str_nat [of a] clause_body_str_nat [of b] by (auto simp: clause_body_def)
  then show ?thesis
    using satisfies_single [OF _ partial_clauses_spaced _ assms, of a b]
    by (simp add: ge_clause_iff assms)
qed

lemma parse_group_conj:
  "parse_group (s @ '','' @ t) =
     bind_res (parse_group s) (\<lambda>g. bind_res (parse_group t) (\<lambda>h. Inr (g @ h)))"
proof -
  have "split_on '','' (s @ '','' @ t) = split_on '','' s @ split_on '','' t"
    using split_on_append by simp
  then show ?thesis
    by (cases "map_res parse_clause (split_on '','' s)"; cases "map_res parse_clause (split_on '','' t)")
      (auto simp: parse_group_def map_res_append)
qed

lemma parse_spec_group:
  assumes "CHR ''|'' \<notin> set s" and "parse_group s = Inr g" and "g \<noteq> []"
  shows "parse_spec s = Inr [g]"
  using assms split_on_absent [of "CHR ''|''" "''||''" s] by (simp add: parse_spec_def)

lemma parse_spec_algebra:
  assumes "CHR ''|'' \<notin> set s" and "parse_group s = Inr g" and "g \<noteq> []"
    and "CHR ''|'' \<notin> set t" and "parse_group t = Inr h" and "h \<noteq> []"
  shows "parse_spec (s @ '','' @ t) = Inr [g @ h]" and "parse_spec (s @ ''||'' @ t) = Inr [g, h]"
proof -
  show "parse_spec (s @ '','' @ t) = Inr [g @ h]"
    using assms by (intro parse_spec_group) (auto simp: parse_group_conj [simplified])
  have "split_on ''||'' (s @ ''||'' @ t) = [s, t]"
    using assms split_on_sep2 [of "CHR ''|''" s t] split_on_absent [of "CHR ''|''" "''||''" t] by simp
  then show "parse_spec (s @ ''||'' @ t) = Inr [g, h]"
    using assms by (simp add: parse_spec_def)
qed

text \<open>A clause other than an exclusion accepts a convex set of versions.\<close>

lemma clause_convex:
  assumes "cl_op cl \<noteq> NeOp" and "clause_satisfied cl a" and "clause_satisfied cl c"
    and "cmp_versions a b \<le> 0" and "cmp_versions b c \<le> 0"
  shows "clause_satisfied cl b"
proof -
  let ?v = "cl_version cl"
  note order = version_order.cmp_trans version_order.cmp_less_trans version_order.cmp_le_less_trans
  have flip: "cmp_versions x y = - cmp_versions y x" for x y by (rule version_order.cmp_flip)
  have lower: "0 \<le> cmp_versions a ?v \<Longrightarrow> 0 \<le> cmp_versions b ?v"
    using order(1) [of ?v a b] assms(4) flip [of a ?v] flip [of b ?v] by simp
  have lower': "0 < cmp_versions a ?v \<Longrightarrow> 0 < cmp_versions b ?v"
    using order(2) [of ?v a b] assms(4) flip [of a ?v] flip [of b ?v] by simp
  have upper: "cmp_versions c ?v \<le> 0 \<Longrightarrow> cmp_versions b ?v \<le> 0"
    using order(1) [of b c ?v] assms(5) by simp
  have upper': "cmp_versions c ?v < 0 \<Longrightarrow> cmp_versions b ?v < 0"
    using order(3) [of b c ?v] assms(5) by simp
  show ?thesis
    using assms(1-3) lower lower' upper upper'
    by (cases "cl_op cl") (auto simp: clause_satisfied_def)
qed

lemma clause_cong:
  assumes "cmp_versions a b = 0"
  shows "clause_satisfied cl a = clause_satisfied cl b"
  using version_order.cmp_eq_cong [OF assms, of "cl_version cl"]
  by (cases "cl_op cl") (auto simp: clause_satisfied_def not_less linorder_neq_iff)

lemma cmp_trailing_zeros:
  "cmp_versions \<lparr>vraw = r, nums = ns, vtag = t\<rparr> \<lparr>vraw = r', nums = ns @ replicate k 0, vtag = t\<rparr> = 0"
proof -
  have "ns @ replicate (length ns + k - length ns) 0 = ns @ replicate k 0" by simp
  then show ?thesis
    using cmp_versions_rank [of "\<lparr>vraw = r, nums = ns, vtag = t\<rparr>"
        "\<lparr>vraw = r', nums = ns @ replicate k 0, vtag = t\<rparr>" "length ns + k"]
    by (simp add: padded_rank_def three_way_def)
qed

lemma cmp_prerelease:
  "cmp_versions \<lparr>vraw = r, nums = ns, vtag = Some t\<rparr> \<lparr>vraw = r', nums = ns, vtag = None\<rparr> = -1"
  by (simp add: cmp_versions_def pad_def)

section \<open>Properties\<close>

text \<open>
  C28: a version rendered as dot-separated decimal components parses back to exactly those
  components, with no tag, whatever backtracking the pattern allows.
\<close>

theorem version_roundtrip:
  "ns \<noteq> [] \<Longrightarrow> parse_version (join ''.'' (map str_nat ns)) = Inr (release ns)"
  using parse_dotted by (simp add: dotted_def)

lemma version_roundtrip_witness: "parse_version ''18.19.0'' = Inr (release [18, 19, 0])"
proof -
  have e: "join ''.'' (map str_nat [18, 19, 0]) = ''18.19.0''" by code_simp
  show ?thesis using version_roundtrip [of "[18, 19, 0]", unfolded e] by simp
qed

lemma cmp_versions_laws_facts:
  shows "cmp_versions b a = - cmp_versions a b"
    and "cmp_versions a b \<le> 0 \<Longrightarrow> cmp_versions b c \<le> 0 \<Longrightarrow> cmp_versions a c \<le> 0"
    and "cmp_versions \<lparr>vraw = r, nums = ns, vtag = t\<rparr> \<lparr>vraw = r', nums = ns @ replicate k 0, vtag = t\<rparr> = 0"
    and "cmp_versions \<lparr>vraw = r, nums = ns, vtag = Some x\<rparr> \<lparr>vraw = r', nums = ns, vtag = None\<rparr> = -1"
  by (fact version_order.cmp_flip version_order.cmp_trans cmp_trailing_zeros cmp_prerelease)+

text \<open>
  \<open>_cmp_versions\<close> is a total preorder in three-way form: flipping the arguments flips
  the sign and being at most is transitive; trailing zero components are ignored, and a
  tagged version comes directly before the untagged one with the same numbers.
\<close>

theorem cmp_versions_laws:
  "cmp_versions b a = - cmp_versions a b \<and>
   (cmp_versions a b \<le> 0 \<and> cmp_versions b c \<le> 0 \<longrightarrow> cmp_versions a c \<le> 0) \<and>
   cmp_versions \<lparr>vraw = r, nums = ns, vtag = t\<rparr> \<lparr>vraw = r', nums = ns @ replicate k 0, vtag = t\<rparr> = 0 \<and>
   cmp_versions \<lparr>vraw = r, nums = ns, vtag = Some x\<rparr> \<lparr>vraw = r', nums = ns, vtag = None\<rparr> = -1"
  using cmp_versions_laws_facts by blast

lemma cmp_versions_laws_witness:
  "cmp_versions (release [1, 2]) (release [1, 2, 0]) \<le> 0 \<and>
   cmp_versions (release [1, 2, 0]) (release [1, 10]) \<le> 0 \<and>
   cmp_versions (release [1, 2]) (release [1, 10]) \<le> 0"
proof -
  have "cmp_versions (release [1, 2]) (release [1, 2, 0]) \<le> 0"
    and "cmp_versions (release [1, 2, 0]) (release [1, 10]) \<le> 0"
    by (simp_all add: cmp_versions_def pad_def release_def)
  then show ?thesis using cmp_versions_laws [of _ "release [1, 2]"] by blast
qed

lemma major_range_semantics_facts:
  assumes "ns \<noteq> []"
  shows "satisfies (join ''.'' (map str_nat ns)) (str_nat m) = Inr (hd ns = m)"
    and "satisfies (join ''.'' (map str_nat ns)) (''>='' @ str_nat m) = Inr (m \<le> hd ns)"
    and "satisfies (join ''.'' (map str_nat ns)) (''<='' @ str_nat m) = Inr (hd ns \<le> m)"
  using satisfies_major(3) [OF assms, of None] satisfies_major(2) [OF assms, of "Some GeOp"]
    satisfies_major(1) [OF assms, of "Some LeOp"]
  by (simp_all add: dotted_def)

text \<open>
  a one-component range means what the module's documentation says: \<open>18\<close> accepts the
  18 series and nothing else, \<open>>=18\<close> everything from it on, \<open><=18\<close> everything up to and
  including it.
\<close>

theorem major_range_semantics:
  assumes "ns \<noteq> []"
  shows "satisfies (join ''.'' (map str_nat ns)) (str_nat m) = Inr (hd ns = m) \<and>
    satisfies (join ''.'' (map str_nat ns)) (''>='' @ str_nat m) = Inr (m \<le> hd ns) \<and>
    satisfies (join ''.'' (map str_nat ns)) (''<='' @ str_nat m) = Inr (hd ns \<le> m)"
  using major_range_semantics_facts [OF assms] by simp

lemma major_range_semantics_witness:
  "satisfies ''16.20.2'' (''<='' @ str_nat 16) = Inr True"
proof -
  have e: "join ''.'' (map str_nat [16, 20, 2]) = ''16.20.2''" by code_simp
  show ?thesis using major_range_semantics [of "[16, 20, 2]" 16, unfolded e] by simp
qed

lemma strict_major_bounds_are_inclusive_facts:
  assumes "ns \<noteq> []"
  shows "satisfies (join ''.'' (map str_nat ns)) (''<'' @ str_nat m) = Inr (hd ns \<le> m)"
    and "satisfies (join ''.'' (map str_nat ns)) (''>'' @ str_nat m) = Inr (m \<le> hd ns)"
  using satisfies_major(1) [OF assms, of "Some LtOp"] satisfies_major(2) [OF assms, of "Some GtOp"]
  by (simp_all add: dotted_def)

text \<open>
  the strict one-component bounds are not strict: \<open><N\<close> accepts every N.x version
  (it is widened exactly as \<open><=N\<close> is) and \<open>>N\<close> accepts N itself (it is turned into \<open>>=N.0.0\<close>).
\<close>

theorem strict_major_bounds_are_inclusive:
  assumes "ns \<noteq> []"
  shows "satisfies (join ''.'' (map str_nat ns)) (''<'' @ str_nat m) = Inr (hd ns \<le> m) \<and>
    satisfies (join ''.'' (map str_nat ns)) (''>'' @ str_nat m) = Inr (m \<le> hd ns)"
  using strict_major_bounds_are_inclusive_facts [OF assms] by simp

lemma strict_major_bounds_are_inclusive_witness:
  "satisfies ''20.1.0'' (''<'' @ str_nat 20) = Inr True \<and> satisfies ''20.1.0'' (''>'' @ str_nat 20) = Inr True"
proof -
  have e: "join ''.'' (map str_nat [20, 1, 0]) = ''20.1.0''" by code_simp
  show ?thesis using strict_major_bounds_are_inclusive [of "[20, 1, 0]" 20, unfolded e] by simp
qed

text \<open>
  C16: a clause whose version has at least three components is exact: it holds when the
  comparison of the candidate with that version satisfies the operator (equality when the
  operator is absent).
\<close>

theorem full_clause_semantics:
  assumes "3 \<le> length ms" and "ns \<noteq> []"
  shows "satisfies (dotted ns) (op_text opr @ dotted ms) =
    Inr (op_holds (op_or_eq opr) (cmp_versions (release ns) (release ms)))"
  using assms by (rule satisfies_full)

lemma full_clause_semantics_witness:
  "satisfies (dotted [3, 14]) (op_text (Some LtOp) @ dotted [3, 14, 0]) = Inr False"
  using full_clause_semantics [of "[3, 14, 0]" "[3, 14]" "Some LtOp"]
  by (simp add: op_or_eq_def cmp_versions_def pad_def release_def)

text \<open>
  a comma is a conjunction and \<open>||\<close> a disjunction: for two groups that parse, the
  combined specification accepts exactly the versions both, or either, accept.
\<close>

theorem spec_connectives:
  assumes "CHR ''|'' \<notin> set s" and "parse_group s = Inr g" and "g \<noteq> []"
    and "CHR ''|'' \<notin> set t" and "parse_group t = Inr h" and "h \<noteq> []"
  shows "\<exists>S T C D. parse_spec s = Inr S \<and> parse_spec t = Inr T \<and>
    parse_spec (s @ '','' @ t) = Inr C \<and> parse_spec (s @ ''||'' @ t) = Inr D \<and>
    (\<forall>v. spec_satisfied C v = (spec_satisfied S v \<and> spec_satisfied T v)) \<and>
    (\<forall>v. spec_satisfied D v = (spec_satisfied S v \<or> spec_satisfied T v))"
proof (intro exI conjI)
  show "parse_spec s = Inr [g]" "parse_spec t = Inr [h]"
    using assms by (auto intro: parse_spec_group)
  show "parse_spec (s @ '','' @ t) = Inr [g @ h]" "parse_spec (s @ ''||'' @ t) = Inr [g, h]"
    using assms by (rule parse_spec_algebra)+
qed (auto simp: spec_satisfied_def)

lemma spec_connectives_witness:
  "\<exists>S T C D. parse_spec ''>=3'' = Inr S \<and> parse_spec ''20'' = Inr T \<and>
    parse_spec (''>=3'' @ '','' @ ''20'') = Inr C \<and> parse_spec (''>=3'' @ ''||'' @ ''20'') = Inr D \<and>
    (\<forall>v. spec_satisfied C v = (spec_satisfied S v \<and> spec_satisfied T v)) \<and>
    (\<forall>v. spec_satisfied D v = (spec_satisfied S v \<or> spec_satisfied T v))"
proof (rule spec_connectives)
  have "str_nat 3 = ''3''" "str_nat 20 = ''20''" by code_simp+
  then show "parse_group ''>=3'' = Inr [ge_clause 3]"
    and "parse_group ''20'' = Inr [ge_clause 20, lt_clause 21]"
    using parse_clause_text [OF clause_body_str_nat, of "Some GeOp" 3]
      parse_clause_text [OF clause_body_str_nat, of None 20]
      partial_clauses_major(2) [of "Some GeOp" 3] partial_clauses_major(3) [of None 20]
    by (simp_all add: parse_group_def split_on_notin)
qed simp_all

lemma spec_convex_and_congruent_facts:
  shows "list_all (\<lambda>cl. cl_op cl \<noteq> NeOp) g \<Longrightarrow> spec_satisfied [g] a \<Longrightarrow> spec_satisfied [g] c \<Longrightarrow>
      cmp_versions a b \<le> 0 \<Longrightarrow> cmp_versions b c \<le> 0 \<Longrightarrow> spec_satisfied [g] b"
    and "cmp_versions a b = 0 \<Longrightarrow> spec_satisfied S a = spec_satisfied S b"
  by (auto simp: spec_satisfied_def list_all_iff list_ex_iff clause_cong intro: clause_convex)

text \<open>
  C17: the set of versions a group without exclusions accepts is convex, and no specification
  can tell apart versions that compare as equal.
\<close>

theorem spec_convex_and_congruent:
  "(list_all (\<lambda>cl. cl_op cl \<noteq> NeOp) g \<and> spec_satisfied [g] a \<and> spec_satisfied [g] c \<and>
      cmp_versions a b \<le> 0 \<and> cmp_versions b c \<le> 0 \<longrightarrow> spec_satisfied [g] b) \<and>
   (cmp_versions a b = 0 \<longrightarrow> spec_satisfied S a = spec_satisfied S b)"
  using spec_convex_and_congruent_facts by blast

lemma spec_convex_and_congruent_witness:
  "spec_satisfied [[ge_clause 3, lt_clause 4]] (release [3, 5])"
proof (rule spec_convex_and_congruent [of _ "release [3]" "release [3, 9]", THEN conjunct1, THEN mp], intro conjI)
  show "spec_satisfied [[ge_clause 3, lt_clause 4]] (release [3])"
    "spec_satisfied [[ge_clause 3, lt_clause 4]] (release [3, 9])"
    by (simp_all add: spec_satisfied_def ge_clause_iff lt_clause_iff)
qed (simp_all add: ge_clause_def lt_clause_def cmp_versions_def pad_def release_def)

text \<open>
  a range written with a space, as in \<open>engines.node\<close>, silently loses its upper bound:
  \<open>>=a <b\<close> accepts every version from a on, whatever b is.
\<close>

theorem spaced_range_drops_upper_bound:
  "ns \<noteq> [] \<Longrightarrow> satisfies (dotted ns) (''>='' @ str_nat a @ '' <'' @ str_nat b) = Inr (a \<le> hd ns)"
  by (rule satisfies_spaced)

lemma spaced_range_drops_upper_bound_witness:
  "satisfies (dotted [99, 0, 0]) (''>='' @ str_nat 20 @ '' <'' @ str_nat 23) = Inr True"
  using spaced_range_drops_upper_bound [of "[99, 0, 0]" 20 23] by simp

text \<open>
  the comparison operators of \<open>Version\<close> disagree with \<open>_cmp_versions\<close>: for them a
  release is less than its own pre-release, and 1.2 is different from 1.2.0.
\<close>

theorem version_operators_disagree:
  "version_lt (release ns) \<lparr>vraw = r, nums = ns, vtag = Some t\<rparr> \<and>
   cmp_versions \<lparr>vraw = r, nums = ns, vtag = Some t\<rparr> (release ns) = -1 \<and>
   \<not> version_eq (release ns) (release (ns @ [0])) \<and>
   cmp_versions (release ns) (release (ns @ [0])) = 0"
  using cmp_trailing_zeros [of "dotted ns" ns None "dotted (ns @ [0])" 1] cmp_prerelease [of r ns t "dotted ns"]
  by (simp add: version_lt_def version_eq_def version_key_def release_def less_prod_def')

end
