(* ===== verification/Version_Check.thy ===== *)
theory Version_Check
  imports Versioning
begin

text \<open>
  The interface through which the rest of the program asks about versions: one check of a
  version against a specification, as \<open>satisfies\<close> of \<open>src/devrepro/core/versioning.py\<close> gives
  it. Its clients are the baseline and policy evaluations; what they rely on is that a wildcard
  accepts everything and that nothing but a \<open>ValueError\<close> is raised.
\<close>

locale version_checker =
  fixes check :: "string \<Rightarrow> string \<Rightarrow> bool py"
  assumes wildcard: "strip spec \<in> {''*'', [], ''any''} \<Longrightarrow> check v spec = Inr True"
    and value_errors: "check v spec = Inl e \<Longrightarrow> e = ValueError"
begin

text \<open>A client that treats an unreadable version as a failure, and one that skips it.\<close>

lemma rejects_iff: "check v spec \<noteq> Inr True \<longleftrightarrow> check v spec = Inr False \<or> check v spec = Inl ValueError"
  using value_errors by (cases "check v spec") auto

lemma wildcard_never_rejects: "strip spec \<in> {''*'', [], ''any''} \<Longrightarrow> check v spec \<noteq> Inr False"
  using wildcard by simp

end

lemma parse_version_errors: "parse_version s = Inl e \<Longrightarrow> e = ValueError"
  by (auto simp: parse_version_def Let_def split: list.splits)

lemma mk_clause_errors: "mk_clause opr v = Inl e \<Longrightarrow> e = ValueError"
  using parse_version_errors by (auto simp: mk_clause_def result_simps)

lemma map_res_errors: "(\<And>x e. f x = Inl e \<Longrightarrow> e = c) \<Longrightarrow> map_res f xs = Inl e \<Longrightarrow> e = c"
  by (induction xs arbitrary: e) (auto simp: result_simps)

lemma partial_clauses_errors: "partial_clauses opr v = Inl e \<Longrightarrow> e = ValueError"
  using mk_clause_errors
  by (auto simp: partial_clauses_def result_simps Let_def split: option.splits if_splits prod.splits)

lemma parse_clause_errors: "parse_clause t = Inl e \<Longrightarrow> e = ValueError"
  using partial_clauses_errors
  by (auto simp: parse_clause_def Let_def split: if_splits list.splits prod.splits)

lemma parse_spec_errors: "parse_spec s = Inl e \<Longrightarrow> e = ValueError"
  unfolding parse_spec_def parse_group_def
  by (auto simp: result_simps Let_def dest!: map_res_errors [of _ ValueError, rotated] parse_clause_errors)

lemma satisfies_errors: "satisfies v s = Inl e \<Longrightarrow> e = ValueError"
  using parse_version_errors parse_spec_errors
  by (auto simp: satisfies_def result_simps split: if_splits)

interpretation satisfies: version_checker satisfies
proof
  show "satisfies v spec = Inr True" if "strip spec \<in> {''*'', [], ''any''}" for v spec
    using that by (auto simp: satisfies_def)
qed (rule satisfies_errors)

end
