(* ===== verification/Rules.thy ===== *)
theory Rules
  imports Version_Check Models
begin

text \<open>
  \<open>src/devrepro/rules/base.py\<close>, the rule engine and the version rule every pack shares, and
  \<open>src/devrepro/rules/score.py\<close>, the reproducibility score. A rule pack is a function of the
  context to its findings or to the exception it ends in (its type and message); the texts
  \<open>repr\<close> quotes are quoted by an argument \<open>quote\<close>. The score asks the file system which
  tool-manager files the project root has: that is an argument.
\<close>

section \<open>Context\<close>

record 'x rule_context =
  rc_platform_info :: platform_info
  rc_tools :: "tool_installation list"
  rc_requirements :: "project_requirement list"
  rc_policy :: "policy option"
  rc_path_analysis :: "path_analysis option"
  rc_containers :: "container_state option"
  rc_wsl :: "wsl_state option"
  rc_gpu :: "gpu_stack option"
  rc_active_manager :: "string option"
  rc_extra :: 'x

text \<open>\<open>RuleContext.active_tool\<close>.\<close>

definition active_tool :: "'x rule_context \<Rightarrow> string \<Rightarrow> tool_installation option" where
  "active_tool ctx name =
     (let candidates = filter (\<lambda>t. t_name t = name) (rc_tools ctx) in
      if candidates = [] then None
      else (case find t_is_active candidates of Some t \<Rightarrow> Some t | None \<Rightarrow> Some (hd candidates)))"

section \<open>The version rule\<close>

definition make_finding ::
  "string \<Rightarrow> finding_state \<Rightarrow> string \<Rightarrow> evidence list \<Rightarrow> string option \<Rightarrow> string option \<Rightarrow> string option \<Rightarrow>
    string option \<Rightarrow> string list \<Rightarrow> finding" where
  "make_finding rule_id state summary evs detected required component hint refs =
     \<lparr>f_rule_id = rule_id, f_state = state, f_summary = summary, f_evidence = evs,
       f_detected = detected, f_required = required, f_component = component,
       f_remediation_hint = hint, f_references = refs, f_probe_id = None\<rparr>"

definition text_evidence :: "string \<Rightarrow> string \<Rightarrow> evidence" where
  "text_evidence src excerpt =
     \<lparr>e_source = src, e_command = None, e_path = None, e_excerpt = Some excerpt, e_redacted = False\<rparr>"

text \<open>The loop over the known-bad ranges: a range that does not parse is passed over.\<close>

definition matches_range :: "version \<Rightarrow> string \<Rightarrow> bool" where
  "matches_range v spec = (case parse_spec spec of Inl e \<Rightarrow> False | Inr s \<Rightarrow> spec_satisfied s v)"

definition check_version_requirement ::
  "(string \<Rightarrow> string) \<Rightarrow> string \<Rightarrow> string \<Rightarrow> tool_installation option \<Rightarrow> string \<Rightarrow> string list \<Rightarrow> string \<Rightarrow>
    finding_state \<Rightarrow> string \<Rightarrow> finding list" where
  "check_version_requirement quote rule_prefix tool_name active required_spec known_bad source
     missing_state evidence_excerpt =
     (let evs = [text_evidence ''command''
            (if evidence_excerpt = [] then tool_name @ '' version check'' else evidence_excerpt)];
          version_text = (case active of None \<Rightarrow> None | Some t \<Rightarrow> t_version t)
      in if version_text = None \<or> version_text = Some [] then
           [make_finding (rule_prefix @ ''/missing'') missing_state
              (''Required tool '' @ [CHR 0x27] @ tool_name @ [CHR 0x27] @ '' ('' @ required_spec @ '') not found on PATH.'')
              evs None (Some required_spec) (Some tool_name)
              (Some (''Install '' @ tool_name @ '' '' @ required_spec @ '' via your preferred '' @
                     ''package manager or version manager.''))
              [''declared in '' @ source]]
         else
           (let ver = the version_text in
            case bind_res (parse_version ver) (\<lambda>v. bind_res (parse_spec required_spec) (\<lambda>s.
                   Inr (v, spec_satisfied s v))) of
              Inl e \<Rightarrow>
                [make_finding (rule_prefix @ ''/version-unparseable'') UNKNOWN
                   (''Could not parse '' @ tool_name @ '' version '' @ quote ver @ '' against '' @
                    quote required_spec @ ''.'')
                   evs (Some ver) (Some required_spec) (Some tool_name) None []]
            | Inr (v, in_range) \<Rightarrow>
                (case find (matches_range v) known_bad of
                   None \<Rightarrow> []
                 | Some bad_spec \<Rightarrow>
                     [make_finding (rule_prefix @ ''/known-bad-version'') ERROR
                        (tool_name @ '' '' @ ver @ '' matches a known-bad range ('' @ bad_spec @ '').'')
                        evs (Some ver) (Some (''not '' @ bad_spec)) (Some tool_name)
                        (Some (''Upgrade '' @ tool_name @ '' outside the known-bad range.''))
                        [''policy known_bad_versions['' @ tool_name @ '']'']]) @
                (if in_range then
                   [make_finding (rule_prefix @ ''/version-ok'') PASS
                      (tool_name @ '' '' @ ver @ '' satisfies '' @ required_spec @ ''.'')
                      evs (Some ver) (Some required_spec) (Some tool_name) None []]
                 else
                   [make_finding (rule_prefix @ ''/version-mismatch'') ERROR
                      (tool_name @ '' '' @ ver @ '' does not satisfy required range '' @ required_spec @ ''.'')
                      evs (Some ver) (Some required_spec) (Some tool_name)
                      (Some (''Install a '' @ tool_name @ '' version within '' @ required_spec @ '' '' @
                             ''(use a version manager to avoid disturbing other projects).''))
                      [''declared in '' @ source]])))"

section \<open>The engine\<close>

type_synonym 'x pack = "'x rule_context \<Rightarrow> (string \<times> string) + finding list"
type_synonym 'x engine = "(string \<times> 'x pack) list"

definition register :: "string \<Rightarrow> 'x pack \<Rightarrow> 'x engine \<Rightarrow> 'x engine" where
  "register name func packs = dict_set name func packs"

definition pack_names :: "'x engine \<Rightarrow> string list" where
  "pack_names packs = sort (map fst packs)"

definition pack_failed :: "string \<Rightarrow> string \<Rightarrow> string \<Rightarrow> finding" where
  "pack_failed name exc_type message =
     make_finding (''rulepack/'' @ name @ ''/failed'') UNKNOWN
       (''Rule pack '' @ [CHR 0x27] @ name @ [CHR 0x27] @ '' failed internally: '' @ exc_type @ '': '' @ message)
       [text_evidence ''system'' (take 500 message)] None None None None []"

definition pack_step :: "'x engine \<Rightarrow> 'x rule_context \<Rightarrow> string \<Rightarrow> finding list \<Rightarrow> finding list" where
  "pack_step packs ctx name findings =
     (case map_of packs name of
        None \<Rightarrow> findings
      | Some func \<Rightarrow>
          (case func ctx of
             Inr fs \<Rightarrow> findings @ fs
           | Inl (exc_type, message) \<Rightarrow> findings @ [pack_failed name exc_type message]))"

definition evaluate :: "'x engine \<Rightarrow> 'x rule_context \<Rightarrow> string list option \<Rightarrow> finding list" where
  "evaluate packs ctx selection =
     (let selected = (case selection of None \<Rightarrow> pack_names packs | Some [] \<Rightarrow> pack_names packs | Some ns \<Rightarrow> ns)
      in fold (pack_step packs ctx) selected [])"

section \<open>The score\<close>

definition TOOL_MANAGER_FILES :: "string list" where
  "TOOL_MANAGER_FILES =
     [''.nvmrc'', ''.node-version'', ''.python-version'', ''.ruby-version'', ''.java-version'',
      ''.tool-versions'', ''mise.toml'', ''rust-toolchain'', ''rust-toolchain.toml'', ''global.json'']"

definition point :: "string \<Rightarrow> int \<Rightarrow> int \<Rightarrow> string \<Rightarrow> reproducibility_point" where
  "point criterion earned possible explanation =
     \<lparr>rp_criterion = criterion, rp_earned = earned, rp_possible = possible, rp_explanation = explanation\<rparr>"

definition score_points :: "(string \<Rightarrow> bool) \<Rightarrow> project_requirement list \<Rightarrow> reproducibility_point list" where
  "score_points is_file requirements =
     (let runtime_reqs = filter (\<lambda>r. r_kind r = RUNTIME \<and> r_ecosystem r \<noteq> ''generic'') requirements;
          lock_reqs = filter (\<lambda>r. r_note r = Some ''lockfile present'') requirements;
          pinned = filter (\<lambda>r. list_ex (ends_with (r_source_file r)) TOOL_MANAGER_FILES) requirements;
          container_reqs = filter (\<lambda>r. r_ecosystem r = ''container'') requirements;
          devc = list_ex (\<lambda>r. r_name r = ''devcontainer'') container_reqs;
          docker = list_ex (\<lambda>r. r_name r \<in> {''docker-build'', ''docker-compose''}) container_reqs;
          tm_present = filter is_file TOOL_MANAGER_FILES;
          ci_reqs = filter (\<lambda>r. starts_with (r_name r) ''ci:'') requirements
      in [point ''declared-runtime-versions'' (if runtime_reqs \<noteq> [] then 2 else 0) 2
            (if runtime_reqs \<noteq> [] then
               str_nat (length runtime_reqs) @ '' runtime version requirement(s) declared in manifests''
             else ''No runtime versions declared (e.g. requires-python, engines.node). '' @
                  ''Add them so machines converge on the same runtimes.''),
          point ''dependency-lock-coverage'' (min 2 (int (length lock_reqs))) 2
            (''Lockfiles found: '' @ (if join '', '' (map r_name lock_reqs) = [] then ''none''
               else join '', '' (map r_name lock_reqs)) @ ''. Lockfiles pin exact dependency trees.''),
          point ''compiler-runtime-determinism'' (if pinned \<noteq> [] then 1 else 0) 1
            (if pinned \<noteq> [] then ''Tool-manager pin files found: '' @ str_nat (length pinned)
             else ''No .nvmrc/.tool-versions/rust-toolchain/global.json style pins; '' @
                  ''contributors may get different compiler/runtime versions.''),
          point ''container-devcontainer-definitions'' ((if devc then 1 else 0) + (if docker then 1 else 0)) 2
            ((if devc then ''Devcontainer definition present '' @ [CHR 0x2D] @
                '' one-command reproducible editor environment.''
              else ''No devcontainer definition; consider adding .devcontainer/devcontainer.json.'') @
             (if docker then '' Container build/compose files present.'' else [])),
          point ''tool-manager-files'' (if tm_present \<noteq> [] then 1 else 0) 1
            (if tm_present \<noteq> [] then ''Tool-manager files committed: '' @ join '', '' tm_present
             else ''No tool-manager files committed (.tool-versions, mise.toml, ...).''),
          point ''ci-parity'' (if ci_reqs \<noteq> [] then 1 else 0) 1
            (if ci_reqs \<noteq> [] then ''CI workflows declare runtimes ('' @ join '', '' (map r_name ci_reqs) @ '')''
             else ''CI does not declare explicit runtime versions; local/CI drift is likely.'')])"

definition compute_score :: "(string \<Rightarrow> bool) \<Rightarrow> project_requirement list \<Rightarrow> reproducibility_score" where
  "compute_score is_file requirements =
     (let points = score_points is_file requirements in
      \<lparr>rs_total = sum_list (map rp_earned points), rs_possible = sum_list (map rp_possible points),
        rs_points = points\<rparr>)"

section \<open>Lemmas and properties\<close>

lemma pack_step_append: "pack_step packs ctx name findings = findings @ pack_step packs ctx name []"
  by (auto simp: pack_step_def split: option.split sum.split)

lemma fold_pack_step:
  "fold (pack_step packs ctx) ns fs = fs @ concat (map (\<lambda>n. pack_step packs ctx n []) ns)"
proof (induction ns arbitrary: fs)
  case (Cons n ns)
  then show ?case using pack_step_append [of packs ctx n fs] by simp
qed simp

text \<open>
  Rule packs are isolated: an evaluation is the findings of its packs one after the other,
  in the order selected; a pack that raises contributes exactly one UNKNOWN finding naming it
  and takes nothing away from the others; a name that is not registered contributes nothing.
\<close>

theorem packs_are_isolated:
  "evaluate packs ctx (Some (n # ns)) =
     (case map_of packs n of
        None \<Rightarrow> []
      | Some func \<Rightarrow> (case func ctx of Inr fs \<Rightarrow> fs | Inl (t, msg) \<Rightarrow> [pack_failed n t msg])) @
     (if ns = [] then [] else evaluate packs ctx (Some ns)) \<and>
   f_state (pack_failed n t msg) = UNKNOWN \<and> valid_finding (pack_failed n t msg)"
proof (intro conjI)
  have "pack_step packs ctx n [] = (case map_of packs n of
        None \<Rightarrow> []
      | Some func \<Rightarrow> (case func ctx of Inr fs \<Rightarrow> fs | Inl (t, msg) \<Rightarrow> [pack_failed n t msg]))"
    by (simp add: pack_step_def split: option.split sum.split)
  moreover have "concat (map (\<lambda>n. pack_step packs ctx n []) ns) = (if ns = [] then [] else evaluate packs ctx (Some ns))"
    by (cases ns) (simp_all add: evaluate_def fold_pack_step del: fold_simps)
  ultimately show "evaluate packs ctx (Some (n # ns)) =
     (case map_of packs n of
        None \<Rightarrow> []
      | Some func \<Rightarrow> (case func ctx of Inr fs \<Rightarrow> fs | Inl (t, msg) \<Rightarrow> [pack_failed n t msg])) @
     (if ns = [] then [] else evaluate packs ctx (Some ns))"
    by (simp add: evaluate_def fold_pack_step del: fold_simps)
qed (auto simp: pack_failed_def make_finding_def valid_finding_def valid_evidence_def
    text_evidence_def allowed_sources_def)

lemma matches_range_iff: "matches_range v b \<longleftrightarrow> (\<exists>r. parse_spec b = Inr r \<and> spec_satisfied r v)"
  by (simp add: matches_range_def split: sum.split)

text \<open>
  The version rule decides every requirement: a tool with no readable version is missing in
  the state asked for; an unreadable version or range is UNKNOWN; otherwise the last finding is
  a PASS exactly when the version is in the range and an ERROR when it is not, preceded by an
  ERROR exactly when some known-bad range that parses contains it; and every finding is valid.
\<close>

theorem version_rule_decides:
  "let fs = check_version_requirement quote rprefix tool active spec bad source missing excerpt;
       version_text = (case active of None \<Rightarrow> [] | Some t \<Rightarrow> (case t_version t of None \<Rightarrow> [] | Some v \<Rightarrow> v))
   in list_all valid_finding fs \<and>
      map f_state fs =
        (if version_text = [] then [missing]
         else case (parse_version version_text, parse_spec spec) of
                (Inr v, Inr s) \<Rightarrow>
                  (if \<exists>b \<in> set bad. \<exists>r. parse_spec b = Inr r \<and> spec_satisfied r v then [ERROR] else []) @
                  [if spec_satisfied s v then PASS else ERROR]
              | _ \<Rightarrow> [UNKNOWN])"
proof -
  have ok: "valid_finding (make_finding r st sm [text_evidence ''command'' x] d q c h rf)"
    for r st sm x d q c h rf
    by (simp add: make_finding_def valid_finding_def valid_evidence_def text_evidence_def allowed_sources_def)
  have st: "f_state (make_finding r st sm e d q c h rf) = st" for r st sm e d q c h rf
    by (simp add: make_finding_def)
  have bad: "(\<exists>b \<in> set bad. \<exists>r. parse_spec b = Inr r \<and> spec_satisfied r v) \<longleftrightarrow> find (matches_range v) bad \<noteq> None" for v
    by (auto simp: find_None_iff matches_range_iff)
  define version_text where "version_text = (case active of None \<Rightarrow> None | Some t \<Rightarrow> t_version t)"
  have empty: "(case active of None \<Rightarrow> [] | Some t \<Rightarrow> (case t_version t of None \<Rightarrow> [] | Some v \<Rightarrow> v)) =
      (case version_text of None \<Rightarrow> [] | Some v \<Rightarrow> v)"
    by (auto simp: version_text_def split: option.split)
  show ?thesis
  proof (cases "version_text = None \<or> version_text = Some []")
    case True
    then show ?thesis
      unfolding Let_def check_version_requirement_def version_text_def [symmetric] empty
      by (auto simp: ok st)
  next
    case False
    then obtain ver where ver: "version_text = Some ver" "ver \<noteq> []" by (cases version_text) auto
    show ?thesis
      unfolding Let_def check_version_requirement_def version_text_def [symmetric] empty bad
      using ver by (cases "parse_version ver"; cases "parse_spec spec") (auto simp: ok st split: option.split)
  qed
qed

lemma version_rule_decides_witness:
  "map f_state (check_version_requirement (\<lambda>s. s) ''node'' ''node''
      (Some \<lparr>t_name = ''node'', t_version = Some ''18.2.0'', t_exe_path = None, t_install_source = None,
         t_is_active = True, t_precedence = None\<rparr>) ''>=18.0.0'' [''==18.2.0''] ''policy'' BLOCKED []) = [ERROR, PASS]"
proof -
  have "(\<exists>b \<in> set [''==18.2.0'']. \<exists>r. parse_spec b = Inr r \<and> spec_satisfied r v) \<longleftrightarrow>
      matches_range v ''==18.2.0''" for v
    by (simp add: matches_range_iff)
  moreover have "(case (parse_version ''18.2.0'', parse_spec ''>=18.0.0'') of
      (Inr v, Inr s) \<Rightarrow> (matches_range v ''==18.2.0'', spec_satisfied s v) | _ \<Rightarrow> (False, False)) = (True, True)"
    by code_simp
  ultimately show ?thesis
    using version_rule_decides [of "\<lambda>s. s" "''node''" "''node''" "Some \<lparr>t_name = ''node'', t_version = Some ''18.2.0'',
         t_exe_path = None, t_install_source = None, t_is_active = True, t_precedence = None\<rparr>" "''>=18.0.0''"
         "[''==18.2.0'']" "''policy''" BLOCKED "[]"]
    by (auto simp: Let_def split: sum.splits)
qed

text \<open>
  The reproducibility score is bounded and explained: six criteria worth nine points in all,
  each earning between nothing and its maximum, and the total is their sum.
\<close>

theorem score_bounded:
  "rs_possible (compute_score is_file requirements) = 9 \<and>
   0 \<le> rs_total (compute_score is_file requirements) \<and> rs_total (compute_score is_file requirements) \<le> 9 \<and>
   list_all (\<lambda>p. 0 \<le> rp_earned p \<and> rp_earned p \<le> rp_possible p) (rs_points (compute_score is_file requirements)) \<and>
   rs_total (compute_score is_file requirements) =
     sum_list (map rp_earned (rs_points (compute_score is_file requirements)))"
  by (auto simp: compute_score_def score_points_def point_def Let_def)

end
