(* ===== verification/Remediation_Graph.thy ===== *)
theory Remediation_Graph
  imports Models
begin

text \<open>
  \<open>src/devrepro/remediation/graph.py\<close>: the prerequisite graph of a remediation plan, its
  depth-first topological order and the dry-run transaction with its confirmation gates.
  The set \<open>visiting\<close> of the source holds the ids on the call stack: it is added to on entry and
  discarded from on exit, so a call sees exactly the ids of its callers, which is the
  parameter here. \<open>PlanCycleError\<close> is a value that says which of its two causes it has, and
  the reason of a skipped step is a value its text is rendered from.
\<close>

section \<open>Steps and their order\<close>

record remediation_step =
  st_id :: string
  st_title :: string
  st_risk :: risk_level
  st_commands :: "string list"
  st_prerequisites :: "string list"
  st_rollback :: "string option"
  st_post_checks :: "string list"

datatype plan_error = UnknownStep string string | PrereqCycle string | MissingKey string

text \<open>\<open>by_id = {s.id: s for s in steps}\<close>: of several steps with one id the last is kept.\<close>

definition by_id :: "remediation_step list \<Rightarrow> string \<Rightarrow> remediation_step option" where
  "by_id steps p = find (\<lambda>s. st_id s = p) (rev steps)"

text \<open>The first loop: every prerequisite must name a step.\<close>

fun check_known :: "remediation_step list \<Rightarrow> remediation_step list \<Rightarrow> plan_error + unit" where
  "check_known steps [] = Inr ()"
| "check_known steps (s # ss) =
     (case find (\<lambda>p. by_id steps p = None) (st_prerequisites s) of
        Some p \<Rightarrow> Inl (UnknownStep (st_id s) p)
      | None \<Rightarrow> check_known steps ss)"

type_synonym visit_state = "string list \<times> remediation_step list"

lemma by_id_SomeD: "by_id steps p = Some s \<Longrightarrow> s \<in> set steps \<and> st_id s = p"
  unfolding by_id_def by (auto simp: find_Some_iff rev_nth dest: nth_mem)

text \<open>
  The unvisited ids shrink with every nested call; a step that is not in the plan can only be
  the first one visited.
\<close>

definition unvisited :: "remediation_step list \<Rightarrow> string set \<Rightarrow> nat" where
  "unvisited steps visiting = card (st_id ` set steps - visiting)"

lemma unvisited_insert:
  "i \<in> st_id ` set steps \<Longrightarrow> i \<notin> visiting \<Longrightarrow> unvisited steps (insert i visiting) < unvisited steps visiting"
  unfolding unvisited_def by (intro psubset_card_mono) auto

lemma unvisited_insert_le: "unvisited steps (insert i visiting) \<le> unvisited steps visiting"
  unfolding unvisited_def by (intro card_mono) auto

text \<open>\<open>visit\<close>, and its loop over the prerequisites; the state is (done, order).\<close>

function visit :: "remediation_step list \<Rightarrow> string set \<Rightarrow> remediation_step \<Rightarrow> visit_state \<Rightarrow>
      plan_error + visit_state"
  and visit_all :: "remediation_step list \<Rightarrow> string set \<Rightarrow> string list \<Rightarrow> visit_state \<Rightarrow>
      plan_error + visit_state" where
  "visit steps visiting step st =
     (if st_id step \<in> set (fst st) then Inr st
      else if st_id step \<in> visiting then Inl (PrereqCycle (st_id step))
      else case visit_all steps (insert (st_id step) visiting) (st_prerequisites step) st of
             Inl e \<Rightarrow> Inl e
           | Inr (done, order) \<Rightarrow> Inr (st_id step # done, order @ [step]))"
| "visit_all steps visiting [] st = Inr st"
| "visit_all steps visiting (p # ps) st =
     (case by_id steps p of
        None \<Rightarrow> Inl (MissingKey p)
      | Some step \<Rightarrow>
          (case visit steps visiting step st of
             Inl e \<Rightarrow> Inl e
           | Inr st' \<Rightarrow> visit_all steps visiting ps st'))"
  by pat_completeness auto

termination
proof (relation "measures
    [case_sum (\<lambda>(steps, visiting, step, st). unvisited steps visiting)
       (\<lambda>(steps, visiting, ps, st). unvisited steps visiting),
     case_sum (\<lambda>(steps, visiting, step, st). if st_id step \<in> st_id ` set steps then 0 else 1) (\<lambda>_. 0),
     case_sum (\<lambda>_. 0) (\<lambda>(steps, visiting, ps, st). Suc (length ps))]")
  fix steps :: "remediation_step list" and visiting :: "string set"
    and step :: remediation_step and st :: visit_state
  assume "st_id step \<notin> visiting"
  then show "(Inr (steps, insert (st_id step) visiting, st_prerequisites step, st),
      Inl (steps, visiting, step, st)) \<in> measures
    [case_sum (\<lambda>(steps, visiting, step, st). unvisited steps visiting)
       (\<lambda>(steps, visiting, ps, st). unvisited steps visiting),
     case_sum (\<lambda>(steps, visiting, step, st). if st_id step \<in> st_id ` set steps then 0 else 1) (\<lambda>_. 0),
     case_sum (\<lambda>_. 0) (\<lambda>(steps, visiting, ps, st). Suc (length ps))]"
    using unvisited_insert [of "st_id step" steps visiting]
      unvisited_insert_le [of steps "st_id step" visiting]
    by (cases "st_id step \<in> st_id ` set steps") auto
qed (auto dest: by_id_SomeD)

declare visit.simps [simp del] visit_all.simps [simp del]

text \<open>The final loop over the steps sorted by id.\<close>

fun visit_each :: "remediation_step list \<Rightarrow> remediation_step list \<Rightarrow> visit_state \<Rightarrow>
    plan_error + visit_state" where
  "visit_each steps [] st = Inr st"
| "visit_each steps (s # ss) st =
     (case visit steps {} s st of Inl e \<Rightarrow> Inl e | Inr st' \<Rightarrow> visit_each steps ss st')"

definition build_execution_order :: "remediation_step list \<Rightarrow> plan_error + remediation_step list" where
  "build_execution_order steps =
     (case check_known steps steps of
        Inl e \<Rightarrow> Inl e
      | Inr _ \<Rightarrow>
          (case visit_each steps (sort_key st_id steps) ([], []) of
             Inl e \<Rightarrow> Inl e
           | Inr (done, order) \<Rightarrow> Inr order))"

section \<open>The dry-run transaction\<close>

datatype skip_reason = UnmetPrerequisites "string list" | NeedsConfirmation risk_level

record dry_run =
  dr_steps :: "remediation_step list"
  dr_executed :: "string list"
  dr_skipped :: "(string \<times> skip_reason) list"
  dr_confirmed_ids :: "string list"

record dry_run_report =
  rep_executed :: "string list"
  rep_skipped :: "(string \<times> skip_reason) list"
  rep_total :: nat

text \<open>
  One iteration of \<open>run\<close>, on the transaction and the local set \<open>completed\<close>.
\<close>

definition dry_step :: "remediation_step \<Rightarrow> dry_run \<times> string list \<Rightarrow> dry_run \<times> string list" where
  "dry_step step = (\<lambda>(tx, completed).
     (let unmet = filter (\<lambda>p. p \<notin> set completed) (st_prerequisites step) in
      if unmet \<noteq> [] then
        (tx\<lparr>dr_skipped := dr_skipped tx @ [(st_id step, UnmetPrerequisites unmet)]\<rparr>, completed)
      else if st_risk step \<in> {MEDIUM, HIGH} \<and> st_id step \<notin> set (dr_confirmed_ids tx) then
        (tx\<lparr>dr_skipped := dr_skipped tx @ [(st_id step, NeedsConfirmation (st_risk step))]\<rparr>, completed)
      else (tx\<lparr>dr_executed := dr_executed tx @ [st_id step]\<rparr>, st_id step # completed)))"

definition run :: "dry_run \<Rightarrow> plan_error + (dry_run \<times> dry_run_report)" where
  "run tx =
     (case build_execution_order (dr_steps tx) of
        Inl e \<Rightarrow> Inl e
      | Inr ordered \<Rightarrow>
          (let (tx', completed) = fold dry_step ordered (tx, []) in
           Inr (tx', \<lparr>rep_executed = dr_executed tx', rep_skipped = dr_skipped tx',
                      rep_total = length ordered\<rparr>)))"

section \<open>The prerequisite relation\<close>

text \<open>\<open>(i, j)\<close>: the step of id \<open>i\<close> has the prerequisite \<open>j\<close>.\<close>

definition edges :: "remediation_step list \<Rightarrow> (string \<times> string) set" where
  "edges steps = {(st_id s, p) | s p. s \<in> set steps \<and> p \<in> set (st_prerequisites s)}"

definition known :: "remediation_step list \<Rightarrow> bool" where
  "known steps \<longleftrightarrow> (\<forall>s \<in> set steps. set (st_prerequisites s) \<subseteq> st_id ` set steps)"

definition ids :: "remediation_step list \<Rightarrow> string list" where
  "ids steps = map st_id steps"

text \<open>
  A topological order: every prerequisite of a step is the id of an earlier one.
\<close>

fun topological :: "remediation_step list \<Rightarrow> bool" where
  "topological [] = True"
| "topological (s # ss) = (topological ss \<and> set (st_prerequisites s) \<subseteq> st_id ` set ss)"

definition in_order :: "remediation_step list \<Rightarrow> bool" where
  "in_order order \<longleftrightarrow> topological (rev order)"

lemma in_order_snoc [simp]:
  "in_order (order @ [s]) \<longleftrightarrow> in_order order \<and> set (st_prerequisites s) \<subseteq> st_id ` set order"
  by (auto simp: in_order_def)

lemma in_order_Nil [simp]: "in_order []"
  by (simp add: in_order_def)


lemma by_id_None: "by_id steps p = None \<longleftrightarrow> p \<notin> st_id ` set steps"
  by (auto simp: by_id_def find_None_iff)


lemma check_known_iff: "check_known steps ss = Inr () \<longleftrightarrow>
    (\<forall>s \<in> set ss. set (st_prerequisites s) \<subseteq> st_id ` set steps)"
proof (induction ss)
  case (Cons s ss)
  have "find (\<lambda>p. by_id steps p = None) (st_prerequisites s) = None \<longleftrightarrow>
      set (st_prerequisites s) \<subseteq> st_id ` set steps"
    by (auto simp: find_None_iff by_id_None)
  with Cons show ?case by (auto split: option.splits)
qed simp

section \<open>Soundness of the search\<close>

text \<open>The state is consistent: ids of the order are the done ids, once each, in order.\<close>

definition visit_inv :: "remediation_step list \<Rightarrow> visit_state \<Rightarrow> bool" where
  "visit_inv steps st \<longleftrightarrow>
     fst st = rev (ids (snd st)) \<and> distinct (fst st) \<and> in_order (snd st) \<and> set (snd st) \<subseteq> set steps"

lemma visit_inv_done: "visit_inv steps (d, ord) \<Longrightarrow> set d = st_id ` set ord"
  by (simp add: visit_inv_def ids_def)

lemma visit_inv_snoc:
  assumes "visit_inv steps (d, ord)" and "step \<in> set steps" and "st_id step \<notin> set d"
    and "set (st_prerequisites step) \<subseteq> set d"
  shows "visit_inv steps (st_id step # d, ord @ [step])"
  using assms visit_inv_done [OF assms(1)] by (auto simp: visit_inv_def ids_def)

lemma visit_sound:
  "step \<in> set steps \<Longrightarrow> visit steps visiting step st = Inr st' \<Longrightarrow> visit_inv steps st \<Longrightarrow>
     visiting \<inter> set (fst st) = {} \<Longrightarrow>
     visit_inv steps st' \<and> (\<exists>new. snd st' = snd st @ new) \<and> st_id step \<in> set (fst st') \<and>
     visiting \<inter> set (fst st') = {}"
  and visit_all_sound:
  "visit_all steps visiting ps st = Inr st' \<Longrightarrow> visit_inv steps st \<Longrightarrow>
     visiting \<inter> set (fst st) = {} \<Longrightarrow>
     visit_inv steps st' \<and> (\<exists>new. snd st' = snd st @ new) \<and> set ps \<subseteq> set (fst st') \<and>
     visiting \<inter> set (fst st') = {}"
proof (induction steps visiting step st and steps visiting ps st
    arbitrary: st' and st' rule: visit_visit_all.induct)
  case (1 steps visiting step st)
  show ?case
  proof (cases "st_id step \<in> set (fst st)")
    case True
    with "1.prems" show ?thesis by (auto simp: visit.simps [of steps visiting step st])
  next
    case False
    with "1.prems"(2) have nv: "st_id step \<notin> visiting"
      by (auto simp: visit.simps [of steps visiting step st] split: if_splits)
    from "1.prems"(2) False nv obtain d ord where
      va: "visit_all steps (insert (st_id step) visiting) (st_prerequisites step) st = Inr (d, ord)"
      and st': "st' = (st_id step # d, ord @ [step])"
      by (auto simp: visit.simps [of steps visiting step st] split: sum.splits prod.splits)
    have inv: "visit_inv steps (d, ord)" and new: "\<exists>new. ord = snd st @ new"
      and pre: "set (st_prerequisites step) \<subseteq> set d" and dis: "insert (st_id step) visiting \<inter> set d = {}"
      using "1.IH" [OF False nv va] "1.prems"(3,4) False by auto
    have "visit_inv steps st'"
      unfolding st' using inv "1.prems"(1) pre dis by (intro visit_inv_snoc) auto
    moreover have "\<exists>new. snd st' = snd st @ new" using new by (auto simp: st')
    ultimately show ?thesis using dis nv by (auto simp: st')
  qed
next
  case (2 steps visiting st)
  then show ?case by (simp add: visit_all.simps)
next
  case (3 steps visiting p ps st)
  from "3.prems"(1) obtain step st1 where s: "by_id steps p = Some step"
    and v: "visit steps visiting step st = Inr st1" and r: "visit_all steps visiting ps st1 = Inr st'"
    by (auto simp: visit_all.simps split: option.splits sum.splits)
  have "step \<in> set steps" "st_id step = p" using s by (auto dest: by_id_SomeD)
  then have one: "visit_inv steps st1 \<and> (\<exists>new. snd st1 = snd st @ new) \<and> p \<in> set (fst st1) \<and>
      visiting \<inter> set (fst st1) = {}"
    using "3.IH"(1) [OF s _ v] "3.prems" by simp
  then have two: "visit_inv steps st' \<and> (\<exists>new. snd st' = snd st1 @ new) \<and> set ps \<subseteq> set (fst st') \<and>
      visiting \<inter> set (fst st') = {}"
    using "3.IH"(2) [OF s v r] by simp
  then have "set (fst st1) \<subseteq> set (fst st')"
    using one by (auto simp: visit_inv_def ids_def)
  with one two show ?case by auto
qed

lemma visit_each_sound:
  "set ss \<subseteq> set steps \<Longrightarrow> visit_each steps ss st = Inr st' \<Longrightarrow> visit_inv steps st \<Longrightarrow>
     visit_inv steps st' \<and> set (fst st) \<subseteq> set (fst st') \<and> st_id ` set ss \<subseteq> set (fst st')"
proof (induction ss arbitrary: st)
  case (Cons s ss)
  then obtain st1 where v: "visit steps {} s st = Inr st1" and r: "visit_each steps ss st1 = Inr st'"
    by (auto split: sum.splits)
  have one: "visit_inv steps st1 \<and> (\<exists>new. snd st1 = snd st @ new) \<and> st_id s \<in> set (fst st1)"
    using visit_sound [OF _ v] Cons.prems by auto
  then have "visit_inv steps st' \<and> set (fst st1) \<subseteq> set (fst st') \<and> st_id ` set ss \<subseteq> set (fst st')"
    using Cons.IH [OF _ r] Cons.prems(1) by simp
  moreover have "set (fst st) \<subseteq> set (fst st1)"
    using one Cons.prems(3) by (auto simp: visit_inv_def ids_def)
  ultimately show ?case using one by auto
qed simp

section \<open>Failures are cycles\<close>



section \<open>A topological order leaves no cycle\<close>

lemma acyclic_source:
  assumes "acyclic r" and "\<And>a b. (a, b) \<in> r' \<Longrightarrow> a = x" and "x \<notin> Range (r \<union> r')"
  shows "acyclic (r \<union> r')"
proof -
  have path: "(a, b) \<in> r\<^sup>+" if "(a, b) \<in> (r \<union> r')\<^sup>+" and "a \<noteq> x" for a b
    using that
  proof (induction rule: trancl_induct)
    case (base y)
    then show ?case using assms(2) by auto
  next
    case (step y z)
    then have "y \<noteq> x" using assms(3) by (auto dest: tranclD2)
    with step assms(2) show ?case by (auto intro: trancl_into_trancl)
  qed
  show ?thesis
  proof (rule acyclicI, rule allI)
    fix c
    show "(c, c) \<notin> (r \<union> r')\<^sup>+"
    proof
      assume c: "(c, c) \<in> (r \<union> r')\<^sup>+"
      then have "c \<noteq> x" using assms(3) by (auto dest: tranclD2)
      with c have "(c, c) \<in> r\<^sup>+" by (rule path)
      with assms(1) show False by (auto simp: acyclic_def)
    qed
  qed
qed

lemma topological_acyclic:
  "topological ss \<Longrightarrow> distinct (ids ss) \<Longrightarrow> acyclic (edges ss) \<and> Range (edges ss) \<subseteq> st_id ` set ss"
proof (induction ss)
  case Nil
  then show ?case by (simp add: edges_def acyclic_def)
next
  case (Cons s ss)
  let ?new = "{(st_id s, p) | p. p \<in> set (st_prerequisites s)}"
  have split: "edges (s # ss) = edges ss \<union> ?new" by (auto simp: edges_def)
  from Cons have IH: "acyclic (edges ss)" "Range (edges ss) \<subseteq> st_id ` set ss"
    and pre: "set (st_prerequisites s) \<subseteq> st_id ` set ss" and fresh: "st_id s \<notin> st_id ` set ss"
    by (auto simp: ids_def)
  have range: "Range (edges ss \<union> ?new) \<subseteq> st_id ` set ss" using IH(2) pre by auto
  then have "acyclic (edges ss \<union> ?new)"
    using IH(1) fresh by (intro acyclic_source [where x = "st_id s"]) auto
  with range show ?case unfolding split by auto
qed

section \<open>The order as a whole\<close>

lemma order_facts:
  assumes "build_execution_order steps = Inr order"
  shows "known steps" and "in_order order" and "distinct (ids order)" and "set order \<subseteq> set steps"
    and "st_id ` set order = st_id ` set steps"
proof -
  from assms obtain d where k: "check_known steps steps = Inr ()"
    and v: "visit_each steps (sort_key st_id steps) ([], []) = Inr (d, order)"
    by (auto simp: build_execution_order_def split: sum.splits)
  from k show "known steps" by (simp add: check_known_iff known_def)
  have "visit_inv steps ([], [])" by (simp add: visit_inv_def ids_def)
  then have inv: "visit_inv steps (d, order)" and all: "st_id ` set steps \<subseteq> set d"
    using visit_each_sound [OF _ v] by auto
  then show "in_order order" "distinct (ids order)" "set order \<subseteq> set steps"
    by (auto simp: visit_inv_def)
  with all visit_inv_done [OF inv] show "st_id ` set order = st_id ` set steps" by auto
qed

lemma order_mset:
  assumes "build_execution_order steps = Inr order" and "distinct (ids steps)"
  shows "mset order = mset steps"
proof -
  note facts = order_facts [OF assms(1)]
  have "set order = set steps"
  proof
    show "set steps \<subseteq> set order"
    proof
      fix s assume s: "s \<in> set steps"
      then obtain t where "t \<in> set order" "st_id t = st_id s" using facts(5) by force
      moreover from this have "t = s"
        using s facts(4) assms(2) by (auto simp: ids_def distinct_map inj_on_def)
      ultimately show "s \<in> set order" by simp
    qed
  qed (fact facts(4))
  moreover have "distinct order" "distinct steps"
    using facts(3) assms(2) by (auto simp: ids_def distinct_map)
  ultimately show ?thesis by (simp add: set_eq_iff_mset_eq_distinct)
qed


lemma order_acyclic:
  assumes "build_execution_order steps = Inr order" and "distinct (ids steps)"
  shows "acyclic (edges steps)"
proof -
  have "set (rev order) = set steps" using order_mset [OF assms] by (metis set_mset_mset set_rev)
  then have "edges (rev order) = edges steps" by (simp add: edges_def)
  moreover have "distinct (ids (rev order))"
    using order_facts(3) [OF assms(1)] by (simp add: ids_def rev_map [symmetric])
  ultimately show ?thesis
    using topological_acyclic [of "rev order"] order_facts(2) [OF assms(1)] by (simp add: in_order_def)
qed

section \<open>The order of the input does not matter\<close>





section \<open>The dry run\<close>

text \<open>What lets a step past the confirmation gate.\<close>

definition gate_open :: "string list \<Rightarrow> remediation_step \<Rightarrow> bool" where
  "gate_open confirmed s \<longleftrightarrow> st_risk s \<notin> {MEDIUM, HIGH} \<or> st_id s \<in> set confirmed"

lemma in_order_prereqs: "in_order order \<Longrightarrow> s \<in> set order \<Longrightarrow> set (st_prerequisites s) \<subseteq> st_id ` set order"
proof (induction order rule: rev_induct)
  case (snoc x xs)
  then show ?case by (cases "s = x") auto
qed simp


definition dry_inv :: "dry_run \<Rightarrow> remediation_step list \<Rightarrow> dry_run \<times> string list \<Rightarrow> bool" where
  "dry_inv tx ordered = (\<lambda>(tx', completed).
     dr_confirmed_ids tx' = dr_confirmed_ids tx \<and> dr_steps tx' = dr_steps tx \<and>
     dr_executed tx' = dr_executed tx @ rev completed \<and>
     (\<exists>new. dr_skipped tx' = dr_skipped tx @ new \<and>
        mset completed + mset (map fst new) = mset (ids ordered)) \<and>
     (\<forall>s \<in> set ordered. st_id s \<in> set completed \<longleftrightarrow>
        gate_open (dr_confirmed_ids tx) s \<and> set (st_prerequisites s) \<subseteq> set completed))"

lemma dry_inv_completed: "dry_inv tx ordered (tx', c) \<Longrightarrow> set c \<subseteq> st_id ` set ordered"
proof -
  assume "dry_inv tx ordered (tx', c)"
  then have "\<exists>new :: (string \<times> skip_reason) list. mset c + mset (map fst new) = mset (ids ordered)"
    unfolding dry_inv_def prod.case by blast
  then have "set_mset (mset c) \<subseteq> set_mset (mset (ids ordered))"
    by (metis Un_upper1 set_mset_union)
  then show ?thesis by (simp add: ids_def)
qed

lemma dry_step_execute:
  "gate_open (dr_confirmed_ids tx) s \<Longrightarrow> set (st_prerequisites s) \<subseteq> set c \<Longrightarrow>
     dry_step s (tx, c) = (tx\<lparr>dr_executed := dr_executed tx @ [st_id s]\<rparr>, st_id s # c)"
  by (auto simp: dry_step_def Let_def gate_open_def filter_empty_conv subset_iff)

lemma dry_step_skip:
  "\<not> (gate_open (dr_confirmed_ids tx) s \<and> set (st_prerequisites s) \<subseteq> set c) \<Longrightarrow>
     \<exists>r. dry_step s (tx, c) = (tx\<lparr>dr_skipped := dr_skipped tx @ [(st_id s, r)]\<rparr>, c)"
  by (auto simp: dry_step_def Let_def gate_open_def filter_empty_conv subset_iff)

lemma dry_fold:
  "in_order ordered \<Longrightarrow> distinct (ids ordered) \<Longrightarrow> dry_inv tx ordered (fold dry_step ordered (tx, []))"
proof (induction ordered rule: rev_induct)
  case Nil
  then show ?case by (simp add: dry_inv_def ids_def)
next
  case (snoc s ss)
  obtain tx' c where f: "fold dry_step ss (tx, []) = (tx', c)" by (cases "fold dry_step ss (tx, [])")
  with snoc have inv: "dry_inv tx ss (tx', c)" by (simp add: ids_def)
  have fresh: "st_id s \<notin> st_id ` set ss" using snoc.prems(2) by (auto simp: ids_def)
  have cs: "set c \<subseteq> st_id ` set ss" using inv by (rule dry_inv_completed)
  have fresh_c: "st_id s \<notin> set c" using fresh cs by auto
  have other: "st_id t \<noteq> st_id s \<and> st_id s \<notin> set (st_prerequisites t)" if "t \<in> set ss" for t
    using imageI [OF that, of st_id] fresh in_order_prereqs [OF _ that] snoc.prems(1)
    by (metis in_order_snoc subsetD)
  have self: "st_id s \<notin> set (st_prerequisites s)"
    using fresh snoc.prems(1) by auto
  have conf: "dr_confirmed_ids tx' = dr_confirmed_ids tx" using inv by (simp add: dry_inv_def)
  show ?case
  proof (cases "gate_open (dr_confirmed_ids tx) s \<and> set (st_prerequisites s) \<subseteq> set c")
    case True
    then have "dry_step s (tx', c) =
        (tx'\<lparr>dr_executed := dr_executed tx' @ [st_id s]\<rparr>, st_id s # c)"
      by (intro dry_step_execute) (simp_all add: conf)
    moreover have "dry_inv tx (ss @ [s]) (tx'\<lparr>dr_executed := dr_executed tx' @ [st_id s]\<rparr>, st_id s # c)"
      using inv True other self by (auto simp: dry_inv_def ids_def)
    ultimately show ?thesis by (simp add: f)
  next
    case False
    then obtain r where "dry_step s (tx', c) =
        (tx'\<lparr>dr_skipped := dr_skipped tx' @ [(st_id s, r)]\<rparr>, c)"
      using dry_step_skip [of tx' s c] conf by auto
    moreover have "dry_inv tx (ss @ [s]) (tx'\<lparr>dr_skipped := dr_skipped tx' @ [(st_id s, r)]\<rparr>, c)"
      using inv False fresh_c by (auto simp: dry_inv_def ids_def)
    ultimately show ?thesis by (simp add: f)
  qed
qed

lemma finite_edges: "finite (edges steps)"
proof (rule finite_subset)
  show "edges steps \<subseteq> (\<Union>s \<in> set steps. {st_id s} \<times> set (st_prerequisites s))"
    by (auto simp: edges_def)
qed auto

lemma run_facts:
  assumes "run tx = Inr (tx', rep)" and "distinct (ids (dr_steps tx))"
  shows "\<exists>c. dr_executed tx' = dr_executed tx @ c \<and> rep_executed rep = dr_executed tx' \<and>
      rep_skipped rep = dr_skipped tx' \<and> rep_total rep = length (dr_steps tx) \<and>
      (\<exists>new. dr_skipped tx' = dr_skipped tx @ new \<and>
        mset c + mset (map fst new) = mset (ids (dr_steps tx))) \<and>
      (\<forall>s \<in> set (dr_steps tx). st_id s \<in> set c \<longleftrightarrow>
        gate_open (dr_confirmed_ids tx) s \<and> set (st_prerequisites s) \<subseteq> set c)"
proof -
  from assms(1) obtain ordered where o: "build_execution_order (dr_steps tx) = Inr ordered"
    by (auto simp: run_def split: sum.splits)
  obtain tx1 c where f: "fold dry_step ordered (tx, []) = (tx1, c)" by (cases "fold dry_step ordered (tx, [])")
  have perm: "mset ordered = mset (dr_steps tx)" using o assms(2) by (rule order_mset)
  then have set: "set ordered = set (dr_steps tx)" by (metis set_mset_mset)
  have idm: "mset (ids ordered) = mset (ids (dr_steps tx))" using perm by (simp add: ids_def)
  have len: "length ordered = length (dr_steps tx)" using perm by (metis size_mset)
  have inv: "dry_inv tx ordered (tx1, c)"
    using dry_fold [OF order_facts(2,3) [OF o], of tx] f by simp
  have "tx' = tx1" "rep = \<lparr>rep_executed = dr_executed tx1, rep_skipped = dr_skipped tx1, rep_total = length ordered\<rparr>"
    using assms(1) o f by (auto simp: run_def)
  with inv show ?thesis
    by (intro exI [of _ "rev c"]) (auto simp: dry_inv_def set idm len)
qed

lemma executed_closure:
  assumes "distinct (ids steps)" and "known steps" and "acyclic (edges steps)"
    and local: "\<forall>s \<in> set steps. st_id s \<in> C \<longleftrightarrow> gate s \<and> set (st_prerequisites s) \<subseteq> C"
  shows "\<forall>s \<in> set steps. st_id s \<in> C \<longleftrightarrow>
    (\<forall>t \<in> set steps. (st_id s, st_id t) \<in> (edges steps)\<^sup>* \<longrightarrow> gate t)"
proof (rule ballI, rule iffI)
  fix s
  assume s: "s \<in> set steps" and c: "st_id s \<in> C"
  have reach: "j \<in> C" if "(st_id s, j) \<in> (edges steps)\<^sup>*" for j
    using that
  proof (induction rule: rtrancl_induct)
    case base
    then show ?case by (fact c)
  next
    case (step y z)
    then show ?case using local by (auto simp: edges_def)
  qed
  show "\<forall>t \<in> set steps. (st_id s, st_id t) \<in> (edges steps)\<^sup>* \<longrightarrow> gate t"
    using reach local by blast
next
  have wf: "wf ((edges steps)\<inverse>)"
    using finite_edges assms(3) by (rule finite_acyclic_wf_converse)
  have "\<forall>s \<in> set steps. st_id s = i \<longrightarrow>
      (\<forall>t \<in> set steps. (i, st_id t) \<in> (edges steps)\<^sup>* \<longrightarrow> gate t) \<longrightarrow> i \<in> C" for i
  proof (induction i rule: wf_induct_rule [OF wf])
    case (1 i)
    show ?case
    proof (intro ballI impI)
      fix s
      assume s: "s \<in> set steps" "st_id s = i"
        and gates: "\<forall>t \<in> set steps. (i, st_id t) \<in> (edges steps)\<^sup>* \<longrightarrow> gate t"
      have "p \<in> C" if p: "p \<in> set (st_prerequisites s)" for p
      proof -
        obtain t where t: "t \<in> set steps" "st_id t = p"
          using assms(2) p s(1) by (auto simp: known_def)
        have e: "(i, p) \<in> edges steps" using p s by (auto simp: edges_def)
        then have "\<forall>u \<in> set steps. (p, st_id u) \<in> (edges steps)\<^sup>* \<longrightarrow> gate u"
          using gates by (meson converse_rtrancl_into_rtrancl)
        then show ?thesis using "1.IH" e t by blast
      qed
      moreover have "gate s" using gates s by auto
      ultimately show "i \<in> C" using local s by blast
    qed
  qed
  then show "\<And>s. s \<in> set steps \<Longrightarrow>
      \<forall>t \<in> set steps. (st_id s, st_id t) \<in> (edges steps)\<^sup>* \<longrightarrow> gate t \<Longrightarrow> st_id s \<in> C"
    by blast
qed

section \<open>Properties\<close>




lemma dry_run_executes_exactly_facts:
  assumes "distinct (map st_id (dr_steps tx))" and "run tx = Inr (tx', rep)"
    and "dr_executed tx = []" and "dr_skipped tx = []"
  shows "s \<in> set (dr_steps tx) \<Longrightarrow> st_id s \<in> set (rep_executed rep) \<longleftrightarrow>
      (\<forall>t \<in> set (dr_steps tx). (st_id s, st_id t) \<in> (edges (dr_steps tx))\<^sup>* \<longrightarrow>
         st_risk t \<notin> {MEDIUM, HIGH} \<or> st_id t \<in> set (dr_confirmed_ids tx))"
    and "mset (rep_executed rep) + mset (map fst (rep_skipped rep)) = mset (map st_id (dr_steps tx))"
proof -
  have d: "distinct (ids (dr_steps tx))" using assms(1) by (simp add: ids_def)
  from assms(2) obtain order where o: "build_execution_order (dr_steps tx) = Inr order"
    by (auto simp: run_def split: sum.splits)
  from run_facts [OF assms(2) d] assms(3,4) have
    m: "mset (rep_executed rep) + mset (map fst (rep_skipped rep)) = mset (ids (dr_steps tx))"
    and l: "\<forall>s \<in> set (dr_steps tx). st_id s \<in> set (rep_executed rep) \<longleftrightarrow>
        gate_open (dr_confirmed_ids tx) s \<and> set (st_prerequisites s) \<subseteq> set (rep_executed rep)"
    by auto
  then show "mset (rep_executed rep) + mset (map fst (rep_skipped rep)) = mset (map st_id (dr_steps tx))"
    by (simp add: ids_def)
  assume "s \<in> set (dr_steps tx)"
  then show "st_id s \<in> set (rep_executed rep) \<longleftrightarrow>
      (\<forall>t \<in> set (dr_steps tx). (st_id s, st_id t) \<in> (edges (dr_steps tx))\<^sup>* \<longrightarrow>
         st_risk t \<notin> {MEDIUM, HIGH} \<or> st_id t \<in> set (dr_confirmed_ids tx))"
    using executed_closure [OF d order_facts(1) [OF o] order_acyclic [OF o d] l]
    by (simp add: gate_open_def)
qed

text \<open>
  a dry run executes a step exactly when the step and everything it transitively depends
  on is either not of medium or high risk or confirmed; every step is reported once, as
  executed or as skipped.
\<close>

theorem dry_run_executes_exactly:
  assumes "distinct (map st_id (dr_steps tx))" and "run tx = Inr (tx', rep)"
    and "dr_executed tx = []" and "dr_skipped tx = []"
  shows "(\<forall>s \<in> set (dr_steps tx). st_id s \<in> set (rep_executed rep) \<longleftrightarrow>
      (\<forall>t \<in> set (dr_steps tx). (st_id s, st_id t) \<in> (edges (dr_steps tx))\<^sup>* \<longrightarrow>
         st_risk t \<notin> {MEDIUM, HIGH} \<or> st_id t \<in> set (dr_confirmed_ids tx))) \<and>
    mset (rep_executed rep) + mset (map fst (rep_skipped rep)) = mset (map st_id (dr_steps tx))"
  using dry_run_executes_exactly_facts [OF assms] by blast

definition sample_step :: "string \<Rightarrow> risk_level \<Rightarrow> string list \<Rightarrow> remediation_step" where
  "sample_step i r ps = \<lparr>st_id = i, st_title = i, st_risk = r, st_commands = [],
     st_prerequisites = ps, st_rollback = None, st_post_checks = []\<rparr>"

definition sample_plan :: "remediation_step list" where
  "sample_plan = [sample_step ''c'' LOW [''b''], sample_step ''b'' MEDIUM [''a''], sample_step ''a'' SAFE []]"



lemma sample_distinct: "distinct (map st_id sample_plan)"
  by code_simp



definition sample_tx :: dry_run where
  "sample_tx = \<lparr>dr_steps = sample_plan, dr_executed = [], dr_skipped = [], dr_confirmed_ids = []\<rparr>"

lemma dry_run_executes_exactly_witness:
  "\<exists>tx' rep. run sample_tx = Inr (tx', rep) \<and>
     mset (rep_executed rep) + mset (map fst (rep_skipped rep)) = mset (map st_id sample_plan) \<and>
     ''c'' \<notin> set (rep_executed rep)"
proof -
  have r: "run sample_tx = Inr (sample_tx\<lparr>dr_executed := [''a''],
      dr_skipped := [(''b'', NeedsConfirmation MEDIUM), (''c'', UnmetPrerequisites [''b''])]\<rparr>,
      \<lparr>rep_executed = [''a''],
        rep_skipped = [(''b'', NeedsConfirmation MEDIUM), (''c'', UnmetPrerequisites [''b''])],
        rep_total = 3\<rparr>)"
    by code_simp
  have d: "distinct (map st_id (dr_steps sample_tx))"
    using sample_distinct by (simp add: sample_tx_def)
  have e: "dr_executed sample_tx = []" "dr_skipped sample_tx = []" by (simp_all add: sample_tx_def)
  have "mset (rep_executed rep) + mset (map fst (rep_skipped rep)) = mset (map st_id sample_plan)"
    if "run sample_tx = Inr (tx', rep)" for tx' rep
    using dry_run_executes_exactly [OF d that e] by (simp add: sample_tx_def)
  with r show ?thesis by (intro exI conjI) auto
qed

end
