(* ===== verification/Remediation_Planner.thy ===== *)
theory Remediation_Planner
  imports Models
begin

text \<open>
  \<open>src/devrepro/remediation/planner.py\<close>: the remediation plan derived from findings, and its
  execution. The machine is a value of an arbitrary type that the executor (the callback
  \<open>Executor\<close>, which runs one command and returns its exit status) maps to the next one, and
  that the precondition check reads, so the order of the calls is part of the model.
  \<open>RemediationRefusedError\<close> is the left summand of the result.
\<close>

definition automatable_risks :: "risk_level set" where
  "automatable_risks = {SAFE, LOW}"

section \<open>Building the plan\<close>

text \<open>\<open>f.component or "tool"\<close> and \<open>f.required or 'declared'\<close>: an empty string is false.\<close>

definition or_default :: "string option \<Rightarrow> string \<Rightarrow> string" where
  "or_default x d = (case x of None \<Rightarrow> d | Some s \<Rightarrow> if s = [] then d else s)"

definition install_step :: "finding \<Rightarrow> remediation" where
  "install_step f =
     (let tool = or_default (f_component f) ''tool'' in
      \<lparr>rem_id = ''rem/install-'' @ tool,
       rem_title = ''Install/align '' @ tool @ '' to required range'',
       rem_risk = MEDIUM,
       rem_preconditions = [''A package source for '' @ tool @ '' is reachable''],
       rem_changes =
         [''Install '' @ tool @ '' within range '' @ or_default (f_required f) ''declared''
          @ '' using a version manager where available (pyenv/nvm/rustup/sdkman). ''
          @ ''DevRepro prints the commands; it does not run installs automatically.''],
       rem_rollback = ''Version managers allow `switch` back to the previous version; system-wide installs must be rolled back manually.'',
       rem_automatable = False,
       rem_finding_ids = [f_rule_id f],
       rem_commands = []\<rparr>)"

text \<open>The chain of branches on the rule id; \<^const>\<open>None\<close> is its final \<open>continue\<close>.\<close>

definition remediation_for :: "finding \<Rightarrow> remediation option" where
  "remediation_for f =
     (let rid = f_rule_id f in
      if rid = ''path/duplicates'' then Some
        \<lparr>rem_id = ''rem/path-remove-duplicates'',
         rem_title = ''Remove duplicate PATH entries'',
         rem_risk = SAFE,
         rem_preconditions = [''No running installer is modifying PATH''],
         rem_changes = [''Rewrite the user PATH variable keeping the first occurrence of each entry, preserving order.''],
         rem_rollback = ''Restore PATH from the backup file written next to the change log.'',
         rem_automatable = True,
         rem_finding_ids = [rid],
         rem_commands = []\<rparr>
      else if rid = ''path/dead-entries'' then Some
        \<lparr>rem_id = ''rem/path-remove-dead'',
         rem_title = ''Remove dead PATH entries'',
         rem_risk = LOW,
         rem_preconditions = [''Entry does not exist on disk (verified at execution time)''],
         rem_changes = [''Remove PATH entries whose directories no longer exist.''],
         rem_rollback = ''Restore PATH from the backup file written next to the change log.'',
         rem_automatable = True,
         rem_finding_ids = [rid],
         rem_commands = []\<rparr>
      else if ends_with rid ''/version-mismatch'' \<or> ends_with rid ''/missing'' then Some (install_step f)
      else if starts_with rid ''containers/docker-daemon'' then Some
        \<lparr>rem_id = ''rem/start-docker-daemon'',
         rem_title = ''Start the Docker daemon'',
         rem_risk = SAFE,
         rem_preconditions = [''Docker Desktop installed or docker.service present''],
         rem_changes = [''Start Docker Desktop (Windows/macOS) or systemctl start docker (Linux).''],
         rem_rollback = ''Stop the daemon again (`systemctl stop docker` / quit Docker Desktop).'',
         rem_automatable = False,
         rem_finding_ids = [rid],
         rem_commands = []\<rparr>
      else if rid = ''wsl/no-default-distro'' then Some
        \<lparr>rem_id = ''rem/wsl-set-default'',
         rem_title = ''Set the default WSL distro'',
         rem_risk = SAFE,
         rem_preconditions = [''At least one WSL distro registered''],
         rem_changes = [''Run `wsl --set-default <distro>` for the first registered distro.''],
         rem_rollback = ''Run `wsl --set-default <previous>` (recorded in the change log).'',
         rem_automatable = True,
         rem_finding_ids = [rid],
         rem_commands = []\<rparr>
      else if rid = ''network/clock-skew'' then Some
        \<lparr>rem_id = ''rem/enable-time-sync'',
         rem_title = ''Enable automatic time synchronization'',
         rem_risk = LOW,
         rem_preconditions = [''Time service available (w32time/timedatectl)''],
         rem_changes = [''Enable NTP sync via OS settings; never touches TLS configuration.''],
         rem_rollback = ''Disable automatic time sync again via OS settings.'',
         rem_automatable = False,
         rem_finding_ids = [rid],
         rem_commands = []\<rparr>
      else None)"

text \<open>One iteration of the loop over the findings: (plan, seen).\<close>

definition plan_step :: "finding \<Rightarrow> remediation list \<times> string set \<Rightarrow> remediation list \<times> string set" where
  "plan_step f = (\<lambda>(plan, seen).
     if f_state f \<in> {PASS, INFO} then (plan, seen)
     else case remediation_for f of
            None \<Rightarrow> (plan, seen)
          | Some step \<Rightarrow>
              if rem_id step \<notin> seen then (plan @ [step], insert (rem_id step) seen) else (plan, seen))"

definition build_plan :: "finding list \<Rightarrow> remediation list" where
  "build_plan findings = sort_key rem_risk (fst (fold plan_step findings ([], {})))"

section \<open>Executing the plan\<close>

record step_result =
  res_id :: string
  res_status :: string
  res_detail :: "string option"
  res_command :: "string option"

datatype refused = RemediationRefused

text \<open>The status of a command by its return code.\<close>

definition command_result :: "remediation \<Rightarrow> string list \<Rightarrow> int \<Rightarrow> step_result" where
  "command_result step command rc =
     \<lparr>res_id = rem_id step,
      res_status = (if rc = 0 then ''executed'' else ''failed(rc='' @ str_int rc @ '')''),
      res_detail = None,
      res_command = Some (join '' '' command)\<rparr>"

definition no_commands_detail :: string where
  "no_commands_detail = ''Planned as automatable but carries no executable command; apply the documented change manually. See `devrepro plan`.''"

text \<open>The loop over the commands of one step.\<close>

fun run_commands ::
  "(string list \<Rightarrow> 'w \<Rightarrow> int \<times> 'w) \<Rightarrow> remediation \<Rightarrow> string list list \<Rightarrow> 'w \<Rightarrow> step_result list \<times> 'w" where
  "run_commands executor step [] w = ([], w)"
| "run_commands executor step (command # cs) w =
     (case executor command w of
        (rc, w1) \<Rightarrow> (case run_commands executor step cs w1 of
           (rs, w2) \<Rightarrow> (command_result step command rc # rs, w2)))"

text \<open>One iteration of the loop over the plan.\<close>

definition execute_one ::
  "(string list \<Rightarrow> 'w \<Rightarrow> int \<times> 'w) \<Rightarrow> (remediation \<Rightarrow> 'w \<Rightarrow> bool) option \<Rightarrow> remediation \<Rightarrow> 'w \<Rightarrow>
    step_result list \<times> 'w" where
  "execute_one executor check step w =
     (if \<not> rem_automatable step \<or> rem_risk step \<notin> automatable_risks then
        ([\<lparr>res_id = rem_id step, res_status = ''skipped-manual'', res_detail = None, res_command = None\<rparr>], w)
      else if (case check of None \<Rightarrow> False | Some c \<Rightarrow> \<not> c step w) then
        ([\<lparr>res_id = rem_id step, res_status = ''skipped-preconditions'', res_detail = None, res_command = None\<rparr>], w)
      else if rem_commands step = [] then
        ([\<lparr>res_id = rem_id step, res_status = ''no-commands'', res_detail = Some no_commands_detail,
           res_command = None\<rparr>], w)
      else run_commands executor step (rem_commands step) w)"

fun execute_steps ::
  "(string list \<Rightarrow> 'w \<Rightarrow> int \<times> 'w) \<Rightarrow> (remediation \<Rightarrow> 'w \<Rightarrow> bool) option \<Rightarrow> remediation list \<Rightarrow> 'w \<Rightarrow>
    step_result list \<times> 'w" where
  "execute_steps executor check [] w = ([], w)"
| "execute_steps executor check (step # plan) w =
     (case execute_one executor check step w of
        (rs, w1) \<Rightarrow> (case execute_steps executor check plan w1 of (rest, w2) \<Rightarrow> (rs @ rest, w2)))"

definition execute_plan ::
  "(string list \<Rightarrow> 'w \<Rightarrow> int \<times> 'w) \<Rightarrow> (remediation \<Rightarrow> 'w \<Rightarrow> bool) option \<Rightarrow> bool \<Rightarrow> remediation list \<Rightarrow>
    'w \<Rightarrow> refused + (step_result list \<times> 'w)" where
  "execute_plan executor check confirmed plan w =
     (if \<not> confirmed then Inl RemediationRefused else Inr (execute_steps executor check plan w))"

section \<open>The plan\<close>

lemma remediation_for_shape:
  "remediation_for f = Some r \<Longrightarrow> rem_finding_ids r = [f_rule_id f] \<and> rem_commands r = [] \<and>
     rem_preconditions r \<noteq> [] \<and> rem_changes r \<noteq> [] \<and> rem_rollback r \<noteq> []"
  by (auto simp: remediation_for_def install_step_def Let_def split: if_splits)

text \<open>Nothing above low risk is flagged automatable.\<close>

lemma remediation_for_automatable:
  "remediation_for f = Some r \<Longrightarrow> rem_automatable r \<Longrightarrow> rem_risk r \<in> automatable_risks"
  by (auto simp: remediation_for_def install_step_def Let_def automatable_risks_def split: if_splits)

text \<open>The findings the plan acts on.\<close>

definition actionable :: "finding \<Rightarrow> bool" where
  "actionable f \<longleftrightarrow> f_state f \<notin> {PASS, INFO}"

definition plan_inv :: "finding list \<Rightarrow> remediation list \<times> string set \<Rightarrow> bool" where
  "plan_inv fs = (\<lambda>(plan, seen).
     seen = rem_id ` set plan \<and> distinct (map rem_id plan) \<and>
     (\<forall>r \<in> set plan. \<exists>f \<in> set fs. actionable f \<and> remediation_for f = Some r) \<and>
     (\<forall>f \<in> set fs. \<forall>r. actionable f \<longrightarrow> remediation_for f = Some r \<longrightarrow> rem_id r \<in> rem_id ` set plan))"

lemma plan_step_inv:
  "plan_inv fs st \<Longrightarrow> plan_inv (fs @ [f]) (plan_step f st)"
proof (cases "actionable f")
  case False
  then show "plan_inv fs st \<Longrightarrow> ?thesis"
    by (cases st) (auto simp: plan_step_def plan_inv_def actionable_def)
next
  case True
  then show "plan_inv fs st \<Longrightarrow> ?thesis"
    by (cases st; cases "remediation_for f")
      (fastforce simp: plan_step_def plan_inv_def actionable_def)+
qed

lemma plan_fold_inv: "plan_inv fs (fold plan_step fs ([], {}))"
proof (induction fs rule: rev_induct)
  case Nil
  show ?case by (simp add: plan_inv_def)
next
  case (snoc f fs)
  then show ?case using plan_step_inv [of fs] by simp
qed

lemma build_plan_facts:
  "sorted (map rem_risk (build_plan fs))"
  "distinct (map rem_id (build_plan fs))"
  "r \<in> set (build_plan fs) \<Longrightarrow> \<exists>f \<in> set fs. actionable f \<and> remediation_for f = Some r"
  "f \<in> set fs \<Longrightarrow> actionable f \<Longrightarrow> remediation_for f = Some r \<Longrightarrow> rem_id r \<in> rem_id ` set (build_plan fs)"
proof -
  obtain plan seen where st: "fold plan_step fs ([], {}) = (plan, seen)" by (cases "fold plan_step fs ([], {})")
  then have inv: "plan_inv fs (plan, seen)" using plan_fold_inv [of fs] by simp
  have p: "build_plan fs = sort_key rem_risk plan" by (simp add: build_plan_def st)
  show "sorted (map rem_risk (build_plan fs))" by (simp add: p sort_facts)
  have "mset (map rem_id (build_plan fs)) = mset (map rem_id plan)" by (simp add: p)
  moreover have "distinct (map rem_id plan)" using inv by (simp add: plan_inv_def)
  ultimately show "distinct (map rem_id (build_plan fs))"
    by (metis mset_eq_imp_distinct_iff)
  have "\<forall>r \<in> set plan. \<exists>f \<in> set fs. actionable f \<and> remediation_for f = Some r"
    and "\<forall>f \<in> set fs. \<forall>r. actionable f \<longrightarrow> remediation_for f = Some r \<longrightarrow> rem_id r \<in> rem_id ` set plan"
    using inv by (simp_all add: plan_inv_def)
  then show "r \<in> set (build_plan fs) \<Longrightarrow> \<exists>f \<in> set fs. actionable f \<and> remediation_for f = Some r"
    and "f \<in> set fs \<Longrightarrow> actionable f \<Longrightarrow> remediation_for f = Some r \<Longrightarrow> rem_id r \<in> rem_id ` set (build_plan fs)"
    by (simp_all add: p)
qed

section \<open>Execution\<close>

text \<open>The machine after a list of commands, whatever they return.\<close>

definition after_commands :: "(string list \<Rightarrow> 'w \<Rightarrow> int \<times> 'w) \<Rightarrow> string list list \<Rightarrow> 'w \<Rightarrow> 'w" where
  "after_commands executor cs w = fold (\<lambda>c w. snd (executor c w)) cs w"

definition may_run :: "remediation \<Rightarrow> bool" where
  "may_run r \<longleftrightarrow> rem_automatable r \<and> rem_risk r \<in> automatable_risks"

lemma run_commands_Cons:
  "snd (run_commands executor step (c # cs) w) = snd (run_commands executor step cs (snd (executor c w)))"
  "res_id ` set (fst (run_commands executor step (c # cs) w)) =
     insert (rem_id step) (res_id ` set (fst (run_commands executor step cs (snd (executor c w)))))"
  by (simp_all add: command_result_def split: prod.splits)

lemma run_commands_world: "snd (run_commands executor step cs w) = after_commands executor cs w"
  by (induction cs arbitrary: w)
    (simp_all add: after_commands_def run_commands_Cons del: run_commands.simps(2))

lemma execute_steps_Cons:
  "fst (execute_steps executor check (step # plan) w) =
     fst (execute_one executor check step w) @
     fst (execute_steps executor check plan (snd (execute_one executor check step w)))"
  "snd (execute_steps executor check (step # plan) w) =
     snd (execute_steps executor check plan (snd (execute_one executor check step w)))"
  by (simp_all split: prod.splits)

lemma execute_one_world:
  "\<exists>cs. snd (execute_one executor check step w) = after_commands executor cs w \<and>
     (cs = [] \<or> may_run step \<and> cs = rem_commands step)"
proof (cases "may_run step \<and> \<not> (case check of None \<Rightarrow> False | Some c \<Rightarrow> \<not> c step w)")
  case True
  then have "snd (execute_one executor check step w) = after_commands executor (rem_commands step) w"
    by (auto simp: execute_one_def may_run_def run_commands_world after_commands_def)
  with True show ?thesis by blast
next
  case False
  then have "snd (execute_one executor check step w) = after_commands executor [] w"
    by (auto simp: execute_one_def may_run_def after_commands_def)
  then show ?thesis by blast
qed

lemma execute_one_reports: "rem_id step \<in> res_id ` set (fst (execute_one executor check step w))"
  by (cases "rem_commands step")
    (auto simp: execute_one_def run_commands_Cons simp del: run_commands.simps(2))

lemma execute_steps_world:
  "\<exists>cs. snd (execute_steps executor check plan w) = after_commands executor cs w \<and>
     (\<forall>c \<in> set cs. \<exists>r \<in> set plan. may_run r \<and> c \<in> set (rem_commands r))"
proof (induction plan arbitrary: w)
  case Nil
  show ?case by (intro exI [of _ "[]"]) (simp add: after_commands_def)
next
  case (Cons step plan)
  let ?w1 = "snd (execute_one executor check step w)"
  obtain now where now: "?w1 = after_commands executor now w"
    and now_mem: "now = [] \<or> may_run step \<and> now = rem_commands step"
    using execute_one_world [of executor check step w] by blast
  obtain rest where rest: "snd (execute_steps executor check plan ?w1) = after_commands executor rest ?w1"
    and mem: "\<forall>c \<in> set rest. \<exists>r \<in> set plan. may_run r \<and> c \<in> set (rem_commands r)"
    using Cons.IH by blast
  have "snd (execute_steps executor check (step # plan) w) = after_commands executor (now @ rest) w"
    unfolding execute_steps_Cons rest unfolding now by (simp add: after_commands_def)
  moreover have "\<forall>c \<in> set (now @ rest). \<exists>r \<in> set (step # plan). may_run r \<and> c \<in> set (rem_commands r)"
    using mem now_mem by auto
  ultimately show ?case by blast
qed

lemma execute_steps_reports:
  "r \<in> set plan \<Longrightarrow> rem_id r \<in> res_id ` set (fst (execute_steps executor check plan w))"
proof (induction plan arbitrary: w)
  case (Cons step plan)
  then show ?case
    using execute_one_reports [of step executor check w]
    by (auto simp: execute_steps_Cons image_Un simp del: execute_steps.simps(2))
qed simp

section \<open>Properties\<close>

lemma build_plan_correct_facts:
  shows "sorted (map rem_risk (build_plan fs)) \<and> distinct (map rem_id (build_plan fs))"
    and "r \<in> set (build_plan fs) \<Longrightarrow>
      (\<exists>f \<in> set fs. f_state f \<notin> {PASS, INFO} \<and> rem_finding_ids r = [f_rule_id f]) \<and>
      rem_preconditions r \<noteq> [] \<and> rem_changes r \<noteq> [] \<and> rem_rollback r \<noteq> [] \<and>
      (rem_automatable r \<longrightarrow> rem_risk r \<in> {SAFE, LOW})"
    and "f \<in> set fs \<Longrightarrow> f_state f \<notin> {PASS, INFO} \<Longrightarrow> remediation_for f = Some r \<Longrightarrow>
      rem_id r \<in> rem_id ` set (build_plan fs)"
  using build_plan_facts [where fs = fs] remediation_for_shape remediation_for_automatable
  by (auto simp: actionable_def automatable_risks_def; blast)+

text \<open>
  C26: the plan is sorted by risk with the safest steps first, names every step once, contains
  only steps derived from an actionable finding and covers every actionable finding that has
  a remediation; each step states its preconditions, changes and rollback, and none above low
  risk is marked automatable.
\<close>

theorem build_plan_correct:
  "sorted (map rem_risk (build_plan fs)) \<and> distinct (map rem_id (build_plan fs)) \<and>
   (\<forall>r \<in> set (build_plan fs).
      (\<exists>f \<in> set fs. f_state f \<notin> {PASS, INFO} \<and> rem_finding_ids r = [f_rule_id f]) \<and>
      rem_preconditions r \<noteq> [] \<and> rem_changes r \<noteq> [] \<and> rem_rollback r \<noteq> [] \<and>
      (rem_automatable r \<longrightarrow> rem_risk r \<in> {SAFE, LOW})) \<and>
   (\<forall>f \<in> set fs. \<forall>r. f_state f \<notin> {PASS, INFO} \<and> remediation_for f = Some r \<longrightarrow>
      rem_id r \<in> rem_id ` set (build_plan fs))"
  using build_plan_correct_facts(1) [of fs] build_plan_correct_facts(2,3) [where fs = fs]
  by (intro conjI ballI allI) simp_all

lemma execute_plan_safe_facts:
  shows "execute_plan executor check False plan w = Inl RemediationRefused"
    and "execute_plan executor check True plan w = Inr (results, w') \<Longrightarrow>
      (\<exists>cs. w' = after_commands executor cs w \<and>
        (\<forall>c \<in> set cs. \<exists>r \<in> set plan. rem_automatable r \<and> rem_risk r \<in> {SAFE, LOW} \<and> c \<in> set (rem_commands r))) \<and>
      (\<forall>r \<in> set plan. rem_id r \<in> res_id ` set results)"
proof -
  show "execute_plan executor check False plan w = Inl RemediationRefused"
    by (simp add: execute_plan_def)
  assume "execute_plan executor check True plan w = Inr (results, w')"
  then have e: "execute_steps executor check plan w = (results, w')" by (simp add: execute_plan_def)
  then show "(\<exists>cs. w' = after_commands executor cs w \<and>
        (\<forall>c \<in> set cs. \<exists>r \<in> set plan. rem_automatable r \<and> rem_risk r \<in> {SAFE, LOW} \<and> c \<in> set (rem_commands r))) \<and>
      (\<forall>r \<in> set plan. rem_id r \<in> res_id ` set results)"
    using execute_steps_world [of executor check plan w] execute_steps_reports [of _ plan executor check w]
    by (simp add: may_run_def automatable_risks_def)
qed

text \<open>
  C2: execution refuses without confirmation; with it, the machine is changed only by
  commands of automatable steps of safe or low risk, and every step of the plan is reported.
\<close>

theorem execute_plan_safe:
  "execute_plan executor check False plan w = Inl RemediationRefused \<and>
   (\<forall>results w'. execute_plan executor check True plan w = Inr (results, w') \<longrightarrow>
      (\<exists>cs. w' = after_commands executor cs w \<and>
        (\<forall>c \<in> set cs. \<exists>r \<in> set plan. rem_automatable r \<and> rem_risk r \<in> {SAFE, LOW} \<and> c \<in> set (rem_commands r))) \<and>
      (\<forall>r \<in> set plan. rem_id r \<in> res_id ` set results))"
  by (intro conjI [OF execute_plan_safe_facts(1)] allI impI) (rule execute_plan_safe_facts(2))

text \<open>
  executing a plan built from findings changes nothing, whatever the executor does: no
  planned step carries a command, so each one is reported as manual or as having no commands.
\<close>

theorem built_plan_is_inert:
  "\<exists>results. execute_plan executor check True (build_plan fs) w = Inr (results, w) \<and>
     rem_id ` set (build_plan fs) \<subseteq> res_id ` set results"
proof -
  obtain results w' where e: "execute_steps executor check (build_plan fs) w = (results, w')"
    by (cases "execute_steps executor check (build_plan fs) w")
  have "rem_commands r = []" if "r \<in> set (build_plan fs)" for r
    using build_plan_facts(3) [OF that] remediation_for_shape by blast
  moreover obtain cs where "w' = after_commands executor cs w"
    and "\<forall>c \<in> set cs. \<exists>r \<in> set (build_plan fs). may_run r \<and> c \<in> set (rem_commands r)"
    using execute_steps_world [of executor check "build_plan fs" w] e by auto
  ultimately have "cs = []" by (cases cs) auto
  then have "w' = w" using \<open>w' = after_commands executor cs w\<close> by (simp add: after_commands_def)
  then show ?thesis
    using e execute_steps_reports [of _ "build_plan fs" executor check w] by (auto simp: execute_plan_def)
qed

definition sample_finding :: "string \<Rightarrow> finding_state \<Rightarrow> finding" where
  "sample_finding rid st = \<lparr>f_rule_id = rid, f_state = st, f_summary = rid,
     f_evidence = [\<lparr>e_source = ''env'', e_command = None, e_path = None, e_excerpt = None, e_redacted = True\<rparr>],
     f_detected = None, f_required = None, f_component = Some ''node'', f_remediation_hint = None,
     f_references = [], f_probe_id = None\<rparr>"

lemma build_plan_correct_witness:
  "\<exists>r. r \<in> set (build_plan [sample_finding ''path/duplicates'' WARN]) \<and>
     rem_finding_ids r = [''path/duplicates''] \<and> rem_rollback r \<noteq> []"
proof -
  let ?f = "sample_finding ''path/duplicates'' WARN"
  obtain r where "remediation_for ?f = Some r" by (simp add: remediation_for_def sample_finding_def)
  then have "rem_id r \<in> rem_id ` set (build_plan [?f])"
    using build_plan_correct [of "[?f]"] by (simp add: sample_finding_def)
  then obtain q where q: "q \<in> set (build_plan [?f])" by blast
  with build_plan_correct [of "[?f]"] show ?thesis
    by (auto simp: sample_finding_def)
qed

text \<open>A step with a command, for a machine that counts the commands it ran.\<close>

definition sample_remediation :: remediation where
  "sample_remediation = \<lparr>rem_id = ''r1'', rem_title = [], rem_risk = LOW, rem_preconditions = [],
     rem_changes = [], rem_rollback = [], rem_automatable = True, rem_finding_ids = [],
     rem_commands = [[''true'']]\<rparr>"

lemma execute_plan_safe_witness:
  "\<exists>results. execute_plan (\<lambda>c n. (0, n + 1)) None True [sample_remediation] (0::nat) = Inr (results, 1) \<and>
     ''r1'' \<in> res_id ` set results"
proof -
  obtain results where e: "execute_plan (\<lambda>c n. (0, n + 1)) None True [sample_remediation] (0::nat) = Inr (results, 1)"
    by (simp add: execute_plan_def execute_one_def sample_remediation_def automatable_risks_def)
  from execute_plan_safe [THEN conjunct2, rule_format, OF e] have "''r1'' \<in> res_id ` set results"
    by (simp add: sample_remediation_def)
  with e show ?thesis by blast
qed

end
