(* ===== verification/Drift.thy ===== *)
theory Drift
  imports Json
begin

text \<open>
  \<open>src/devrepro/drift/timeline.py\<close>: the events that separate consecutive snapshots, and the
  prime suspect for a failing component; and the decision of \<open>src/devrepro/drift/monitor.py\<close>
  whether a snapshot is due. A snapshot is the dictionary read from its JSON.
\<close>

section \<open>Timelines\<close>

record drift_event =
  de_at_index :: nat
  de_component :: string
  de_name :: string
  de_kind :: string
  de_before :: "string option"
  de_after :: "string option"

record drift_timeline =
  tl_events :: "drift_event list"
  tl_snapshot_ids :: "string list"

type_synonym snapshot_dict = "(string \<times> json) list"

definition changes_for :: "drift_timeline \<Rightarrow> string \<Rightarrow> string \<Rightarrow> drift_event list" where
  "changes_for tml component name =
     filter (\<lambda>e. de_component e = component \<and> de_name e = name) (tl_events tml)"

definition tool_map_step :: "json \<Rightarrow> (string \<times> string) list \<Rightarrow> (string \<times> string) list" where
  "tool_map_step t out =
     (case t of
        JObj d \<Rightarrow>
          (if py_truth (dict_get d ''name'')
           then dict_set (py_str (dict_get d ''name'')) (py_str (or_json (dict_get d ''version'') (JStr ''?''))) out
           else out)
      | _ \<Rightarrow> out)"

definition tool_map :: "snapshot_dict \<Rightarrow> (string \<times> string) list py" where
  "tool_map snap =
     bind_res (py_elements (or_json (dict_get_or snap ''tools'' (JList [])) (JList []))) (\<lambda>ts.
       Inr (fold tool_map_step ts []))"

definition container_map :: "snapshot_dict \<Rightarrow> (string \<times> string) list" where
  "container_map snap =
     (case or_json (dict_get snap ''containers'') (JObj []) of
        JObj c \<Rightarrow>
          [(''docker-daemon'', if py_truth (dict_get c ''docker_daemon_ok'') then ''ok'' else ''down''),
           (''docker-cli'', py_str (or_json (dict_get c ''docker_cli_version'') (JStr ''-''))),
           (''podman'', py_str (or_json (dict_get c ''podman_version'') (JStr ''-'')))]
      | _ \<Rightarrow> [])"

text \<open>\<open>sorted(set(previous) | set(current))\<close>.\<close>

definition either_names :: "(string \<times> string) list \<Rightarrow> (string \<times> string) list \<Rightarrow> string list" where
  "either_names prev cur = sort (remdups (map fst prev @ map fst cur))"

definition tool_event :: "nat \<Rightarrow> (string \<times> string) list \<Rightarrow> (string \<times> string) list \<Rightarrow> string \<Rightarrow> drift_event list" where
  "tool_event i prev cur name =
     (case (map_of prev name, map_of cur name) of
        (None, Some a) \<Rightarrow>
          [\<lparr>de_at_index = i, de_component = ''tool'', de_name = name, de_kind = ''added'',
            de_before = None, de_after = Some a\<rparr>]
      | (Some b, None) \<Rightarrow>
          [\<lparr>de_at_index = i, de_component = ''tool'', de_name = name, de_kind = ''removed'',
            de_before = Some b, de_after = None\<rparr>]
      | (Some b, Some a) \<Rightarrow>
          if a \<noteq> b then
            [\<lparr>de_at_index = i, de_component = ''tool'', de_name = name, de_kind = ''version-changed'',
              de_before = Some b, de_after = Some a\<rparr>]
          else []
      | (None, None) \<Rightarrow> [])"

definition container_event :: "nat \<Rightarrow> (string \<times> string) list \<Rightarrow> (string \<times> string) list \<Rightarrow> string \<Rightarrow> drift_event list" where
  "container_event i prev cur key =
     (let b = map_of prev key; a = map_of cur key in
      if b \<noteq> a \<and> (b \<noteq> None \<or> a \<noteq> None) then
        [\<lparr>de_at_index = i, de_component = ''container'', de_name = key, de_kind = ''state-changed'',
          de_before = b, de_after = a\<rparr>]
      else [])"

definition tool_events :: "nat \<Rightarrow> (string \<times> string) list \<Rightarrow> (string \<times> string) list \<Rightarrow> drift_event list" where
  "tool_events i prev cur = concat (map (tool_event i prev cur) (either_names prev cur))"

definition container_events :: "nat \<Rightarrow> (string \<times> string) list \<Rightarrow> (string \<times> string) list \<Rightarrow> drift_event list" where
  "container_events i prev cur = concat (map (container_event i prev cur) (either_names prev cur))"

fun timeline_from ::
  "nat \<Rightarrow> (string \<times> string) list \<Rightarrow> (string \<times> string) list \<Rightarrow> snapshot_dict list \<Rightarrow> drift_event list py" where
  "timeline_from i prev_tools prev_containers [] = Inr []"
| "timeline_from i prev_tools prev_containers (snap # snaps) =
     bind_res (tool_map snap) (\<lambda>tools.
       let cont = container_map snap in
       bind_res (timeline_from (Suc i) tools cont snaps) (\<lambda>later.
         Inr (tool_events i prev_tools tools @ container_events i prev_containers cont @ later)))"

definition snapshot_ids :: "snapshot_dict list \<Rightarrow> string list" where
  "snapshot_ids snaps =
     map (\<lambda>(i, s). py_str (dict_get_or s ''snapshot_id'' (dict_get_or s ''created_at'' (JStr (CHR ''#'' # str_nat i)))))
       (enumerate 0 snaps)"

definition build_timeline :: "snapshot_dict list \<Rightarrow> drift_timeline py" where
  "build_timeline snaps =
     bind_res (timeline_from 0 [] [] snaps) (\<lambda>evs.
       Inr \<lparr>tl_events = evs, tl_snapshot_ids = snapshot_ids snaps\<rparr>)"

definition root_cause_hints :: "drift_timeline \<Rightarrow> string \<Rightarrow> string \<Rightarrow> drift_event list" where
  "root_cause_hints tml failing_component failing_name =
     (let changes = changes_for tml failing_component failing_name in
      if changes \<noteq> [] then [last changes]
      else if tl_events tml \<noteq> [] then
        (let l = de_at_index (last (tl_events tml)) in
         take 3 (filter (\<lambda>e. de_at_index e = l \<and> de_component e = ''tool'') (tl_events tml)))
      else [])"

section \<open>The monitor\<close>

text \<open>
  A directory entry the glob matched: its name, whether it is a regular file and its
  modification time. Times are whole seconds, and the interval is a whole number of hours;
  \<open>None\<close> is the directory that could not be read. The hours a decision reports are given in
  seconds.
\<close>

record dir_entry =
  dir_name :: string
  dir_is_file :: bool
  dir_mtime :: int

datatype monitor_reason = Unreadable | Never_Stored | Clock_Moved_Back | Interval_Passed | Inside_Interval

record monitor_decision =
  md_snapshot :: bool
  md_reason :: monitor_reason
  md_seconds_since_last :: "int option"

definition DEFAULT_INTERVAL_HOURS :: int where
  "DEFAULT_INTERVAL_HOURS = 24"

definition should_snapshot :: "dir_entry list option \<Rightarrow> int \<Rightarrow> int \<Rightarrow> string \<Rightarrow> monitor_decision" where
  "should_snapshot entries interval_hours now ext =
     (case entries of
        None \<Rightarrow> \<lparr>md_snapshot = False, md_reason = Unreadable, md_seconds_since_last = None\<rparr>
      | Some es \<Rightarrow>
          (let stamps = map dir_mtime (filter (\<lambda>e. ends_with (dir_name e) ext \<and> dir_is_file e
                              \<and> dir_name e \<noteq> ''chain.jsonl'') es) in
           if stamps = [] then \<lparr>md_snapshot = True, md_reason = Never_Stored, md_seconds_since_last = None\<rparr>
           else (let age = now - Max (set stamps) in
                 if age < 0 then
                   \<lparr>md_snapshot = True, md_reason = Clock_Moved_Back, md_seconds_since_last = Some age\<rparr>
                 else if age \<ge> 3600 * interval_hours then
                   \<lparr>md_snapshot = True, md_reason = Interval_Passed, md_seconds_since_last = Some age\<rparr>
                 else \<lparr>md_snapshot = False, md_reason = Inside_Interval, md_seconds_since_last = Some age\<rparr>)))"

section \<open>Replaying a timeline\<close>

definition apply_event :: "drift_event \<Rightarrow> (string \<rightharpoonup> string) \<Rightarrow> (string \<rightharpoonup> string)" where
  "apply_event e m = m(de_name e := de_after e)"

definition replay :: "string \<Rightarrow> drift_event list \<Rightarrow> (string \<rightharpoonup> string)" where
  "replay component evs = fold apply_event (filter (\<lambda>e. de_component e = component) evs) Map.empty"

lemma set_either_names [simp]: "set (either_names prev cur) = dom (map_of prev) \<union> dom (map_of cur)"
  by (auto simp: either_names_def dom_map_of_conv_image_fst)

lemma tool_event_iff:
  "e \<in> set (tool_event i prev cur name) \<longleftrightarrow>
     de_at_index e = i \<and> de_component e = ''tool'' \<and> de_name e = name \<and>
     de_before e = map_of prev name \<and> de_after e = map_of cur name \<and> map_of prev name \<noteq> map_of cur name \<and>
     e = hd (tool_event i prev cur name)"
  by (auto simp: tool_event_def split: option.splits if_splits)

lemma fold_tool_event:
  "fold apply_event (tool_event i prev cur n) m = (if map_of prev n \<noteq> map_of cur n then m(n := map_of cur n) else m)"
  by (auto simp: tool_event_def apply_event_def split: option.splits)

lemma fold_container_event:
  "fold apply_event (container_event i prev cur n) m = (if map_of prev n \<noteq> map_of cur n then m(n := map_of cur n) else m)"
  by (auto simp: container_event_def apply_event_def Let_def)

lemma fold_events:
  assumes "\<And>n m. fold apply_event (ev n) m = (if map_of prev n \<noteq> map_of cur n then m(n := map_of cur n) else m)"
  shows "fold apply_event (concat (map ev ns)) m n =
    (if n \<in> set ns \<and> map_of prev n \<noteq> map_of cur n then map_of cur n else m n)"
  by (induction ns arbitrary: m) (auto simp: assms)

lemma replay_step:
  "fold apply_event (tool_events i prev cur) (map_of prev) = map_of cur"
  "fold apply_event (container_events i prev cur) (map_of prev) = map_of cur"
  by (auto simp: fun_eq_iff tool_events_def container_events_def dom_def
      fold_events [OF fold_tool_event] fold_events [OF fold_container_event])

lemma components_of_events:
  "filter (\<lambda>e. de_component e = ''tool'') (tool_events i prev cur) = tool_events i prev cur"
  "filter (\<lambda>e. de_component e = ''tool'') (container_events i prev cur) = []"
  "filter (\<lambda>e. de_component e = ''container'') (tool_events i prev cur) = []"
  "filter (\<lambda>e. de_component e = ''container'') (container_events i prev cur) = container_events i prev cur"
  by (auto simp: filter_id_conv filter_empty_conv tool_events_def container_events_def tool_event_def
      container_event_def Let_def split: option.splits if_splits)

lemma index_of_events:
  "e \<in> set (tool_events i prev cur) \<Longrightarrow> de_at_index e = i"
  "e \<in> set (container_events i prev cur) \<Longrightarrow> de_at_index e = i"
  by (auto simp: tool_events_def container_events_def tool_event_def container_event_def Let_def
      split: option.splits if_splits)

lemma index_of_timeline:
  "timeline_from k pt pc snaps = Inr evs \<Longrightarrow> e \<in> set evs \<Longrightarrow> k \<le> de_at_index e"
proof (induction snaps arbitrary: k pt pc evs)
  case (Cons s snaps)
  then show ?case by (fastforce simp: result_simps Let_def dest: index_of_events)
qed simp

lemma replay_from:
  "timeline_from k pt pc snaps = Inr evs \<Longrightarrow> i < length snaps \<Longrightarrow>
     \<exists>t. tool_map (snaps ! i) = Inr t \<and>
       fold apply_event (filter (\<lambda>e. de_component e = ''tool'') (filter (\<lambda>e. de_at_index e \<le> k + i) evs)) (map_of pt) = map_of t \<and>
       fold apply_event (filter (\<lambda>e. de_component e = ''container'') (filter (\<lambda>e. de_at_index e \<le> k + i) evs)) (map_of pc) =
         map_of (container_map (snaps ! i))"
proof (induction snaps arbitrary: k pt pc evs i)
  case (Cons s snaps)
  obtain t later where t: "tool_map s = Inr t" and later: "timeline_from (Suc k) t (container_map s) snaps = Inr later"
    and evs: "evs = tool_events k pt t @ container_events k pc (container_map s) @ later"
    using Cons.prems(1) by (auto simp: result_simps Let_def)
  have here: "filter (\<lambda>e. de_at_index e \<le> k + i) (tool_events k pt t) = tool_events k pt t"
      "filter (\<lambda>e. de_at_index e \<le> k + i) (container_events k pc (container_map s)) = container_events k pc (container_map s)"
    using index_of_events by (fastforce simp: filter_id_conv)+
  show ?case
  proof (cases i)
    case 0
    have "filter (\<lambda>e. de_at_index e \<le> k + i) later = []"
      using index_of_timeline [OF later] 0 by (fastforce simp: filter_empty_conv)
    then show ?thesis
      using 0 t here by (simp add: evs components_of_events replay_step)
  next
    case (Suc j)
    then have "Suc k + j = k + i" "j < length snaps" using Cons.prems(2) by simp_all
    then show ?thesis
      using Cons.IH [OF later, of j] here Suc by (simp add: evs components_of_events replay_step)
  qed
qed simp

lemma event_is_change:
  "timeline_from k pt pc snaps = Inr evs \<Longrightarrow> e \<in> set evs \<Longrightarrow>
     de_before e \<noteq> de_after e \<and> de_at_index e < k + length snaps \<and> de_component e \<in> {''tool'', ''container''}"
proof (induction snaps arbitrary: k pt pc evs)
  case (Cons s snaps)
  then show ?case
    by (fastforce simp: result_simps Let_def tool_events_def container_events_def tool_event_def
        container_event_def split: option.splits if_splits)
qed simp

text \<open>
  C23: A drift timeline loses nothing and invents nothing: replaying its events up to any
  snapshot rebuilds that snapshot's tools and container states exactly, every event changes the
  value it names, and every event belongs to a snapshot of the series.
\<close>

theorem timeline_replays_snapshots:
  assumes "build_timeline snaps = Inr tml" "i < length snaps"
  shows "(\<exists>t. tool_map (snaps ! i) = Inr t \<and>
            replay ''tool'' (filter (\<lambda>e. de_at_index e \<le> i) (tl_events tml)) = map_of t) \<and>
         replay ''container'' (filter (\<lambda>e. de_at_index e \<le> i) (tl_events tml)) =
            map_of (container_map (snaps ! i)) \<and>
         list_all (\<lambda>e. de_before e \<noteq> de_after e \<and> de_at_index e < length snaps) (tl_events tml)"
proof -
  have t: "timeline_from 0 [] [] snaps = Inr (tl_events tml)"
    using assms(1) by (auto simp: build_timeline_def result_simps)
  show ?thesis
    using replay_from [OF t assms(2)] event_is_change [OF t] by (auto simp: replay_def list_all_iff)
qed

definition demo_readout :: "string \<Rightarrow> snapshot_dict" where
  "demo_readout node =
     [(''snapshot_id'', JStr ''s''),
      (''tools'', JList [JObj [(''name'', JStr ''node''), (''version'', JStr node)], JStr ''noise'',
                        JObj [(''name'', JStr ''git''), (''version'', JNull)]]),
      (''containers'', JObj [(''docker_daemon_ok'', JBool True)])]"

definition demo_timeline :: "drift_timeline py" where
  "demo_timeline = build_timeline [demo_readout ''18.0.0'', demo_readout ''18.0.0'', demo_readout ''20.0.0'']"

lemma timeline_replays_snapshots_witness:
  "\<exists>tml. demo_timeline = Inr tml \<and> length (tl_events tml) = 6 \<and>
     replay ''tool'' (filter (\<lambda>e. de_at_index e \<le> 2) (tl_events tml)) ''node'' = Some ''20.0.0''"
proof -
  have len: "(case demo_timeline of Inr tml \<Rightarrow> length (tl_events tml) | _ \<Rightarrow> 0) = 6" by code_simp
  then obtain tml where t: "demo_timeline = Inr tml" "length (tl_events tml) = 6"
    by (auto split: sum.splits)
  have "(case tool_map (demo_readout ''20.0.0'') of Inr t \<Rightarrow> map_of t ''node'' = Some ''20.0.0'' | _ \<Rightarrow> False)"
    by code_simp
  with timeline_replays_snapshots [OF t(1) [unfolded demo_timeline_def], of 2] t
  show ?thesis by (auto simp: numeral_2_eq_2)
qed

section \<open>Suspects\<close>

text \<open>The version of a tool before snapshot \<open>i\<close> of the series, absent before the first.\<close>

definition version_before :: "snapshot_dict list \<Rightarrow> string \<Rightarrow> nat \<Rightarrow> string option" where
  "version_before snaps n i =
     (if i = 0 then None else (case tool_map (snaps ! (i - 1)) of Inr t \<Rightarrow> map_of t n | Inl e \<Rightarrow> None))"

lemma filter_concat_unique:
  assumes "distinct ns" and "\<And>m. filter P (f m) = (if m = n then f m else [])"
  shows "filter P (concat (map f ns)) = (if n \<in> set ns then f n else [])"
  using assms(1) by (induction ns) (auto simp: assms(2))

lemma tool_events_for:
  "filter (\<lambda>e. de_component e = ''tool'' \<and> de_name e = n) (tool_events i prev cur) = tool_event i prev cur n"
proof -
  have "filter (\<lambda>e. de_component e = ''tool'' \<and> de_name e = n) (tool_event i prev cur m) =
      (if m = n then tool_event i prev cur m else [])" for m
    by (auto simp: tool_event_def split: option.split)
  then have "filter (\<lambda>e. de_component e = ''tool'' \<and> de_name e = n) (tool_events i prev cur) =
      (if n \<in> set (either_names prev cur) then tool_event i prev cur n else [])"
    unfolding tool_events_def by (intro filter_concat_unique) (simp_all add: either_names_def)
  then show ?thesis by (auto simp: tool_event_def dom_def split: option.split)
qed

lemma container_events_for:
  "filter (\<lambda>e. de_component e = ''tool'' \<and> de_name e = n) (container_events i prev cur) = []"
  by (auto simp: filter_empty_conv container_events_def container_event_def Let_def split: if_splits)

lemma changes_from:
  "timeline_from k pt pc snaps = Inr evs \<Longrightarrow>
     map (\<lambda>e. (de_at_index e, de_before e, de_after e)) (filter (\<lambda>e. de_component e = ''tool'' \<and> de_name e = n) evs) =
     map (\<lambda>i. (k + i, (if i = 0 then map_of pt n else version_before snaps n i), version_before snaps n (Suc i)))
       (filter (\<lambda>i. (if i = 0 then map_of pt n else version_before snaps n i) \<noteq> version_before snaps n (Suc i))
         [0..<length snaps])"
proof (induction snaps arbitrary: k pt pc evs)
  case (Cons s snaps)
  obtain t later where t: "tool_map s = Inr t" and later: "timeline_from (Suc k) t (container_map s) snaps = Inr later"
    and evs: "evs = tool_events k pt t @ container_events k pc (container_map s) @ later"
    using Cons.prems(1) by (auto simp: result_simps Let_def)
  have vb: "version_before (s # snaps) n (Suc i) = (if i = 0 then map_of t n else version_before snaps n i)" for i
    by (auto simp: version_before_def t nth_Cons split: nat.split)
  have upt: "[0..<length (s # snaps)] = 0 # map Suc [0..<length snaps]"
    by (simp add: map_Suc_upt upt_conv_Cons del: upt_Suc)
  have one: "map (\<lambda>e. (de_at_index e, de_before e, de_after e)) (tool_event k pt t n) =
      (if map_of pt n \<noteq> map_of t n then [(k, map_of pt n, map_of t n)] else [])"
    by (auto simp: tool_event_def split: option.split)
  show ?case
    unfolding upt evs
    by (simp add: tool_events_for container_events_for one Cons.IH [OF later] vb filter_map comp_def)
qed simp

lemma last_filter_upt:
  assumes "i < n" "P i" "\<And>j. i < j \<Longrightarrow> j < n \<Longrightarrow> \<not> P j"
  shows "filter P [0..<n] \<noteq> [] \<and> last (filter P [0..<n]) = i"
  using assms
proof (induction n)
  case (Suc n)
  show ?case
  proof (cases "i = n")
    case False
    with Suc show ?thesis by auto
  qed (use Suc.prems in simp)
qed simp

lemma hint_from:
  assumes b: "build_timeline snaps = Inr tml" and "i < length snaps"
    and "version_before snaps n i \<noteq> version_before snaps n (Suc i)"
    and "\<And>j. i < j \<Longrightarrow> j < length snaps \<Longrightarrow> version_before snaps n j = version_before snaps n (Suc j)"
  shows "\<exists>e. root_cause_hints tml ''tool'' n = [e] \<and> e \<in> set (tl_events tml) \<and> de_component e = ''tool'' \<and>
           de_name e = n \<and> de_at_index e = i \<and>
           de_before e = version_before snaps n i \<and> de_after e = version_before snaps n (Suc i)"
proof -
  let ?P = "\<lambda>i. version_before snaps n i \<noteq> version_before snaps n (Suc i)"
  let ?f = "\<lambda>e. (de_at_index e, de_before e, de_after e)"
  let ?cs = "changes_for tml ''tool'' n"
  have t: "timeline_from 0 [] [] snaps = Inr (tl_events tml)"
    using b by (auto simp: build_timeline_def result_simps)
  have z: "(if i = 0 then map_of [] n else version_before snaps n i) = version_before snaps n i" for i
    by (simp add: version_before_def)
  have cs: "map ?f ?cs = map (\<lambda>i. (i, version_before snaps n i, version_before snaps n (Suc i)))
      (filter ?P [0..<length snaps])"
    using changes_from [OF t, of n] unfolding z by (simp add: changes_for_def)
  have l: "filter ?P [0..<length snaps] \<noteq> [] \<and> last (filter ?P [0..<length snaps]) = i"
    by (rule last_filter_upt) (use assms in auto)
  then have ne: "?cs \<noteq> []" using cs by force
  have "?f (last ?cs) = (i, version_before snaps n i, version_before snaps n (Suc i))"
    using l ne by (metis (no_types, lifting) cs last_map)
  moreover have "last ?cs \<in> set ?cs" using ne by simp
  ultimately show ?thesis using ne by (auto simp: root_cause_hints_def changes_for_def Let_def)
qed

text \<open>
  The hint for a tool is its last change: when the tool's version differs between the
  snapshots around transition \<open>i\<close> and never again later, the single suspect is the event of that
  transition, with the two versions.
\<close>

theorem hint_is_last_change:
  assumes "build_timeline snaps = Inr tml" and "i < length snaps"
    and "version_before snaps n i \<noteq> version_before snaps n (Suc i)"
    and "\<And>j. i < j \<Longrightarrow> j < length snaps \<Longrightarrow> version_before snaps n j = version_before snaps n (Suc j)"
  shows "\<exists>e. root_cause_hints tml ''tool'' n = [e] \<and> e \<in> set (tl_events tml) \<and> de_component e = ''tool'' \<and>
           de_name e = n \<and> de_at_index e = i \<and>
           de_before e = version_before snaps n i \<and> de_after e = version_before snaps n (Suc i)"
  using hint_from [OF assms] .

lemma hint_is_last_change_witness:
  "\<exists>tml e. demo_timeline = Inr tml \<and> root_cause_hints tml ''tool'' ''node'' = [e] \<and> de_at_index e = 2 \<and>
     de_before e = Some ''18.0.0'' \<and> de_after e = Some ''20.0.0''"
proof -
  let ?snaps = "[demo_readout ''18.0.0'', demo_readout ''18.0.0'', demo_readout ''20.0.0'']"
  have "(case demo_timeline of Inr tml \<Rightarrow> True | _ \<Rightarrow> False)" by code_simp
  then obtain tml where t: "build_timeline ?snaps = Inr tml" "demo_timeline = Inr tml"
    by (auto simp: demo_timeline_def split: sum.splits)
  have v: "version_before ?snaps ''node'' 2 = Some ''18.0.0''" "version_before ?snaps ''node'' (Suc 2) = Some ''20.0.0''"
    by code_simp+
  have "\<exists>e. root_cause_hints tml ''tool'' ''node'' = [e] \<and> e \<in> set (tl_events tml) \<and> de_component e = ''tool'' \<and>
           de_name e = ''node'' \<and> de_at_index e = 2 \<and>
           de_before e = version_before ?snaps ''node'' 2 \<and> de_after e = version_before ?snaps ''node'' (Suc 2)"
    by (rule hint_is_last_change [OF t(1)]) (use v in simp_all)
  with t v show ?thesis by auto
qed

text \<open>
  A tool that never changed is a suspect all the same: the first snapshot is compared with
  nothing, so every tool it lists is \<open>added\<close> at transition 0, and for a tool with the same
  version in every snapshot that event is the hint.
\<close>

theorem unchanged_tool_is_suspected:
  assumes "build_timeline snaps = Inr tml" "snaps \<noteq> []"
    and "\<And>s. s \<in> set snaps \<Longrightarrow> \<exists>t. tool_map s = Inr t \<and> map_of t n = Some v"
  shows "\<exists>e. root_cause_hints tml ''tool'' n = [e] \<and> de_at_index e = 0 \<and> de_before e = None \<and> de_after e = Some v"
proof -
  have vb: "version_before snaps n (Suc j) = Some v" if "j < length snaps" for j
    using assms(3) [of "snaps ! j"] that by (auto simp: version_before_def)
  have v: "version_before snaps n 0 = None" by (simp add: version_before_def)
  have "version_before snaps n j = version_before snaps n (Suc j)" if "0 < j" "j < length snaps" for j
    using vb [of j] vb [of "j - 1"] that by simp
  with hint_from [OF assms(1), of 0 n] assms(2) vb [of 0] v show ?thesis by auto
qed

lemma unchanged_tool_is_suspected_witness:
  "\<exists>tml e. build_timeline [demo_readout ''18.0.0'', demo_readout ''18.0.0''] = Inr tml \<and>
     root_cause_hints tml ''tool'' ''node'' = [e] \<and> de_at_index e = 0 \<and> de_after e = Some ''18.0.0''"
proof -
  let ?snaps = "[demo_readout ''18.0.0'', demo_readout ''18.0.0'']"
  have "(case build_timeline ?snaps of Inr tml \<Rightarrow> True | _ \<Rightarrow> False)" by code_simp
  then obtain tml where t: "build_timeline ?snaps = Inr tml" by (auto split: sum.splits)
  have m: "(case tool_map (demo_readout ''18.0.0'') of Inr t \<Rightarrow> map_of t ''node'' = Some ''18.0.0'' | _ \<Rightarrow> False)"
    by code_simp
  have "\<exists>e. root_cause_hints tml ''tool'' ''node'' = [e] \<and> de_at_index e = 0 \<and> de_before e = None \<and>
      de_after e = Some ''18.0.0''"
    by (rule unchanged_tool_is_suspected [OF t]) (use m in \<open>auto split: sum.splits\<close>)
  with t show ?thesis by auto
qed

section \<open>When a snapshot is due\<close>

text \<open>
  The monitor never falls silent: once the directory can be read, it declines a snapshot
  only when some stored snapshot is no older than the interval and none is dated in the
  future, and the chain file never counts as a snapshot.
\<close>

theorem monitor_declines_iff:
  "\<not> md_snapshot (should_snapshot (Some es) hours now ext) \<longleftrightarrow>
     (let stored = filter (\<lambda>e. ends_with (dir_name e) ext \<and> dir_is_file e \<and> dir_name e \<noteq> ''chain.jsonl'') es in
      (\<exists>e \<in> set stored. now - dir_mtime e < 3600 * hours) \<and> (\<forall>e \<in> set stored. dir_mtime e \<le> now))"
proof -
  let ?stored = "filter (\<lambda>e. ends_with (dir_name e) ext \<and> dir_is_file e \<and> dir_name e \<noteq> ''chain.jsonl'') es"
  show ?thesis
  proof (cases "?stored = []")
    case False
    let ?M = "Max (set (map dir_mtime ?stored))"
    have "?M \<in> set (map dir_mtime ?stored)"
    proof (rule Max_in)
      show "set (map dir_mtime ?stored) \<noteq> {}" using False by (simp only: set_map image_is_empty set_empty not_False_eq_True)
    qed simp
    then obtain e where e: "e \<in> set ?stored" "dir_mtime e = ?M" by (metis (no_types, lifting) imageE set_map)
    have le: "dir_mtime x \<le> ?M" if "x \<in> set ?stored" for x using that by (intro Max_ge) auto
    have "\<not> md_snapshot (should_snapshot (Some es) hours now ext) \<longleftrightarrow> 0 \<le> now - ?M \<and> now - ?M < 3600 * hours"
      using False by (auto simp: should_snapshot_def Let_def)
    also have "\<dots> \<longleftrightarrow> (\<exists>e \<in> set ?stored. now - dir_mtime e < 3600 * hours) \<and> (\<forall>e \<in> set ?stored. dir_mtime e \<le> now)"
      using e le by (smt (verit, best))
    finally show ?thesis by (simp add: Let_def)
  next
    case True
    then show ?thesis by (auto simp: should_snapshot_def Let_def)
  qed
qed

lemma monitor_declines_iff_witness:
  "\<not> md_snapshot (should_snapshot (Some [\<lparr>dir_name = ''a.json'', dir_is_file = True, dir_mtime = 1000\<rparr>])
     DEFAULT_INTERVAL_HOURS 4600 ''.json'')"
proof -
  have "(let stored = filter (\<lambda>e. ends_with (dir_name e) ''.json'' \<and> dir_is_file e \<and> dir_name e \<noteq> ''chain.jsonl'')
          [\<lparr>dir_name = ''a.json'', dir_is_file = True, dir_mtime = 1000\<rparr>] in
      (\<exists>e \<in> set stored. 4600 - dir_mtime e < 3600 * DEFAULT_INTERVAL_HOURS) \<and> (\<forall>e \<in> set stored. dir_mtime e \<le> 4600))"
    by code_simp
  then show ?thesis
    using monitor_declines_iff [of "[\<lparr>dir_name = ''a.json'', dir_is_file = True, dir_mtime = 1000\<rparr>]"
        DEFAULT_INTERVAL_HOURS 4600 "''.json''"] by simp
qed

end
