(* ===== verification/Json_Layout.thy ===== *)
theory Json_Layout
  imports Json
begin

text \<open>
  \<open>json.dumps\<close> with the white space of a layout, of which \<open>indent=2\<close> and the default
  separators are instances, and the round trip for every layout.
\<close>

record json_layout =
  after_open :: "nat \<Rightarrow> string"
  after_comma :: "nat \<Rightarrow> string"
  before_close :: "nat \<Rightarrow> string"
  after_colon :: string

fun dump_layout :: "json_layout \<Rightarrow> nat \<Rightarrow> json \<Rightarrow> string" where
  "dump_layout l n (JList vs) =
     (if vs = [] then ''[]''
      else ''['' @ after_open l (Suc n) @ join ('','' @ after_comma l (Suc n)) (map (dump_layout l (Suc n)) vs) @
           before_close l n @ '']'')"
| "dump_layout l n (JObj kvs) =
     (if kvs = [] then ''{}''
      else ''{'' @ after_open l (Suc n) @
           join ('','' @ after_comma l (Suc n))
             (map (\<lambda>(k, v). dump_string k @ '':'' @ after_colon l @ dump_layout l (Suc n) v) kvs) @
           before_close l n @ ''}'')"
| "dump_layout l n j = dump_json j"

definition new_line :: "nat \<Rightarrow> string" where
  "new_line n = CHR 0x0A # replicate (2 * n) CHR '' ''"

text \<open>\<open>json.dumps(value, indent=2)\<close>.\<close>

definition indented :: json_layout where
  "indented = \<lparr>after_open = new_line, after_comma = new_line, before_close = new_line, after_colon = '' ''\<rparr>"

definition dump_indent :: "json \<Rightarrow> string" where
  "dump_indent j = dump_layout indented 0 j"

definition layout_ok :: "json_layout \<Rightarrow> bool" where
  "layout_ok l \<longleftrightarrow>
     (\<forall>n. list_all json_space (after_open l n) \<and> list_all json_space (after_comma l n) \<and>
          list_all json_space (before_close l n)) \<and> list_all json_space (after_colon l)"

lemma skip_space_append: "list_all json_space w \<Longrightarrow> skip_space (w @ s) = skip_space s"
  unfolding skip_space_def by (induction w) auto

lemma load_value_space: "list_all json_space w \<Longrightarrow> load_value n (w @ s) = load_value n s"
  by (cases n) (simp_all add: skip_space_append)

lemma load_items_space: "list_all json_space w \<Longrightarrow> load_items n (w @ s) = load_items n s"
  by (cases n) (simp_all add: load_value_space)

lemma load_members_space: "list_all json_space w \<Longrightarrow> load_members n (w @ s) = load_members n s"
  by (cases n) (simp_all add: skip_space_append)

lemma dump_layout_head:
  "\<exists>c t. dump_layout l n j = c # t \<and> \<not> json_space c \<and> c \<noteq> CHR '']'' \<and> c \<noteq> CHR ''}''"
  using dump_json_head [of j] by (cases j) auto

lemma follows_space: "list_all json_space w \<Longrightarrow> follows s \<Longrightarrow> follows (w @ s)"
  by (cases w) (auto simp: follows_def)

lemma layout_spaces:
  assumes "layout_ok l"
  shows "list_all json_space (after_open l n)" "list_all json_space (after_comma l n)"
    "list_all json_space (before_close l n)" "list_all json_space (after_colon l)"
  using assms by (auto simp: layout_ok_def)

lemma load_items_layout:
  assumes "layout_ok l"
    and "\<And>v m rest. v \<in> set vs \<Longrightarrow> length (dump_layout l k v) < m \<Longrightarrow> follows rest \<Longrightarrow>
             load_value m (dump_layout l k v @ rest) = Some (v, rest)"
    and "vs \<noteq> []" and "length (join ('','' @ after_comma l k) (map (dump_layout l k) vs)) + 1 < n"
  shows "load_items n (join ('','' @ after_comma l k) (map (dump_layout l k) vs) @ before_close l j @ CHR '']'' # rest) = Some (vs, rest)"
  using assms(2-)
proof (induction vs arbitrary: n)
  case (Cons v vs)
  let ?join = "\<lambda>vs. join ('','' @ after_comma l k) (map (dump_layout l k) vs)"
  obtain m where n: "n = Suc m" using Cons.prems(3) by (cases n) auto
  have len: "length (dump_layout l k v) < m" using Cons.prems(3) by (auto simp: join_Cons n)
  show ?case
  proof (cases "vs = []")
    case True
    have "follows (before_close l j @ CHR '']'' # rest)"
      by (rule follows_space [OF layout_spaces(3) [OF assms(1)]]) (simp add: follows_def)
    then have "load_value m (dump_layout l k v @ before_close l j @ CHR '']'' # rest) = Some (v, before_close l j @ CHR '']'' # rest)"
      using Cons.prems(1) len by simp
    then show ?thesis
      using True by (simp add: n skip_space_append [OF layout_spaces(3) [OF assms(1)]])
  next
    case False
    obtain c t where "dump_layout l k v = c # t" using dump_layout_head by blast
    then have "length (?join vs) + 1 < m" using Cons.prems(3) False by (simp add: join_Cons n)
    then have "load_items m (?join vs @ before_close l j @ CHR '']'' # rest) = Some (vs, rest)"
      using Cons.IH Cons.prems(1) False by simp
    then have "load_items m (after_comma l k @ ?join vs @ before_close l j @ CHR '']'' # rest) = Some (vs, rest)"
      by (simp add: load_items_space [OF layout_spaces(2) [OF assms(1)]])
    then show ?thesis
      using Cons.prems(1) [of v m "CHR '','' # after_comma l k @ ?join vs @ before_close l j @ CHR '']'' # rest"] len False
      by (simp add: n follows_def join_Cons)
  qed
qed simp

abbreviation layout_member :: "json_layout \<Rightarrow> nat \<Rightarrow> string \<times> json \<Rightarrow> string" where
  "layout_member l k \<equiv> (\<lambda>(key, v). dump_string key @ '':'' @ after_colon l @ dump_layout l k v)"

lemma load_members_layout:
  assumes "layout_ok l"
    and "\<And>key v m rest. (key, v) \<in> set kvs \<Longrightarrow> length (dump_layout l k v) < m \<Longrightarrow> follows rest \<Longrightarrow>
             load_value m (dump_layout l k v @ rest) = Some (v, rest)"
    and "kvs \<noteq> []" and "length (join ('','' @ after_comma l k) (map (layout_member l k) kvs)) + 1 < n"
  shows "load_members n (join ('','' @ after_comma l k) (map (layout_member l k) kvs) @ before_close l j @ CHR ''}'' # rest) = Some (kvs, rest)"
  using assms(2-)
proof (induction kvs arbitrary: n)
  case (Cons kv kvs)
  let ?join = "\<lambda>kvs. join ('','' @ after_comma l k) (map (layout_member l k) kvs)"
  obtain key v where kv: "kv = (key, v)" by force
  obtain m where n: "n = Suc m" using Cons.prems(3) by (cases n) auto
  have len: "length (dump_layout l k v) < m" using Cons.prems(3) by (auto simp: join_Cons n kv split: if_splits)
  note value_space = load_value_space [OF layout_spaces(4) [OF assms(1)]]
  show ?case
  proof (cases "kvs = []")
    case True
    have "follows (before_close l j @ CHR ''}'' # rest)"
      by (rule follows_space [OF layout_spaces(3) [OF assms(1)]]) (simp add: follows_def)
    then have "load_value m (dump_layout l k v @ before_close l j @ CHR ''}'' # rest) = Some (v, before_close l j @ CHR ''}'' # rest)"
      using Cons.prems(1) [of key v] len by (simp add: kv)
    then show ?thesis
      using True by (simp add: n kv dump_string_def load_string_dump value_space
          skip_space_append [OF layout_spaces(3) [OF assms(1)]])
  next
    case False
    have "length (?join kvs) + 1 < m"
      using Cons.prems(3) False by (simp add: join_Cons n kv dump_string_def)
    then have "load_members m (?join kvs @ before_close l j @ CHR ''}'' # rest) = Some (kvs, rest)"
      by (intro Cons.IH [OF Cons.prems(1)] False) auto
    then have "load_members m (after_comma l k @ ?join kvs @ before_close l j @ CHR ''}'' # rest) = Some (kvs, rest)"
      by (simp add: load_members_space [OF layout_spaces(2) [OF assms(1)]])
    then show ?thesis
      using Cons.prems(1) [of key v m "CHR '','' # after_comma l k @ ?join kvs @ before_close l j @ CHR ''}'' # rest"] len False
      by (simp add: n kv follows_def join_Cons dump_string_def load_string_dump value_space)
  qed
qed simp

lemma load_value_layout:
  assumes "layout_ok l"
  shows "length (dump_layout l k j) < n \<Longrightarrow> follows rest \<Longrightarrow> wf_json j \<Longrightarrow>
     load_value n (dump_layout l k j @ rest) = Some (j, rest)"
proof (induction j arbitrary: k n rest)
  case (JList vs)
  obtain m where n: "n = Suc m" using JList.prems(1) by (cases n) auto
  let ?text = "join ('','' @ after_comma l (Suc k)) (map (dump_layout l (Suc k)) vs)"
  show ?case
  proof (cases "vs = []")
    case False
    then obtain c t where ct: "?text = c # t" "\<not> json_space c" "c \<noteq> CHR '']''"
      using dump_layout_head [of l "Suc k" "hd vs"] by (cases vs) (auto simp: join_Cons)
    have "load_items m (?text @ before_close l k @ CHR '']'' # rest) = Some (vs, rest)"
      using JList False by (intro load_items_layout [OF assms]) (auto simp: n list_all_iff)
    then have "load_items m (after_open l (Suc k) @ ?text @ before_close l k @ CHR '']'' # rest) = Some (vs, rest)"
      by (simp add: load_items_space [OF layout_spaces(1) [OF assms]])
    moreover have "skip_space (after_open l (Suc k) @ ?text @ before_close l k @ CHR '']'' # rest) =
        c # t @ before_close l k @ CHR '']'' # rest"
      using ct by (simp add: skip_space_append [OF layout_spaces(1) [OF assms]])
    ultimately show ?thesis using False ct(3) by (simp add: n)
  qed (simp add: n)
next
  case (JObj kvs)
  obtain m where n: "n = Suc m" using JObj.prems(1) by (cases n) auto
  let ?text = "join ('','' @ after_comma l (Suc k)) (map (layout_member l (Suc k)) kvs)"
  show ?case
  proof (cases "kvs = []")
    case False
    then obtain t where t: "?text = CHR 0x22 # t"
      by (cases kvs) (auto simp: join_Cons dump_string_def)
    have "load_members m (?text @ before_close l k @ CHR ''}'' # rest) = Some (kvs, rest)"
    proof (rule load_members_layout [OF assms])
      fix key v n' rest'
      assume kv: "(key, v) \<in> set kvs" and *: "length (dump_layout l (Suc k) v) < n'" "follows rest'"
      have "wf_json v" using kv JObj.prems(3) by (auto simp: list_all_iff)
      with JObj.IH [OF kv _ *] show "load_value n' (dump_layout l (Suc k) v @ rest') = Some (v, rest')" by simp
    qed (use JObj.prems False in \<open>auto simp: n\<close>)
    then have "load_members m (after_open l (Suc k) @ ?text @ before_close l k @ CHR ''}'' # rest) = Some (kvs, rest)"
      by (simp add: load_members_space [OF layout_spaces(1) [OF assms]])
    moreover have "skip_space (after_open l (Suc k) @ ?text @ before_close l k @ CHR ''}'' # rest) =
        CHR 0x22 # t @ before_close l k @ CHR ''}'' # rest"
      using t by (simp add: skip_space_append [OF layout_spaces(1) [OF assms]])
    ultimately show ?thesis using JObj.prems(3) False by (simp add: n dict_of_distinct)
  qed (simp add: n)
next
  case (JInt i)
  then show ?case using load_value_int by (cases n) auto
next
  case (JStr s)
  then show ?case by (cases n) (auto simp: dump_string_def load_string_dump)
next
  case (JBool b)
  then show ?case by (cases n) auto
next
  case JNull
  then show ?case by (cases n) auto
qed

text \<open>White space behind the value, as the line end a file closes with, does not matter.\<close>

lemma loads_layout:
  assumes "layout_ok l" and "wf_json j" and "list_all json_space w"
  shows "loads (dump_layout l 0 j @ w) = Some j"
proof -
  have "follows w" using assms(3) by (cases w) (auto simp: follows_def)
  moreover have "skip_space w = []" using assms(3) by (auto simp: skip_space_def list_all_iff)
  ultimately show ?thesis
    using load_value_layout [OF assms(1) _ _ assms(2), of 0 "length (dump_layout l 0 j @ w) + 1" w]
    by (simp add: loads_def)
qed

lemma indented_ok: "layout_ok indented"
  by (simp add: layout_ok_def indented_def new_line_def json_space_def list_all_iff)

lemma loads_indent: "wf_json j \<Longrightarrow> loads (dump_indent j @ [CHR 0x0A]) = Some j" "wf_json j \<Longrightarrow> loads (dump_indent j) = Some j"
  using loads_layout [OF indented_ok, of j "[CHR 0x0A]"] loads_layout [OF indented_ok, of j "[]"]
  by (simp_all add: dump_indent_def json_space_def)

end
