(* ===== verification/Baseline.thy ===== *)
theory Baseline
  imports Json_Layout Version_Check
begin

text \<open>
  \<open>src/devrepro/snapshots/baseline.py\<close>: the approved expectation for a project, its dictionary
  and the reading of it, and the comparison of a machine with it. Hashing (\<open>sha256\<close>, in
  hexadecimal) is an argument; the file is its text. An element of \<open>required_env_names\<close> that is not a string is represented by its
  \<open>str\<close>.
\<close>

section \<open>Baselines\<close>

record baseline =
  bl_project_fingerprint :: string
  bl_created_at :: string
  bl_tools :: "(string \<times> string) list"
  bl_required_env_names :: "string list"
  bl_require_docker :: bool
  bl_max_path_duplicates :: int
  bl_notes :: string

datatype baseline_error = Unsupported_Schema string | Attribute_Error | Conversion py_exc

definition BASELINE_SCHEMA_VERSION :: string where
  "BASELINE_SCHEMA_VERSION = ''1.0''"

definition baseline_id :: "(string \<Rightarrow> string) \<Rightarrow> baseline \<Rightarrow> string" where
  "baseline_id sha256 b =
     take 16 (sha256 (dump_spaced (sort_keys (JObj
       [(''project'', JStr (bl_project_fingerprint b)),
        (''tools'', JObj (map (\<lambda>(k, v). (k, JStr v)) (bl_tools b))),
        (''env'', JList (map JStr (sort (bl_required_env_names b)))),
        (''docker'', JBool (bl_require_docker b))]))))"

definition baseline_dict :: "(string \<Rightarrow> string) \<Rightarrow> baseline \<Rightarrow> json" where
  "baseline_dict sha256 b = JObj
     [(''schema_version'', JStr BASELINE_SCHEMA_VERSION),
      (''baseline_id'', JStr (baseline_id sha256 b)),
      (''project_fingerprint'', JStr (bl_project_fingerprint b)),
      (''created_at'', JStr (bl_created_at b)),
      (''tools'', JObj (map (\<lambda>(k, v). (k, JStr v)) (bl_tools b))),
      (''required_env_names'', JList (map JStr (bl_required_env_names b))),
      (''require_docker'', JBool (bl_require_docker b)),
      (''max_path_duplicates'', JInt (bl_max_path_duplicates b)),
      (''notes'', JStr (bl_notes b))]"

text \<open>Lifting a Python conversion error into the errors of loading.\<close>

fun converted :: "'a py \<Rightarrow> baseline_error + 'a" where
  "converted (Inl e) = Inl (Conversion e)"
| "converted (Inr x) = Inr x"

definition items_of :: "json \<Rightarrow> baseline_error + (string \<times> json) list" where
  "items_of j =
     (if \<not> py_truth j then Inr []
      else (case j of JObj kvs \<Rightarrow> Inr kvs | _ \<Rightarrow> Inl Attribute_Error))"

definition baseline_of_json :: "json \<Rightarrow> baseline_error + baseline" where
  "baseline_of_json data =
     (case data of
        JObj d \<Rightarrow>
          (let ver = py_str (dict_get_or d ''schema_version'' (JStr ''1.0'')) in
           if \<not> starts_with ver ''1.'' then Inl (Unsupported_Schema ver)
           else
             bind_res (items_of (dict_get d ''tools'')) (\<lambda>items.
             let names = dict_get d ''required_env_names'' in
             bind_res (if py_truth names then converted (py_elements names) else Inr []) (\<lambda>env.
             bind_res (converted (py_int (dict_get_or d ''max_path_duplicates'' (JInt 0)))) (\<lambda>dups.
               Inr \<lparr>bl_project_fingerprint = py_str (dict_get_or d ''project_fingerprint'' (JStr [])),
                    bl_created_at = py_str (dict_get_or d ''created_at'' (JStr [])),
                    bl_tools = dict_of (map (\<lambda>(k, v). (k, py_str v)) items),
                    bl_required_env_names = map py_str env,
                    bl_require_docker = py_truth (dict_get_or d ''require_docker'' (JBool False)),
                    bl_max_path_duplicates = dups,
                    bl_notes = py_str (dict_get_or d ''notes'' (JStr []))\<rparr>))))
      | _ \<Rightarrow> Inl Attribute_Error)"

text \<open>The text of the file, and reading it; a text that is not JSON is a \<open>ValueError\<close>.\<close>

definition save_baseline :: "(string \<Rightarrow> string) \<Rightarrow> baseline \<Rightarrow> string" where
  "save_baseline sha256 b = dump_indent (baseline_dict sha256 b) @ [CHR 0x0A]"

definition load_baseline :: "string \<Rightarrow> baseline_error + baseline" where
  "load_baseline text =
     (case loads text of None \<Rightarrow> Inl (Conversion ValueError) | Some data \<Rightarrow> baseline_of_json data)"

definition new_baseline ::
  "string \<Rightarrow> string \<Rightarrow> (string \<times> string) list \<Rightarrow> string list \<Rightarrow> bool \<Rightarrow> string \<Rightarrow> baseline" where
  "new_baseline now fingerprint tools env docker notes =
     \<lparr>bl_project_fingerprint = fingerprint, bl_created_at = now, bl_tools = tools,
       bl_required_env_names = env, bl_require_docker = docker, bl_max_path_duplicates = 0,
       bl_notes = notes\<rparr>"

section \<open>The comparison\<close>

record baseline_diff_entry =
  be_component :: string
  be_name :: string
  be_severity :: string
  be_project_impact :: string
  be_expected :: string
  be_actual :: string

record baseline_diff =
  bd_baseline_id :: string
  bd_entries :: "baseline_diff_entry list"

definition blockers :: "baseline_diff \<Rightarrow> baseline_diff_entry list" where
  "blockers d = filter (\<lambda>e. be_severity e = ''blocker'') (bd_entries d)"

definition warnings :: "baseline_diff \<Rightarrow> baseline_diff_entry list" where
  "warnings d = filter (\<lambda>e. be_severity e = ''warn'') (bd_entries d)"

definition bl_entry :: "string \<Rightarrow> string \<Rightarrow> string \<Rightarrow> string \<Rightarrow> string \<Rightarrow> string \<Rightarrow> baseline_diff_entry" where
  "bl_entry component name severity impact expected actual =
     \<lparr>be_component = component, be_name = name, be_severity = severity, be_project_impact = impact,
       be_expected = expected, be_actual = actual\<rparr>"

text \<open>The check of one version: what cannot be parsed is compared as text.\<close>

definition baseline_tool_ok :: "string \<Rightarrow> string \<Rightarrow> bool" where
  "baseline_tool_ok spec actual =
     (case bind_res (parse_spec spec) (\<lambda>s. bind_res (parse_version actual) (\<lambda>v. Inr (spec_satisfied s v))) of
        Inr ok \<Rightarrow> ok
      | Inl e \<Rightarrow> actual = spec)"

definition baseline_tool_entry :: "(string \<times> string) list \<Rightarrow> string \<times> string \<Rightarrow> baseline_diff_entry" where
  "baseline_tool_entry machine_tools = (\<lambda>(tool, spec).
     case map_of machine_tools tool of
       None \<Rightarrow> bl_entry ''tool'' tool ''blocker''
                 (''project requires '' @ tool @ '' '' @ spec @ ''; not found on this machine'') spec ''absent''
     | Some actual \<Rightarrow>
         (let ok = baseline_tool_ok spec actual in
          bl_entry ''tool'' tool (if ok then ''ok'' else ''blocker'')
            (if ok then tool @ '' '' @ actual @ '' satisfies '' @ spec
             else tool @ '' '' @ actual @ '' does not satisfy required '' @ spec)
            spec actual))"

definition baseline_env_entry :: "string list \<Rightarrow> string \<Rightarrow> baseline_diff_entry" where
  "baseline_env_entry machine_env name =
     (let present = name \<in> set machine_env in
      bl_entry ''env'' name (if present then ''ok'' else ''blocker'')
        (if present then ''required env var '' @ name @ '' is declared''
         else ''required env var '' @ name @ '' is missing (value never inspected)'')
        ''declared'' (if present then ''declared'' else ''missing''))"

definition diff_against_baseline ::
  "(string \<Rightarrow> string) \<Rightarrow> baseline \<Rightarrow> (string \<times> string) list \<Rightarrow> string list \<Rightarrow> bool \<Rightarrow> int \<Rightarrow> baseline_diff" where
  "diff_against_baseline sha256 b machine_tools machine_env docker_available path_duplicates =
     \<lparr>bd_baseline_id = baseline_id sha256 b,
      bd_entries =
        map (baseline_tool_entry machine_tools) (sort (bl_tools b)) @
        map (baseline_env_entry machine_env) (bl_required_env_names b) @
        (if bl_require_docker b then
           [bl_entry ''docker'' ''daemon'' (if docker_available then ''ok'' else ''blocker'')
              (if docker_available then ''docker daemon reachable''
               else ''project baseline requires docker; daemon not reachable'')
              ''available'' (if docker_available then ''available'' else ''unavailable'')]
         else []) @
        (if path_duplicates > bl_max_path_duplicates b then
           [bl_entry ''path'' ''duplicates'' ''warn''
              (str_int path_duplicates @ '' duplicate PATH entries exceed baseline maximum of '' @
               str_int (bl_max_path_duplicates b))
              (str_int (bl_max_path_duplicates b)) (str_int path_duplicates)]
         else [])\<rparr>"

section \<open>Lemmas and properties\<close>

lemma dict_of_strings:
  "distinct (map fst kvs) \<Longrightarrow> dict_of (map (\<lambda>(k, v). (k, py_str v)) (map (\<lambda>(k, v). (k, JStr v)) kvs)) = kvs"
  by (simp add: dict_of_distinct comp_def case_prod_unfold)

text \<open>
  A saved baseline is read back unchanged: loading the text saved for a baseline whose
  tools have distinct names gives the same baseline, and so the same identity.
\<close>

theorem baseline_roundtrip:
  assumes "distinct (map fst (bl_tools b))"
  shows "load_baseline (save_baseline sha256 b) = Inr b"
proof -
  have env: "map py_str (map JStr xs) = xs" for xs by (induction xs) simp_all
  have items: "items_of (JObj kvs) = Inr kvs" for kvs by (simp add: items_of_def)
  have names: "(if py_truth (JList vs) then converted (py_elements (JList vs)) else Inr []) = Inr vs" for vs
    by simp
  have "list_all (\<lambda>(k, v). wf_json v) (map (\<lambda>(k, v). (k, JStr v)) kvs)" for kvs by (induction kvs) auto
  moreover have "list_all wf_json (map JStr xs)" for xs by (induction xs) auto
  ultimately have wf: "wf_json (baseline_dict sha256 b)"
    using assms by (simp add: baseline_dict_def comp_def case_prod_unfold)
  show ?thesis
    unfolding load_baseline_def save_baseline_def loads_indent(1) [OF wf] option.case
    by (simp add: baseline_of_json_def baseline_dict_def BASELINE_SCHEMA_VERSION_def starts_with_def
        dict_get_def dict_get_or_def items names Let_def dict_of_strings [OF assms] env
        del: py_truth.simps(5) py_truth.simps(6) map_map list.map_comp)
qed

definition demo_baseline :: baseline where
  "demo_baseline = new_baseline ''2026-01-01'' ''f1'' [(''python'', ''>=3.11''), (''node'', ''>=18.0.0'')] [''HOME''] True ''n''"

lemma baseline_roundtrip_witness: "load_baseline (save_baseline (\<lambda>s. s) demo_baseline) = Inr demo_baseline"
  by (rule baseline_roundtrip) code_simp

lemma tool_entry_severity:
  "be_severity (baseline_tool_entry machine (tool, spec)) =
     (case map_of machine tool of None \<Rightarrow> ''blocker'' | Some v \<Rightarrow> if baseline_tool_ok spec v then ''ok'' else ''blocker'')"
  by (auto simp: baseline_tool_entry_def bl_entry_def Let_def split: option.split)

lemma env_entry_severity:
  "be_severity (baseline_env_entry env name) = (if name \<in> set env then ''ok'' else ''blocker'')"
  by (simp add: baseline_env_entry_def bl_entry_def Let_def)

text \<open>
  C27: A machine is blocked exactly by what it lacks: the comparison has no blocker exactly when
  every pinned tool is on the machine with a version its pin accepts, every required variable is
  declared, and docker answers if it is required; duplicate PATH entries above the maximum are
  one warning and never block.
\<close>

theorem baseline_blockers_iff:
  "(blockers (diff_against_baseline sha256 b machine env docker dups) = [] \<longleftrightarrow>
      list_all (\<lambda>(tool, spec). \<exists>v. map_of machine tool = Some v \<and> baseline_tool_ok spec v) (bl_tools b) \<and>
      set (bl_required_env_names b) \<subseteq> set env \<and> (\<not> bl_require_docker b \<or> docker)) \<and>
   length (warnings (diff_against_baseline sha256 b machine env docker dups)) =
     (if dups > bl_max_path_duplicates b then 1 else 0)"
proof (intro conjI)
  let ?d = "diff_against_baseline sha256 b machine env docker dups"
  have tools: "filter (\<lambda>e. be_severity e = ''blocker'') (map (baseline_tool_entry machine) ts) = [] \<longleftrightarrow>
      list_all (\<lambda>(tool, spec). \<exists>v. map_of machine tool = Some v \<and> baseline_tool_ok spec v) ts" for ts
    by (induction ts) (auto simp: tool_entry_severity split: option.splits if_splits)
  have all: "list_all P (sort ts) = list_all P ts" for P and ts :: "(string \<times> string) list"
    by (simp add: list_all_iff)
  have env: "filter (\<lambda>e. be_severity e = ''blocker'') (map (baseline_env_entry env) ns) = [] \<longleftrightarrow> set ns \<subseteq> set env" for ns
    by (induction ns) (auto simp: env_entry_severity)
  show "blockers ?d = [] \<longleftrightarrow>
      list_all (\<lambda>(tool, spec). \<exists>v. map_of machine tool = Some v \<and> baseline_tool_ok spec v) (bl_tools b) \<and>
      set (bl_required_env_names b) \<subseteq> set env \<and> (\<not> bl_require_docker b \<or> docker)"
    by (simp add: blockers_def diff_against_baseline_def tools env all bl_entry_def)
  have "filter (\<lambda>e. be_severity e = ''warn'') (map (baseline_tool_entry machine) ts) = []" for ts
    by (induction ts) (auto simp: tool_entry_severity split: option.splits if_splits)
  moreover have "filter (\<lambda>e. be_severity e = ''warn'') (map (baseline_env_entry env) ns) = []" for ns
    by (induction ns) (auto simp: env_entry_severity)
  ultimately show "length (warnings ?d) = (if dups > bl_max_path_duplicates b then 1 else 0)"
    by (simp add: warnings_def diff_against_baseline_def bl_entry_def)
qed

lemma baseline_blockers_iff_witness:
  "blockers (diff_against_baseline (\<lambda>s. s) demo_baseline [(''node'', ''18.2.0''), (''python'', ''3.12'')] [''HOME''] True 3) = []"
proof -
  have "list_all (\<lambda>(tool, spec). case map_of [(''node'', ''18.2.0''), (''python'', ''3.12'')] tool of
      Some v \<Rightarrow> baseline_tool_ok spec v | None \<Rightarrow> False) (bl_tools demo_baseline)" by code_simp
  then show ?thesis
    using baseline_blockers_iff [of "\<lambda>s. s" demo_baseline "[(''node'', ''18.2.0''), (''python'', ''3.12'')]" "[''HOME'']" True 3]
    by (auto simp: list_all_iff demo_baseline_def new_baseline_def split: option.splits)
qed

end
