(* ===== verification/Fleet.thy ===== *)
theory Fleet
  imports Json Version_Check Models
begin

text \<open>
  \<open>src/devrepro/server/fleet.py\<close> and \<open>src/devrepro/server/analytics.py\<close>: the fleet questions,
  pure functions of rows. A row is a dictionary of JSON values. \<open>datetime.fromisoformat\<close> is an
  argument; an instant is in microseconds and knows whether it carries a time zone, because
  Python refuses to compare or subtract across the two. Durations stay in microseconds: the
  division by 3600 and the rounding to two decimals are left to whoever prints them.
\<close>

type_synonym row = "(string \<times> json) list"

section \<open>Latest snapshots\<close>

definition latest_step :: "row \<Rightarrow> (string \<times> row) list \<Rightarrow> (string \<times> row) list" where
  "latest_step r out =
     (let k = py_str (dict_get r ''machine_key'') in
      case (dict_get r ''payload'', dict_get r ''snapshot'') of
        (JObj p, s) \<Rightarrow>
          if k \<noteq> [] \<and> map_of out k = None then dict_set k p out
          else if map_of out k = None then (case s of JObj d \<Rightarrow> dict_set k d out | _ \<Rightarrow> out)
          else out
      | (_, JObj d) \<Rightarrow> if map_of out k = None then dict_set k d out else out
      | _ \<Rightarrow> out)"

definition snapshots_by_machine :: "row list \<Rightarrow> (string \<times> row) list" where
  "snapshots_by_machine rows = fold latest_step rows []"

section \<open>Distributions\<close>

text \<open>\<open>Counter\<close>: one more of a key.\<close>

definition count_up :: "'k \<Rightarrow> ('k \<times> nat) list \<Rightarrow> ('k \<times> nat) list" where
  "count_up k d = dict_set k (case map_of d k of None \<Rightarrow> 1 | Some n \<Rightarrow> n + 1) d"

definition tally :: "'k list \<Rightarrow> ('k \<times> nat) list" where
  "tally ks = fold count_up ks []"

definition readiness_of :: "row \<Rightarrow> string" where
  "readiness_of snap =
     py_lower (py_str (or_json (dict_get snap ''verdict'')
       (or_json (dict_get snap ''worst_state'') (JStr ''unknown''))))"

definition readiness_distribution :: "row list \<Rightarrow> (string \<times> nat) list" where
  "readiness_distribution rows = sort (tally (map (readiness_of \<circ> snd) (snapshots_by_machine rows)))"

record fleet_segment =
  seg_os :: string
  seg_arch :: string
  seg_verdict :: string
  seg_machines :: nat

definition segment_of :: "row \<Rightarrow> string \<times> string \<times> string" where
  "segment_of snap =
     (let platform = (case dict_get snap ''platform'' of JObj d \<Rightarrow> d | _ \<Rightarrow> []) in
      (py_str (or_json (dict_get snap ''os_name'') (dict_get_or platform ''os_name'' (JStr ''unknown''))),
       py_str (or_json (dict_get snap ''arch'') (dict_get_or platform ''arch'' (JStr ''unknown''))),
       py_lower (py_str (or_json (dict_get snap ''verdict'') (JStr ''unknown'')))))"

definition fleet_segmentation :: "row list \<Rightarrow> fleet_segment list" where
  "fleet_segmentation rows =
     map (\<lambda>((os, arch, v), n). \<lparr>seg_os = os, seg_arch = arch, seg_verdict = v, seg_machines = n\<rparr>)
       (sort (tally (map (segment_of \<circ> snd) (snapshots_by_machine rows))))"

definition tool_versions :: "row \<Rightarrow> json" where
  "tool_versions snap =
     or_json (dict_get snap ''tools'') (or_json (dict_get snap ''tool_versions'') (JObj []))"

text \<open>\<open>Counter.most_common\<close>: by count, ties in order of first appearance.\<close>

definition most_common :: "('k \<times> nat) list \<Rightarrow> ('k \<times> nat) list" where
  "most_common d = sort_key (\<lambda>(k, n). - int n) d"

definition tool_version_heatmap :: "row list \<Rightarrow> string list \<Rightarrow> (string \<times> (string \<times> nat) list) list" where
  "tool_version_heatmap rows tools =
     (let seen = concat (map (\<lambda>(k, snap). case tool_versions snap of JObj d \<Rightarrow> [d] | _ \<Rightarrow> [])
                   (snapshots_by_machine rows)) in
      map (\<lambda>t. (t, most_common (tally (concat (map (\<lambda>d.
          replicate (count_list tools t) (py_str (or_json (dict_get d t) (JStr ''absent'')))) seen)))))
        (rev (remdups (rev tools))))"

section \<open>Compliance with a baseline\<close>

record tool_failure =
  tf_tool :: string
  tf_expected :: string
  tf_actual :: string

record machine_compliance =
  mc_machine_key :: string
  mc_compliant :: bool
  mc_failures :: "tool_failure list"

text \<open>\<open>satisfies_fn\<close> is called on the version as text; whatever it raises counts as a failure.\<close>

definition pin_failure ::
  "(string \<Rightarrow> string \<Rightarrow> bool py) \<Rightarrow> row \<Rightarrow> string \<times> string \<Rightarrow> tool_failure list" where
  "pin_failure satisfies_fn versions = (\<lambda>(name, spec).
     if dict_get versions name = JNull then
       [\<lparr>tf_tool = name, tf_expected = spec, tf_actual = ''absent''\<rparr>]
     else
       (let actual = py_str (dict_get versions name);
            ok = (case satisfies_fn actual spec of Inl e \<Rightarrow> False | Inr b \<Rightarrow> b) in
        if ok then [] else [\<lparr>tf_tool = name, tf_expected = spec, tf_actual = actual\<rparr>]))"

definition baseline_compliance ::
  "row list \<Rightarrow> (string \<times> string) list \<Rightarrow> (string \<Rightarrow> string \<Rightarrow> bool py) \<Rightarrow> machine_compliance list" where
  "baseline_compliance rows baseline_tools satisfies_fn =
     map (\<lambda>(machine_key, snap).
        let versions = (case tool_versions snap of JObj d \<Rightarrow> d | _ \<Rightarrow> []);
            failures = concat (map (pin_failure satisfies_fn versions) baseline_tools)
        in \<lparr>mc_machine_key = machine_key, mc_compliant = (failures = []), mc_failures = failures\<rparr>)
       (sort_key fst (snapshots_by_machine rows))"

section \<open>Onboarding\<close>

datatype datetime = Naive int | Aware int

text \<open>\<open>a < b\<close> and \<open>a - b\<close> of datetimes.\<close>

fun dt_less :: "datetime \<Rightarrow> datetime \<Rightarrow> bool py" where
  "dt_less (Naive a) (Naive b) = Inr (a < b)"
| "dt_less (Aware a) (Aware b) = Inr (a < b)"
| "dt_less _ _ = Inl TypeError"

fun dt_minus :: "datetime \<Rightarrow> datetime \<Rightarrow> int py" where
  "dt_minus (Naive a) (Naive b) = Inr (a - b)"
| "dt_minus (Aware a) (Aware b) = Inr (a - b)"
| "dt_minus _ _ = Inl TypeError"

definition MINIMUM_COHORT :: nat where
  "MINIMUM_COHORT = 5"

definition parse_stamp :: "(string \<Rightarrow> datetime option) \<Rightarrow> json \<Rightarrow> datetime option" where
  "parse_stamp from_iso v =
     (case v of JStr s \<Rightarrow> if s = [] then None else from_iso (replace_char CHR ''Z'' ''+00:00'' s) | _ \<Rightarrow> None)"

text \<open>The fraction is the quotient of two numbers; the rank is its ceiling times the length.\<close>

definition percentile :: "int list \<Rightarrow> nat \<times> nat \<Rightarrow> int" where
  "percentile values fraction =
     (if values = [] then 0
      else
        (let ordered = sort values;
             rank = (fst fraction * length ordered + snd fraction - 1) div snd fraction
         in ordered ! (min (length ordered - 1) (rank - 1))))"

record onboarding_stats =
  os_cohort :: nat
  os_median :: "int option"
  os_p90 :: "int option"
  os_never_ready :: nat
  os_withheld :: bool

definition first_ready_step ::
  "(string \<Rightarrow> datetime option) \<Rightarrow> row \<Rightarrow> (json \<times> datetime) list \<Rightarrow> (json \<times> datetime) list py" where
  "first_ready_step from_iso snapshot first_ready =
     (if py_upper (py_str (dict_get_or snapshot ''verdict'' (JStr []))) \<noteq> ''READY'' then Inr first_ready
      else
        (case parse_stamp from_iso (dict_get snapshot ''created_at'') of
           None \<Rightarrow> Inr first_ready
         | Some stamp \<Rightarrow>
             (let machine = dict_get snapshot ''machine_id'' in
              if machine = JNull then Inr first_ready
              else
                (case map_of first_ready machine of
                   None \<Rightarrow> Inr (dict_set machine stamp first_ready)
                 | Some existing \<Rightarrow>
                     bind_res (dt_less stamp existing) (\<lambda>earlier.
                       Inr (if earlier then dict_set machine stamp first_ready else first_ready))))))"

fun first_ready_of ::
  "(string \<Rightarrow> datetime option) \<Rightarrow> row list \<Rightarrow> (json \<times> datetime) list \<Rightarrow> (json \<times> datetime) list py" where
  "first_ready_of from_iso [] first_ready = Inr first_ready"
| "first_ready_of from_iso (s # ss) first_ready =
     bind_res (first_ready_step from_iso s first_ready) (first_ready_of from_iso ss)"

text \<open>The loop over the machines: the durations and the number that never were ready.\<close>

fun durations_of ::
  "(string \<Rightarrow> datetime option) \<Rightarrow> (json \<times> datetime) list \<Rightarrow> row list \<Rightarrow> int list \<Rightarrow> nat \<Rightarrow> (int list \<times> nat) py" where
  "durations_of from_iso first_ready [] durations never = Inr (durations, never)"
| "durations_of from_iso first_ready (m # ms) durations never =
     (case parse_stamp from_iso (dict_get m ''created_at'') of
        None \<Rightarrow> durations_of from_iso first_ready ms durations never
      | Some enrolled \<Rightarrow>
          (case map_of first_ready (dict_get m ''id'') of
             None \<Rightarrow> durations_of from_iso first_ready ms durations (never + 1)
           | Some ready \<Rightarrow>
               bind_res (dt_minus ready enrolled) (\<lambda>d.
                 durations_of from_iso first_ready ms
                   (if d \<ge> 0 then durations @ [d] else durations) never)))"

definition onboarding_stats :: "(string \<Rightarrow> datetime option) \<Rightarrow> row list \<Rightarrow> row list \<Rightarrow> onboarding_stats py" where
  "onboarding_stats from_iso machines snapshots =
     bind_res (first_ready_of from_iso snapshots []) (\<lambda>first_ready.
     bind_res (durations_of from_iso first_ready machines [] 0) (\<lambda>(durations, never).
       Inr (if length durations < MINIMUM_COHORT then
              \<lparr>os_cohort = length durations, os_median = None, os_p90 = None,
                os_never_ready = never, os_withheld = True\<rparr>
            else
              \<lparr>os_cohort = length durations, os_median = Some (percentile durations (1, 2)),
                os_p90 = Some (percentile durations (9, 10)), os_never_ready = never,
                os_withheld = False\<rparr>)))"

section \<open>Simulating a policy\<close>

record policy_simulation =
  ps_evaluated :: nat
  ps_newly_failing :: nat
  ps_causes :: "(string \<times> nat) list"
  ps_unevaluated :: nat

definition ps_safe :: "policy_simulation \<Rightarrow> bool" where
  "ps_safe s \<longleftrightarrow> ps_newly_failing s = 0"

text \<open>What one requirement adds to the causes; a version that cannot be read adds nothing.\<close>

definition requirement_causes :: "row \<Rightarrow> string \<times> string \<Rightarrow> string list" where
  "requirement_causes tools = (\<lambda>(name, spec).
     if dict_get tools name = JNull then [name @ '' (absent)'']
     else (case satisfies (py_str (dict_get tools name)) spec of
             Inl e \<Rightarrow> []
           | Inr ok \<Rightarrow> if ok then [] else [name @ '' '' @ spec]))"

definition required_versions :: "policy \<Rightarrow> (string \<times> string) list" where
  "required_versions pol = dict_of (p_required_runtimes pol @ p_required_tools pol)"

definition simulate_step :: "(string \<times> string) list \<Rightarrow> row \<Rightarrow> policy_simulation \<Rightarrow> policy_simulation" where
  "simulate_step required snapshot sim =
     (case dict_get snapshot ''tools'' of
        JObj tools \<Rightarrow>
          if tools = [] then sim\<lparr>ps_unevaluated := ps_unevaluated sim + 1\<rparr>
          else
            (let causes = concat (map (requirement_causes tools) (sort required)) in
             sim\<lparr>ps_evaluated := ps_evaluated sim + 1,
                 ps_newly_failing := (if causes \<noteq> [] then ps_newly_failing sim + 1 else ps_newly_failing sim),
                 ps_causes := fold count_up causes (ps_causes sim)\<rparr>)
      | _ \<Rightarrow> sim\<lparr>ps_unevaluated := ps_unevaluated sim + 1\<rparr>)"

definition simulate_policy :: "policy \<Rightarrow> row list \<Rightarrow> policy_simulation" where
  "simulate_policy pol latest_snapshots =
     fold (simulate_step (required_versions pol)) latest_snapshots
       \<lparr>ps_evaluated = 0, ps_newly_failing = 0, ps_causes = [], ps_unevaluated = 0\<rparr>"

definition reported_causes :: "policy_simulation \<Rightarrow> (string \<times> nat) list" where
  "reported_causes s = sort_key (\<lambda>(k, n). (- int n, k)) (ps_causes s)"

section \<open>Counting\<close>

lemma map_of_count_up:
  "map_of (count_up k d) j = (if j = k then Some (case map_of d k of None \<Rightarrow> 1 | Some n \<Rightarrow> n + 1) else map_of d j)"
  by (simp add: count_up_def)

lemma map_of_fold_count_up:
  "map_of (fold count_up ks d) j =
     (case map_of d j of None \<Rightarrow> if j \<in> set ks then Some (count_list ks j) else None
      | Some n \<Rightarrow> Some (n + count_list ks j))"
proof (induction ks arbitrary: d)
  case (Cons k ks)
  show ?case
    by (cases "map_of d j") (auto simp: Cons.IH map_of_count_up count_list_0_iff)
qed (simp split: option.split)

lemma map_of_tally: "map_of (tally ks) j = (if j \<in> set ks then Some (count_list ks j) else None)"
  by (simp add: tally_def map_of_fold_count_up)

lemma distinct_tally: "distinct (map fst (tally ks))"
proof -
  have "distinct (map fst d) \<Longrightarrow> distinct (map fst (fold count_up ks d))" for d :: "('a \<times> nat) list"
    by (induction ks arbitrary: d) (simp_all add: count_up_def distinct_dict_set)
  then show ?thesis by (simp add: tally_def)
qed

text \<open>
  The readiness distribution counts every machine once: the count of a readiness is the
  number of machines whose latest snapshot has it, and the counts add up to the machines.
\<close>

theorem readiness_counts_machines:
  "map_of (readiness_distribution rows) r =
     (let n = length (filter (\<lambda>(k, snap). readiness_of snap = r) (snapshots_by_machine rows)) in
      if n = 0 then None else Some n) \<and>
   sum_list (map snd (readiness_distribution rows)) = length (snapshots_by_machine rows)"
proof
  let ?rs = "map (readiness_of \<circ> snd) (snapshots_by_machine rows)"
  have sorted: "map_of (sort (tally ks)) = map_of (tally ks)" for ks :: "string list"
    using map_of_sort_key [OF distinct_tally, of "\<lambda>x. x" ks] by simp
  have "count_list ?rs r = length (filter (\<lambda>(k, snap). readiness_of snap = r) (snapshots_by_machine rows))"
    by (induction "snapshots_by_machine rows" rule: list.induct) (auto simp: count_list_eq_length_filter filter_map comp_def case_prod_unfold eq_commute)
  moreover have "map_of (readiness_distribution rows) r = (if count_list ?rs r = 0 then None else Some (count_list ?rs r))"
    by (simp only: readiness_distribution_def sorted map_of_tally count_list_0_iff if_not_P if_P split: if_split) simp
  ultimately show "map_of (readiness_distribution rows) r =
     (let n = length (filter (\<lambda>(k, snap). readiness_of snap = r) (snapshots_by_machine rows)) in
      if n = 0 then None else Some n)"
    by (simp only: Let_def)
  have up: "sum_list (map snd (count_up k d)) = Suc (sum_list (map snd d))" for k and d :: "(string \<times> nat) list"
    unfolding count_up_def by (induction d) (auto split: option.split)
  have "sum_list (map snd (fold count_up ks d)) = length ks + sum_list (map snd d)" for ks and d :: "(string \<times> nat) list"
    by (induction ks arbitrary: d) (simp_all add: up)
  then have "sum_list (map snd (tally ?rs)) = length (snapshots_by_machine rows)"
    by (simp add: tally_def)
  moreover have "sum_list (map snd (sort d)) = sum_list (map snd d)" for d :: "(string \<times> nat) list"
    by (metis mset_map mset_sort sum_mset_sum_list)
  ultimately show "sum_list (map snd (readiness_distribution rows)) = length (snapshots_by_machine rows)"
    by (simp add: readiness_distribution_def)
qed

section \<open>Percentiles\<close>

lemma sorted_below_nth:
  assumes "sorted xs" and "i < length xs"
  shows "length (filter (\<lambda>v. v < xs ! i) xs) \<le> i" and "Suc i \<le> length (filter (\<lambda>v. v \<le> xs ! i) xs)"
proof -
  have split: "filter P xs = filter P (take k xs) @ filter P (drop k xs)" for P k
    by (metis append_take_drop_id filter_append)
  have "filter (\<lambda>v. v < xs ! i) (drop i xs) = []"
    using assms sorted_nth_mono [OF assms(1), of i]
    by (fastforce simp: filter_empty_conv in_set_conv_nth not_less)
  then show "length (filter (\<lambda>v. v < xs ! i) xs) \<le> i"
    using length_filter_le [of "\<lambda>v. v < xs ! i" "take i xs"] by (simp add: split [where k = i])
  have "filter (\<lambda>v. v \<le> xs ! i) (take (Suc i) xs) = take (Suc i) xs"
    using assms by (auto simp: filter_id_conv in_set_conv_nth less_Suc_eq_le intro!: sorted_nth_mono)
  then show "Suc i \<le> length (filter (\<lambda>v. v \<le> xs ! i) xs)"
    using assms(2) by (simp add: split [where k = "Suc i"] min_def)
qed

lemma length_filter_sort [simp]: "length (filter P (sort xs)) = length (filter P xs)"
  by (metis mset_filter mset_sort size_mset)

text \<open>
  The percentile is the nearest rank: one of the values, with at least the fraction of all
  values at most it and less than the fraction strictly below it; so the tail is never
  excluded and no duration is invented.
\<close>

theorem percentile_is_nearest_rank:
  assumes "values \<noteq> []" and "0 < num" and "num \<le> den"
  shows "percentile values (num, den) \<in> set values \<and>
     num * length values \<le> den * length (filter (\<lambda>v. v \<le> percentile values (num, den)) values) \<and>
     den * length (filter (\<lambda>v. v < percentile values (num, den)) values) < num * length values"
proof -
  let ?n = "length values"
  let ?rank = "(num * ?n + den - 1) div den"
  let ?i = "min (?n - 1) (?rank - 1)"
  have n: "0 < ?n" "0 < num * ?n" using assms by auto
  have den: "0 < den" using assms by simp
  have up: "num * ?n \<le> den * ?rank"
  proof -
    have "(num * ?n + den - 1) mod den < den" using den by simp
    moreover have "den * ?rank + (num * ?n + den - 1) mod den = num * ?n + den - 1" by simp
    ultimately show ?thesis by linarith
  qed
  have "0 < ?rank" using up n(2) by (metis mult_0_right not_gr_zero not_le)
  have low: "den * (?rank - 1) < num * ?n"
  proof -
    have "den * ?rank \<le> num * ?n + den - 1" by simp
    moreover have "den * (?rank - 1) = den * ?rank - den" by (simp add: diff_mult_distrib2)
    ultimately show ?thesis using n(2) den \<open>0 < ?rank\<close> by linarith
  qed
  have "den * (?rank - 1) < den * ?n" using low mult_right_mono [OF assms(3), of ?n] by linarith
  then have "?rank - 1 < ?n" using den by simp
  then have i: "?i = ?rank - 1" "?rank - 1 < length (sort values)" using n by auto
  have p: "percentile values (num, den) = sort values ! (?rank - 1)"
    using assms(1) i(1) by (simp add: percentile_def Let_def)
  note below = sorted_below_nth [OF sorted_sort i(2), folded p, unfolded length_filter_sort]
  have "percentile values (num, den) \<in> set values"
    using i(2) unfolding p by (metis nth_mem set_sort)
  moreover have "num * ?n \<le> den * length (filter (\<lambda>v. v \<le> percentile values (num, den)) values)"
  proof -
    have "?rank \<le> length (filter (\<lambda>v. v \<le> percentile values (num, den)) values)"
      using below(2) \<open>0 < ?rank\<close> by linarith
    then show ?thesis using up mult_le_mono2 le_trans by blast
  qed
  moreover have "den * length (filter (\<lambda>v. v < percentile values (num, den)) values) < num * ?n"
    using low below(1) by (meson le_less_trans mult_le_mono2)
  ultimately show ?thesis by blast
qed

lemma percentile_is_nearest_rank_witness:
  "percentile [30, 10, 500, 20, 40, 50] (9, 10) = 500 \<and>
   9 * 6 \<le> 10 * length (filter (\<lambda>v. v \<le> percentile [30, 10, 500, 20, 40, 50] (9, 10)) [30, 10, 500, 20, 40, 50])"
  using percentile_is_nearest_rank [of "[30, 10, 500, 20, 40, 50]" 9 10] by (simp add: percentile_def)

section \<open>Onboarding\<close>

lemma durations_count:
  "durations_of from_iso fr ms ds n = Inr (durations, never) \<Longrightarrow>
     length durations + never \<le> length ds + n + length ms \<and> (list_all (\<lambda>d. 0 \<le> d) ds \<longrightarrow> list_all (\<lambda>d. 0 \<le> d) durations)"
proof (induction ms arbitrary: ds n)
  case (Cons m ms)
  show ?case
    using Cons.prems by (auto simp: result_simps split: option.splits if_splits dest!: Cons.IH)
qed simp

text \<open>
  Onboarding is reported above the floor only: fewer than five machines that became ready give
  counts and nothing else; from five on both percentiles are elapsed times of the cohort, never
  negative, and no more machines are counted than were enrolled.
\<close>

theorem onboarding_withholds_small_cohorts:
  assumes "onboarding_stats from_iso machines snapshots = Inr s"
  shows "os_cohort s + os_never_ready s \<le> length machines \<and>
     (if os_cohort s < 5 then os_withheld s \<and> os_median s = None \<and> os_p90 s = None
      else \<not> os_withheld s \<and> (\<exists>m p. os_median s = Some m \<and> os_p90 s = Some p \<and> 0 \<le> m \<and> 0 \<le> p))"
proof -
  from assms obtain fr durations never where d: "durations_of from_iso fr machines [] 0 = Inr (durations, never)"
    and s: "s = (if length durations < 5 then
              \<lparr>os_cohort = length durations, os_median = None, os_p90 = None, os_never_ready = never, os_withheld = True\<rparr>
            else
              \<lparr>os_cohort = length durations, os_median = Some (percentile durations (1, 2)),
                os_p90 = Some (percentile durations (9, 10)), os_never_ready = never, os_withheld = False\<rparr>)"
    by (auto simp: onboarding_stats_def result_simps MINIMUM_COHORT_def)
  have c: "length durations + never \<le> length machines" "list_all (\<lambda>d. 0 \<le> d) durations"
    using durations_count [OF d] by simp_all
  have "0 \<le> percentile durations (num, den)" if "durations \<noteq> []" "0 < num" "num \<le> den" for num den
    using percentile_is_nearest_rank [OF that] c(2) by (auto simp: list_all_iff)
  from this [of 1 2] this [of 9 10] show ?thesis using c(1) by (cases "durations = []") (auto simp: s)
qed

text \<open>
  One time stamp without a zone stops the onboarding report: when a machine enrolled at an
  instant with a zone publishes a READY snapshot whose own time has none, the whole report ends
  in a \<open>TypeError\<close>, whatever the other machines did.
\<close>

theorem naive_stamp_stops_onboarding:
  assumes "from_iso (replace_char CHR ''Z'' ''+00:00'' enrolled) = Some (Aware a)" and "enrolled \<noteq> []"
    and "from_iso (replace_char CHR ''Z'' ''+00:00'' created) = Some (Naive b)" and "created \<noteq> []"
    and "dict_get m ''created_at'' = JStr enrolled" and "dict_get m ''id'' = JInt i"
    and "snap = [(''machine_id'', JInt i), (''created_at'', JStr created), (''verdict'', JStr ''READY'')]"
  shows "onboarding_stats from_iso (m # machines) [snap] = Inl TypeError"
proof -
  have "py_upper ''READY'' = ''READY''" by code_simp
  then have "first_ready_of from_iso [snap] [] = Inr [(JInt i, Naive b)]"
    using assms(3,4) by (simp add: assms(7) first_ready_step_def parse_stamp_def dict_get_def dict_get_or_def Let_def)
  moreover have "durations_of from_iso [(JInt i, Naive b)] (m # machines) [] 0 = Inl TypeError"
    using assms by (simp add: parse_stamp_def)
  ultimately show ?thesis by (simp add: onboarding_stats_def)
qed

text \<open>Times of the form \<open>tT\<close> without and \<open>tTz\<close> with a zone, for the examples.\<close>

definition demo_iso :: "string \<Rightarrow> datetime option" where
  "demo_iso s = (if ends_with s ''+00:00'' then Some (Aware 0) else Some (Naive 0))"

lemma naive_stamp_stops_onboarding_witness:
  "onboarding_stats demo_iso [[(''id'', JInt 1), (''created_at'', JStr ''2026-01-01T00:00:00Z'')]]
     [[(''machine_id'', JInt 1), (''created_at'', JStr ''2026-01-02T00:00:00''), (''verdict'', JStr ''READY'')]] = Inl TypeError"
proof (rule naive_stamp_stops_onboarding)
  show "demo_iso (replace_char CHR ''Z'' ''+00:00'' ''2026-01-01T00:00:00Z'') = Some (Aware 0)" by code_simp
  show "demo_iso (replace_char CHR ''Z'' ''+00:00'' ''2026-01-02T00:00:00'') = Some (Naive 0)" by code_simp
qed (simp_all add: dict_get_def)

lemma onboarding_withholds_small_cohorts_witness:
  "\<exists>s. onboarding_stats demo_iso [] [] = Inr s \<and> os_cohort s = 0 \<and> os_withheld s"
proof -
  obtain s where s: "onboarding_stats demo_iso [] [] = Inr s" "os_cohort s = 0"
    by (simp add: onboarding_stats_def MINIMUM_COHORT_def)
  with onboarding_withholds_small_cohorts [OF s(1)] show ?thesis by auto
qed

section \<open>Simulation\<close>

text \<open>A machine a policy fails: it reports tools, and some requirement is absent or refused.\<close>

definition fails_policy :: "policy \<Rightarrow> row \<Rightarrow> bool" where
  "fails_policy pol snapshot \<longleftrightarrow>
     (case dict_get snapshot ''tools'' of
        JObj tools \<Rightarrow> tools \<noteq> [] \<and>
          list_ex (\<lambda>(name, spec). dict_get tools name = JNull \<or>
            satisfies (py_str (dict_get tools name)) spec = Inr False) (required_versions pol)
      | _ \<Rightarrow> False)"

definition reports_tools :: "row \<Rightarrow> bool" where
  "reports_tools snapshot \<longleftrightarrow> (case dict_get snapshot ''tools'' of JObj tools \<Rightarrow> tools \<noteq> [] | _ \<Rightarrow> False)"

lemma requirement_causes_Nil:
  "requirement_causes tools (name, spec) = [] \<longleftrightarrow>
     \<not> (dict_get tools name = JNull \<or> satisfies (py_str (dict_get tools name)) spec = Inr False)"
  by (auto simp: requirement_causes_def split: sum.splits)

lemma causes_Nil:
  "concat (map (requirement_causes tools) required) = [] \<longleftrightarrow>
     \<not> list_ex (\<lambda>(name, spec). dict_get tools name = JNull \<or>
         satisfies (py_str (dict_get tools name)) spec = Inr False) required"
proof (induction required)
  case (Cons r rs)
  obtain name spec where "r = (name, spec)" by (cases r)
  then show ?case using Cons requirement_causes_Nil [of tools name spec] by auto
qed simp

lemma simulate_step_counts:
  "ps_evaluated (simulate_step (required_versions pol) snap sim) =
     (if reports_tools snap then ps_evaluated sim + 1 else ps_evaluated sim)"
  "ps_unevaluated (simulate_step (required_versions pol) snap sim) =
     (if reports_tools snap then ps_unevaluated sim else ps_unevaluated sim + 1)"
  "ps_newly_failing (simulate_step (required_versions pol) snap sim) =
     (if fails_policy pol snap then ps_newly_failing sim + 1 else ps_newly_failing sim)"
proof -
  have "list_ex P (sort xs) = list_ex P xs" for P and xs :: "(string \<times> string) list"
    by (simp add: list_ex_iff)
  then show "ps_evaluated (simulate_step (required_versions pol) snap sim) =
     (if reports_tools snap then ps_evaluated sim + 1 else ps_evaluated sim)"
  "ps_unevaluated (simulate_step (required_versions pol) snap sim) =
     (if reports_tools snap then ps_unevaluated sim else ps_unevaluated sim + 1)"
  "ps_newly_failing (simulate_step (required_versions pol) snap sim) =
     (if fails_policy pol snap then ps_newly_failing sim + 1 else ps_newly_failing sim)"
    by (simp_all add: simulate_step_def reports_tools_def fails_policy_def causes_Nil Let_def split: json.split
      del: concat_eq_Nil_conv)
qed

lemma simulate_fold:
  "ps_evaluated (fold (simulate_step (required_versions pol)) snaps sim) =
     ps_evaluated sim + length (filter reports_tools snaps) \<and>
   ps_unevaluated (fold (simulate_step (required_versions pol)) snaps sim) =
     ps_unevaluated sim + length (filter (\<lambda>s. \<not> reports_tools s) snaps) \<and>
   ps_newly_failing (fold (simulate_step (required_versions pol)) snaps sim) =
     ps_newly_failing sim + length (filter (fails_policy pol) snaps)"
  by (induction snaps arbitrary: sim) (simp_all add: simulate_step_counts)

text \<open>
  A simulation counts every snapshot once, as evaluated or as unevaluated, and its
  \<open>newly_failing\<close> is the number of evaluated machines some requirement of the proposed policy is
  absent from or refused by. What the machines fail today does not enter: a machine the policy in
  force already fails is counted as newly failing.
\<close>

theorem simulation_counts_all_failing:
  "ps_evaluated (simulate_policy pol snaps) = length (filter reports_tools snaps) \<and>
   ps_evaluated (simulate_policy pol snaps) + ps_unevaluated (simulate_policy pol snaps) = length snaps \<and>
   ps_newly_failing (simulate_policy pol snaps) = length (filter (fails_policy pol) snaps) \<and>
   (ps_safe (simulate_policy pol snaps) \<longleftrightarrow> list_all (\<lambda>s. \<not> fails_policy pol s) snaps)"
  using simulate_fold [of pol snaps "\<lparr>ps_evaluated = 0, ps_newly_failing = 0, ps_causes = [], ps_unevaluated = 0\<rparr>"]
    length_filter_split [of reports_tools snaps]
  by (auto simp: simulate_policy_def ps_safe_def list_all_iff filter_empty_conv)

section \<open>Compliance\<close>

text \<open>Clients of any version checker: a wildcard pin fails only on an absent tool.\<close>

context version_checker
begin

lemma wildcard_pin:
  "strip spec \<in> {''*'', [], ''any''} \<Longrightarrow>
     pin_failure check versions (name, spec) = [] \<longleftrightarrow> dict_get versions name \<noteq> JNull"
  using wildcard by (simp add: pin_failure_def)

lemma pin_ok_iff:
  "pin_failure check versions (name, spec) = [] \<longleftrightarrow>
     dict_get versions name \<noteq> JNull \<and> check (py_str (dict_get versions name)) spec = Inr True"
  by (auto simp: pin_failure_def Let_def split: sum.split)

lemma compliant_iff:
  "mc_compliant c \<longleftrightarrow> mc_failures c = []"
  if "c \<in> set (baseline_compliance rows pins check)"
  using that by (auto simp: baseline_compliance_def Let_def)

end

definition machine_meets :: "(string \<times> string) list \<Rightarrow> row \<Rightarrow> bool" where
  "machine_meets pins snap \<longleftrightarrow>
     (let versions = (case tool_versions snap of JObj d \<Rightarrow> d | _ \<Rightarrow> []) in
      list_all (\<lambda>(name, spec). dict_get versions name \<noteq> JNull \<and>
        satisfies (py_str (dict_get versions name)) spec = Inr True) pins)"

text \<open>
  The compliance report has one line per machine, in the order of their keys, and calls a machine
  compliant exactly when every pinned tool is on it at a version that satisfies its pin; each
  failure it lists names a pin.
\<close>

theorem compliance_is_exact:
  "map (\<lambda>c. (mc_machine_key c, mc_compliant c)) (baseline_compliance rows pins satisfies) =
     map (\<lambda>(k, snap). (k, machine_meets pins snap)) (sort_key fst (snapshots_by_machine rows)) \<and>
   list_all (\<lambda>c. set (map (\<lambda>f. (tf_tool f, tf_expected f)) (mc_failures c)) \<subseteq> set pins)
     (baseline_compliance rows pins satisfies)"
proof
  have "concat (map (pin_failure satisfies versions) ps) = [] \<longleftrightarrow>
      list_all (\<lambda>(name, spec). dict_get versions name \<noteq> JNull \<and>
        satisfies (py_str (dict_get versions name)) spec = Inr True) ps" for versions ps
    by (induction ps) (auto simp: satisfies.pin_ok_iff simp del: concat_eq_Nil_conv)
  then show "map (\<lambda>c. (mc_machine_key c, mc_compliant c)) (baseline_compliance rows pins satisfies) =
     map (\<lambda>(k, snap). (k, machine_meets pins snap)) (sort_key fst (snapshots_by_machine rows))"
    by (simp add: baseline_compliance_def machine_meets_def Let_def case_prod_unfold del: concat_eq_Nil_conv)
  have "set (map (\<lambda>f. (tf_tool f, tf_expected f)) (pin_failure satisfies versions p)) \<subseteq> {p}" for versions p
    by (cases p) (auto simp: pin_failure_def Let_def)
  then show "list_all (\<lambda>c. set (map (\<lambda>f. (tf_tool f, tf_expected f)) (mc_failures c)) \<subseteq> set pins)
     (baseline_compliance rows pins satisfies)"
    by (fastforce simp: baseline_compliance_def list_all_iff Let_def)
qed

end
