(* ===== verification/Server_API.thy ===== *)
theory Server_API
  imports Server_DB Fleet
begin

text \<open>
  \<open>src/devrepro/server/api.py\<close>, the HTTP interface over the store, and the route table of
  \<open>src/devrepro/server/openapi.py\<close>. A request is what the handlers read of it: the
  \<open>Authorization\<close> header and the JSON body (\<open>null\<close> when there is none or it does not parse).
  The digest, the clock, the fresh webhook secret, the HMAC, the validation of a policy document
  (pydantic), \<open>datetime.fromisoformat\<close> and the printing of a duration in hours are arguments.
  An exception no handler catches is Flask's 500 with the store as the finished transactions left
  it. Webhook deliveries are returned, not sent. \<open>SELECT\<close> without \<open>ORDER BY\<close> is taken in the order
  of insertion.
\<close>

section \<open>Requests, responses and the environment\<close>

record api_request =
  rq_authorization :: string
  rq_body :: json

datatype api_response = Reply int json | Plain int string | Server_Error

fun status_of :: "api_response \<Rightarrow> int" where
  "status_of (Reply s j) = s"
| "status_of (Plain s t) = s"
| "status_of Server_Error = 500"

record delivery =
  dl_url :: string
  dl_body :: string
  dl_signature :: string

record api_env =
  ae_sha :: "string \<Rightarrow> string"
  ae_hmac :: "string \<Rightarrow> string \<Rightarrow> string"
  ae_clock :: clock
  ae_secret :: string
  ae_policy :: "json \<Rightarrow> policy option"
  ae_from_iso :: "string \<Rightarrow> datetime option"
  ae_hours :: "int \<Rightarrow> json"

type_synonym api_result = "api_response \<times> server_db \<times> delivery list"

definition err :: "int \<Rightarrow> string \<Rightarrow> api_response" where
  "err status message = Reply status (JObj [(''error'', JStr message)])"

definition ROLE_RANK :: "(string \<times> nat) list" where
  "ROLE_RANK = [(''viewer'', 1), (''maintainer'', 2), (''admin'', 3)]"

definition rank_of :: "string \<Rightarrow> nat" where
  "rank_of role = (case map_of ROLE_RANK role of None \<Rightarrow> 0 | Some n \<Rightarrow> n)"

definition remove_bearer :: "string \<Rightarrow> string" where
  "remove_bearer auth = (if starts_with auth ''Bearer '' then drop 7 auth else auth)"

text \<open>\<open>require_role\<close>: the refusal, or the identity the handler runs under.\<close>

definition require_role :: "api_env \<Rightarrow> string \<Rightarrow> api_request \<Rightarrow> server_db \<Rightarrow> api_response + service_identity" where
  "require_role env min_role rq db =
     (let token = strip (remove_bearer (rq_authorization rq)) in
      if token = [] then Inl (err 401 ''missing bearer token'')
      else (case authenticate_service_token (ae_sha env) token db of
              None \<Rightarrow> Inl (err 403 ''invalid or revoked token'')
            | Some ident \<Rightarrow>
                if rank_of (si_role ident) < rank_of min_role
                then Inl (err 403 (''requires role '' @ min_role))
                else Inr ident))"

text \<open>\<open>request.get_json(silent=True) or {}\<close>; a body that is neither falsy nor an object fails
  at its first \<open>.get\<close>.\<close>

definition body_or_empty :: "api_request \<Rightarrow> row option" where
  "body_or_empty rq =
     (if \<not> py_truth (rq_body rq) then Some []
      else (case rq_body rq of JObj d \<Rightarrow> Some d | _ \<Rightarrow> None))"

definition fails :: "server_db \<Rightarrow> api_result" where
  "fails db = (Server_Error, db, [])"

definition replies :: "api_response \<Rightarrow> server_db \<Rightarrow> api_result" where
  "replies r db = (r, db, [])"

text \<open>The audit events of a handler.\<close>

definition audited :: "api_env \<Rightarrow> service_identity \<Rightarrow> string \<Rightarrow> string \<Rightarrow> row \<Rightarrow> server_db \<Rightarrow> server_db" where
  "audited env ident action target detail db =
     audit (ae_clock env) (si_org_id ident) (si_name ident) action target (JObj detail) db"

section \<open>Machines and snapshots\<close>

definition org_for_machine :: "int \<Rightarrow> server_db \<Rightarrow> int" where
  "org_for_machine machine db =
     (case fetchone (select_rows (\<lambda>i r. i = machine) (machines db)) of
        None \<Rightarrow> 0 | Some (i, r) \<Rightarrow> mc_org r)"

definition enroll :: "api_env \<Rightarrow> api_request \<Rightarrow> server_db \<Rightarrow> api_result" where
  "enroll env rq db =
     (case body_or_empty rq of
        None \<Rightarrow> fails db
      | Some body \<Rightarrow>
          (let token = py_str (dict_get_or body ''enrollment_token'' (JStr []));
               machine_key = strip (py_str (dict_get_or body ''machine_key'' (JStr [])));
               os_name = py_str (dict_get_or body ''os_name'' (JStr ''unknown''));
               arch = py_str (dict_get_or body ''arch'' (JStr ''unknown''))
           in if token = [] \<or> machine_key = [] then
                replies (err 400 ''enrollment_token and machine_key required'') db
              else
                (case redeem_enrollment_token (ae_sha env) (ae_clock env) token machine_key db of
                   Inl e \<Rightarrow> fails db
                 | Inr (None, db1) \<Rightarrow> replies (err 403 ''invalid, used or expired enrollment token'') db1
                 | Inr (Some machine, db1) \<Rightarrow>
                     (case py_int (dict_get_or body ''org_id'' (JInt 0)) of
                        Inl e \<Rightarrow> fails db1
                      | Inr org \<Rightarrow>
                          (case register_machine (ae_clock env)
                                  (if org \<noteq> 0 then org else org_for_machine machine db1)
                                  machine_key os_name arch db1 of
                             Inl e \<Rightarrow> fails db1
                           | Inr (i, db2) \<Rightarrow>
                               replies (Reply 200 (JObj [(''machine_id'', JInt machine)]))
                                 (audit (ae_clock env) (org_for_machine machine db2)
                                    (''machine:'' @ machine_key) ''machine.enroll'' (str_int machine)
                                    (JObj []) db2))))))"

definition fire_webhook :: "api_env \<Rightarrow> json \<Rightarrow> int \<times> webhook_row \<Rightarrow> delivery" where
  "fire_webhook env payload = (\<lambda>(i, hook).
     let body = dump_spaced payload in
     \<lparr>dl_url = wh_url hook, dl_body = body,
       dl_signature = ''sha256='' @ ae_hmac env (wh_secret hook) body\<rparr>)"

definition publish_snapshot :: "api_env \<Rightarrow> api_request \<Rightarrow> server_db \<Rightarrow> api_result" where
  "publish_snapshot env rq db =
     (case rq_body rq of
        JObj body \<Rightarrow>
          (let machine_key = strip (py_str (dict_get_or body ''machine_key'' (JStr []))) in
           if machine_key = [] then replies (err 400 ''machine_key required'') db
           else
             (case fetchone (select_rows (\<lambda>i r. mc_key r = machine_key) (machines db)) of
                None \<Rightarrow> replies (err 403 ''unknown machine; enroll first'') db
              | Some (machine, r) \<Rightarrow>
                  (case dict_get body ''snapshot'' of
                     JObj snap \<Rightarrow>
                       (let privacy = py_str (or_json (dict_get snap ''privacy_state'')
                              (or_json (dict_get snap ''privacy'') (JStr ''sanitized''))) in
                        if privacy \<noteq> ''sanitized'' then
                          replies (err 422 ''only sanitized snapshots may be published to the fleet'') db
                        else
                          (case store_snapshot (ae_sha env) (ae_clock env) machine snap db of
                             Inl e \<Rightarrow> fails db
                           | Inr (stored, db1) \<Rightarrow>
                               (let db2 = audit (ae_clock env) (mc_org r) (''machine:'' @ machine_key)
                                      ''snapshot.publish'' (py_str (dict_get snap ''snapshot_id''))
                                      (JObj [(''stored'', JBool stored)]) db1;
                                    payload = JObj [(''event'', JStr ''snapshot.published''),
                                      (''snapshot_id'', dict_get snap ''snapshot_id'')]
                                in (Reply 200 (JObj [(''stored'', JBool stored)]), db2,
                                    map (fire_webhook env payload)
                                      (webhooks_for (mc_org r) ''snapshot.published'' db2)))))
                   | _ \<Rightarrow> replies (err 400 ''snapshot object required'') db)))
      | _ \<Rightarrow> replies (err 400 ''JSON body required'') db)"

definition opt_str :: "string option \<Rightarrow> json" where
  "opt_str v = (case v of None \<Rightarrow> JNull | Some s \<Rightarrow> JStr s)"

definition project_name :: "int option \<Rightarrow> server_db \<Rightarrow> json" where
  "project_name p db =
     (case p of
        None \<Rightarrow> JNull
      | Some project \<Rightarrow>
          (case fetchone (select_rows (\<lambda>i r. i = project) (projects db)) of
             None \<Rightarrow> JNull | Some (i, r) \<Rightarrow> JStr (pj_name r)))"

text \<open>\<open>ORDER BY last_seen_at DESC\<close> puts \<open>NULL\<close> last.\<close>

definition seen_key :: "int \<times> machine_row \<Rightarrow> bool \<times> string" where
  "seen_key = (\<lambda>(i, r). case mc_last_seen_at r of None \<Rightarrow> (False, []) | Some t \<Rightarrow> (True, t))"

definition machine_json :: "server_db \<Rightarrow> int \<times> machine_row \<Rightarrow> json" where
  "machine_json db = (\<lambda>(i, r). JObj
     [(''id'', JInt i), (''machine_key'', JStr (mc_key r)), (''os_name'', JStr (mc_os_name r)),
      (''arch'', JStr (mc_arch r)), (''label'', JStr (mc_label r)),
      (''last_seen_at'', opt_str (mc_last_seen_at r)), (''project'', project_name (mc_project r) db)])"

definition list_machines :: "service_identity \<Rightarrow> server_db \<Rightarrow> api_result" where
  "list_machines ident db =
     replies (Reply 200 (JList (map (machine_json db)
       (order_desc seen_key (select_rows (\<lambda>i r. mc_org r = si_org_id ident) (machines db)))))) db"

definition listing_json :: "snapshot_listing \<Rightarrow> json" where
  "listing_json l = JObj
     [(''snapshot_id'', JStr (sl_snapshot_id l)), (''received_at'', JStr (sl_received_at l)),
      (''checksum'', JStr (sl_checksum l)), (''machine_key'', JStr (sl_machine_key l)),
      (''os_name'', JStr (sl_os_name l)), (''arch'', JStr (sl_arch l))]"

definition get_snapshots :: "service_identity \<Rightarrow> server_db \<Rightarrow> api_result" where
  "get_snapshots ident db =
     replies (Reply 200 (JList (map listing_json (list_snapshots (si_org_id ident) 100 db)))) db"

section \<open>Baselines and project members\<close>

definition post_baseline :: "api_env \<Rightarrow> service_identity \<Rightarrow> api_request \<Rightarrow> server_db \<Rightarrow> api_result" where
  "post_baseline env ident rq db =
     (case body_or_empty rq of
        None \<Rightarrow> fails db
      | Some body \<Rightarrow>
          (case py_int (dict_get_or body ''project_id'' (JInt 0)) of
             Inl e \<Rightarrow> fails db
           | Inr project \<Rightarrow>
               (case dict_get body ''baseline'' of
                  JObj b \<Rightarrow>
                    if project = 0 then replies (err 400 ''project_id and baseline required'') db
                    else if \<not> may_administer_project project (si_name ident) (si_role ident) db then
                      replies (err 403 ''not a maintainer of this project'')
                        (audited env ident ''baseline.approve.denied'' (str_int project) [] db)
                    else
                      (case approve_baseline (ae_clock env) project b (si_name ident) db of
                         (bid, db1) \<Rightarrow>
                           replies (Reply 200 (JObj [(''baseline_id'', JStr bid)]))
                             (audited env ident ''baseline.approve'' bid [] db1))
                | _ \<Rightarrow> replies (err 400 ''project_id and baseline required'') db)))"

definition get_baseline :: "int \<Rightarrow> server_db \<Rightarrow> api_result" where
  "get_baseline project db =
     (case latest_baseline project db of
        None \<Rightarrow> replies (err 404 ''no baseline'') db
      | Some b \<Rightarrow> replies (if py_truth b then Reply 200 b else err 404 ''no baseline'') db)"

definition members_json :: "int \<Rightarrow> server_db \<Rightarrow> json" where
  "members_json project db = JObj
     [(''project_id'', JInt project),
      (''members'', JList (map (\<lambda>(e, r). JObj [(''email'', JStr e), (''role'', JStr r)]) (members_of project db)))]"

definition post_member :: "api_env \<Rightarrow> service_identity \<Rightarrow> int \<Rightarrow> api_request \<Rightarrow> server_db \<Rightarrow> api_result" where
  "post_member env ident project rq db =
     (case body_or_empty rq of
        None \<Rightarrow> fails db
      | Some body \<Rightarrow>
          (let email = strip (py_str (dict_get_or body ''email'' (JStr [])));
               role = strip (py_str (dict_get_or body ''role'' (JStr [])))
           in if email = [] \<or> role \<notin> {''admin'', ''maintainer'', ''member'', ''viewer''} then
                replies (err 400 ''email and a known role required'') db
              else
                (let db1 = audited env ident ''project.member.add'' (str_int project) []
                       (add_project_member (ae_clock env) project email role db)
                 in replies (Reply 200 (members_json project db1)) db1)))"

definition get_members :: "int \<Rightarrow> server_db \<Rightarrow> api_result" where
  "get_members project db = replies (Reply 200 (members_json project db)) db"

section \<open>Fleet analytics\<close>

definition enrolment_json :: "int \<times> timestamp \<Rightarrow> row" where
  "enrolment_json = (\<lambda>(i, at). [(''id'', JInt i), (''created_at'', JStr at)])"

definition fact_json :: "snapshot_fact \<Rightarrow> row" where
  "fact_json f =
     [(''machine_id'', JInt (sf_machine_id f)), (''created_at'', sf_created_at f),
      (''verdict'', JStr (sf_verdict f)),
      (''tools'', JObj (map (\<lambda>(k, v). (k, JStr v)) (sf_tools f)))]"

definition withheld_because :: "nat \<Rightarrow> string" where
  "withheld_because cohort =
     str_nat cohort @ '' machine(s) have reached READY; no distribution is reported below '' @
     str_nat MINIMUM_COHORT @ '', because one over a handful identifies individuals.''"

definition onboarding_json :: "api_env \<Rightarrow> onboarding_stats \<Rightarrow> json" where
  "onboarding_json env s = JObj
     [(''cohort'', JInt (int (os_cohort s))),
      (''median_hours'', case os_median s of None \<Rightarrow> JNull | Some d \<Rightarrow> ae_hours env d),
      (''p90_hours'', case os_p90 s of None \<Rightarrow> JNull | Some d \<Rightarrow> ae_hours env d),
      (''never_ready'', JInt (int (os_never_ready s))),
      (''withheld_because'', if os_withheld s then JStr (withheld_because (os_cohort s)) else JNull),
      (''scope'', JStr (''Aggregate only. No machine, user or label appears here, and nothing '' @
         ''is reported below a cohort of '' @ str_nat MINIMUM_COHORT @ '': a distribution over a '' @
         ''handful of machines identifies individuals. This is a process metric, not a performance one.''))]"

definition get_onboarding :: "api_env \<Rightarrow> service_identity \<Rightarrow> server_db \<Rightarrow> api_result" where
  "get_onboarding env ident db =
     (case snapshot_facts (si_org_id ident) 5000 db of
        Inl e \<Rightarrow> fails db
      | Inr facts \<Rightarrow>
          (case onboarding_stats (ae_from_iso env)
                  (map enrolment_json (enrolment_rows (si_org_id ident) db)) (map fact_json facts) of
             Inl e \<Rightarrow> fails db
           | Inr s \<Rightarrow> replies (Reply 200 (onboarding_json env s)) db))"

text \<open>The first fact of every machine, the facts being newest first.\<close>

definition latest_facts :: "snapshot_fact list \<Rightarrow> snapshot_fact list" where
  "latest_facts facts =
     map snd (fold (\<lambda>f latest. if map_of latest (sf_machine_id f) = None
                               then dict_set (sf_machine_id f) f latest else latest) facts [])"

definition simulation_json :: "policy_simulation \<Rightarrow> json" where
  "simulation_json s = JObj
     [(''evaluated'', JInt (int (ps_evaluated s))), (''unevaluated'', JInt (int (ps_unevaluated s))),
      (''newly_failing'', JInt (int (ps_newly_failing s))),
      (''causes'', JObj (map (\<lambda>(k, n). (k, JInt (int n))) (reported_causes s))),
      (''safe'', JBool (ps_safe s)),
      (''caveat'', JStr (''Simulated against each machine'' @ [CHR 0x27] @ ''s most recent stored snapshot, which '' @
         ''may be old. A machine that has not reported since the change it needs will show as failing '' @
         ''when it is not, and one that has drifted since its last scan will show as passing when it is not.''))]"

definition post_simulation :: "api_env \<Rightarrow> service_identity \<Rightarrow> api_request \<Rightarrow> server_db \<Rightarrow> api_result" where
  "post_simulation env ident rq db =
     (case rq_body rq of
        JObj body \<Rightarrow>
          (case ae_policy env (JObj body) of
             None \<Rightarrow> replies (err 400 ''policy document failed validation'') db
           | Some pol \<Rightarrow>
               (case snapshot_facts (si_org_id ident) 5000 db of
                  Inl e \<Rightarrow> fails db
                | Inr facts \<Rightarrow>
                    replies (Reply 200 (simulation_json
                      (simulate_policy pol (map fact_json (latest_facts facts))))) db))
      | _ \<Rightarrow> replies (err 400 ''policy document must be a JSON object'') db)"

section \<open>Policies and exceptions\<close>

definition put_policy :: "api_env \<Rightarrow> service_identity \<Rightarrow> string \<Rightarrow> api_request \<Rightarrow> server_db \<Rightarrow> api_result" where
  "put_policy env ident name rq db =
     (case rq_body rq of
        JObj body \<Rightarrow>
          (case set_policy (ae_clock env) (si_org_id ident) name (JObj body) db of
             Inl e \<Rightarrow> fails db
           | Inr (i, db1) \<Rightarrow>
               replies (Reply 200 (JObj [(''policy_id'', JInt i)])) (audited env ident ''policy.set'' name [] db1))
      | _ \<Rightarrow> replies (err 400 ''policy document must be a JSON object'') db)"

definition get_policy :: "service_identity \<Rightarrow> string \<Rightarrow> server_db \<Rightarrow> api_result" where
  "get_policy ident name db =
     (case active_policy (si_org_id ident) name db of
        None \<Rightarrow> replies (err 404 ''no active policy'') db
      | Some doc \<Rightarrow> replies (if py_truth doc then Reply 200 doc else err 404 ''no active policy'') db)"

definition post_exception :: "api_env \<Rightarrow> service_identity \<Rightarrow> api_request \<Rightarrow> server_db \<Rightarrow> api_result" where
  "post_exception env ident rq db =
     (case body_or_empty rq of
        None \<Rightarrow> fails db
      | Some body \<Rightarrow>
          (case py_int (dict_get_or body ''days'' (JInt 30)) of
             Inl e \<Rightarrow> fails db
           | Inr n \<Rightarrow>
               (let rule = py_str (dict_get_or body ''rule_id'' (JStr []));
                    justification = py_str (dict_get_or body ''justification'' (JStr []));
                    days = min (max n 1) 365
                in if rule = [] \<or> length justification < 10 then
                     replies (err 400 ''rule_id and justification (>=10 chars) required'') db
                   else
                     (case request_exception (ae_clock env) (si_org_id ident) rule justification
                             (si_name ident) days db of
                        (i, db1) \<Rightarrow>
                          replies (Reply 201 (JObj [(''exception_id'', JInt i)]))
                            (audited env ident ''exception.request'' rule [] db1)))))"

definition post_review :: "api_env \<Rightarrow> service_identity \<Rightarrow> int \<Rightarrow> api_request \<Rightarrow> server_db \<Rightarrow> api_result" where
  "post_review env ident eid rq db =
     (case body_or_empty rq of
        None \<Rightarrow> fails db
      | Some body \<Rightarrow>
          (let approve = py_truth (dict_get body ''approve'') in
           case review_exception eid (si_name ident) approve db of
             (ok, db1) \<Rightarrow>
               if \<not> ok then replies (err 409 ''not pending or already reviewed'') db1
               else replies (Reply 200 (JObj [(''status'', JStr (if approve then ''approved'' else ''rejected''))]))
                      (audited env ident ''exception.review'' (str_int eid) [(''approved'', JBool approve)] db1)))"

section \<open>Audit, retention and webhooks\<close>

definition audit_json :: "audit_row \<Rightarrow> json" where
  "audit_json r = JObj
     [(''actor'', JStr (au_actor r)), (''action'', JStr (au_action r)), (''target'', JStr (au_target r)),
      (''detail'', au_detail r), (''occurred_at'', JStr (au_occurred_at r))]"

definition get_audit :: "service_identity \<Rightarrow> server_db \<Rightarrow> api_result" where
  "get_audit ident db = replies (Reply 200 (JList (map audit_json (audit_log (si_org_id ident) 200 db)))) db"

definition put_retention :: "api_env \<Rightarrow> service_identity \<Rightarrow> api_request \<Rightarrow> server_db \<Rightarrow> api_result" where
  "put_retention env ident rq db =
     (case body_or_empty rq of
        None \<Rightarrow> fails db
      | Some body \<Rightarrow>
          (case (py_int (dict_get_or body ''snapshot_days'' (JInt 90)),
                 py_int (dict_get_or body ''audit_days'' (JInt 365))) of
             (Inr snapshot_days, Inr audit_days) \<Rightarrow>
               replies (Reply 200 (JObj [(''ok'', JBool True)]))
                 (audited env ident ''retention.set'' ''org'' []
                    (set_retention (si_org_id ident) snapshot_days audit_days db))
           | _ \<Rightarrow> fails db))"

definition post_retention :: "api_env \<Rightarrow> service_identity \<Rightarrow> server_db \<Rightarrow> api_result" where
  "post_retention env ident db =
     (case apply_retention (ae_clock env) (si_org_id ident) db of
        ((snaps, audits), db1) \<Rightarrow>
          (let result = [(''snapshots_deleted'', JInt (int snaps)), (''audit_deleted'', JInt (int audits))] in
           replies (Reply 200 (JObj result)) (audited env ident ''retention.apply'' ''org'' result db1)))"

definition post_webhook :: "api_env \<Rightarrow> service_identity \<Rightarrow> api_request \<Rightarrow> server_db \<Rightarrow> api_result" where
  "post_webhook env ident rq db =
     (case body_or_empty rq of
        None \<Rightarrow> fails db
      | Some body \<Rightarrow>
          (case py_elements (dict_get_or body ''events'' (JList [JStr ''*''])) of
             Inl e \<Rightarrow> fails db
           | Inr events \<Rightarrow>
               (let url = py_str (dict_get_or body ''url'' (JStr [])) in
                if \<not> (starts_with url ''https://'' \<or> starts_with url ''http://localhost'') then
                  replies (err 400 ''webhook URL must be https (or localhost for dev)'') db
                else
                  (let secret = ''ddwh_'' @ ae_secret env in
                   case add_webhook (ae_clock env) (si_org_id ident) url secret (map py_str events) db of
                     (i, db1) \<Rightarrow>
                       replies (Reply 201 (JObj [(''id'', JInt i), (''secret'', JStr secret)]))
                         (audited env ident ''webhook.add'' url [] db1)))))"

section \<open>Health and metrics\<close>

definition get_health :: "server_db \<Rightarrow> api_result" where
  "get_health db = replies (Reply 200 (JObj
     [(''status'', JStr ''ok''), (''storage'', JStr ''sqlite''), (''schema_version'', JInt 1),
      (''organizations'', JInt (int (organization_count db)))])) db"

definition get_metrics :: "(string \<times> nat) list \<Rightarrow> server_db \<Rightarrow> api_result" where
  "get_metrics counters db =
     (let quote = [CHR 0x22];
          own = concat (map (\<lambda>(name, value).
            let safe = filter (\<lambda>c. c \<noteq> CHR 0x22) name in
            [''# TYPE devrepro_'' @ safe @ '' counter'',
             ''devrepro_'' @ safe @ ''{cause='' @ quote @ safe @ quote @ ''} '' @ str_nat value]) (sort counters));
          lines = [''# HELP devrepro_machines_enrolled Total enrolled machines.'',
             ''# TYPE devrepro_machines_enrolled counter'',
             ''devrepro_machines_enrolled '' @ str_nat (length (tb_rows (machines db))),
             ''# HELP devrepro_snapshots_published Total stored snapshots.'',
             ''# TYPE devrepro_snapshots_published counter'',
             ''devrepro_snapshots_published '' @ str_nat (length (tb_rows (snapshots db))),
             ''# HELP devrepro_organizations_total Registered organizations.'',
             ''# TYPE devrepro_organizations_total gauge'',
             ''devrepro_organizations_total '' @ str_nat (length (tb_rows (organizations db)))] @ own
      in replies (Plain 200 (join [CHR 0x0A] lines @ [CHR 0x0A])) db)"

text \<open>The counters appear with the first look at the metrics; from then on errors count.\<close>

definition seen_metrics :: "(string \<times> nat) list option \<Rightarrow> (string \<times> nat) list option" where
  "seen_metrics counters = (case counters of None \<Rightarrow> Some [] | Some c \<Rightarrow> Some c)"

definition count_errors :: "api_response \<Rightarrow> (string \<times> nat) list option \<Rightarrow> (string \<times> nat) list option" where
  "count_errors resp counters =
     (if status_of resp \<ge> 500 then map_option (count_up ''http_errors'') counters else counters)"

section \<open>The routes\<close>

datatype endpoint =
    Health | Enroll | Publish | Machines | Snapshots | Approve_Baseline | Baseline_Of int
  | Add_Member int | Members int | Onboarding | Simulate | Put_Policy string | Get_Policy string
  | Request_Exception | Review_Exception int | Audit_Log | Put_Retention | Apply_Retention
  | Add_Webhook | Metrics | Openapi

text \<open>The decorator of each handler.\<close>

fun role_needed :: "endpoint \<Rightarrow> string option" where
  "role_needed Machines = Some ''viewer''"
| "role_needed Snapshots = Some ''viewer''"
| "role_needed Approve_Baseline = Some ''maintainer''"
| "role_needed (Baseline_Of p) = Some ''viewer''"
| "role_needed (Add_Member p) = Some ''admin''"
| "role_needed (Members p) = Some ''viewer''"
| "role_needed Onboarding = Some ''viewer''"
| "role_needed Simulate = Some ''maintainer''"
| "role_needed (Put_Policy n) = Some ''admin''"
| "role_needed (Get_Policy n) = Some ''viewer''"
| "role_needed Request_Exception = Some ''maintainer''"
| "role_needed (Review_Exception e) = Some ''admin''"
| "role_needed Audit_Log = Some ''admin''"
| "role_needed Put_Retention = Some ''admin''"
| "role_needed Apply_Retention = Some ''admin''"
| "role_needed Add_Webhook = Some ''admin''"
| "role_needed _ = None"

fun guarded :: "api_env \<Rightarrow> service_identity \<Rightarrow> endpoint \<Rightarrow> api_request \<Rightarrow> server_db \<Rightarrow> api_result" where
  "guarded env ident Machines rq db = list_machines ident db"
| "guarded env ident Snapshots rq db = get_snapshots ident db"
| "guarded env ident Approve_Baseline rq db = post_baseline env ident rq db"
| "guarded env ident (Baseline_Of p) rq db = get_baseline p db"
| "guarded env ident (Add_Member p) rq db = post_member env ident p rq db"
| "guarded env ident (Members p) rq db = get_members p db"
| "guarded env ident Onboarding rq db = get_onboarding env ident db"
| "guarded env ident Simulate rq db = post_simulation env ident rq db"
| "guarded env ident (Put_Policy n) rq db = put_policy env ident n rq db"
| "guarded env ident (Get_Policy n) rq db = get_policy ident n db"
| "guarded env ident Request_Exception rq db = post_exception env ident rq db"
| "guarded env ident (Review_Exception e) rq db = post_review env ident e rq db"
| "guarded env ident Audit_Log rq db = get_audit ident db"
| "guarded env ident Put_Retention rq db = put_retention env ident rq db"
| "guarded env ident Apply_Retention rq db = post_retention env ident db"
| "guarded env ident Add_Webhook rq db = post_webhook env ident rq db"
| "guarded env ident _ rq db = fails db"

definition open_endpoint ::
  "api_env \<Rightarrow> json \<Rightarrow> (string \<times> nat) list \<Rightarrow> endpoint \<Rightarrow> api_request \<Rightarrow> server_db \<Rightarrow> api_result" where
  "open_endpoint env openapi counters ep rq db =
     (if ep = Health then get_health db
      else if ep = Enroll then enroll env rq db
      else if ep = Publish then publish_snapshot env rq db
      else if ep = Metrics then get_metrics counters db
      else replies (Reply 200 openapi) db)"

record api_state =
  as_db :: server_db
  as_counters :: "(string \<times> nat) list option"

definition handle :: "api_env \<Rightarrow> json \<Rightarrow> endpoint \<Rightarrow> api_request \<Rightarrow> api_state \<Rightarrow> api_response \<times> api_state \<times> delivery list" where
  "handle env openapi ep rq st =
     (let counters = (if ep = Metrics then seen_metrics (as_counters st) else as_counters st);
          (resp, db, sent) =
            (case role_needed ep of
               None \<Rightarrow> open_endpoint env openapi (case counters of None \<Rightarrow> [] | Some c \<Rightarrow> c) ep rq (as_db st)
             | Some role \<Rightarrow>
                 (case require_role env role rq (as_db st) of
                    Inl refusal \<Rightarrow> replies refusal (as_db st)
                  | Inr ident \<Rightarrow> guarded env ident ep rq (as_db st)))
      in (resp, \<lparr>as_db = db, as_counters = count_errors resp counters\<rparr>, sent))"

end
