(* ===== verification/Server_Access.thy ===== *)
theory Server_Access
  imports Server_API
begin

text \<open>
  What the HTTP interface lets whom do: the published description against the decorators of the
  handlers, refusals, the audit trail, and the isolation of organizations with what crosses it.
\<close>

section \<open>The published description\<close>

text \<open>Method, path, operation id, summary and whether the operation needs authentication.\<close>

type_synonym route_spec = "string \<times> string \<times> string \<times> string \<times> bool"

definition API_ROUTES :: "route_spec list" where
  "API_ROUTES =
     [(''GET'', ''/healthz'', ''healthLiveness'', ''Liveness probe'', False),
      (''GET'', ''/api/v1/health'', ''healthReadiness'', ''Readiness details'', False),
      (''POST'', ''/api/v1/enroll'', ''enrollMachine'', ''Enroll a machine with a one-time token'', False),
      (''POST'', ''/api/v1/snapshots'', ''publishSnapshot'',
         ''Publish a sanitized snapshot (sanitized-only fields accepted)'', True),
      (''GET'', ''/api/v1/machines'', ''listMachines'', ''List enrolled machines'', True),
      (''GET'', ''/api/v1/snapshots'', ''listSnapshots'', ''List published snapshots'', True),
      (''POST'', ''/api/v1/baselines'', ''approveBaseline'', ''Approve a project baseline'', True),
      (''GET'', ''/api/v1/baselines/{project_id}'', ''getBaseline'',
         ''Fetch the latest approved baseline for a project'', True),
      (''PUT'', ''/api/v1/policies/{name}'', ''setPolicy'', ''Store a policy-as-code document'', True),
      (''GET'', ''/api/v1/policies/{name}'', ''getPolicy'', ''Fetch the active policy document'', True),
      (''POST'', ''/api/v1/projects/{project_id}/members'', ''addProjectMember'',
         ''Give one person a role on one project, so baselines are team-scoped'', True),
      (''GET'', ''/api/v1/projects/{project_id}/members'', ''listProjectMembers'',
         ''Who may administer this project'' @ [CHR 0x27] @ ''s baseline'', True),
      (''GET'', ''/api/v1/fleet/onboarding'', ''fleetOnboarding'',
         ''Aggregate time from enrolment to first READY. No machine or user is returned'', True),
      (''POST'', ''/api/v1/fleet/simulate-policy'', ''simulatePolicy'',
         ''Who would this policy break, evaluated against stored snapshots'', True),
      (''POST'', ''/api/v1/exceptions'', ''requestException'', ''Request a policy exception'', True),
      (''POST'', ''/api/v1/exceptions/{eid}/review'', ''reviewException'', ''Approve or reject an exception'', True),
      (''GET'', ''/api/v1/audit'', ''queryAuditLog'', ''Query the immutable audit log'', True),
      (''PUT'', ''/api/v1/retention'', ''setRetention'', ''Configure retention windows'', True),
      (''POST'', ''/api/v1/retention/apply'', ''applyRetention'', ''Apply retention now'', True),
      (''POST'', ''/api/v1/webhooks'', ''createWebhook'', ''Register a signed webhook endpoint'', True),
      (''GET'', ''/api/v1/openapi.json'', ''getOpenApiSpec'', ''This OpenAPI document'', False),
      (''GET'', ''/metrics'', ''prometheusMetrics'', ''Prometheus-compatible counters'', False)]"

definition error_response :: json where
  "error_response = JObj
     [(''description'', JStr ''Error envelope''),
      (''content'', JObj [(''application/json'', JObj [(''schema'', JObj
         [(''type'', JStr ''object''),
          (''properties'', JObj [(''error'', JObj [(''type'', JStr ''string'')])]),
          (''required'', JList [JStr ''error''])])])])]"

definition operation_json :: "route_spec \<Rightarrow> json" where
  "operation_json = (\<lambda>(meth, path, op_id, summary, needs_auth). JObj
     ([(''operationId'', JStr op_id), (''summary'', JStr summary),
       (''responses'', JObj [(''200'', JObj [(''description'', JStr ''Success'')]),
          (''400'', error_response), (''401'', error_response), (''413'', error_response)])] @
      (if needs_auth then [(''security'', JList [JObj [(''bearerAuth'', JList [])]])] else [])))"

text \<open>\<open>paths.setdefault(path, {})[method.lower()] = op\<close>.\<close>

definition add_route :: "route_spec \<Rightarrow> (string \<times> row) list \<Rightarrow> (string \<times> row) list" where
  "add_route r paths =
     (case r of (meth, path, rest) \<Rightarrow>
        dict_set path (dict_set (py_lower meth) (operation_json r)
          (case map_of paths path of None \<Rightarrow> [] | Some item \<Rightarrow> item)) paths)"

definition build_openapi_spec :: "string \<Rightarrow> string \<Rightarrow> json" where
  "build_openapi_spec title ver = JObj
     ([(''openapi'', JStr ''3.1.0''),
       (''info'', JObj [(''title'', JStr title), (''version'', JStr ver),
          (''description'', JStr (''Versioned fleet API for self-hosted DevRepro Doctor servers. '' @
             ''All snapshot payloads are sanitized; secret-classified fields are rejected at ingestion.''))]),
       (''servers'', JList [JObj [(''url'', JStr ''/''), (''description'', JStr ''this server'')]]),
       (''paths'', JObj (map (\<lambda>(p, item). (p, JObj item)) (fold add_route API_ROUTES [])))] @
      (if list_ex (\<lambda>(m, p, o', s, auth). auth) API_ROUTES then
         [(''components'', JObj [(''securitySchemes'', JObj [(''bearerAuth'', JObj
            [(''type'', JStr ''http''), (''scheme'', JStr ''bearer''),
             (''description'', JStr ''Service-account token or OIDC-derived identity'')])])])]
       else []))"

text \<open>The route each handler is registered under, its parameters written as the description writes them.\<close>

fun route_of :: "endpoint \<Rightarrow> string \<times> string" where
  "route_of Health = (''GET'', ''/api/v1/health'')"
| "route_of Enroll = (''POST'', ''/api/v1/enroll'')"
| "route_of Publish = (''POST'', ''/api/v1/snapshots'')"
| "route_of Machines = (''GET'', ''/api/v1/machines'')"
| "route_of Snapshots = (''GET'', ''/api/v1/snapshots'')"
| "route_of Approve_Baseline = (''POST'', ''/api/v1/baselines'')"
| "route_of (Baseline_Of p) = (''GET'', ''/api/v1/baselines/{project_id}'')"
| "route_of (Add_Member p) = (''POST'', ''/api/v1/projects/{project_id}/members'')"
| "route_of (Members p) = (''GET'', ''/api/v1/projects/{project_id}/members'')"
| "route_of Onboarding = (''GET'', ''/api/v1/fleet/onboarding'')"
| "route_of Simulate = (''POST'', ''/api/v1/fleet/simulate-policy'')"
| "route_of (Put_Policy n) = (''PUT'', ''/api/v1/policies/{name}'')"
| "route_of (Get_Policy n) = (''GET'', ''/api/v1/policies/{name}'')"
| "route_of Request_Exception = (''POST'', ''/api/v1/exceptions'')"
| "route_of (Review_Exception e) = (''POST'', ''/api/v1/exceptions/{eid}/review'')"
| "route_of Audit_Log = (''GET'', ''/api/v1/audit'')"
| "route_of Put_Retention = (''PUT'', ''/api/v1/retention'')"
| "route_of Apply_Retention = (''POST'', ''/api/v1/retention/apply'')"
| "route_of Add_Webhook = (''POST'', ''/api/v1/webhooks'')"
| "route_of Metrics = (''GET'', ''/metrics'')"
| "route_of Openapi = (''GET'', ''/api/v1/openapi.json'')"

definition documented_auth :: "endpoint \<Rightarrow> bool option" where
  "documented_auth ep =
     map_of (map (\<lambda>(m, p, op_id, s, auth). ((m, p), auth)) API_ROUTES) (route_of ep)"

text \<open>
  The published description says of every operation whether it needs a token, and it is right
  about every handler but one: publishing a snapshot is described as authenticated and its
  handler asks for no token.
\<close>

theorem documented_auth_is_enforced:
  "documented_auth ep = Some (role_needed ep \<noteq> None \<or> ep = Publish) \<and> role_needed Publish = None"
  by (cases ep) (simp_all add: documented_auth_def API_ROUTES_def)

theorem documented_auth_is_enforced_witness: "documented_auth Publish = Some True \<and> role_needed Publish = None"
  using documented_auth_is_enforced [of Publish] by simp

section \<open>Refusals\<close>

lemma require_role_Inr:
  "require_role env role rq db = Inr ident \<longleftrightarrow>
     strip (remove_bearer (rq_authorization rq)) \<noteq> [] \<and>
     authenticate_service_token (ae_sha env) (strip (remove_bearer (rq_authorization rq))) db = Some ident \<and>
     rank_of role \<le> rank_of (si_role ident)"
  by (auto simp: require_role_def Let_def split: option.split)

lemma require_role_Inl:
  "require_role env role rq db = Inl refusal \<Longrightarrow> status_of refusal = 401 \<or> status_of refusal = 403"
  by (auto simp: require_role_def Let_def err_def split: option.splits if_splits)

text \<open>
  C19: A guarded operation runs for nobody it should not: without a token that belongs to an account
  of sufficient rank the answer is 401 or 403, the store is as it was and no webhook fires.
\<close>

theorem refused_requests_change_nothing:
  assumes "role_needed ep = Some role"
    and "\<And>ident. authenticate_service_token (ae_sha env) (strip (remove_bearer (rq_authorization rq))) (as_db st) =
           Some ident \<Longrightarrow> rank_of (si_role ident) < rank_of role"
  shows "\<exists>resp st'. handle env openapi ep rq st = (resp, st', []) \<and> as_db st' = as_db st \<and>
           status_of resp \<in> {401, 403}"
proof -
  obtain refusal where r: "require_role env role rq (as_db st) = Inl refusal"
    using assms(2) require_role_Inr [of env role rq "as_db st"]
    by (cases "require_role env role rq (as_db st)") (auto simp: not_le [symmetric])
  then show ?thesis
    using require_role_Inl [OF r] assms(1) by (auto simp: handle_def replies_def Let_def)
qed

text \<open>An agent account outranks nothing.\<close>

definition demo_api_env :: api_env where
  "demo_api_env = \<lparr>ae_sha = (\<lambda>s. s), ae_hmac = (\<lambda>k m. k @ m), ae_clock = demo_clock, ae_secret = ''w'',
     ae_policy = (\<lambda>j. None), ae_from_iso = demo_iso, ae_hours = JInt\<rparr>"

definition with_account :: "int \<Rightarrow> string \<Rightarrow> server_db \<Rightarrow> server_db" where
  "with_account org role db = db\<lparr>service_accounts := \<lparr>tb_seq = 1, tb_rows = [(1, \<lparr>sa_org = org, sa_name = ''bot'',
     sa_role = role, sa_token_hash = ''ddsa_k'', sa_scopes = [], sa_created_at = ''t'', sa_revoked_at = None\<rparr>)]\<rparr>\<rparr>"

definition demo_request :: "json \<Rightarrow> api_request" where
  "demo_request body = \<lparr>rq_authorization = ''Bearer ddsa_k'', rq_body = body\<rparr>"

lemma demo_token: "strip (remove_bearer (rq_authorization (demo_request b))) = ''ddsa_k''"
proof -
  have "strip (remove_bearer ''Bearer ddsa_k'') = ''ddsa_k''" by code_simp
  then show ?thesis by (simp add: demo_request_def)
qed

lemma demo_identity:
  "authenticate_service_token (ae_sha demo_api_env) ''ddsa_k'' (with_account org role db) =
     Some \<lparr>si_id = 1, si_org_id = org, si_name = ''bot'', si_role = role\<rparr>"
  by (simp add: authenticate_service_token_def with_account_def select_rows_def fetchone_def demo_api_env_def)

lemma refused_requests_change_nothing_witness:
  "\<exists>resp st'. handle demo_api_env JNull Audit_Log (demo_request JNull)
       \<lparr>as_db = with_account 1 ''agent'' empty_db, as_counters = None\<rparr> = (resp, st', []) \<and>
     as_db st' = with_account 1 ''agent'' empty_db"
proof -
  have r: "rank_of ''agent'' < rank_of ''admin''" by code_simp
  show ?thesis
    using refused_requests_change_nothing [where ep = Audit_Log and role = "''admin''" and env = demo_api_env
        and rq = "demo_request JNull" and st = "\<lparr>as_db = with_account 1 ''agent'' empty_db, as_counters = None\<rparr>"
        and openapi = JNull] r
    by (auto simp: demo_token demo_identity)
qed

section \<open>Handlers leave a trace\<close>

lemmas handler_defs = list_machines_def get_snapshots_def post_baseline_def get_baseline_def post_member_def
  get_members_def get_onboarding_def post_simulation_def put_policy_def get_policy_def post_exception_def
  post_review_def get_audit_def put_retention_def post_retention_def post_webhook_def

definition traced :: "api_env \<Rightarrow> service_identity \<Rightarrow> server_db \<Rightarrow> api_result \<Rightarrow> bool" where
  "traced env ident db res \<longleftrightarrow>
     fst (snd res) = db \<or> (\<exists>action target detail db1. fst (snd res) = audited env ident action target detail db1)"

lemma traced_intros [intro]:
  "traced env ident db (fails db)" "traced env ident db (replies r db)"
  "traced env ident db (replies r (audited env ident action target detail db1))"
  by (auto simp: traced_def fails_def replies_def)

lemma update_rows_none: "select_rows P t = [] \<Longrightarrow> update_rows P f t = t"
  by (cases t) (auto simp: select_rows_def update_rows_def filter_empty_conv case_prod_unfold intro!: map_idI)

lemma review_nothing: "review_exception e who ok db = (False, db1) \<Longrightarrow> db1 = db"
  by (auto simp: review_exception_def Let_def update_rows_none)

lemma traced_review: "traced env ident db (post_review env ident e rq db)"
  by (auto simp: post_review_def Let_def split: option.split prod.split dest!: review_nothing)

lemma traced_guarded: "traced env ident db (guarded env ident ep rq db)"
proof (cases ep)
  case (Review_Exception e)
  then show ?thesis using traced_review by simp
qed (auto simp: handler_defs Let_def split: option.split sum.split prod.split json.split)

text \<open>
  C20: Every change an authenticated request makes is on the audit log: when a guarded handler leaves
  the store different, the last audit event names the identity it ran under and its organization.
\<close>

theorem changes_are_audited:
  "fst (snd (guarded env ident ep rq db)) = db \<or>
   (\<exists>seq r. last (tb_rows (audit_events (fst (snd (guarded env ident ep rq db))))) = (seq, r) \<and>
      au_org r = si_org_id ident \<and> au_actor r = si_name ident)"
  using traced_guarded [of env ident db ep rq]
  by (auto simp: traced_def audited_def audit_def append_row_def Let_def)

section \<open>Tenants\<close>

definition tenant_rows :: "('r \<Rightarrow> bool) \<Rightarrow> 'r table \<Rightarrow> (int \<times> 'r) list" where
  "tenant_rows P t = filter (\<lambda>(i, r). P r) (tb_rows t)"

definition machine_ids :: "int \<Rightarrow> server_db \<Rightarrow> int set" where
  "machine_ids org db = fst ` set (select_rows (\<lambda>j m. mc_org m = org) (machines db))"

text \<open>What belongs to an organization is the same in both stores, and no baseline or project
  membership is touched at all.\<close>

definition tenant_untouched :: "int \<Rightarrow> server_db \<Rightarrow> server_db \<Rightarrow> bool" where
  "tenant_untouched tenant db db' \<longleftrightarrow>
     tenant_rows (\<lambda>r. po_org r = tenant) (policies db') = tenant_rows (\<lambda>r. po_org r = tenant) (policies db) \<and>
     tenant_rows (\<lambda>r. ex_org r = tenant) (exceptions db') = tenant_rows (\<lambda>r. ex_org r = tenant) (exceptions db) \<and>
     tenant_rows (\<lambda>r. wh_org r = tenant) (webhooks db') = tenant_rows (\<lambda>r. wh_org r = tenant) (webhooks db) \<and>
     tenant_rows (\<lambda>r. au_org r = tenant) (audit_events db') = tenant_rows (\<lambda>r. au_org r = tenant) (audit_events db) \<and>
     tenant_rows (\<lambda>s. sn_machine s \<in> machine_ids tenant db) (snapshots db') =
       tenant_rows (\<lambda>s. sn_machine s \<in> machine_ids tenant db) (snapshots db) \<and>
     map_of (retention_policies db') tenant = map_of (retention_policies db) tenant \<and>
     machines db' = machines db \<and> service_accounts db' = service_accounts db \<and>
     enrollment_tokens db' = enrollment_tokens db \<and> projects db' = projects db \<and> users db' = users db \<and>
     baselines db' = baselines db \<and> project_members db' = project_members db"

lemma tenant_untouched_refl [intro, simp]: "tenant_untouched tenant db db"
  by (simp add: tenant_untouched_def)

lemma tenant_rows_append [simp]:
  "tenant_rows P (snd (append_row r t)) = tenant_rows P t @ (if P r then [(tb_seq t + 1, r)] else [])"
  by (simp add: tenant_rows_def append_row_def Let_def)

lemma tenant_untouched_audited:
  "tenant_untouched tenant db db1 \<Longrightarrow> si_org_id ident \<noteq> tenant \<Longrightarrow>
     tenant_untouched tenant db (audited env ident action target detail db1)"
  by (simp add: tenant_untouched_def audited_def audit_def)

lemma tenant_untouched_policy:
  "set_policy c org name doc db = Inr (i, db1) \<Longrightarrow> org \<noteq> tenant \<Longrightarrow> tenant_untouched tenant db db1"
  by (auto simp: set_policy_def insert_row_def result_simps tenant_untouched_def append_row_def Let_def
      tenant_rows_def split: if_splits)

lemma tenant_untouched_exception:
  "request_exception c org rule justification who days db = (i, db1) \<Longrightarrow> org \<noteq> tenant \<Longrightarrow>
     tenant_untouched tenant db db1"
  by (auto simp: request_exception_def tenant_untouched_def append_row_def Let_def tenant_rows_def)

lemma tenant_untouched_webhook:
  "add_webhook c org url secret events db = (i, db1) \<Longrightarrow> org \<noteq> tenant \<Longrightarrow> tenant_untouched tenant db db1"
  by (auto simp: add_webhook_def tenant_untouched_def append_row_def Let_def tenant_rows_def)

lemma tenant_untouched_set_retention:
  "org \<noteq> tenant \<Longrightarrow> tenant_untouched tenant db (set_retention org days adays db)"
  by (simp add: set_retention_def tenant_untouched_def)

lemma machine_ids_disjoint:
  assumes "distinct (map fst (tb_rows (machines db)))" and "org \<noteq> tenant"
  shows "machine_ids org db \<inter> machine_ids tenant db = {}"
proof -
  have "m = m'" if "(i, m) \<in> set (tb_rows (machines db))" "(i, m') \<in> set (tb_rows (machines db))" for i m m'
    using that assms(1) by (metis eq_key_imp_eq_value)
  moreover have "\<exists>m. (i, m) \<in> set (tb_rows (machines db)) \<and> mc_org m = t" if "i \<in> machine_ids t db" for i t
    using that by (auto simp: machine_ids_def select_rows_def)
  ultimately show ?thesis using assms(2) by (metis disjoint_iff)
qed

lemma tenant_rows_delete:
  assumes "\<And>i r. D i r \<Longrightarrow> \<not> P r"
  shows "tenant_rows P (delete_rows D t) = tenant_rows P t"
proof -
  have "filter (\<lambda>(i, r). P r) (filter (\<lambda>(i, x). \<not> D i x) xs) = filter (\<lambda>(i, r). P r) xs" for xs
    by (induction xs) (auto dest: assms)
  then show ?thesis by (simp add: tenant_rows_def delete_rows_def)
qed

lemma apply_retention_deletes:
  assumes "apply_retention c org db = (n, db1)"
  obtains S A where "db1 = db\<lparr>snapshots := delete_rows S (snapshots db), audit_events := delete_rows A (audit_events db)\<rparr>"
    and "\<And>i s. S i s \<Longrightarrow> sn_machine s \<in> machine_ids org db" and "\<And>i a. A i a \<Longrightarrow> au_org a = org"
proof -
  obtain days adays where "(case map_of (retention_policies db) org of None \<Rightarrow> (90, 365) | Some p \<Rightarrow> p) = (days, adays)"
    by force
  then show thesis
    using assms that [of "\<lambda>i a. au_org a = org \<and> au_occurred_at a < days_from_now c (- adays)"
        "\<lambda>i s. sn_received_at s < days_from_now c (- days) \<and> sn_machine s \<in> machine_ids org db"]
    by (simp add: apply_retention_def machine_ids_def Let_def)
qed

lemma tenant_untouched_retention:
  assumes "apply_retention c org db = (n, db1)" and "org \<noteq> tenant"
    and "distinct (map fst (tb_rows (machines db)))"
  shows "tenant_untouched tenant db db1"
proof -
  obtain S A where db1: "db1 = db\<lparr>snapshots := delete_rows S (snapshots db), audit_events := delete_rows A (audit_events db)\<rparr>"
    and S: "\<And>i s. S i s \<Longrightarrow> sn_machine s \<in> machine_ids org db" and A: "\<And>i a. A i a \<Longrightarrow> au_org a = org"
    using apply_retention_deletes [OF assms(1)] by blast
  have "\<not> sn_machine s \<in> machine_ids tenant db" if "S i s" for i s
    using machine_ids_disjoint [OF assms(3,2)] S [OF that] by auto
  moreover have "\<not> au_org a = tenant" if "A i a" for i a using A [OF that] assms(2) by simp
  ultimately show ?thesis by (simp add: tenant_untouched_def db1 tenant_rows_delete)
qed

text \<open>
  C8: Organizations are kept apart: a guarded request of one organization leaves everything that
  belongs to another as it was, save through the three handlers that take an id from the request
  and never ask whose it is (approving a baseline, adding a project member, reviewing an
  exception).
\<close>

theorem tenants_are_isolated:
  assumes "si_org_id ident \<noteq> tenant" and "distinct (map fst (tb_rows (machines db)))"
    and "ep \<noteq> Approve_Baseline" and "\<And>p. ep \<noteq> Add_Member p" and "\<And>e. ep \<noteq> Review_Exception e"
  shows "tenant_untouched tenant db (fst (snd (guarded env ident ep rq db)))"
proof -
  note here = tenant_untouched_audited [OF _ assms(1)]
  note changes = tenant_untouched_policy [OF _ assms(1)] tenant_untouched_exception [OF _ assms(1)]
    tenant_untouched_webhook [OF _ assms(1)] tenant_untouched_retention [OF _ assms(1,2)]
  show ?thesis
    using assms by (cases ep)
      (auto simp: handler_defs Let_def fails_def replies_def intro!: here tenant_untouched_set_retention dest: changes
        split: option.split sum.split prod.split json.split)
qed

lemma tenants_are_isolated_witness:
  "tenant_untouched 2 empty_db (fst (snd (guarded demo_api_env
     \<lparr>si_id = 1, si_org_id = 1, si_name = ''bot'', si_role = ''admin''\<rparr> (Put_Policy ''p'') (demo_request (JObj [])) empty_db)))"
  by (rule tenants_are_isolated) (simp_all add: empty_db_def empty_table_def)

section \<open>What crosses the tenants\<close>

lemma approve_baseline_row:
  "\<exists>bid db1 i r. approve_baseline c project b who db = (bid, db1) \<and> (i, r) \<in> set (tb_rows (baselines db1)) \<and>
     bl_project r = project \<and> bl_payload r = JObj b"
proof -
  obtain bid db1 where a: "approve_baseline c project b who db = (bid, db1)" by force
  then have "tb_rows (baselines db1) \<noteq> []" "bl_project (snd (last (tb_rows (baselines db1)))) = project"
    "bl_payload (snd (last (tb_rows (baselines db1)))) = JObj b"
    by (auto simp: approve_baseline_def replace_row_def append_row_def Let_def)
  moreover obtain i r where "last (tb_rows (baselines db1)) = (i, r)" by force
  ultimately show ?thesis using a last_in_set by fastforce
qed

definition posting :: "string \<Rightarrow> row \<Rightarrow> api_request" where
  "posting auth body = \<lparr>rq_authorization = auth, rq_body = JObj body\<rparr>"

text \<open>
  An admin decides for other organizations: whoever the project or the exception request belongs
  to, an admin of any organization replaces the project's approved baseline and approves the
  pending request.
\<close>

theorem admin_crosses_tenants:
  assumes "si_role ident = ''admin''" and "(project, p) \<in> set (tb_rows (projects db))" and "project \<noteq> 0"
    and "pj_org p \<noteq> si_org_id ident"
    and "(eid, x) \<in> set (tb_rows (exceptions db))" and "ex_status x = Pending" and "ex_org x \<noteq> si_org_id ident"
  shows "(\<exists>resp db' i r. guarded env ident Approve_Baseline
            (posting auth [(''project_id'', JInt project), (''baseline'', JObj b)]) db = (Reply 200 resp, db', []) \<and>
            (i, r) \<in> set (tb_rows (baselines db')) \<and> bl_project r = project \<and> bl_payload r = JObj b) \<and>
         (\<exists>resp db' y. guarded env ident (Review_Exception eid) (posting auth [(''approve'', JBool True)]) db =
            (Reply 200 resp, db', []) \<and>
            (eid, y) \<in> set (tb_rows (exceptions db')) \<and> ex_org y = ex_org x \<and> ex_status y = Approved)"
proof
  show "\<exists>resp db' i r. guarded env ident Approve_Baseline
            (posting auth [(''project_id'', JInt project), (''baseline'', JObj b)]) db = (Reply 200 resp, db', []) \<and>
            (i, r) \<in> set (tb_rows (baselines db')) \<and> bl_project r = project \<and> bl_payload r = JObj b"
  proof -
    obtain bid db1 i r where a: "approve_baseline (ae_clock env) project b (si_name ident) db = (bid, db1)"
      and r: "(i, r) \<in> set (tb_rows (baselines db1))" "bl_project r = project" "bl_payload r = JObj b"
      using approve_baseline_row by blast
    have "guarded env ident Approve_Baseline (posting auth [(''project_id'', JInt project), (''baseline'', JObj b)]) db =
        (Reply 200 (JObj [(''baseline_id'', JStr bid)]), audited env ident ''baseline.approve'' bid [] db1, [])"
      using assms(1,3) a by (simp add: post_baseline_def posting_def body_or_empty_def dict_get_def dict_get_or_def
        may_administer_project_def replies_def)
    moreover have "(i, r) \<in> set (tb_rows (baselines (audited env ident ''baseline.approve'' bid [] db1)))"
      using r(1) by (simp add: audited_def audit_def)
    ultimately show ?thesis using r by blast
  qed
  let ?P = "\<lambda>i r. i = eid \<and> ex_status r = Pending"
  have "select_rows ?P (exceptions db) \<noteq> []"
    using assms(5,6) by (auto simp: select_rows_def filter_empty_conv)
  moreover have "(eid, x\<lparr>ex_status := Approved, ex_reviewed_by := Some (si_name ident)\<rparr>)
      \<in> set (tb_rows (update_rows ?P (\<lambda>r. r\<lparr>ex_status := Approved, ex_reviewed_by := Some (si_name ident)\<rparr>) (exceptions db)))"
    using assms(5,6) by (force simp: update_rows_def)
  moreover define db1 where "db1 = snd (review_exception eid (si_name ident) True db)"
  ultimately have "review_exception eid (si_name ident) True db = (True, db1)"
    and y: "(eid, x\<lparr>ex_status := Approved, ex_reviewed_by := Some (si_name ident)\<rparr>) \<in> set (tb_rows (exceptions db1))"
    by (simp_all add: review_exception_def Let_def)
  then have "guarded env ident (Review_Exception eid) (posting auth [(''approve'', JBool True)]) db =
      (Reply 200 (JObj [(''status'', JStr ''approved'')]),
       audited env ident ''exception.review'' (str_int eid) [(''approved'', JBool True)] db1, [])"
    by (simp add: post_review_def posting_def body_or_empty_def dict_get_def replies_def)
  moreover have "(eid, x\<lparr>ex_status := Approved, ex_reviewed_by := Some (si_name ident)\<rparr>)
      \<in> set (tb_rows (exceptions (audited env ident ''exception.review'' (str_int eid) [(''approved'', JBool True)] db1)))"
    using y by (simp add: audited_def audit_def)
  ultimately show "\<exists>resp db' y. guarded env ident (Review_Exception eid) (posting auth [(''approve'', JBool True)]) db =
            (Reply 200 resp, db', []) \<and>
            (eid, y) \<in> set (tb_rows (exceptions db')) \<and> ex_org y = ex_org x \<and> ex_status y = Approved"
    by fastforce
qed

definition two_tenants_db :: server_db where
  "two_tenants_db = empty_db
     \<lparr>projects := \<lparr>tb_seq = 1, tb_rows = [(1, \<lparr>pj_org = 2, pj_name = ''p'', pj_fingerprint = ''f'', pj_created_at = ''t''\<rparr>)]\<rparr>,
      exceptions := \<lparr>tb_seq = 1, tb_rows = [(1, \<lparr>ex_org = 2, ex_rule = ''r'', ex_justification = ''because'',
        ex_requested_by = ''b'', ex_reviewed_by = None, ex_status = Pending, ex_expires_at = None,
        ex_created_at = ''t''\<rparr>)]\<rparr>\<rparr>"

lemma admin_crosses_tenants_witness:
  "\<exists>resp db'. guarded demo_api_env \<lparr>si_id = 1, si_org_id = 1, si_name = ''bot'', si_role = ''admin''\<rparr>
     Approve_Baseline (posting [] [(''project_id'', JInt 1), (''baseline'', JObj [])]) two_tenants_db = (Reply 200 resp, db', [])"
proof -
  note t = admin_crosses_tenants [where ident = "\<lparr>si_id = 1, si_org_id = 1, si_name = ''bot'', si_role = ''admin''\<rparr>"
      and db = two_tenants_db and project = 1 and eid = 1 and env = demo_api_env and auth = "[]" and b = "[]"]
  show ?thesis by (rule t [THEN conjunct1, THEN ex_forward]) (auto simp: two_tenants_db_def)
qed

text \<open>
  An enrolment token is good for any organization: a machine that redeems one and names another
  organization in the request is registered there too.
\<close>

theorem enrolment_crosses_tenants:
  assumes "redeem_enrollment_token (ae_sha env) (ae_clock env) token mkey db = Inr (Some machine, db1)"
    and "token \<noteq> []" and "mkey \<noteq> []" and "strip mkey = mkey" and "org \<noteq> 0"
  shows "\<exists>resp db' i r. enroll env (posting auth [(''enrollment_token'', JStr token), (''machine_key'', JStr mkey),
            (''org_id'', JInt org)]) db = (Reply 200 resp, db', []) \<and>
          (i, r) \<in> set (tb_rows (machines db')) \<and> mc_org r = org \<and> mc_key r = mkey"
proof -
  obtain i db2 r where reg: "register_machine (ae_clock env) org mkey ''unknown'' ''unknown'' db1 = Inr (i, db2)"
    and r: "(i, r) \<in> set (tb_rows (machines db2))" "mc_org r = org" "mc_key r = mkey"
  proof (cases "find_by machine_key_of (org, mkey) (machines db1)")
    case None
    then have "insert_row machine_key_of x (machines db1) = Inr (append_row x (machines db1))"
      if "machine_key_of x = (org, mkey)" for x
      using that by (simp add: find_by_None insert_row_def)
    then show thesis
      using None that by (fastforce simp: register_machine_def machine_key_of_def append_row_def Let_def)
  next
    case (Some x)
    obtain i m where im: "x = (i, m)" by (cases x)
    note x = im find_by_Some [OF Some [unfolded im], THEN conjunct1] find_by_Some [OF Some [unfolded im], THEN conjunct2]
    let ?f = "\<lambda>r. r\<lparr>mc_os_name := ''unknown'', mc_arch := ''unknown'', mc_last_seen_at := Some (now_of (ae_clock env))\<rparr>"
    have "(i, ?f m) \<in> set (tb_rows (update_rows (\<lambda>j r. j = i) ?f (machines db1)))"
      using x(2) by (force simp: update_rows_def)
    then show thesis
      using Some x that [of i _ "?f m"] by (simp add: register_machine_def machine_key_of_def)
  qed
  let ?db = "audit (ae_clock env) (org_for_machine machine db2) (''machine:'' @ mkey) ''machine.enroll''
      (str_int machine) (JObj []) db2"
  have "enroll env (posting auth [(''enrollment_token'', JStr token), (''machine_key'', JStr mkey),
      (''org_id'', JInt org)]) db = (Reply 200 (JObj [(''machine_id'', JInt machine)]), ?db, [])"
    unfolding enroll_def posting_def body_or_empty_def api_request.select_convs
    by (simp add: assms reg dict_get_or_def replies_def Let_def del: audit_def)
  moreover have "(i, r) \<in> set (tb_rows (machines ?db))" using r(1) by (simp add: audit_def)
  ultimately show ?thesis using r(2,3) by blast
qed

lemma enrolment_crosses_tenants_witness:
  "\<exists>resp db' i r. enroll demo_api_env (posting [] [(''enrollment_token'', JStr ''dden_k''), (''machine_key'', JStr ''m1''),
      (''org_id'', JInt 2)]) enrolling_db = (Reply 200 resp, db', []) \<and>
     (i, r) \<in> set (tb_rows (machines db')) \<and> mc_org r = 2 \<and> mc_key r = ''m1''"
proof -
  have "\<not> ''2026-02-01'' < ''2026-01-01''" by code_simp
  then obtain db1 where "redeem_enrollment_token (\<lambda>s. s) demo_clock ''dden_k'' ''m1'' enrolling_db = Inr (Some 1, db1)"
    by (simp add: redeem_enrollment_token_def enrolling_db_def select_rows_def fetchone_def
        insert_row_def append_row_def empty_db_def empty_table_def demo_clock_def now_of_def)
  then have r: "redeem_enrollment_token (ae_sha demo_api_env) (ae_clock demo_api_env) ''dden_k'' ''m1'' enrolling_db =
      Inr (Some 1, db1)" by (simp add: demo_api_env_def)
  have "strip ''m1'' = ''m1''" by code_simp
  then show ?thesis by (intro enrolment_crosses_tenants [OF r]) simp_all
qed

text \<open>
  Publishing needs no token: with an empty \<open>Authorization\<close> header, whoever knows the key of a
  machine stores a snapshot of his own making for it, whatever it says, as long as it does not
  declare itself unsanitized.
\<close>

theorem anyone_publishes:
  assumes "fetchone (select_rows (\<lambda>i r. mc_key r = mkey) (machines (as_db st))) = Some (machine, m)"
    and "mkey \<noteq> []" and "strip mkey = mkey"
    and "dict_get snap ''privacy_state'' = JNull" and "dict_get snap ''privacy'' = JNull"
    and "snapshot_id_of snap \<noteq> []"
    and "(machine, snapshot_id_of snap) \<notin> (\<lambda>(i, s). snapshot_key s) ` set (tb_rows (snapshots (as_db st)))"
  shows "\<exists>st' sent i s. handle env openapi Publish (posting [] [(''machine_key'', JStr mkey), (''snapshot'', JObj snap)]) st =
            (Reply 200 (JObj [(''stored'', JBool True)]), st', sent) \<and>
           (i, s) \<in> set (tb_rows (snapshots (as_db st'))) \<and> sn_machine s = machine \<and> sn_payload s = JObj snap"
proof -
  let ?row = "\<lparr>sn_machine = machine, sn_snapshot_id = snapshot_id_of snap, sn_payload = JObj snap,
      sn_privacy_state = ''sanitized'', sn_checksum = ae_sha env (dump_spaced (sort_keys (JObj snap))),
      sn_received_at = now_of (ae_clock env)\<rparr>"
  let ?db1 = "(as_db st)\<lparr>snapshots := snd (append_row ?row (snapshots (as_db st)))\<rparr>"
  have new: "snapshot_key ?row \<notin> (\<lambda>(i, s). snapshot_key s) ` set (tb_rows (snapshots (as_db st)))"
    using assms(7) by (simp add: snapshot_key_def case_prod_unfold)
  have "store_snapshot (ae_sha env) (ae_clock env) machine snap (as_db st) = Inr (True, ?db1)"
    using assms(6) new by (simp add: store_snapshot_def insert_row_def append_row_def Let_def)
  then obtain db2 sent where p: "publish_snapshot env (posting [] [(''machine_key'', JStr mkey), (''snapshot'', JObj snap)]) (as_db st) =
      (Reply 200 (JObj [(''stored'', JBool True)]), db2, sent)" and db2: "snapshots db2 = snapshots ?db1"
    using assms(1-5) by (simp add: publish_snapshot_def posting_def dict_get_or_def or_json_def Let_def audit_def
        dict_get_def [of _ "''snapshot''"])
  have "(tb_seq (snapshots (as_db st)) + 1, ?row) \<in> set (tb_rows (snapshots db2))"
    by (simp add: db2 append_row_def Let_def)
  moreover have "handle env openapi Publish (posting [] [(''machine_key'', JStr mkey), (''snapshot'', JObj snap)]) st =
      (Reply 200 (JObj [(''stored'', JBool True)]),
       \<lparr>as_db = db2, as_counters = count_errors (Reply 200 (JObj [(''stored'', JBool True)])) (as_counters st)\<rparr>, sent)"
    using p by (simp add: handle_def open_endpoint_def)
  ultimately show ?thesis by fastforce
qed

definition one_machine_db :: server_db where
  "one_machine_db = empty_db\<lparr>machines := \<lparr>tb_seq = 1, tb_rows = [(1, \<lparr>mc_org = 1, mc_project = None,
     mc_key = ''m1'', mc_os_name = ''linux'', mc_arch = ''x'', mc_label = [], mc_enrolled_at = ''t'',
     mc_last_seen_at = None\<rparr>)]\<rparr>\<rparr>"

lemma anyone_publishes_witness:
  "\<exists>st' sent i s. handle demo_api_env JNull Publish
     (posting [] [(''machine_key'', JStr ''m1''), (''snapshot'', JObj [(''id'', JStr ''forged'')])])
     \<lparr>as_db = one_machine_db, as_counters = None\<rparr> = (Reply 200 (JObj [(''stored'', JBool True)]), st', sent) \<and>
     (i, s) \<in> set (tb_rows (snapshots (as_db st'))) \<and> sn_machine s = 1 \<and> sn_payload s = JObj [(''id'', JStr ''forged'')]"
proof (rule anyone_publishes)
  show "strip ''m1'' = ''m1''" by code_simp
qed (simp_all add: one_machine_db_def empty_db_def empty_table_def select_rows_def fetchone_def dict_get_def snapshot_id_of_def)

end
