(* ===== verification/Server_Schema.thy ===== *)
theory Server_Schema
  imports Server_DB
begin

text \<open>
  The constraints of the schema of \<open>src/devrepro/server/db.py\<close> as an invariant of the store:
  primary keys and \<open>UNIQUE\<close> columns, the \<open>CHECK\<close> on roles, and the one reference between tables the
  code itself maintains, from a redeemed enrolment token to the machine it enrolled.
\<close>

section \<open>The invariant\<close>

definition serial_ok :: "'r table \<Rightarrow> bool" where
  "serial_ok t \<longleftrightarrow> distinct (map fst (tb_rows t)) \<and> (\<forall>(i, x) \<in> set (tb_rows t). 0 < i \<and> i \<le> tb_seq t) \<and> 0 \<le> tb_seq t"

definition rows_ok :: "('r \<Rightarrow> bool) \<Rightarrow> 'r table \<Rightarrow> bool" where
  "rows_ok P t \<longleftrightarrow> list_all (P \<circ> snd) (tb_rows t)"

definition user_role_ok :: "user_row \<Rightarrow> bool" where
  "user_role_ok r \<longleftrightarrow> u_role r \<in> {''admin'', ''maintainer'', ''viewer''}"

definition account_role_ok :: "service_account_row \<Rightarrow> bool" where
  "account_role_ok r \<longleftrightarrow> sa_role r \<in> {''admin'', ''maintainer'', ''viewer'', ''agent''}"

text \<open>A redeemed token names a machine of its own organization.\<close>

definition machine_of :: "machine_row table \<Rightarrow> int \<Rightarrow> int \<Rightarrow> bool" where
  "machine_of t org m \<longleftrightarrow> (m, org) \<in> (\<lambda>(i, r). (i, mc_org r)) ` set (tb_rows t)"

definition redeemed_ok :: "machine_row table \<Rightarrow> enrollment_row table \<Rightarrow> bool" where
  "redeemed_ok ms t \<longleftrightarrow>
     (\<forall>(i, r) \<in> set (tb_rows t). \<forall>m. en_used_by r = Some m \<longrightarrow> machine_of ms (en_org r) m)"

definition schema_ok :: "server_db \<Rightarrow> bool" where
  "schema_ok db \<longleftrightarrow>
     table_ok og_name (organizations db) \<and> table_ok u_email (users db) \<and>
     table_ok sa_token_hash (service_accounts db) \<and> table_ok en_token_hash (enrollment_tokens db) \<and>
     table_ok project_key (projects db) \<and> table_ok machine_key_of (machines db) \<and>
     table_ok snapshot_key (snapshots db) \<and> table_ok baseline_key (baselines db) \<and>
     table_ok member_key (project_members db) \<and> table_ok policy_key (policies db) \<and>
     serial_ok (audit_events db) \<and> serial_ok (exceptions db) \<and> serial_ok (webhooks db) \<and>
     distinct (map fst (retention_policies db)) \<and>
     rows_ok user_role_ok (users db) \<and> rows_ok account_role_ok (service_accounts db) \<and>
     redeemed_ok (machines db) (enrollment_tokens db)"

section \<open>What the operations on tables keep\<close>

lemma serial_ok_append: "append_row r t = (i, t') \<Longrightarrow> serial_ok t \<Longrightarrow> serial_ok t'"
  by (fastforce simp: serial_ok_def append_row_def Let_def)

lemma serial_ok_snd_append: "serial_ok t \<Longrightarrow> serial_ok (snd (append_row r t))"
  using serial_ok_append [of r t "fst (append_row r t)" "snd (append_row r t)"] by simp

lemma serial_ok_update: "serial_ok t \<Longrightarrow> serial_ok (update_rows P f t)"
proof -
  assume ok: "serial_ok t"
  have "map fst (tb_rows (update_rows P f t)) = map fst (tb_rows t)" by auto
  then have "distinct (map fst (tb_rows (update_rows P f t)))" using ok by (simp only: serial_ok_def)
  then show ?thesis using ok unfolding serial_ok_def by (auto simp: update_rows_def split: if_splits)
qed

lemma serial_ok_delete: "serial_ok t \<Longrightarrow> serial_ok (delete_rows P t)"
  by (auto simp: serial_ok_def delete_rows_def intro!: distinct_map_filter')

lemma rows_ok_insert: "insert_row key r t = Inr (i, t') \<Longrightarrow> rows_ok P t \<Longrightarrow> P r \<Longrightarrow> rows_ok P t'"
  using insert_row_rows [of key r t i t'] by (simp add: rows_ok_def)

lemma rows_ok_update: "rows_ok P t \<Longrightarrow> (\<And>x. P x \<Longrightarrow> P (f x)) \<Longrightarrow> rows_ok P (update_rows Q f t)"
  by (auto simp: rows_ok_def list_all_iff)

lemma machine_of_insert: "insert_row key r ms = Inr (i, ms') \<Longrightarrow> machine_of ms org m \<Longrightarrow> machine_of ms' org m"
  using insert_row_rows [of key r ms i ms'] by (auto simp: machine_of_def)

lemma machine_of_new: "insert_row key r ms = Inr (i, ms') \<Longrightarrow> machine_of ms' (mc_org r) i"
  using insert_row_rows [of key r ms i ms'] by (auto simp: machine_of_def)

lemma machine_of_update:
  assumes "\<And>x. mc_org (f x) = mc_org x"
  shows "machine_of (update_rows P f ms) = machine_of ms"
proof -
  have "map (\<lambda>(i, r). (i, mc_org r)) (tb_rows (update_rows P f ms)) = map (\<lambda>(i, r). (i, mc_org r)) (tb_rows ms)"
    using assms by auto
  then show ?thesis unfolding machine_of_def fun_eq_iff by (metis set_map)
qed

lemma redeemed_ok_machines:
  "redeemed_ok ms t \<Longrightarrow> (\<And>org m. machine_of ms org m \<Longrightarrow> machine_of ms' org m) \<Longrightarrow> redeemed_ok ms' t"
  by (fastforce simp: redeemed_ok_def)

lemma redeemed_ok_insert:
  "insert_row key r t = Inr (i, t') \<Longrightarrow> redeemed_ok ms t \<Longrightarrow> en_used_by r = None \<Longrightarrow> redeemed_ok ms t'"
  using insert_row_rows [of key r t i t'] by (auto simp: redeemed_ok_def)

lemma redeemed_ok_redeem:
  assumes "redeemed_ok ms t" and "table_ok key t" and "(k, row) \<in> set (tb_rows t)" and "machine_of ms (en_org row) mid"
  shows "redeemed_ok ms (update_rows (\<lambda>i r. i = k) (\<lambda>r. r\<lparr>en_used_by := Some mid\<rparr>) t)"
proof -
  have d: "distinct (map fst (tb_rows t))" using assms(2) by (simp add: table_ok_def)
  have one: "r = row" if "(k, r) \<in> set (tb_rows t)" for r
    using eq_key_imp_eq_value [OF d that assms(3)] .
  have old: "machine_of ms (en_org r) m" if "(i, r) \<in> set (tb_rows t)" "en_used_by r = Some m" for i r m
    using assms(1) that unfolding redeemed_ok_def by blast
  show ?thesis
    using one old assms(4) by (auto simp: redeemed_ok_def split: if_splits)
qed

lemmas store_updates = table_ok_update table_ok_delete table_ok_replace serial_ok_snd_append serial_ok_update serial_ok_delete
  distinct_dict_set rows_ok_update

lemmas store_keeps = organization_store.ins_Inr(1) user_store.ins_Inr(1) account_store.ins_Inr(1) enrollment_store.ins_Inr(1)
  project_store.ins_Inr(1) machine_store.ins_Inr(1) snapshot_store.ins_Inr(1) policy_store.ins_Inr(1)
  serial_ok_append

section \<open>What the operations of the store keep\<close>

lemma schema_ok_empty: "schema_ok empty_db"
  by (simp add: schema_ok_def empty_db_def serial_ok_def rows_ok_def redeemed_ok_def) (simp add: empty_table_def)

lemma schema_ok_redeem:
  assumes "redeem_enrollment_token sha c token mkey db = Inr (m, db')" and ok: "schema_ok db"
  shows "schema_ok db'"
  using assms(1)
proof (cases rule: redeem_cases)
  case (yes row_id row mid t)
  have row: "(row_id, row) \<in> set (tb_rows (enrollment_tokens db))"
    using fetchone_Some [OF yes(2)] by (auto simp: select_rows_def)
  have t: "table_ok machine_key_of t"
    using machine_store.ins_Inr(1) [OF _ yes(3)] ok by (simp add: schema_ok_def)
  have "redeemed_ok t (enrollment_tokens db)"
    using ok machine_of_insert [OF yes(3)] redeemed_ok_machines by (auto simp: schema_ok_def)
  moreover have "machine_of t (en_org row) mid" using machine_of_new [OF yes(3)] by simp
  ultimately have "redeemed_ok t (update_rows (\<lambda>i r. i = row_id) (\<lambda>r. r\<lparr>en_used_by := Some mid\<rparr>) (enrollment_tokens db))"
    using ok row by (intro redeemed_ok_redeem) (auto simp: schema_ok_def)
  then show ?thesis using ok t by (simp add: yes(4) schema_ok_def table_ok_update)
qed (use ok in simp)

lemma schema_ok_machine:
  assumes "register_machine c org mkey os arch db = Inr (i, db')" and ok: "schema_ok db"
  shows "schema_ok db'"
proof (cases "find_by machine_key_of (org, mkey) (machines db)")
  case None
  then obtain r t where t: "insert_row machine_key_of r (machines db) = Inr (i, t)" and db': "db' = db\<lparr>machines := t\<rparr>"
    using assms(1) by (auto simp: register_machine_def result_simps)
  have "table_ok machine_key_of t" using machine_store.ins_Inr(1) [OF _ t] ok by (simp add: schema_ok_def)
  moreover have "redeemed_ok t (enrollment_tokens db)"
    using ok machine_of_insert [OF t] redeemed_ok_machines by (auto simp: schema_ok_def)
  ultimately show ?thesis using ok by (simp add: db' schema_ok_def)
next
  case (Some x)
  obtain k r where "x = (k, r)" by force
  then have "db' = db\<lparr>machines := update_rows (\<lambda>i r. i = k)
      (\<lambda>r. r\<lparr>mc_os_name := os, mc_arch := arch, mc_last_seen_at := Some (now_of c)\<rparr>) (machines db)\<rparr>"
    using assms(1) Some by (auto simp: register_machine_def)
  then show ?thesis
    using ok by (simp add: schema_ok_def table_ok_update machine_key_of_def redeemed_ok_def machine_of_update)
qed

lemma schema_ok_user:
  "create_user c org name email role db = Inr (i, db') \<Longrightarrow> schema_ok db \<Longrightarrow> schema_ok db'"
  by (auto simp: create_user_def schema_ok_def result_simps user_role_ok_def intro: store_keeps elim!: rows_ok_insert split: if_splits)

lemma schema_ok_account:
  "create_service_account sha c secret org name role db = Inr (r, db') \<Longrightarrow> schema_ok db \<Longrightarrow> schema_ok db'"
  by (auto simp: create_service_account_def Let_def schema_ok_def result_simps account_role_ok_def
      intro: store_keeps elim!: rows_ok_insert split: if_splits)

lemma schema_ok_revoke: "schema_ok db \<Longrightarrow> schema_ok (revoke_service_account c account db)"
  by (auto simp: revoke_service_account_def schema_ok_def account_role_ok_def store_updates intro: rows_ok_update)

lemma schema_ok_enrollment:
  "create_enrollment_token sha c secret org label ttl db = Inr (token, db') \<Longrightarrow> schema_ok db \<Longrightarrow> schema_ok db'"
  by (auto simp: create_enrollment_token_def Let_def schema_ok_def result_simps intro: store_keeps elim!: redeemed_ok_insert)

lemma schema_ok_project:
  "upsert_project c org name fingerprint db = Inr (i, db') \<Longrightarrow> schema_ok db \<Longrightarrow> schema_ok db'"
  by (auto simp: upsert_project_def schema_ok_def result_simps project_key_def store_updates intro: store_keeps split: option.splits)

lemma schema_ok_snapshot: "store_snapshot sha c machine snap db = Inr (b, db') \<Longrightarrow> schema_ok db \<Longrightarrow> schema_ok db'"
  by (auto simp: store_snapshot_def Let_def schema_ok_def intro: store_keeps split: if_splits sum.splits db_error.splits)

lemma schema_ok_rest:
  assumes "schema_ok db"
  shows "create_organization c name db = Inr (i, db') \<Longrightarrow> schema_ok db'"
    and "schema_ok (add_project_member c project email role db)"
    and "schema_ok (snd (approve_baseline c project baseline approver db))"
    and "set_policy c org name document db = Inr (i, db') \<Longrightarrow> schema_ok db'"
    and "schema_ok (audit c org actor action target detail db)"
    and "request_exception c org rule justification requester days db = (i, db') \<Longrightarrow> schema_ok db'"
    and "schema_ok (snd (review_exception ex reviewer approve db))"
    and "add_webhook c org url secret events db = (i, db') \<Longrightarrow> schema_ok db'"
    and "schema_ok (set_retention org days adays db)"
  using assms by (auto simp: create_organization_def add_project_member_def approve_baseline_def set_policy_def audit_def
      request_exception_def review_exception_def add_webhook_def set_retention_def schema_ok_def result_simps Let_def store_updates
      intro: store_keeps split: prod.splits)

lemma schema_ok_apply: "apply_retention c org db = (n, db') \<Longrightarrow> schema_ok db \<Longrightarrow> schema_ok db'"
  by (auto simp: apply_retention_def Let_def schema_ok_def store_updates split: prod.splits)

lemma schema_ok_step:
  assumes "db_step sha a b" and ok: "schema_ok a"
  shows "schema_ok b"
  using assms(1)
proof cases
  case (step_baseline c project baseline approver bid)
  then show ?thesis using schema_ok_rest(3) [OF ok, of c project baseline approver] by simp
next
  case (step_review ex reviewer approve r)
  then show ?thesis using schema_ok_rest(7) [OF ok, of ex reviewer approve] by simp
qed (use ok schema_ok_rest [OF ok] schema_ok_user schema_ok_account schema_ok_revoke schema_ok_enrollment schema_ok_redeem
    schema_ok_project schema_ok_machine schema_ok_snapshot schema_ok_apply in \<open>metis+\<close>)

text \<open>
  C13: Every store the operations can produce from the empty one satisfies the constraints of the
  schema: ids and unique columns are unique, the roles are of the fixed sets, and a redeemed
  enrolment token names a machine that is there and belongs to the organization of the token.
\<close>

theorem store_keeps_schema:
  assumes "db_reachable sha db"
  shows "schema_ok db"
  by (rule db_steps_invariant [where P = schema_ok])
    (use assms schema_ok_empty schema_ok_step in \<open>auto simp: db_reachable_def\<close>)

lemma store_keeps_schema_witness:
  "\<exists>db'. redeem_enrollment_token (\<lambda>s. s) demo_clock ''dden_k'' ''m1'' enrolling_db = Inr (Some 1, db') \<and> schema_ok db'"
proof -
  have "\<not> ''2026-02-01'' < ''2026-01-01''" by code_simp
  then obtain db' where r: "redeem_enrollment_token (\<lambda>s. s) demo_clock ''dden_k'' ''m1'' enrolling_db = Inr (Some 1, db')"
    by (simp add: redeem_enrollment_token_def enrolling_db_def select_rows_def fetchone_def
        insert_row_def append_row_def empty_db_def empty_table_def demo_clock_def now_of_def)
  have "db_reachable (\<lambda>s. s) db'"
    using enrolling_db_reachable step_redeem [OF r] unfolding db_reachable_def by (rule rtranclp.rtrancl_into_rtrancl)
  from store_keeps_schema [OF this] r show ?thesis by blast
qed

end
