(* ===== verification/Server_Run.thy ===== *)
theory Server_Run
  imports Server_Access Server_Schema
begin

text \<open>
  The server as it runs: requests of \<open>src/devrepro/server/api.py\<close> handled one after the other. The
  handlers reach the store only through the operations of \<open>src/devrepro/server/db.py\<close>, so what is
  invariant under the steps of the store holds for every history of requests.
\<close>

section \<open>Handlers are steps of the store\<close>

abbreviation db_steps :: "(string \<Rightarrow> string) \<Rightarrow> server_db \<Rightarrow> server_db \<Rightarrow> bool" where
  "db_steps sha \<equiv> (db_step sha)\<^sup>*\<^sup>*"

lemma steps_audit: "db_steps sha db db1 \<Longrightarrow> db_steps sha db (audit c org actor action target detail db1)"
  by (erule rtranclp.rtrancl_into_rtrancl) (rule step_audit)

lemma steps_audited: "db_steps sha db db1 \<Longrightarrow> db_steps sha db (audited env ident action target detail db1)"
  by (simp add: audited_def steps_audit)

lemmas steps_one =
  r_into_rtranclp [of "db_step sha" for sha, OF step_member] r_into_rtranclp [of "db_step sha" for sha, OF step_baseline]
  r_into_rtranclp [of "db_step sha" for sha, OF step_policy] r_into_rtranclp [of "db_step sha" for sha, OF step_request]
  r_into_rtranclp [of "db_step sha" for sha, OF step_review] r_into_rtranclp [of "db_step sha" for sha, OF step_webhook]
  r_into_rtranclp [of "db_step sha" for sha, OF step_retention] r_into_rtranclp [of "db_step sha" for sha, OF step_apply]
  r_into_rtranclp [of "db_step sha" for sha, OF step_redeem] r_into_rtranclp [of "db_step sha" for sha, OF step_snapshot]

lemma guarded_steps: "db_steps sha db (fst (snd (guarded env ident ep rq db)))"
  by (cases ep)
    (auto simp: handler_defs Let_def fails_def replies_def intro!: steps_audited intro: steps_one
      split: option.split sum.split prod.split json.split)

lemma enroll_steps: "db_steps (ae_sha env) db (fst (snd (enroll env rq db)))"
proof -
  have reg: "db_steps (ae_sha env) db db2"
    if "redeem_enrollment_token (ae_sha env) c token key db = Inr (m, db1)"
      "register_machine c' org key' os arch db1 = Inr (i, db2)" for c token key m db1 c' org key' os arch i db2
    using step_redeem [OF that(1)] step_machine [OF that(2)] by (meson r_into_rtranclp rtranclp.rtrancl_into_rtrancl)
  show ?thesis
    by (auto simp: enroll_def Let_def fails_def replies_def intro!: steps_audit intro: steps_one reg
        split: option.split sum.split prod.split)
qed

lemma publish_steps: "db_steps (ae_sha env) db (fst (snd (publish_snapshot env rq db)))"
  by (auto simp: publish_snapshot_def Let_def fails_def replies_def intro!: steps_audit intro: steps_one
      split: option.split sum.split prod.split json.split)

lemma open_steps: "db_steps (ae_sha env) db (fst (snd (open_endpoint env openapi counters ep rq db)))"
  using enroll_steps publish_steps
  by (auto simp: open_endpoint_def get_health_def get_metrics_def replies_def Let_def)

lemma handle_steps: "db_steps (ae_sha env) (as_db st) (as_db (fst (snd (handle env openapi ep rq st))))"
proof -
  let ?r = "case role_needed ep of
               None \<Rightarrow> open_endpoint env openapi (case (if ep = Metrics then seen_metrics (as_counters st) else as_counters st)
                   of None \<Rightarrow> [] | Some c \<Rightarrow> c) ep rq (as_db st)
             | Some role \<Rightarrow>
                 (case require_role env role rq (as_db st) of
                    Inl refusal \<Rightarrow> replies refusal (as_db st)
                  | Inr ident \<Rightarrow> guarded env ident ep rq (as_db st))"
  have "db_steps (ae_sha env) (as_db st) (fst (snd ?r))"
    using guarded_steps open_steps by (auto simp: replies_def split: option.split sum.split)
  moreover have "as_db (fst (snd (handle env openapi ep rq st))) = fst (snd ?r)"
    by (simp add: handle_def Let_def case_prod_unfold)
  ultimately show ?thesis by (simp only:)
qed

section \<open>Histories of requests\<close>

record api_call =
  ac_env :: api_env
  ac_endpoint :: endpoint
  ac_request :: api_request

definition after_call :: "json \<Rightarrow> api_call \<Rightarrow> api_state \<Rightarrow> api_state" where
  "after_call openapi call st = fst (snd (handle (ac_env call) openapi (ac_endpoint call) (ac_request call) st))"

definition serve :: "json \<Rightarrow> api_call list \<Rightarrow> api_state \<Rightarrow> api_state" where
  "serve openapi calls st = fold (after_call openapi) calls st"

text \<open>The calls of one server use one digest.\<close>

definition hashed_with :: "(string \<Rightarrow> string) \<Rightarrow> api_call list \<Rightarrow> bool" where
  "hashed_with sha calls \<longleftrightarrow> list_all (\<lambda>call. ae_sha (ac_env call) = sha) calls"

lemma serve_steps: "hashed_with sha calls \<Longrightarrow> db_steps sha (as_db st) (as_db (serve openapi calls st))"
proof (induction calls arbitrary: st)
  case (Cons call calls)
  have "db_steps sha (as_db st) (as_db (after_call openapi call st))"
    using handle_steps [of "ac_env call"] Cons.prems by (auto simp: after_call_def hashed_with_def)
  moreover have "db_steps sha (as_db (after_call openapi call st)) (as_db (serve openapi calls (after_call openapi call st)))"
    by (rule Cons.IH) (use Cons.prems in \<open>simp add: hashed_with_def\<close>)
  ultimately show ?case by (simp add: serve_def)
qed (simp add: serve_def)

lemma reachable_steps: "db_reachable sha db \<Longrightarrow> db_steps sha db db' \<Longrightarrow> db_reachable sha db'"
  unfolding db_reachable_def by (rule rtranclp_trans)

lemma reachable_schema_ok: "db_reachable sha db \<Longrightarrow> schema_ok db"
  unfolding db_reachable_def
  by (erule db_steps_invariant [where P = schema_ok]) (fact schema_ok_empty, fact schema_ok_step)

text \<open>
  C3: The HTTP server refines the store: whatever requests come in, and however they fail, the store
  they leave is one the operations of the database layer lead to, so it satisfies the constraints
  of the schema.
\<close>

theorem requests_refine_the_store:
  assumes "db_reachable sha (as_db st)" and "hashed_with sha calls"
  shows "(db_step sha)\<^sup>*\<^sup>* (as_db st) (as_db (serve openapi calls st)) \<and> schema_ok (as_db (serve openapi calls st))"
  using serve_steps [OF assms(2)] reachable_schema_ok reachable_steps [OF assms(1)] by blast

definition demo_enrol :: api_request where
  "demo_enrol = posting [] [(''enrollment_token'', JStr ''dden_k''), (''machine_key'', JStr ''m1'')]"

definition demo_enrol_call :: api_call where
  "demo_enrol_call = \<lparr>ac_env = demo_api_env, ac_endpoint = Enroll, ac_request = demo_enrol\<rparr>"

definition demo_enrol_state :: api_state where
  "demo_enrol_state = \<lparr>as_db = enrolling_db, as_counters = None\<rparr>"

lemma demo_hash: "ae_sha demo_api_env = (\<lambda>s. s)"
  by (simp add: demo_api_env_def)

lemma demo_hashed: "hashed_with (\<lambda>s. s) [demo_enrol_call]"
  by (simp add: hashed_with_def demo_enrol_call_def demo_hash)

lemma requests_refine_the_store_witness:
  "(db_step (\<lambda>s. s))\<^sup>*\<^sup>* enrolling_db (as_db (serve JNull [demo_enrol_call] demo_enrol_state)) \<and>
     schema_ok (as_db (serve JNull [demo_enrol_call] demo_enrol_state))"
  using requests_refine_the_store [of "\<lambda>s. s" demo_enrol_state, OF _ demo_hashed, of JNull] enrolling_db_reachable
  by (simp add: demo_enrol_state_def)

section \<open>Spent enrolment tokens\<close>

text \<open>The token an enrolment request carries.\<close>

definition enrolment_token :: "api_request \<Rightarrow> string option" where
  "enrolment_token rq = map_option (\<lambda>body. py_str (dict_get_or body ''enrollment_token'' (JStr []))) (body_or_empty rq)"

lemma enroll_redeems:
  assumes "enroll env rq db = (resp, db', sent)" and "status_of resp = 200" and "enrolment_token rq = Some token"
  shows "\<exists>key m db1. redeem_enrollment_token (ae_sha env) (ae_clock env) token key db = Inr (Some m, db1) \<and>
     db_steps (ae_sha env) db1 db'"
proof -
  have reg: "register_machine c' org key os arch db1 = Inr (i, db2) \<Longrightarrow>
      db_steps (ae_sha env) db1 (audit c a b d e f db2)" for c' org key os arch db1 i db2 c a b d e f
    by (intro steps_audit r_into_rtranclp) (rule step_machine)
  from assms show ?thesis
    by (fastforce simp: enroll_def enrolment_token_def Let_def fails_def replies_def err_def dest: reg
        split: option.splits sum.splits prod.splits if_splits)
qed

lemma enroll_spent:
  assumes "enrolment_token rq = Some token" and "spent (ae_sha env token) db"
  shows "\<exists>resp. enroll env rq db = (resp, db, []) \<and> status_of resp \<in> {400, 403}"
proof -
  have "redeem_enrollment_token (ae_sha env) (ae_clock env) token key db = Inr (None, db)" for key
    by (rule spent_not_redeemed [of "ae_sha env" token db, OF assms(2)])
  then show ?thesis using assms(1) by (auto simp: enroll_def enrolment_token_def Let_def replies_def err_def)
qed

lemma spent_steps: "db_steps sha db db' \<Longrightarrow> spent h db \<Longrightarrow> spent h db'"
  by (erule db_steps_invariant) (assumption, rule spent_step)

text \<open>
  C7: An enrolment token enrols one machine: after a request with it was answered 200, and whatever
  the server is asked in between, every further enrolment request with the token is refused with
  400 or 403 and changes nothing.
\<close>

theorem spent_token_enrols_nobody:
  assumes "db_reachable sha (as_db st)" and "ae_sha env = sha" and "ae_sha env' = sha"
    and first: "handle env openapi Enroll rq st = (resp, st', sent)" "status_of resp = 200"
    and token: "enrolment_token rq = Some token" "enrolment_token rq' = Some token"
    and calls: "hashed_with sha calls"
  shows "\<exists>refusal later. handle env' openapi Enroll rq' (serve openapi calls st') = (refusal, later, []) \<and>
     status_of refusal \<in> {400, 403} \<and> as_db later = as_db (serve openapi calls st')"
proof -
  have "enroll env rq (as_db st) = (resp, as_db st', sent)"
    using first by (auto simp: handle_def Let_def open_endpoint_def split: prod.splits)
  then obtain key m db1 where r: "redeem_enrollment_token sha (ae_clock env) token key (as_db st) = Inr (Some m, db1)"
    and s: "db_steps sha db1 (as_db st')"
    using enroll_redeems [OF _ first(2) token(1)] assms(2) by blast
  have "spent (sha token) db1" using redeemed_is_spent [OF reachable_keyed_ok [OF assms(1)] r] .
  then have "spent (sha token) (as_db (serve openapi calls st'))"
    using spent_steps [OF s] spent_steps [OF serve_steps [OF calls]] by blast
  then show ?thesis
    using enroll_spent [OF token(2), of env' "as_db (serve openapi calls st')"] assms(3)
    by (auto simp: handle_def Let_def open_endpoint_def)
qed

lemma spent_token_enrols_nobody_witness:
  "\<exists>refusal later. handle demo_api_env JNull Enroll demo_enrol
       (serve JNull [] (fst (snd (handle demo_api_env JNull Enroll demo_enrol demo_enrol_state)))) = (refusal, later, []) \<and>
     status_of refusal \<in> {400, 403}"
proof -
  have ok: "status_of (fst (handle demo_api_env JNull Enroll demo_enrol demo_enrol_state)) = 200" by code_simp
  have token: "enrolment_token demo_enrol = Some ''dden_k''"
    by (simp add: enrolment_token_def demo_enrol_def posting_def body_or_empty_def dict_get_or_def)
  have reach: "db_reachable (\<lambda>s. s) (as_db demo_enrol_state)"
    using enrolling_db_reachable by (simp add: demo_enrol_state_def)
  have none: "hashed_with (\<lambda>s. s) []" by (simp add: hashed_with_def)
  from spent_token_enrols_nobody [OF reach demo_hash demo_hash _ ok token token none,
      of JNull "fst (snd (handle demo_api_env JNull Enroll demo_enrol demo_enrol_state))"
        "snd (snd (handle demo_api_env JNull Enroll demo_enrol demo_enrol_state))"]
  show ?thesis by auto
qed

section \<open>Revoked accounts\<close>

text \<open>
  Revoking a service account shuts it out: whatever the server is asked afterwards, a guarded
  request that presents its token is answered 403 and changes nothing.
\<close>

theorem revoked_token_is_refused:
  assumes "db_reachable sha (as_db st)" and "authenticate_service_token sha token (as_db st) = Some who"
    and revoke: "as_db st' = revoke_service_account c (si_id who) (as_db st)"
    and calls: "hashed_with sha calls" "ae_sha env = sha"
    and request: "role_needed ep = Some role" "strip (remove_bearer (rq_authorization rq)) = token" "token \<noteq> []"
  shows "\<exists>later. handle env openapi ep rq (serve openapi calls st') = (err 403 ''invalid or revoked token'', later, []) \<and>
     as_db later = as_db (serve openapi calls st')"
proof -
  have "revoked (sha token) (as_db st')"
    using revoking_marks [OF assms(1,2)] by (simp add: revoke)
  then have "authenticate_service_token sha token (as_db (serve openapi calls st')) = None"
    using revoked_is_refused [of sha token "as_db (serve openapi calls st')"] revoked_steps [OF serve_steps [OF calls(1)]] by simp
  then show ?thesis
    using calls(2) request by (auto simp: handle_def Let_def require_role_def replies_def)
qed

lemma revoked_token_is_refused_witness:
  "\<exists>db later. handle demo_api_env JNull Audit_Log (demo_request JNull)
       (serve JNull [demo_enrol_call] \<lparr>as_db = revoke_service_account demo_clock 1 db, as_counters = None\<rparr>) =
     (err 403 ''invalid or revoked token'', later, [])"
proof -
  obtain r db where db: "create_service_account (\<lambda>s. s) demo_clock ''k'' 1 ''bot'' ''agent'' empty_db = Inr (r, db)"
    and a: "authenticate_service_token (\<lambda>s. s) ''ddsa_k'' db =
       Some \<lparr>si_id = 1, si_org_id = 1, si_name = ''bot'', si_role = ''agent''\<rparr>"
    by (simp add: create_service_account_def empty_db_def empty_table_def insert_row_def append_row_def
        Let_def authenticate_service_token_def select_rows_def fetchone_def)
  let ?st = "\<lparr>as_db = db, as_counters = None\<rparr>"
  have "db_reachable (\<lambda>s. s) db" unfolding db_reachable_def by (rule r_into_rtranclp) (rule step_account [OF db])
  then have reach: "db_reachable (\<lambda>s. s) (as_db ?st)" by simp
  have id: "authenticate_service_token (\<lambda>s. s) ''ddsa_k'' (as_db ?st) =
       Some \<lparr>si_id = 1, si_org_id = 1, si_name = ''bot'', si_role = ''agent''\<rparr>" using a by simp
  let ?st' = "\<lparr>as_db = revoke_service_account demo_clock 1 db, as_counters = None\<rparr>"
  have revoke: "as_db ?st' = revoke_service_account demo_clock (si_id \<lparr>si_id = 1, si_org_id = 1, si_name = ''bot'',
      si_role = ''agent''\<rparr>) (as_db ?st)" by simp
  have ep: "role_needed Audit_Log = Some ''admin''" by simp
  from revoked_token_is_refused [OF reach id revoke demo_hashed demo_hash ep demo_token, of JNull JNull]
  show ?thesis by auto
qed

end
