(* ===== verification/Backup.thy ===== *)
theory Backup
  imports Json_Layout
begin

text \<open>
  \<open>src/devrepro/server/backup.py\<close>: the archive of the fleet database and its restoration. Bytes
  are strings; the gzipped tar format is a pair of arguments, \<open>pack\<close> from the members in order and
  \<open>unpack\<close> to them, \<open>None\<close> for an archive that cannot be read and for the bytes of a member that is
  no file. A directory is the dictionary of its files. A restoration gives back the directory as it
  leaves it, also when it fails half way.
\<close>

section \<open>Backing up\<close>

type_synonym directory = "(string \<times> string) list"

datatype restore_error = Restore_Error string | Value_Error | OS_Error | Assertion_Error

record backup_result =
  bk_archive :: string
  bk_members :: nat
  bk_sha256 :: string

definition BACKUP_FORMAT :: string where
  "BACKUP_FORMAT = ''devrepro-server-backup''"

definition BACKUP_VERSION :: int where
  "BACKUP_VERSION = 1"

definition member_of_dir :: "directory \<Rightarrow> string \<Rightarrow> (string \<times> string) list" where
  "member_of_dir dir name = (case map_of dir name of None \<Rightarrow> [] | Some blob \<Rightarrow> [(name, blob)])"

definition backup_members :: "directory \<Rightarrow> string \<Rightarrow> (string \<times> string) list" where
  "backup_members dir name =
     sort (concat (map (member_of_dir dir) (map ((@) name) [[], ''-wal'', ''-shm''])))"

definition backup_manifest :: "(string \<Rightarrow> string) \<Rightarrow> string \<Rightarrow> (string \<times> string) list \<Rightarrow> json" where
  "backup_manifest sha now members = JObj
     [(''format'', JStr BACKUP_FORMAT), (''version'', JInt BACKUP_VERSION), (''created_at'', JStr now),
      (''members'', JObj (map (\<lambda>(name, blob). (name, JStr (sha blob))) members))]"

definition backup_database ::
  "(string \<Rightarrow> string) \<Rightarrow> ((string \<times> string) list \<Rightarrow> string) \<Rightarrow> string \<Rightarrow> directory \<Rightarrow> string \<Rightarrow>
    restore_error + backup_result" where
  "backup_database sha pack now dir name =
     (if map_of dir name = None then Inl (Restore_Error (''database not found: '' @ name))
      else
        (let members = backup_members dir name;
             archive = pack (members @ [(''manifest.json'', dump_indent (backup_manifest sha now members))])
         in Inr \<lparr>bk_archive = archive, bk_members = length members, bk_sha256 = sha archive\<rparr>))"

section \<open>Restoring\<close>

text \<open>What \<open>extractfile\<close> gives for a name: the last member that has it.\<close>

definition extract_file :: "(string \<times> string option) list \<Rightarrow> string \<Rightarrow> string option" where
  "extract_file tf name = (case map_of (rev tf) name of Some (Some blob) \<Rightarrow> Some blob | _ \<Rightarrow> None)"

definition extracted_members :: "(string \<times> string option) list \<Rightarrow> (string \<times> string) list" where
  "extracted_members tf =
     dict_of (concat (map (\<lambda>(name, b).
       if name = ''manifest.json'' then []
       else (case extract_file tf name of None \<Rightarrow> [] | Some blob \<Rightarrow> [(name, blob)])) tf))"

definition check_member ::
  "(string \<Rightarrow> string) \<Rightarrow> (string \<times> string) list \<Rightarrow> string \<times> json \<Rightarrow> restore_error + unit" where
  "check_member sha extracted = (\<lambda>(name, digest).
     case map_of extracted name of
       None \<Rightarrow> Inl (Restore_Error (''manifest declares missing member '' @ name))
     | Some blob \<Rightarrow>
         if JStr (sha blob) \<noteq> digest then Inl (Restore_Error (''checksum mismatch for '' @ name @ ''; archive is corrupt''))
         else Inr ())"

definition read_manifest :: "(string \<times> string option) list \<Rightarrow> restore_error + (string \<times> json) list" where
  "read_manifest tf =
     (if ''manifest.json'' \<notin> fst ` set tf then Inl (Restore_Error ''archive has no manifest.json'')
      else
        (case extract_file tf ''manifest.json'' of
           None \<Rightarrow> Inl Assertion_Error
         | Some mfile \<Rightarrow>
             (case loads mfile of
                None \<Rightarrow> Inl (Restore_Error ''archive manifest is not valid JSON'')
              | Some (JObj manifest) \<Rightarrow> Inr manifest
              | Some _ \<Rightarrow> Inl (Restore_Error ''archive manifest is not an object''))))"

definition declared_members :: "(string \<times> json) list \<Rightarrow> restore_error + (string \<times> json) list" where
  "declared_members manifest =
     (case dict_get manifest ''members'' of
        JObj declared \<Rightarrow> Inr declared
      | _ \<Rightarrow> Inl (Restore_Error ''manifest lacks member checksums''))"

text \<open>Everything that is checked before the first write: the members to be written.\<close>

definition verified_members ::
  "(string \<Rightarrow> string) \<Rightarrow> (string \<Rightarrow> (string \<times> string option) list option) \<Rightarrow> string option \<Rightarrow> directory \<Rightarrow> string \<Rightarrow> bool \<Rightarrow>
    restore_error + (string \<times> string) list" where
  "verified_members sha unpack archive dir target overwrite =
     (case archive of
        None \<Rightarrow> Inl (Restore_Error ''archive not found'')
      | Some bytes \<Rightarrow>
          if map_of dir target \<noteq> None \<and> \<not> overwrite then Inl (Restore_Error (''refusing to overwrite existing '' @ target))
          else
            (case unpack bytes of
               None \<Rightarrow> Inl (Restore_Error ''unreadable archive'')
             | Some tf \<Rightarrow>
                 bind_res (read_manifest tf) (\<lambda>manifest.
                 bind_res (declared_members manifest) (\<lambda>declared.
                 bind_res (map_res (check_member sha (extracted_members tf)) (sort_key fst declared)) (\<lambda>u.
                   if dict_get manifest ''format'' \<noteq> JStr BACKUP_FORMAT then
                     Inl (Restore_Error (''not a '' @ BACKUP_FORMAT @ '' archive''))
                   else if map_of (extracted_members tf) target = None then
                     Inl (Restore_Error (''archive contains no database file named '' @ target))
                   else Inr (extracted_members tf))))))"

text \<open>\<open>Path.with_name\<close> refuses a name that is not one path component, opening a file
  one with a null character; writing to the parent directory fails.\<close>

fun write_members :: "(string \<times> string) list \<Rightarrow> directory \<Rightarrow> (restore_error + unit) \<times> directory" where
  "write_members [] dir = (Inr (), dir)"
| "write_members ((name, blob) # ms) dir =
     (if name = [] \<or> CHR ''/'' \<in> set name \<or> CHR 0x00 \<in> set name \<or> name = ''.'' then (Inl Value_Error, dir)
      else if name = ''..'' then (Inl OS_Error, dir)
      else write_members ms (dict_set name blob dir))"

definition restore_database ::
  "(string \<Rightarrow> string) \<Rightarrow> (string \<Rightarrow> (string \<times> string option) list option) \<Rightarrow> string option \<Rightarrow> directory \<Rightarrow> string \<Rightarrow> bool \<Rightarrow>
    (restore_error + unit) \<times> directory" where
  "restore_database sha unpack archive dir target overwrite =
     (case verified_members sha unpack archive dir target overwrite of
        Inl e \<Rightarrow> (Inl e, dir)
      | Inr extracted \<Rightarrow> write_members extracted dir)"

section \<open>Lemmas\<close>

definition member_names :: "string \<Rightarrow> string list" where
  "member_names name = map ((@) name) [[], ''-wal'', ''-shm'']"

lemma distinct_member_names: "distinct (member_names name)"
  by (simp add: member_names_def)

lemma fst_member_of_dir: "x \<in> set (member_of_dir dir n) \<Longrightarrow> fst x = n"
  by (auto simp: member_of_dir_def split: option.splits)

lemma distinct_members_of_dir:
  "distinct ns \<Longrightarrow> distinct (map fst (concat (map (member_of_dir dir) ns)))"
proof (induction ns)
  case (Cons n ns)
  have "fst x \<noteq> n" if "x \<in> set (concat (map (member_of_dir dir) ns))" for x
    using that Cons.prems fst_member_of_dir by fastforce
  then have "n \<notin> fst ` set (concat (map (member_of_dir dir) ns))" by blast
  with Cons show ?case by (auto simp: member_of_dir_def split: option.split)
qed simp

lemma members_of_dir_lookup:
  "map_of (concat (map (member_of_dir dir) ns)) n = (if n \<in> set ns then map_of dir n else None)"
  by (induction ns) (auto simp: member_of_dir_def map_add_def split: option.splits)

lemma distinct_sort_pairs: "distinct (map fst d) \<Longrightarrow> distinct (map fst (sort_key f d))"
  by (simp add: distinct_map)

lemma distinct_backup_members: "distinct (map fst (backup_members dir name))"
  using distinct_sort_pairs [OF distinct_members_of_dir [OF distinct_member_names], of "\<lambda>x. x"]
  by (simp only: backup_members_def member_names_def)

lemma backup_members_lookup:
  "map_of (backup_members dir name) n = (if n \<in> set (member_names name) then map_of dir n else None)"
  using map_of_sort_key [OF distinct_members_of_dir [OF distinct_member_names], of "\<lambda>x. x"]
  by (simp only: backup_members_def member_names_def members_of_dir_lookup)

lemma map_res_checks: "(\<And>x. x \<in> set xs \<Longrightarrow> f x = Inr ()) \<Longrightarrow> map_res f xs = Inr (map (\<lambda>x. ()) xs)"
  by (rule map_res_Inr)

lemma map_res_all: "map_res f xs = Inr ys \<Longrightarrow> x \<in> set xs \<Longrightarrow> \<exists>y. f x = Inr y"
  by (induction xs arbitrary: ys) (auto simp: result_simps)

text \<open>An archive of plain files with distinct names.\<close>

definition files_of :: "(string \<times> string) list \<Rightarrow> (string \<times> string option) list" where
  "files_of ms = map (\<lambda>(n, b). (n, Some b)) ms"

lemma fst_files_of: "fst ` set (files_of ms) = fst ` set ms"
  by (force simp: files_of_def)

lemma map_of_files_of: "map_of (files_of ms) n = map_option Some (map_of ms n)"
  by (induction ms) (auto simp: files_of_def)

lemma map_of_rev_distinct: "distinct (map fst ms) \<Longrightarrow> map_of (rev ms) = map_of ms"
  by (rule map_of_eqI) (auto simp: rev_map [symmetric] intro: map_of_eqI)

lemma extract_file_of: "distinct (map fst ms) \<Longrightarrow> extract_file (files_of ms) n = map_of ms n"
proof -
  assume d: "distinct (map fst ms)"
  have "rev (files_of ms) = files_of (rev ms)" by (simp add: files_of_def rev_map)
  then show ?thesis
    by (simp add: extract_file_def map_of_files_of map_of_rev_distinct [OF d] split: option.split)
qed

lemma extracted_of_files:
  assumes "distinct (map fst (ms @ [(''manifest.json'', m)]))"
  shows "extracted_members (files_of (ms @ [(''manifest.json'', m)])) = ms"
proof -
  let ?tf = "files_of (ms @ [(''manifest.json'', m)])"
  let ?g = "\<lambda>(name, b). if name = ''manifest.json'' then []
       else (case extract_file ?tf name of None \<Rightarrow> [] | Some blob \<Rightarrow> [(name, blob)])"
  have d: "distinct (map fst ms)" and nm: "''manifest.json'' \<notin> fst ` set ms" using assms by auto
  have one: "?g (n, b') = [(n, b)]" if "(n, b) \<in> set ms" for n b and b' :: "string option"
  proof -
    have "n \<noteq> ''manifest.json''" using that nm by force
    moreover have "extract_file ?tf n = Some b"
      using that d nm by (subst extract_file_of [OF assms]) (auto simp: map_add_def split: option.split)
    ultimately show ?thesis by simp
  qed
  have "concat (map ?g (files_of ks)) = ks" if "set ks \<subseteq> set ms" for ks
    using that
  proof (induction ks)
    case (Cons k ks)
    then show ?case using one [of "fst k" "snd k"] by (cases k) (simp add: files_of_def)
  qed (simp add: files_of_def)
  then have "concat (map ?g ?tf) = ms" by (simp add: files_of_def)
  then show ?thesis
    by (simp only: extracted_members_def dict_of_distinct [OF d])
qed

lemma map_of_concat_dict:
  assumes "\<And>p. p \<in> set tf \<Longrightarrow> g p = (if h (fst p) = None then [] else [(fst p, the (h (fst p)))])"
  shows "map_of (rev (concat (map g tf))) n = (if n \<in> fst ` set tf then h n else None)"
  using assms
proof (induction tf)
  case (Cons p tf)
  have IH: "map_of (rev (concat (map g tf))) n = (if n \<in> fst ` set tf then h n else None)"
    by (rule Cons.IH) (simp add: Cons.prems)
  have g: "g p = (if h (fst p) = None then [] else [(fst p, the (h (fst p)))])"
    by (rule Cons.prems) simp
  show ?case
    by (cases "h (fst p)") (auto simp: g IH map_add_def split: option.split)
qed simp

lemma extract_file_name: "extract_file tf n = Some b \<Longrightarrow> n \<in> fst ` set tf"
  by (auto simp: extract_file_def split: option.splits dest!: map_of_SomeD intro: rev_image_eqI)

lemma extracted_lookup:
  "map_of (extracted_members tf) n = (if n = ''manifest.json'' then None else extract_file tf n)"
proof -
  let ?h = "\<lambda>n. if n = ''manifest.json'' then None else extract_file tf n"
  have "map_of (extracted_members tf) n = (if n \<in> fst ` set tf then ?h n else None)"
    unfolding extracted_members_def map_of_dict_of
    by (rule map_of_concat_dict) (auto split: option.split)
  then show ?thesis using extract_file_name [of tf n] by (cases "extract_file tf n") auto
qed

definition file_name :: "string \<Rightarrow> bool" where
  "file_name n \<longleftrightarrow> n \<noteq> [] \<and> CHR ''/'' \<notin> set n \<and> CHR 0x00 \<notin> set n \<and> n \<noteq> ''.'' \<and> n \<noteq> ''..''"

lemma write_members_all:
  "list_all (file_name \<circ> fst) ms \<Longrightarrow> write_members ms dir = (Inr (), fold (\<lambda>(n, b). dict_set n b) ms dir)"
  by (induction ms dir rule: write_members.induct) (auto simp: file_name_def)



text \<open>The check of an archive, stated without the order it is made in.\<close>

definition manifest_verifies :: "(string \<Rightarrow> string) \<Rightarrow> (string \<times> string option) list \<Rightarrow> bool" where
  "manifest_verifies sha tf \<longleftrightarrow>
     (\<exists>text manifest declared.
        extract_file tf ''manifest.json'' = Some text \<and> loads text = Some (JObj manifest) \<and>
        dict_get manifest ''members'' = JObj declared \<and> dict_get manifest ''format'' = JStr BACKUP_FORMAT \<and>
        (\<forall>(n, digest)\<in>set declared. n \<noteq> ''manifest.json'' \<and>
           map_option (\<lambda>blob. JStr (sha blob)) (extract_file tf n) = Some digest))"

lemma manifest_verifiesI:
  assumes "loads content = Some (backup_manifest sha now ms)" and "extract_file tf ''manifest.json'' = Some content"
    and "\<And>n b. (n, b) \<in> set ms \<Longrightarrow> n \<noteq> ''manifest.json'' \<and> extract_file tf n = Some b"
  shows "manifest_verifies sha tf"
  unfolding manifest_verifies_def
  by (rule exI [of _ content], rule exI, rule exI [of _ "map (\<lambda>(n, b). (n, JStr (sha b))) ms"])
    (use assms in \<open>auto simp: backup_manifest_def dict_get_def\<close>)

lemma read_manifest_iff:
  "read_manifest tf = Inr m \<longleftrightarrow> (\<exists>text. extract_file tf ''manifest.json'' = Some text \<and> loads text = Some (JObj m))"
  using extract_file_name [of tf "''manifest.json''"]
  by (cases "extract_file tf ''manifest.json''")
    (auto simp: read_manifest_def split: option.split json.split)

lemma declared_members_iff: "declared_members m = Inr d \<longleftrightarrow> dict_get m ''members'' = JObj d"
  by (auto simp: declared_members_def split: json.split)

lemma check_member_iff:
  "check_member sha (extracted_members tf) (n, digest) = Inr () \<longleftrightarrow>
     n \<noteq> ''manifest.json'' \<and> map_option (\<lambda>blob. JStr (sha blob)) (extract_file tf n) = Some digest"
  by (auto simp: check_member_def extracted_lookup split: option.split)

lemma map_res_unit: "(\<exists>us. map_res f xs = Inr us) \<longleftrightarrow> (\<forall>x\<in>set xs. f x = Inr ())"
proof
  assume "\<exists>us. map_res f xs = Inr us"
  then obtain us where us: "map_res f xs = Inr us" ..
  show "\<forall>x\<in>set xs. f x = Inr ()"
    using map_res_all [OF us] by auto
next
  assume "\<forall>x\<in>set xs. f x = Inr ()"
  then show "\<exists>us. map_res f xs = Inr us" using map_res_checks [of xs f] by auto
qed

lemma checks_iff:
  "(\<exists>us. map_res (check_member sha (extracted_members tf)) (sort_key fst declared) = Inr us) \<longleftrightarrow>
     (\<forall>(n, digest)\<in>set declared. n \<noteq> ''manifest.json'' \<and>
        map_option (\<lambda>blob. JStr (sha blob)) (extract_file tf n) = Some digest)"
proof -
  have "check_member sha (extracted_members tf) x = Inr () \<longleftrightarrow>
     (case x of (n, digest) \<Rightarrow> n \<noteq> ''manifest.json'' \<and>
        map_option (\<lambda>blob. JStr (sha blob)) (extract_file tf n) = Some digest)" for x
    by (cases x) (simp only: check_member_iff prod.case)
  then show ?thesis by (simp only: map_res_unit set_sort)
qed

lemma verified_members_iff:
  "verified_members sha unpack archive dir target overwrite = Inr ms \<longleftrightarrow>
     (\<exists>bytes tf. archive = Some bytes \<and> unpack bytes = Some tf \<and> manifest_verifies sha tf \<and>
        (overwrite \<or> map_of dir target = None) \<and> ms = extracted_members tf \<and> map_of ms target \<noteq> None)"
proof -
  define checked where "checked tf declared \<longleftrightarrow>
    (\<exists>us. map_res (check_member sha (extracted_members tf)) (sort_key fst declared) = Inr us)" for tf declared
  have spec: "manifest_verifies sha tf \<longleftrightarrow>
      (\<exists>manifest declared. read_manifest tf = Inr manifest \<and> declared_members manifest = Inr declared \<and>
         dict_get manifest ''format'' = JStr BACKUP_FORMAT \<and> checked tf declared)" for tf
    unfolding manifest_verifies_def checked_def checks_iff read_manifest_iff declared_members_iff by blast
  show ?thesis
  proof (cases archive)
    case (Some bytes)
    show ?thesis
    proof (cases "unpack bytes")
      case (Some tf)
      then show ?thesis
        by (auto simp: verified_members_def \<open>archive = Some bytes\<close> bind_res_Inr_iff spec checked_def)
    qed (use Some in \<open>simp add: verified_members_def\<close>)
  qed (simp add: verified_members_def)
qed

section \<open>Correctness\<close>

text \<open>
  C21: A database that was backed up is restored as it was: into a directory without a file of
  that name the restoration succeeds, the database and the side files it had come back with
  their bytes, and every other file of the directory stays. The hypothesis on the archive
  format is that reading an archive gives the members written to it.
\<close>

theorem backup_restore_roundtrip:
  assumes format: "\<And>ms. unpack (pack ms) = Some (files_of ms)"
    and backup: "backup_database sha pack now dir name = Inr r"
    and name: "file_name name" "name \<noteq> ''manifest.json''"
    and fresh: "map_of target name = None"
  shows "\<exists>target'. restore_database sha unpack (Some (bk_archive r)) target name False = (Inr (), target') \<and>
     map_of target' = (\<lambda>n. if n \<in> {name, name @ ''-wal'', name @ ''-shm''} \<and> map_of dir n \<noteq> None
       then map_of dir n else map_of target n)"
proof -
  let ?ms = "backup_members dir name"
  let ?text = "dump_indent (backup_manifest sha now ?ms)"
  have names: "fst ` set ?ms \<subseteq> set (member_names name)"
    using backup_members_lookup [of dir name] by (force simp: weak_map_of_SomeI split: if_splits dest: weak_map_of_SomeI)
  then have nm: "''manifest.json'' \<notin> fst ` set ?ms" and ok: "list_all (file_name \<circ> fst) ?ms"
    using name by (auto simp: member_names_def file_name_def list_all_iff)
  have d: "distinct (map fst (?ms @ [(''manifest.json'', ?text)]))"
    using nm distinct_backup_members by auto
  have r: "bk_archive r = pack (?ms @ [(''manifest.json'', ?text)])" and "map_of dir name \<noteq> None"
    using backup by (auto simp: backup_database_def Let_def split: if_splits)
  then have main: "map_of ?ms name \<noteq> None" by (simp add: backup_members_lookup member_names_def)
  have ex: "extracted_members (files_of (?ms @ [(''manifest.json'', ?text)])) = ?ms"
    by (rule extracted_of_files [OF d])
  have "loads ?text = Some (backup_manifest sha now ?ms)"
    by (rule loads_indent(2)) (auto simp: backup_manifest_def comp_def case_prod_unfold distinct_backup_members list_all_iff)
  moreover have "extract_file (files_of (?ms @ [(''manifest.json'', ?text)])) n =
     (if n = ''manifest.json'' then Some ?text else map_of ?ms n)" for n
  proof -
    have "map_of ?ms ''manifest.json'' = None" using nm by (simp add: map_of_eq_None_iff)
    then show ?thesis by (simp add: extract_file_of [OF d] map_add_def split: option.split)
  qed
  ultimately have "manifest_verifies sha (files_of (?ms @ [(''manifest.json'', ?text)]))"
    using nm distinct_backup_members [of dir name] by (intro manifest_verifiesI) (auto simp: rev_image_eqI)
  then have "verified_members sha unpack (Some (bk_archive r)) target name False = Inr ?ms"
    using fresh main by (simp add: verified_members_iff r format ex)
  then show ?thesis
    by (auto simp: restore_database_def write_members_all [OF ok] map_of_fold_dict_set fun_eq_iff map_add_def
        map_of_rev_distinct [OF distinct_backup_members] backup_members_lookup member_names_def split: option.split)
qed



text \<open>
  The checksums protect the declared members only: an archive whose manifest declares no
  member at all is restored whatever its members hold, although no byte of them was compared
  with anything.
\<close>

theorem undeclared_members_are_restored:
  assumes format: "unpack bytes = Some (files_of (ms @ [(''manifest.json'', text)]))"
    and manifest: "loads text = Some (JObj [(''format'', JStr BACKUP_FORMAT), (''members'', JObj [])])"
    and names: "distinct (map fst ms)" "''manifest.json'' \<notin> fst ` set ms" "list_all (file_name \<circ> fst) ms"
    and target: "map_of ms target = Some blob" and fresh: "map_of dir target = None"
  shows "\<exists>dir'. restore_database sha unpack (Some bytes) dir target False = (Inr (), dir') \<and>
     map_of dir' = map_of dir ++ map_of ms"
proof -
  have d: "distinct (map fst (ms @ [(''manifest.json'', text)]))" using names by auto
  have none: "map_of ms ''manifest.json'' = None" using names by (simp add: map_of_eq_None_iff)
  have ex: "extracted_members (files_of (ms @ [(''manifest.json'', text)])) = ms"
    by (rule extracted_of_files [OF d])
  have "extract_file (files_of (ms @ [(''manifest.json'', text)])) ''manifest.json'' = Some text"
    by (simp add: extract_file_of [OF d] map_add_def none)
  then have "manifest_verifies sha (files_of (ms @ [(''manifest.json'', text)]))"
    by (simp add: manifest_verifies_def manifest dict_get_def)
  then have "verified_members sha unpack (Some bytes) dir target False = Inr ms"
    using fresh target by (simp add: verified_members_iff format ex)
  then show ?thesis
    by (simp add: restore_database_def write_members_all [OF names(3)] map_of_fold_dict_set
        map_of_rev_distinct [OF names(1)])
qed

section \<open>Concrete instances\<close>

definition demo_pack :: "(string \<times> string) list \<Rightarrow> string" where
  "demo_pack ms = dump_json (JList (map (\<lambda>(n, b). JList [JStr n, JStr b]) ms))"

fun demo_member :: "json \<Rightarrow> string \<times> string option" where
  "demo_member (JList [JStr n, JStr b]) = (n, Some b)"
| "demo_member j = ([], None)"

definition demo_unpack :: "string \<Rightarrow> (string \<times> string option) list option" where
  "demo_unpack b = (case loads b of Some (JList js) \<Rightarrow> Some (map demo_member js) | _ \<Rightarrow> None)"

definition demo_length_sha :: "string \<Rightarrow> string" where
  "demo_length_sha b = str_nat (length b)"

definition demo_dir :: directory where
  "demo_dir = [(''fleet.db'', ''rows''), (''fleet.db-wal'', ''log''), (''notes'', ''n'')]"

lemma demo_unpack_pack: "demo_unpack (demo_pack ms) = Some (files_of ms)"
proof -
  have "wf_json (JList (map (\<lambda>(n, b). JList [JStr n, JStr b]) ms))" by (auto simp: list_all_iff)
  then show ?thesis
    unfolding demo_unpack_def demo_pack_def
    by (simp only: loads_dump_json) (auto simp: files_of_def)
qed

theorem backup_restore_roundtrip_witness:
  "\<exists>target'. restore_database demo_length_sha demo_unpack
       (Some (demo_pack (backup_members demo_dir ''fleet.db'' @
         [(''manifest.json'', dump_indent (backup_manifest demo_length_sha ''t'' (backup_members demo_dir ''fleet.db'')))])))
       [(''other'', ''x'')] ''fleet.db'' False = (Inr (), target') \<and>
     map_of target' ''fleet.db'' = Some ''rows'' \<and> map_of target' ''fleet.db-wal'' = Some ''log'' \<and>
     map_of target' ''other'' = Some ''x'' \<and> map_of target' ''notes'' = None"
  using backup_restore_roundtrip [of demo_unpack demo_pack demo_length_sha "''t''" demo_dir "''fleet.db''" _ "[(''other'', ''x'')]",
      OF demo_unpack_pack]
  by (force simp: backup_database_def Let_def demo_dir_def file_name_def)


theorem undeclared_members_are_restored_witness:
  "\<exists>dir'. restore_database demo_length_sha demo_unpack
       (Some (demo_pack [(''fleet.db'', ''forged''), (''fleet.db-wal'', ''forged''),
         (''manifest.json'', dumps (JObj [(''format'', JStr BACKUP_FORMAT), (''members'', JObj [])]))]))
       [] ''fleet.db'' False = (Inr (), dir') \<and> map_of dir' ''fleet.db'' = Some ''forged''"
proof -
  have m: "loads (dumps (JObj [(''format'', JStr BACKUP_FORMAT), (''members'', JObj [])])) =
      Some (JObj [(''format'', JStr BACKUP_FORMAT), (''members'', JObj [])])"
    by code_simp
  show ?thesis
    using undeclared_members_are_restored
      [of demo_unpack _ "[(''fleet.db'', ''forged''), (''fleet.db-wal'', ''forged'')]", OF _ m,
       of _ "''fleet.db''" "''forged''" "[]" demo_length_sha]
    by (force simp: demo_unpack_pack file_name_def)
qed

end
