(* ===== verification/Signing.thy ===== *)
theory Signing
  imports Json
begin

text \<open>
  \<open>src/devrepro/snapshots/signing.py\<close>: detached HMAC signatures. The HMAC with its hexadecimal
  rendering is an argument; the signature document and its reading are the code's. What is asked
  of the HMAC, where something is, is that its rendering is lower-case hexadecimal text.
\<close>

section \<open>Signing\<close>

datatype signing_error = Empty_Key | Compare_Type_Error

definition SIGNATURE_PREFIX :: string where
  "SIGNATURE_PREFIX = ''devrepro-sig-v1''"

definition signature_lines :: "string \<Rightarrow> string \<Rightarrow> string list" where
  "signature_lines digest key_id =
     [SIGNATURE_PREFIX, ''algorithm: hmac-sha256''] @
     (if key_id \<noteq> [] then [''key-id: '' @ key_id] else []) @ [''signature: '' @ digest]"

definition sign_bytes ::
  "(string \<Rightarrow> string \<Rightarrow> string) \<Rightarrow> string \<Rightarrow> string \<Rightarrow> string \<Rightarrow> signing_error + string" where
  "sign_bytes hmac data key key_id =
     (if key = [] then Inl Empty_Key
      else Inr (join [CHR 0x0A] (signature_lines (hmac key data) key_id) @ [CHR 0x0A]))"

section \<open>Verifying\<close>

text \<open>What the loop leaves in \<open>expected\<close>: the value of the first line that starts with the label.\<close>

definition expected_digest :: "string \<Rightarrow> string option" where
  "expected_digest doc =
     map_option (\<lambda>line. py_lower (strip (drop 10 line)))
       (find (\<lambda>line. starts_with line ''signature:'') (splitlines doc))"

text \<open>\<open>hmac.compare_digest\<close> refuses texts that are not ASCII.\<close>

definition is_ascii :: "string \<Rightarrow> bool" where
  "is_ascii s \<longleftrightarrow> list_all (\<lambda>c. (of_char c :: nat) < 128) s"

definition compare_digest :: "string \<Rightarrow> string \<Rightarrow> signing_error + bool" where
  "compare_digest a b = (if is_ascii a \<and> is_ascii b then Inr (a = b) else Inl Compare_Type_Error)"

definition verify_bytes ::
  "(string \<Rightarrow> string \<Rightarrow> string) \<Rightarrow> string \<Rightarrow> string \<Rightarrow> string \<Rightarrow> signing_error + bool" where
  "verify_bytes hmac data key doc =
     (case expected_digest doc of
        None \<Rightarrow> Inr False
      | Some expected \<Rightarrow> if expected = [] then Inr False else compare_digest (hmac key data) expected)"

section \<open>Correctness\<close>

text \<open>Lower-case hexadecimal text is left as it is by reading a signature line.\<close>

definition is_hex :: "string \<Rightarrow> bool" where
  "is_hex s \<longleftrightarrow> s \<noteq> [] \<and> list_all (\<lambda>c. is_digit c \<or> (97 \<le> (of_char c :: nat) \<and> (of_char c :: nat) \<le> 102)) s"

lemma hex_char:
  assumes "is_digit c \<or> (97 \<le> (of_char c :: nat) \<and> (of_char c :: nat) \<le> 102)"
  shows "\<not> is_space c" and "\<not> line_break c" and "\<not> is_upper c" and "(of_char c :: nat) < 128"
    and "\<not> (192 \<le> (of_char c :: nat) \<and> (of_char c :: nat) \<le> 222 \<and> (of_char c :: nat) \<noteq> 215)"
  using assms by (auto simp: is_digit_def is_space_def line_break_def is_upper_def Let_def)

lemma hex_facts:
  assumes "is_hex s"
  shows "strip s = s" and "py_lower s = s" and "is_ascii s" and "\<forall>c\<in>set s. \<not> line_break c"
proof -
  have c: "is_digit c \<or> (97 \<le> (of_char c :: nat) \<and> (of_char c :: nat) \<le> 102)" if "c \<in> set s" for c
    using assms that by (auto simp: is_hex_def list_all_iff)
  have "s \<noteq> []" using assms by (simp add: is_hex_def)
  then show "strip s = s" using hex_char(1) [OF c] by (intro strip_id) auto
  show "py_lower s = s"
    unfolding py_lower_def
  proof (rule map_idI)
    fix d assume "d \<in> set s"
    from hex_char(3,5) [OF c [OF this]]
    show "(let n = (of_char d :: nat) in
       if is_upper d \<or> (192 \<le> n \<and> n \<le> 222 \<and> n \<noteq> 215) then char_of (n + 32) else d) = d"
      by (auto simp: Let_def)
  qed
  show "is_ascii s" using hex_char(4) [OF c] by (auto simp: is_ascii_def list_all_iff)
  show "\<forall>c\<in>set s. \<not> line_break c" using hex_char(2) [OF c] by blast
qed

lemma join_lines: "ls \<noteq> [] \<Longrightarrow> join [c] ls @ [c] = concat (map (\<lambda>l. l @ [c]) ls)"
proof (induction ls)
  case (Cons l ls)
  then show ?case by (cases ls) auto
qed simp

lemma strip_space: "strip (CHR '' '' # s) = strip s"
  by (simp add: strip_def lstrip_def is_space_def)

lemma expected_of_signed:
  assumes "is_hex digest" and "\<forall>c\<in>set key_id. \<not> line_break c"
  shows "expected_digest (join [CHR 0x0A] (signature_lines digest key_id) @ [CHR 0x0A]) = Some digest"
proof -
  have lit: "\<forall>l\<in>{SIGNATURE_PREFIX, ''algorithm: hmac-sha256'', ''key-id: '', ''signature: ''}. \<forall>c\<in>set l. \<not> line_break c"
    by (simp add: SIGNATURE_PREFIX_def line_break_def)
  have "splitlines (join [CHR 0x0A] (signature_lines digest key_id) @ [CHR 0x0A]) = signature_lines digest key_id"
  proof -
    have "\<forall>l\<in>set (signature_lines digest key_id). \<forall>c\<in>set l. \<not> line_break c"
      using lit assms(2) hex_facts(4) [OF assms(1)] by (auto simp: signature_lines_def)
    moreover have "signature_lines digest key_id \<noteq> []" by (simp add: signature_lines_def)
    ultimately show ?thesis by (simp add: join_lines splitlines_lines)
  qed
  then show ?thesis
    using hex_facts(1,2) [OF assms(1)]
    by (simp add: expected_digest_def signature_lines_def starts_with_def SIGNATURE_PREFIX_def strip_space)
qed

text \<open>
  What was signed verifies: a signature document made with a key verifies the same bytes under
  the same key, whatever label it carries, as long as the label is one line.
\<close>

theorem signed_bytes_verify:
  assumes "sign_bytes hmac data key key_id = Inr doc"
    and "is_hex (hmac key data)" and "\<forall>c\<in>set key_id. \<not> line_break c"
  shows "verify_bytes hmac data key doc = Inr True"
proof -
  have "doc = join [CHR 0x0A] (signature_lines (hmac key data) key_id) @ [CHR 0x0A]"
    using assms(1) by (simp add: sign_bytes_def split: if_splits)
  then have "expected_digest doc = Some (hmac key data)" using expected_of_signed [OF assms(2,3)] by simp
  then show ?thesis
    using assms(2) hex_facts(3) [OF assms(2)] by (simp add: verify_bytes_def compare_digest_def is_hex_def)
qed

text \<open>
  A signature document fits one HMAC only: whatever it verifies, under whatever key, has the
  same authentication code.
\<close>

lemma verified_same_code:
  "verify_bytes hmac data key doc = Inr True \<Longrightarrow> verify_bytes hmac data' key' doc = Inr True \<Longrightarrow>
     hmac key data = hmac key' data'"
  by (auto simp: verify_bytes_def compare_digest_def split: option.splits if_splits)

lemma verified_digest: "verify_bytes hmac data key doc = Inr True \<Longrightarrow> expected_digest doc = Some (hmac key data)"
  by (auto simp: verify_bytes_def compare_digest_def split: option.splits if_splits)

text \<open>
  A signature line with a character outside ASCII ends verification in a \<open>TypeError\<close> instead of
  the answer that it does not match.
\<close>

theorem foreign_signature_raises:
  assumes "expected_digest doc = Some expected" and "\<not> is_ascii expected"
  shows "verify_bytes hmac data key doc = Inl Compare_Type_Error"
  using assms by (auto simp: verify_bytes_def compare_digest_def is_ascii_def)

section \<open>Concrete instances\<close>

definition demo_hmac :: "string \<Rightarrow> string \<Rightarrow> string" where
  "demo_hmac key data = str_nat (length key) @ ''ab'' @ str_nat (length data)"

lemma demo_hmac_hex: "is_hex (demo_hmac key data)"
  using str_nat_digits by (auto simp: is_hex_def demo_hmac_def list_all_iff)

theorem signed_bytes_verify_witness:
  "verify_bytes demo_hmac ''data'' ''key'' (join [CHR 0x0A] (signature_lines (demo_hmac ''key'' ''data'') ''ci'') @ [CHR 0x0A]) = Inr True"
proof -
  have "sign_bytes demo_hmac ''data'' ''key'' ''ci'' =
      Inr (join [CHR 0x0A] (signature_lines (demo_hmac ''key'' ''data'') ''ci'') @ [CHR 0x0A])"
    by (simp add: sign_bytes_def)
  then show ?thesis
    by (rule signed_bytes_verify) (simp_all add: demo_hmac_hex line_break_def)
qed

theorem foreign_signature_raises_witness:
  "verify_bytes demo_hmac ''data'' ''key'' (''signature: '' @ [CHR 0xE9]) = Inl Compare_Type_Error"
proof -
  have "expected_digest (''signature: '' @ [CHR 0xE9]) = Some [CHR 0xE9]" by code_simp
  then show ?thesis by (rule foreign_signature_raises) (simp add: is_ascii_def)
qed

end
