(* ===== verification/Advisories.thy ===== *)
theory Advisories
  imports Signing Versioning
begin

text \<open>
  \<open>src/devrepro/compliance/advisories.py\<close>: the offline set of advisories against build tools,
  its loading, and the rule that says which installed version is affected. The files a bundle is
  loaded from are read outside: their bytes, the text of the signature beside them and the
  decoding of UTF-8 are arguments. An error is a value of \<open>advisory_error\<close>, one constructor for each
  message of the code.
\<close>

section \<open>Advisories and bundles\<close>

datatype advisory_error =
    Unreadable_Bundle | Unsigned_Bundle | Key_Missing | Signature_Mismatch | Not_Json | Not_Object
  | Wrong_Schema string | No_Advisories | Entry_Not_Object nat | Entry_Missing nat | Uncaught_Type_Error

record advisory =
  ad_id :: string
  ad_tool :: string
  ad_summary :: string
  ad_fixed :: "string list"
  ad_reference :: string
  ad_severity :: string
  ad_introduced :: "string option"

record advisory_bundle =
  ab_published :: string
  ab_source :: string
  ab_advisories :: "advisory list"
  ab_signed :: bool
  ab_schema_version :: string
  ab_covers :: "string list"

definition BUNDLE_SCHEMA_VERSION :: string where
  "BUNDLE_SCHEMA_VERSION = ''1.0''"

definition for_tool :: "advisory_bundle \<Rightarrow> string \<Rightarrow> advisory list" where
  "for_tool b tool = filter (\<lambda>a. ad_tool a = tool) (ab_advisories b)"

definition BUNDLED_ADVISORIES :: "advisory list" where
  "BUNDLED_ADVISORIES =
     [\<lparr>ad_id = ''CVE-2022-24765'', ad_tool = ''git'',
        ad_summary = ''A repository owned by another user could supply configuration '' @
          ''from a parent directory, running its commands as you. The fix introduced safe.directory.'',
        ad_fixed = [''2.35.2''],
        ad_reference = ''https://github.com/git/git/security/advisories/GHSA-jrp8-9fh7-2xff'',
        ad_severity = ''high'', ad_introduced = None\<rparr>,
      \<lparr>ad_id = ''CVE-2024-32002'', ad_tool = ''git'',
        ad_summary = ''Recursive clone of a repository with a specially named submodule '' @
          ''could write into .git/ and execute a hook during the clone.'',
        ad_fixed = [''2.45.1'', ''2.44.1'', ''2.43.4'', ''2.42.2'', ''2.41.1'', ''2.40.2'', ''2.39.4''],
        ad_reference = ''https://github.com/git/git/security/advisories/GHSA-8h77-4q3w-gfgv'',
        ad_severity = ''critical'', ad_introduced = None\<rparr>,
      \<lparr>ad_id = ''CVE-2022-3602'', ad_tool = ''openssl'',
        ad_summary = ''Buffer overrun in punycode decoding during X.509 name '' @
          ''constraint checking, reachable after certificate verification.'',
        ad_fixed = [''3.0.7''],
        ad_reference = ''https://www.openssl.org/news/secadv/20221101.txt'',
        ad_severity = ''high'', ad_introduced = Some ''3.0.0''\<rparr>,
      \<lparr>ad_id = ''CVE-2023-24329'', ad_tool = ''python'',
        ad_summary = ''urllib.parse could be made to ignore a blocklist by prefixing a '' @
          ''URL with whitespace, defeating scheme filtering built on it.'',
        ad_fixed = [''3.11.4'', ''3.10.12'', ''3.9.17'', ''3.8.17''],
        ad_reference = ''https://nvd.nist.gov/vuln/detail/CVE-2023-24329'',
        ad_severity = ''medium'', ad_introduced = None\<rparr>]"

definition BUNDLED_PUBLISHED :: string where
  "BUNDLED_PUBLISHED = ''2026-09-10''"

definition tools_of :: "advisory list \<Rightarrow> string list" where
  "tools_of as = sort (remdups (map ad_tool as))"

definition bundled_bundle :: advisory_bundle where
  "bundled_bundle =
     \<lparr>ab_published = BUNDLED_PUBLISHED, ab_source = ''bundled'', ab_advisories = BUNDLED_ADVISORIES,
       ab_signed = True, ab_schema_version = BUNDLE_SCHEMA_VERSION, ab_covers = tools_of BUNDLED_ADVISORIES\<rparr>"

section \<open>Reading a bundle\<close>

definition parse_advisory :: "(string \<times> json) list \<Rightarrow> advisory py" where
  "parse_advisory entry =
     bind_res (py_item (JObj entry) ''fixed'') (\<lambda>fixed.
     bind_res (py_elements fixed) (\<lambda>fs.
     bind_res (py_item (JObj entry) ''id'') (\<lambda>i.
     bind_res (py_item (JObj entry) ''tool'') (\<lambda>tool.
     bind_res (py_item (JObj entry) ''summary'') (\<lambda>summary.
     bind_res (py_item (JObj entry) ''reference'') (\<lambda>reference.
       Inr \<lparr>ad_id = py_str i, ad_tool = py_str tool, ad_summary = py_str summary, ad_fixed = map py_str fs,
             ad_reference = py_str reference,
             ad_severity = py_str (dict_get_or entry ''severity'' (JStr ''unknown'')),
             ad_introduced = (case dict_get entry ''introduced'' of JNull \<Rightarrow> None | v \<Rightarrow> Some (py_str v))\<rparr>))))))"

fun parse_entries :: "nat \<Rightarrow> json list \<Rightarrow> advisory_error + advisory list" where
  "parse_entries n [] = Inr []"
| "parse_entries n (JObj entry # es) =
     (case parse_advisory entry of
        Inl e \<Rightarrow> Inl (Entry_Missing n)
      | Inr a \<Rightarrow> bind_res (parse_entries (n + 1) es) (\<lambda>as. Inr (a # as)))"
| "parse_entries n (e # es) = Inl (Entry_Not_Object n)"

definition bundle_covers :: "(string \<times> json) list \<Rightarrow> advisory list \<Rightarrow> string list" where
  "bundle_covers payload as = (case dict_get payload ''covers'' of JList ts \<Rightarrow> map py_str ts | _ \<Rightarrow> tools_of as)"

definition parse_bundle :: "(string \<times> json) list \<Rightarrow> string \<Rightarrow> bool \<Rightarrow> advisory_error + advisory_bundle" where
  "parse_bundle payload source signed =
     (let schema = py_str (or_json (dict_get payload ''schema_version'') (JStr [])) in
      if schema \<noteq> BUNDLE_SCHEMA_VERSION then Inl (Wrong_Schema schema)
      else
        (case dict_get payload ''advisories'' of
           JList entries \<Rightarrow>
             bind_res (parse_entries 0 entries) (\<lambda>as.
               Inr \<lparr>ab_published = py_str (or_json (dict_get payload ''published'') (JStr ''unknown'')),
                     ab_source = source, ab_advisories = as, ab_signed = signed,
                     ab_schema_version = BUNDLE_SCHEMA_VERSION,
                     ab_covers = bundle_covers payload as\<rparr>)
         | _ \<Rightarrow> Inl No_Advisories))"

text \<open>The signature beside an external bundle, and the object its text holds.\<close>

definition check_signature ::
  "(string \<Rightarrow> string \<Rightarrow> string) \<Rightarrow> string \<Rightarrow> string option \<Rightarrow> string option \<Rightarrow> bool \<Rightarrow> advisory_error + bool" where
  "check_signature hmac raw sig key trust_unsigned =
     (case sig of
        None \<Rightarrow> if trust_unsigned then Inr False else Inl Unsigned_Bundle
      | Some doc \<Rightarrow>
          (case key of
             None \<Rightarrow> Inl Key_Missing
           | Some k \<Rightarrow>
               (case verify_bytes hmac raw k doc of
                  Inl e \<Rightarrow> Inl Uncaught_Type_Error
                | Inr ok \<Rightarrow> if ok then Inr True else Inl Signature_Mismatch)))"

definition bundle_payload :: "(string \<Rightarrow> string option) \<Rightarrow> string \<Rightarrow> advisory_error + (string \<times> json) list" where
  "bundle_payload decode raw =
     (case Option.bind (decode raw) loads of
        None \<Rightarrow> Inl Not_Json
      | Some (JObj payload) \<Rightarrow> Inr payload
      | Some _ \<Rightarrow> Inl Not_Object)"

text \<open>
  \<open>load_bundle\<close>: \<open>bundle\<close> is \<open>None\<close> without a path, otherwise the name of the file and its bytes if
  they can be read; \<open>sig\<close> is the text beside it.
\<close>

definition load_bundle ::
  "(string \<Rightarrow> string \<Rightarrow> string) \<Rightarrow> (string \<Rightarrow> string option) \<Rightarrow> (string \<times> string option) option \<Rightarrow>
    string option \<Rightarrow> string option \<Rightarrow> bool \<Rightarrow> advisory_error + advisory_bundle" where
  "load_bundle hmac decode bundle sig key trust_unsigned =
     (case bundle of
        None \<Rightarrow> Inr bundled_bundle
      | Some (name, None) \<Rightarrow> Inl Unreadable_Bundle
      | Some (name, Some raw) \<Rightarrow>
          bind_res (check_signature hmac raw sig key trust_unsigned) (\<lambda>signed.
          bind_res (bundle_payload decode raw) (\<lambda>payload. parse_bundle payload name signed)))"

section \<open>Which versions are affected\<close>

definition branch :: "version \<Rightarrow> nat list" where
  "branch v = take 2 (nums v)"

text \<open>\<open>max\<close> keeps the first of equal elements.\<close>

definition max_version :: "version list \<Rightarrow> version" where
  "max_version vs = foldl (\<lambda>m v. if version_lt m v then v else m) (hd vs) (tl vs)"

definition is_affected :: "string \<Rightarrow> advisory \<Rightarrow> bool py" where
  "is_affected version_text adv =
     (case bind_res (parse_version version_text) (\<lambda>v. bind_res (map_res parse_version (ad_fixed adv)) (\<lambda>fs. Inr (v, fs))) of
        Inl e \<Rightarrow> Inr False
      | Inr (parsed, fixes) \<Rightarrow>
          if fixes = [] then Inr False
          else
            bind_res
              (case ad_introduced adv of
                 None \<Rightarrow> Inr False
               | Some t \<Rightarrow> if t = [] then Inr False
                   else bind_res (parse_version t) (\<lambda>introduced. Inr (version_lt parsed introduced)))
              (\<lambda>before.
                 if before then Inr False
                 else
                   (let same_branch = filter (\<lambda>f. branch f = branch parsed) fixes in
                    if same_branch \<noteq> [] then Inr (version_lt parsed (max_version same_branch))
                    else Inr (version_lt parsed (max_version fixes)))))"

definition tool_hits :: "advisory_bundle \<Rightarrow> string \<times> string option \<Rightarrow> (string \<times> string \<times> advisory) list py" where
  "tool_hits bundle = (\<lambda>(name, ver).
     case ver of
       None \<Rightarrow> Inr []
     | Some text \<Rightarrow>
         if text = [] then Inr []
         else
           bind_res (map_res (\<lambda>adv. bind_res (is_affected text adv) (\<lambda>hit.
               Inr (if hit then [(name, text, adv)] else []))) (for_tool bundle name))
             (\<lambda>hits. Inr (concat hits)))"

definition affected_tools ::
  "(string \<times> string option) list \<Rightarrow> advisory_bundle \<Rightarrow> (string \<times> string \<times> advisory) list py" where
  "affected_tools tools bundle =
     bind_res (map_res (tool_hits bundle) (sort_key fst tools)) (\<lambda>hits. Inr (concat hits))"

section \<open>The comparison against the fixes\<close>

lemma version_lt_total: "\<not> version_lt a b \<Longrightarrow> \<not> version_lt b c \<Longrightarrow> \<not> version_lt a c"
  unfolding version_lt_def by (meson leD leI order_trans)

lemma max_version_fold:
  "version_lt v (foldl (\<lambda>m f. if version_lt m f then f else m) m fs) \<longleftrightarrow>
     version_lt v m \<or> (\<exists>f\<in>set fs. version_lt v f)"
proof (induction fs arbitrary: m)
  case (Cons f fs)
  have "version_lt m f \<Longrightarrow> version_lt v m \<Longrightarrow> version_lt v f"
    unfolding version_lt_def by (rule less_trans)
  moreover have "\<not> version_lt m f \<Longrightarrow> version_lt v f \<Longrightarrow> version_lt v m"
    unfolding version_lt_def by (meson leI less_le_trans)
  ultimately show ?case using Cons.IH by auto
qed simp

lemma less_max_version: "vs \<noteq> [] \<Longrightarrow> version_lt v (max_version vs) \<longleftrightarrow> (\<exists>f\<in>set vs. version_lt v f)"
  by (cases vs) (auto simp: max_version_def max_version_fold)

text \<open>
  The rule as it is meant: a version is affected when some fix of its branch, or of any branch
  when its own has none, is newer, and it is not older than the version that introduced the
  problem.
\<close>

definition relevant_fixes :: "version \<Rightarrow> version list \<Rightarrow> version list" where
  "relevant_fixes v fixes =
     (if list_ex (\<lambda>f. branch f = branch v) fixes then filter (\<lambda>f. branch f = branch v) fixes else fixes)"

theorem affected_iff_a_relevant_fix_is_newer:
  assumes "parse_version version_text = Inr v" and "map_res parse_version (ad_fixed adv) = Inr fixes"
    and "case ad_introduced adv of None \<Rightarrow> True | Some t \<Rightarrow> t \<noteq> [] \<and> parse_version t = Inr start"
  shows "is_affected version_text adv =
    Inr ((ad_introduced adv = None \<or> \<not> version_lt v start) \<and> (\<exists>f\<in>set (relevant_fixes v fixes). version_lt v f))"
proof (cases "fixes = []")
  case False
  have same: "filter (\<lambda>f. branch f = branch v) fixes \<noteq> [] \<longleftrightarrow> list_ex (\<lambda>f. branch f = branch v) fixes"
    by (auto simp: filter_empty_conv list_ex_iff)
  show ?thesis
  proof (cases "ad_introduced adv")
    case None
    then show ?thesis
      using False assms(1,2) same by (auto simp: is_affected_def Let_def less_max_version relevant_fixes_def)
  next
    case (Some t)
    then have "t \<noteq> []" "parse_version t = Inr start" using assms(3) by auto
    then show ?thesis
      using Some False assms(1,2) same by (auto simp: is_affected_def Let_def less_max_version relevant_fixes_def)
  qed
qed (use assms(1,2) in \<open>simp add: is_affected_def relevant_fixes_def\<close>)

theorem affected_iff_a_relevant_fix_is_newer_witness:
  "is_affected ''2.44.0'' (BUNDLED_ADVISORIES ! 1) = Inr True \<and> is_affected ''2.44.1'' (BUNDLED_ADVISORIES ! 1) = Inr False"
proof -
  let ?adv = "BUNDLED_ADVISORIES ! 1"
  let ?fixes = "map (\<lambda>ns. \<lparr>vraw = dotted ns, nums = ns, vtag = None\<rparr>)
     [[2, 45, 1], [2, 44, 1], [2, 43, 4], [2, 42, 2], [2, 41, 1], [2, 40, 2], [2, 39, 4]]"
  have p: "map_res parse_version (ad_fixed ?adv) = Inr ?fixes" by code_simp
  have v: "parse_version ''2.44.0'' = Inr \<lparr>vraw = ''2.44.0'', nums = [2, 44, 0], vtag = None\<rparr>"
    "parse_version ''2.44.1'' = Inr \<lparr>vraw = ''2.44.1'', nums = [2, 44, 1], vtag = None\<rparr>" by code_simp+
  have i: "case ad_introduced ?adv of None \<Rightarrow> True | Some t \<Rightarrow> t \<noteq> [] \<and> parse_version t = Inr undefined"
    by (simp add: BUNDLED_ADVISORIES_def)
  have "ad_introduced ?adv = None" by (simp add: BUNDLED_ADVISORIES_def)
  then show ?thesis
    using affected_iff_a_relevant_fix_is_newer [OF v(1) p i] affected_iff_a_relevant_fix_is_newer [OF v(2) p i]
    by (simp add: relevant_fixes_def branch_def version_lt_def version_key_def less_prod_def')
qed

section \<open>The comparison over a machine\<close>

lemma map_res_concat:
  assumes "\<And>x. x \<in> set xs \<Longrightarrow> \<exists>ys. f x = Inr ys"
  shows "\<exists>yss. map_res f xs = Inr yss \<and> set (concat yss) = {y. \<exists>x\<in>set xs. \<exists>ys. f x = Inr ys \<and> y \<in> set ys}"
  using assms
proof (induction xs)
  case (Cons x xs)
  obtain ys where "f x = Inr ys" using Cons.prems by auto
  moreover obtain yss where "map_res f xs = Inr yss"
    "set (concat yss) = {y. \<exists>x\<in>set xs. \<exists>ys. f x = Inr ys \<and> y \<in> set ys}" using Cons by auto
  ultimately show ?case by auto
qed simp

lemma bundled_total: "adv \<in> set BUNDLED_ADVISORIES \<Longrightarrow> \<exists>b. is_affected vt adv = Inr b"
proof -
  have p: "parse_version ''3.0.0'' = Inr \<lparr>vraw = ''3.0.0'', nums = [3, 0, 0], vtag = None\<rparr>" by code_simp
  assume "adv \<in> set BUNDLED_ADVISORIES"
  then have "ad_introduced adv = None \<or> ad_introduced adv = Some ''3.0.0''"
    by (auto simp: BUNDLED_ADVISORIES_def)
  then show ?thesis
    by (auto simp: is_affected_def Let_def p split: sum.split)
qed

lemma tool_hits_total:
  assumes "\<And>adv vt. adv \<in> set (ab_advisories bundle) \<Longrightarrow> \<exists>b. is_affected vt adv = Inr b"
  shows "\<exists>hits. tool_hits bundle (name, ver) = Inr hits \<and>
     set hits = {(n, v, a). n = name \<and> ver = Some v \<and> v \<noteq> [] \<and> a \<in> set (ab_advisories bundle) \<and>
       ad_tool a = name \<and> is_affected v a = Inr True}"
proof (cases "ver = None \<or> ver = Some []")
  case False
  then obtain vt where vt: "ver = Some vt" "vt \<noteq> []" by auto
  let ?f = "\<lambda>adv. bind_res (is_affected vt adv) (\<lambda>hit. Inr (if hit then [(name, vt, adv)] else []))"
  have total: "\<exists>ys. ?f adv = Inr ys" if "adv \<in> set (for_tool bundle name)" for adv
    using assms [of adv vt] that by (auto simp: for_tool_def)
  obtain yss where yss: "map_res ?f (for_tool bundle name) = Inr yss"
    "set (concat yss) = {y. \<exists>adv\<in>set (for_tool bundle name). \<exists>ys. ?f adv = Inr ys \<and> y \<in> set ys}"
    using map_res_concat [of "for_tool bundle name" ?f, OF total] by blast
  have "set (concat yss) = {(n, v, a). n = name \<and> ver = Some v \<and> v \<noteq> [] \<and> a \<in> set (ab_advisories bundle) \<and>
       ad_tool a = name \<and> is_affected v a = Inr True}"
  proof -
    have hit: "(\<exists>ys. ?f adv = Inr ys \<and> y \<in> set ys) \<longleftrightarrow> is_affected vt adv = Inr True \<and> y = (name, vt, adv)" for adv y
      by (cases "is_affected vt adv") auto
    show ?thesis unfolding yss(2) hit using vt by (auto simp: for_tool_def)
  qed
  then show ?thesis using vt yss(1) by (simp add: tool_hits_def)
qed (auto simp: tool_hits_def)

lemma bundled_comparison:
  "\<exists>hits. affected_tools tools bundled_bundle = Inr hits \<and>
     set hits = {(n, v, a). (n, Some v) \<in> set tools \<and> v \<noteq> [] \<and> a \<in> set BUNDLED_ADVISORIES \<and>
       ad_tool a = n \<and> is_affected v a = Inr True}"
proof -
  have adv: "ab_advisories bundled_bundle = BUNDLED_ADVISORIES" by (simp add: bundled_bundle_def)
  note one = tool_hits_total [of bundled_bundle, unfolded adv, OF bundled_total]
  have total: "\<exists>hits. tool_hits bundled_bundle x = Inr hits" for x
    using one [of "fst x" "snd x"] by auto
  obtain yss where yss: "map_res (tool_hits bundled_bundle) (sort_key fst tools) = Inr yss"
    "set (concat yss) = {y. \<exists>x\<in>set (sort_key fst tools). \<exists>ys. tool_hits bundled_bundle x = Inr ys \<and> y \<in> set ys}"
    using map_res_concat [of "sort_key fst tools" "tool_hits bundled_bundle", OF total] by blast
  have hit: "(\<exists>ys. tool_hits bundled_bundle x = Inr ys \<and> y \<in> set ys) \<longleftrightarrow>
       (\<exists>v a. y = (fst x, v, a) \<and> snd x = Some v \<and> v \<noteq> [] \<and> a \<in> set BUNDLED_ADVISORIES \<and>
          ad_tool a = fst x \<and> is_affected v a = Inr True)" for x y
    using one [of "fst x" "snd x"] by auto
  have "y \<in> set (concat yss) \<longleftrightarrow> y \<in> {(n, v, a). (n, Some v) \<in> set tools \<and> v \<noteq> [] \<and> a \<in> set BUNDLED_ADVISORIES \<and>
       ad_tool a = n \<and> is_affected v a = Inr True}" for y
    unfolding yss(2) mem_Collect_eq hit set_sort by (cases y) force
  then have "set (concat yss) = {(n, v, a). (n, Some v) \<in> set tools \<and> v \<noteq> [] \<and> a \<in> set BUNDLED_ADVISORIES \<and>
       ad_tool a = n \<and> is_affected v a = Inr True}" by blast
  then show ?thesis by (simp add: affected_tools_def yss(1))
qed

lemma bundled_comparison_total: "\<exists>hits. affected_tools tools bundled_bundle = Inr hits"
  using bundled_comparison by blast

text \<open>
  With the bundled advisories the comparison never raises, whatever versions the tools report,
  and it names exactly the readable versions an advisory of that tool affects.
\<close>

theorem bundled_comparison_is_exact:
  "\<exists>hits. affected_tools tools bundled_bundle = Inr hits \<and>
     set hits = {(n, v, a). (n, Some v) \<in> set tools \<and> v \<noteq> [] \<and> a \<in> set BUNDLED_ADVISORIES \<and>
       ad_tool a = n \<and> is_affected v a = Inr True}"
  by (rule bundled_comparison)

section \<open>Loading\<close>

lemma parse_entries_all:
  "parse_entries n es = Inr as \<Longrightarrow> list_all2 (\<lambda>e a. \<exists>entry. e = JObj entry \<and> parse_advisory entry = Inr a) es as"
  by (induction n es arbitrary: as rule: parse_entries.induct) (auto simp: result_simps split: sum.splits)

lemma parsed_bundle_signed: "parse_bundle payload source signed = Inr b \<Longrightarrow> ab_signed b = signed"
  by (auto simp: parse_bundle_def Let_def result_simps split: if_splits json.splits)

text \<open>
  A bundle is read strictly: when it is accepted, its schema is the one this build reads and every
  entry of its list has become an advisory, in order, none dropped and none added.
\<close>

theorem parsed_bundle_drops_no_entry:
  assumes "parse_bundle payload source signed = Inr b"
  shows "\<exists>entries. dict_get payload ''advisories'' = JList entries \<and> length (ab_advisories b) = length entries \<and>
     list_all2 (\<lambda>e a. \<exists>entry. e = JObj entry \<and> parse_advisory entry = Inr a) entries (ab_advisories b) \<and>
     py_str (or_json (dict_get payload ''schema_version'') (JStr [])) = BUNDLE_SCHEMA_VERSION \<and> ab_signed b = signed"
proof -
  obtain entries as where e: "dict_get payload ''advisories'' = JList entries" "parse_entries 0 entries = Inr as"
    and b: "ab_advisories b = as" "ab_signed b = signed"
    and schema: "py_str (or_json (dict_get payload ''schema_version'') (JStr [])) = BUNDLE_SCHEMA_VERSION"
    using assms by (auto simp: parse_bundle_def Let_def result_simps split: if_splits json.splits)
  show ?thesis
    using e(1) b schema parse_entries_all [OF e(2)] list_all2_lengthD [OF parse_entries_all [OF e(2)]] by auto
qed

text \<open>
  A replacement of the bundled set is authenticated: it is accepted only with a signature over
  its very bytes that verifies under the given key, or without a signature file when the caller
  trusts unsigned bundles; the result says which.
\<close>

theorem accepted_bundle_is_authentic:
  assumes "load_bundle hmac decode (Some (name, Some raw)) sig key trust_unsigned = Inr b"
  shows "(ab_signed b \<and> (\<exists>doc k. sig = Some doc \<and> key = Some k \<and> expected_digest doc = Some (hmac k raw))) \<or>
     (\<not> ab_signed b \<and> sig = None \<and> trust_unsigned)"
proof -
  obtain signed payload where auth: "check_signature hmac raw sig key trust_unsigned = Inr signed"
    and p: "parse_bundle payload name signed = Inr b"
    using assms by (auto simp: load_bundle_def bind_res_Inr_iff)
  have "ab_signed b = signed" by (rule parsed_bundle_signed [OF p])
  moreover have "(signed \<and> (\<exists>doc k. sig = Some doc \<and> key = Some k \<and> verify_bytes hmac raw k doc = Inr True)) \<or>
     (\<not> signed \<and> sig = None \<and> trust_unsigned)"
    using auth by (auto simp: check_signature_def split: option.splits sum.splits if_splits)
  ultimately show ?thesis using verified_digest [of hmac raw] by blast
qed

section \<open>Corners\<close>

text \<open>A pre-release of a fixed version is not reported, although it comes before the fix.\<close>

lemma prerelease_of_a_fix_passes:
  "is_affected ''3.11.4-rc1'' (BUNDLED_ADVISORIES ! 3) = Inr False"
  "satisfies ''3.11.4-rc1'' ''<3.11.4'' = Inr True"
  by code_simp+

text \<open>An unreadable \<open>introduced\<close> passes the reading of the bundle and then ends the comparison.\<close>

lemma unreadable_introduced_raises:
  "is_affected ''2.40.0'' ((BUNDLED_ADVISORIES ! 1)\<lparr>ad_introduced := Some ''early''\<rparr>) = Inl ValueError"
  by code_simp

definition demo_bundle :: "(string \<times> json) list" where
  "demo_bundle = [(''schema_version'', JStr ''1.0''), (''advisories'', JList [JObj
     [(''id'', JStr ''X-1''), (''tool'', JStr ''git''), (''summary'', JStr ''s''),
      (''fixed'', JList [JStr ''2.1.0'']), (''reference'', JStr ''r'')]])]"

theorem parsed_bundle_drops_no_entry_witness:
  "\<exists>b. parse_bundle demo_bundle ''b.json'' True = Inr b \<and> length (ab_advisories b) = 1 \<and> ab_signed b"
proof -
  obtain b where b: "parse_bundle demo_bundle ''b.json'' True = Inr b"
    by (simp add: parse_bundle_def demo_bundle_def dict_get_def or_json_def BUNDLE_SCHEMA_VERSION_def
        parse_advisory_def py_item_def dict_get_or_def Let_def)
  have "dict_get demo_bundle ''advisories'' \<noteq> JList [] \<and> (\<forall>es. dict_get demo_bundle ''advisories'' = JList es \<longrightarrow> length es = 1)"
    by (simp add: demo_bundle_def dict_get_def)
  then show ?thesis using parsed_bundle_drops_no_entry [OF b] b by auto
qed

theorem accepted_bundle_is_authentic_witness:
  "\<exists>b. load_bundle demo_hmac Some (Some (''b.json'', Some (dump_json (JObj demo_bundle)))) None None True = Inr b \<and>
     \<not> ab_signed b"
proof -
  have "loads (dump_json (JObj demo_bundle)) = Some (JObj demo_bundle)"
    by (rule loads_dump_json) (simp add: demo_bundle_def)
  then obtain b where b: "load_bundle demo_hmac Some (Some (''b.json'', Some (dump_json (JObj demo_bundle)))) None None True = Inr b"
    by (simp add: load_bundle_def check_signature_def bundle_payload_def parse_bundle_def demo_bundle_def dict_get_def or_json_def BUNDLE_SCHEMA_VERSION_def
        parse_advisory_def py_item_def dict_get_or_def Let_def)
  from accepted_bundle_is_authentic [OF this] b show ?thesis by auto
qed

end
