(* ===== verification/Lockfiles.thy ===== *)
theory Lockfiles
  imports Regex Json
begin

text \<open>
  \<open>src/devrepro/project/lockfiles.py\<close>: what each lockfile of a project requires of the machine. A
  file is its text, \<open>None\<close> when it cannot be read. The TOML parser and the texts of parse errors are
  arguments; JSON is read by theory \<open>Json\<close>. A dash outside Latin-1 is written as a hyphen.
\<close>

section \<open>Facts\<close>

record lockfile_facts =
  lf_path :: string
  lf_ecosystem :: string
  lf_tool :: string
  lf_format_version :: "string option"
  lf_minimum_tool :: "string option"
  lf_produced_by :: "string option"
  lf_requires_runtime :: "(string \<times> string) option"
  lf_entries :: "int option"
  lf_note :: string
  lf_unreadable :: bool

text \<open>The parsers a machine has: \<open>tomllib.loads\<close> and the description of a JSON error.\<close>

record lock_env =
  le_json_error :: "string \<Rightarrow> string"
  le_toml :: "string \<Rightarrow> string + (string \<times> json) list"

type_synonym lock_parser = "lock_env \<Rightarrow> string option \<Rightarrow> string \<Rightarrow> lockfile_facts"

text \<open>The defaults of the class.\<close>

definition plain_facts :: "string \<Rightarrow> string \<Rightarrow> string \<Rightarrow> lockfile_facts" where
  "plain_facts rel ecosystem tool =
     \<lparr>lf_path = rel, lf_ecosystem = ecosystem, lf_tool = tool, lf_format_version = None, lf_minimum_tool = None,
      lf_produced_by = None, lf_requires_runtime = None, lf_entries = None, lf_note = [], lf_unreadable = False\<rparr>"

definition json_object :: "lock_env \<Rightarrow> string option \<Rightarrow> string + (string \<times> json) list" where
  "json_object env content =
     (case content of
        None \<Rightarrow> Inl ''could not be read''
      | Some t \<Rightarrow>
          (case loads t of
             None \<Rightarrow> Inl (''is not valid JSON: '' @ le_json_error env t)
           | Some (JObj d) \<Rightarrow> Inr d
           | Some _ \<Rightarrow> Inl ''is valid JSON but not an object''))"

definition toml_table :: "lock_env \<Rightarrow> string option \<Rightarrow> string + (string \<times> json) list" where
  "toml_table env content =
     (case content of
        None \<Rightarrow> Inl ''could not be read''
      | Some t \<Rightarrow> (case le_toml env t of Inl e \<Rightarrow> Inl (''is not valid TOML: '' @ e) | Inr d \<Rightarrow> Inr d))"

definition unreadable :: "string \<Rightarrow> string \<Rightarrow> string \<Rightarrow> string \<Rightarrow> lockfile_facts" where
  "unreadable rel ecosystem tool why = (plain_facts rel ecosystem tool)\<lparr>lf_note := why, lf_unreadable := True\<rparr>"

text \<open>\<open>isinstance(v, int)\<close> (a \<open>bool\<close> is one), \<open>isinstance(v, dict)\<close>, a non-blank text, \<open>len\<close> of a list.\<close>

definition as_int :: "json \<Rightarrow> int option" where
  "as_int v = (case v of JInt i \<Rightarrow> Some i | JBool b \<Rightarrow> Some (if b then 1 else 0) | _ \<Rightarrow> None)"

definition table_or_empty :: "json \<Rightarrow> (string \<times> json) list" where
  "table_or_empty v = (case v of JObj d \<Rightarrow> d | _ \<Rightarrow> [])"

definition pinned_text :: "json \<Rightarrow> string option" where
  "pinned_text v = (case v of JStr s \<Rightarrow> if strip s \<noteq> [] then Some (strip s) else None | _ \<Rightarrow> None)"

definition list_len :: "json \<Rightarrow> int option" where
  "list_len v = (case v of JList xs \<Rightarrow> Some (int (length xs)) | _ \<Rightarrow> None)"

section \<open>The formats of node\<close>

definition NPM_LOCK_VERSIONS :: "(int \<times> string \<times> string) list" where
  "NPM_LOCK_VERSIONS =
     [(1, ''>=5'', ''npm 5 or newer reads this format''),
      (2, ''>=7'', ''npm 7 or newer; npm 6 can still install from the legacy tree this format retains''),
      (3, ''>=7'', ''npm 7 or newer -- the legacy dependency tree is absent, so npm 6 rewrites the file'')]"

definition npm_engine :: "(string \<times> json) list \<Rightarrow> (string \<times> string) option" where
  "npm_engine packages =
     (case dict_get packages [] of
        JObj root \<Rightarrow>
          (case dict_get root ''engines'' of
             JObj engines \<Rightarrow> map_option (\<lambda>s. (''node'', s)) (pinned_text (dict_get engines ''node''))
           | _ \<Rightarrow> None)
      | _ \<Rightarrow> None)"

definition npm_lock :: lock_parser where
  "npm_lock env content rel =
     (case json_object env content of
        Inl why \<Rightarrow> unreadable rel ''node'' ''npm'' why
      | Inr d \<Rightarrow>
          (let raw = dict_get d ''lockfileVersion''; ver = as_int raw;
               known = (case ver of None \<Rightarrow> None | Some v \<Rightarrow> map_of NPM_LOCK_VERSIONS (if v = 0 then -1 else v));
               facts = (plain_facts rel ''node'' ''npm'')
                 \<lparr>lf_format_version := (if ver = None then None else Some (py_str raw)),
                  lf_minimum_tool := map_option fst known,
                  lf_note := (case known of None \<Rightarrow> [] | Some (m, note) \<Rightarrow> note)\<rparr>
           in case dict_get d ''packages'' of
                JObj packages \<Rightarrow>
                  facts\<lparr>lf_entries := Some (max (int (length packages) - 1) 0), lf_requires_runtime := npm_engine packages\<rparr>
              | _ \<Rightarrow> facts))"

definition PNPM_LOCK_VERSIONS :: "(string \<times> string) list" where
  "PNPM_LOCK_VERSIONS = [(''5.3'', ''>=6''), (''5.4'', ''>=7''), (''6.0'', ''>=8''), (''9.0'', ''>=9'')]"

definition pnpm_version :: "string \<Rightarrow> string list" where
  "pnpm_version = m_capture
     (m_seqs [m_lit ''lockfileVersion:'', m_star is_space, m_opt (m_one (\<lambda>c. c = CHR 0x27 \<or> c = CHR 0x22))])
     (m_seq (m_plus is_digit) (m_opt (m_seq (m_lit ''.'') (m_plus is_digit))))"

definition pnpm_lock :: lock_parser where
  "pnpm_lock env content rel =
     (case content of
        None \<Rightarrow> unreadable rel ''node'' ''pnpm'' ''could not be read''
      | Some t \<Rightarrow>
          (let ver = search_lines pnpm_version True t in
           (plain_facts rel ''node'' ''pnpm'')
             \<lparr>lf_format_version := ver,
              lf_minimum_tool := map_of PNPM_LOCK_VERSIONS (case ver of None \<Rightarrow> [] | Some v \<Rightarrow> v)\<rparr>))"

definition berry_mark :: "string \<Rightarrow> string list" where
  "berry_mark s = map fst (m_lit ''__metadata:'' s)"

definition berry_version :: "string \<Rightarrow> string list" where
  "berry_version = m_capture (m_seqs [m_plus is_space, m_lit ''version:'', m_star is_space]) (m_plus is_digit)"

definition yarn_lock :: lock_parser where
  "yarn_lock env content rel =
     (case content of
        None \<Rightarrow> unreadable rel ''node'' ''yarn'' ''could not be read''
      | Some t \<Rightarrow>
          if search_lines berry_mark True t \<noteq> None then
            (plain_facts rel ''node'' ''yarn'')
              \<lparr>lf_format_version := Some (case search_lines berry_version True t of
                   None \<Rightarrow> ''berry'' | Some v \<Rightarrow> ''berry/'' @ v),
               lf_minimum_tool := Some ''>=2'',
               lf_note := ''Yarn Berry format; yarn 1.x cannot install from it''\<rparr>
          else
            (plain_facts rel ''node'' ''yarn'')
              \<lparr>lf_format_version := Some ''classic'', lf_minimum_tool := Some ''>=1'', lf_note := ''Yarn classic format''\<rparr>)"

definition bun_text_lock :: lock_parser where
  "bun_text_lock env content rel =
     (plain_facts rel ''node'' ''bun'')
       \<lparr>lf_format_version := Some ''text'', lf_minimum_tool := Some ''>=1.2'',
        lf_note := ''bun.lock is the text format introduced in bun 1.2''\<rparr>"

definition bun_binary_lock :: lock_parser where
  "bun_binary_lock env content rel =
     (plain_facts rel ''node'' ''bun'')
       \<lparr>lf_format_version := Some ''binary'', lf_note := ''bun.lockb is binary; its contents are not inspected''\<rparr>"

section \<open>The formats of the other languages\<close>

definition POETRY_LOCK_VERSIONS :: "(string \<times> string) list" where
  "POETRY_LOCK_VERSIONS = [(''1.1'', ''>=1.1''), (''2.0'', ''>=1.5''), (''2.1'', ''>=2.0'')]"

definition scalar_text :: "json \<Rightarrow> string option" where
  "scalar_text v = (case v of JStr s \<Rightarrow> Some s | JInt i \<Rightarrow> Some (py_str v) | JBool b \<Rightarrow> Some (py_str v) | _ \<Rightarrow> None)"

definition poetry_lock :: lock_parser where
  "poetry_lock env content rel =
     (case toml_table env content of
        Inl why \<Rightarrow> unreadable rel ''python'' ''poetry'' why
      | Inr d \<Rightarrow>
          (let meta = table_or_empty (dict_get d ''metadata''); ver = scalar_text (dict_get meta ''lock-version'') in
           (plain_facts rel ''python'' ''poetry'')
             \<lparr>lf_format_version := ver,
              lf_minimum_tool := map_of POETRY_LOCK_VERSIONS (case ver of None \<Rightarrow> [] | Some v \<Rightarrow> v),
              lf_requires_runtime := map_option (\<lambda>s. (''python'', s)) (pinned_text (dict_get meta ''python-versions'')),
              lf_entries := list_len (dict_get d ''package'')\<rparr>))"

definition uv_lock :: lock_parser where
  "uv_lock env content rel =
     (case toml_table env content of
        Inl why \<Rightarrow> unreadable rel ''python'' ''uv'' why
      | Inr d \<Rightarrow>
          (plain_facts rel ''python'' ''uv'')
            \<lparr>lf_format_version := scalar_text (dict_get d ''version''),
             lf_requires_runtime := map_option (\<lambda>s. (''python'', s)) (pinned_text (dict_get d ''requires-python'')),
             lf_entries := list_len (dict_get d ''package'')\<rparr>)"

definition pipenv_lock :: lock_parser where
  "pipenv_lock env content rel =
     (case json_object env content of
        Inl why \<Rightarrow> unreadable rel ''python'' ''pipenv'' why
      | Inr d \<Rightarrow>
          (plain_facts rel ''python'' ''pipenv'')
            \<lparr>lf_requires_runtime :=
               (case dict_get (table_or_empty (dict_get d ''_meta'')) ''requires'' of
                  JObj block \<Rightarrow> map_option (\<lambda>s. (''python'', ''=='' @ s))
                    (pinned_text (or_json (dict_get block ''python_full_version'') (dict_get block ''python_version'')))
                | _ \<Rightarrow> None),
             lf_entries := (case dict_get d ''default'' of JObj ps \<Rightarrow> Some (int (length ps)) | _ \<Rightarrow> None)\<rparr>)"

definition CARGO_LOCK_VERSIONS :: "(int \<times> string) list" where
  "CARGO_LOCK_VERSIONS = [(3, ''>=1.53''), (4, ''>=1.78'')]"

definition cargo_lock :: lock_parser where
  "cargo_lock env content rel =
     (case toml_table env content of
        Inl why \<Rightarrow> unreadable rel ''rust'' ''cargo'' why
      | Inr d \<Rightarrow>
          (let raw = dict_get d ''version''; ver = as_int raw in
           (plain_facts rel ''rust'' ''cargo'')
             \<lparr>lf_format_version := Some (if ver = None then ''1 or 2 (implicit)'' else py_str raw),
              lf_minimum_tool := (case ver of None \<Rightarrow> None | Some v \<Rightarrow> map_of CARGO_LOCK_VERSIONS v),
              lf_entries := list_len (dict_get d ''package'')\<rparr>))"

definition composer_lock :: lock_parser where
  "composer_lock env content rel =
     (case json_object env content of
        Inl why \<Rightarrow> unreadable rel ''php'' ''composer'' why
      | Inr d \<Rightarrow>
          (let api = dict_get d ''plugin-api-version'' in
           (plain_facts rel ''php'' ''composer'')
             \<lparr>lf_format_version := (case api of JStr s \<Rightarrow> Some (strip s) | _ \<Rightarrow> None),
              lf_minimum_tool :=
                (case pinned_text api of None \<Rightarrow> None
                 | Some s \<Rightarrow> let major = hd (split_on ''.'' s) in
                     if py_isdigit major then Some (''>='' @ major) else None),
              lf_requires_runtime :=
                (case dict_get d ''platform'' of
                   JObj platform \<Rightarrow> map_option (\<lambda>s. (''php'', s)) (pinned_text (dict_get platform ''php''))
                 | _ \<Rightarrow> None),
              lf_entries := list_len (dict_get d ''packages'')\<rparr>))"

text \<open>\<open>_BUNDLED_WITH\<close> and \<open>_RUBY_VERSION\<close>.\<close>

definition newline_gap :: "matcher list" where
  "newline_gap = [m_star is_space, m_lit [CHR 0x0A], m_plus is_space]"

definition bundled_with :: "string \<Rightarrow> string list" where
  "bundled_with = m_capture (m_seqs (m_lit ''BUNDLED WITH'' # newline_gap))
     (m_seq (m_one is_digit) (m_star (\<lambda>c. is_alnum c \<or> c = CHR ''.'' \<or> c = CHR ''-'')))"

definition ruby_version :: "string \<Rightarrow> string list" where
  "ruby_version = m_capture (m_seqs (m_lit ''RUBY VERSION'' # newline_gap @ [m_lit ''ruby'', m_plus is_space]))
     (m_seq (m_one is_digit) (m_star (\<lambda>c. is_alnum c \<or> c = CHR ''.'')))"

definition bundler_lock :: lock_parser where
  "bundler_lock env content rel =
     (case content of
        None \<Rightarrow> unreadable rel ''ruby'' ''bundler'' ''could not be read''
      | Some t \<Rightarrow>
          (let bundled = search_lines bundled_with True t in
           (plain_facts rel ''ruby'' ''bundler'')
             \<lparr>lf_produced_by := bundled,
              lf_requires_runtime := map_option (\<lambda>v. (''ruby'', ''=='' @ v)) (search_lines ruby_version True t),
              lf_note := (if bundled \<noteq> None then [] else ''no BUNDLED WITH section; bundler version unrecorded'')\<rparr>))"

definition go_sum_line :: matcher where
  "go_sum_line = m_seqs [m_plus (\<lambda>c. \<not> is_space c), m_plus is_space, m_plus (\<lambda>c. \<not> is_space c), m_plus is_space, m_lit ''h1:'']"

definition go_sum :: lock_parser where
  "go_sum env content rel =
     (case content of
        None \<Rightarrow> unreadable rel ''go'' ''go'' ''could not be read''
      | Some t \<Rightarrow>
          (plain_facts rel ''go'' ''go'')
            \<lparr>lf_entries := Some (int (length (find_groups (m_grouped go_sum_line (\<lambda>s. [([], s)])) True t))),
             lf_note := ''go.sum records checksums only; the toolchain floor is in go.mod''\<rparr>)"

definition LOCKFILE_PARSERS :: "(string \<times> lock_parser) list" where
  "LOCKFILE_PARSERS =
     [(''Cargo.lock'', cargo_lock), (''Gemfile.lock'', bundler_lock), (''Pipfile.lock'', pipenv_lock),
      (''bun.lock'', bun_text_lock), (''bun.lockb'', bun_binary_lock), (''composer.lock'', composer_lock),
      (''go.sum'', go_sum), (''npm-shrinkwrap.json'', npm_lock), (''package-lock.json'', npm_lock),
      (''pnpm-lock.yaml'', pnpm_lock), (''poetry.lock'', poetry_lock), (''uv.lock'', uv_lock), (''yarn.lock'', yarn_lock)]"

definition parse_lockfile :: "lock_env \<Rightarrow> string \<Rightarrow> string option \<Rightarrow> string \<Rightarrow> lockfile_facts option" where
  "parse_lockfile env name content rel = map_option (\<lambda>parser. parser env content rel) (map_of LOCKFILE_PARSERS name)"

section \<open>Walking the project\<close>

text \<open>
  A directory: its files by name, whether it can be listed, and its directories in the order in
  which they are listed. (A directory that cannot be listed can still have files opened in it.)
\<close>

datatype dir = Dir (dir_files: "(string \<times> string option) list") (dir_listable: bool) (dir_children: "(string \<times> dir) list")

definition MAX_DEPTH :: nat where
  "MAX_DEPTH = 3"

definition SKIP_DIRS :: "string list" where
  "SKIP_DIRS = [''node_modules'', ''vendor'', ''target'', ''dist'', ''build'', ''site'', ''venv'', ''__pycache__'']"

definition visible :: "string \<Rightarrow> bool" where
  "visible name \<longleftrightarrow> name \<notin> set SKIP_DIRS \<and> \<not> prefix ''.'' name"

text \<open>
  The directories to go down into, with the names that lead to them: those that are kept, sorted by
  name or as they are listed.
\<close>

definition steps_down :: "bool \<Rightarrow> (string \<Rightarrow> bool) \<Rightarrow> string list \<Rightarrow> dir \<Rightarrow> (string list \<times> dir) list" where
  "steps_down by_name keep path d =
     (if dir_listable d then
        map (\<lambda>(n, c). (path @ [n], c))
          (filter (\<lambda>(n, c). keep n) (if by_name then sort_key fst (dir_children d) else dir_children d))
      else [])"

fun dir_count :: "dir \<Rightarrow> nat" where
  "dir_count (Dir fs l cs) = Suc (sum_list (map (\<lambda>(n, c). dir_count c) cs))"

lemma count_kept:
  "sum_list (map (\<lambda>(p, c). dir_count c) (map (\<lambda>(n, c). (path @ [n], c)) (filter (\<lambda>(n, c). keep n) cs)))
     \<le> sum_list (map (\<lambda>(n, c). dir_count c) cs)"
  by (induction cs) auto

lemma count_sorted:
  "sum_list (map (\<lambda>(n, c). dir_count c) (sort_key f cs)) = sum_list (map (\<lambda>(n, c). dir_count c) cs)"
proof -
  have "mset (map (\<lambda>(n, c). dir_count c) (sort_key f cs)) = mset (map (\<lambda>(n, c). dir_count c) cs)" by simp
  then show ?thesis by (metis sum_mset_sum_list)
qed

lemma count_steps: "sum_list (map (\<lambda>(p, c). dir_count c) (steps_down by_name keep path d)) < dir_count d"
proof (cases d)
  case (Dir fs l cs)
  have "sum_list (map (\<lambda>(p, c). dir_count c) (map (\<lambda>(n, c). (path @ [n], c))
      (filter (\<lambda>(n, c). keep n) (if by_name then sort_key fst cs else cs)))) \<le> sum_list (map (\<lambda>(n, c). dir_count c) cs)"
    using count_kept [of path keep "sort_key fst cs"] count_kept [of path keep cs] count_sorted [of fst cs]
    by (cases by_name) simp_all
  then show ?thesis by (cases by_name) (simp_all add: Dir steps_down_def le_imp_less_Suc)
qed

text \<open>
  \<open>_walk\<close>: the stack holds the directories to go down into with their depth, the top first; each one
  adds what is below it to the result at once.
\<close>

definition deeper :: "nat \<Rightarrow> (string list \<times> dir) list \<Rightarrow> (string list \<times> dir \<times> nat) list" where
  "deeper depth cs = rev (map (\<lambda>(p, c). (p, c, Suc depth)) cs)"

lemma count_deeper: "sum_list (map (\<lambda>(p, c, k). dir_count c) (deeper depth cs)) = sum_list (map (\<lambda>(p, c). dir_count c) cs)"
  by (induction cs) (auto simp: deeper_def)

function walk_stack :: "bool \<Rightarrow> (string \<Rightarrow> bool) \<Rightarrow> nat \<Rightarrow> (string list \<times> dir \<times> nat) list \<Rightarrow> (string list \<times> dir) list" where
  "walk_stack by_name keep max_depth [] = []"
| "walk_stack by_name keep max_depth ((p, d, depth) # stack) =
     (if max_depth \<le> depth then walk_stack by_name keep max_depth stack
      else (let below = steps_down by_name keep p d in
            below @ walk_stack by_name keep max_depth (deeper depth below @ stack)))"
  by pat_completeness auto
termination
proof (relation "measure (\<lambda>(b, f, k, st). sum_list (map (\<lambda>(p, d, n). dir_count d) st))", goal_cases)
  case (2 by_name keep max_depth p d depth stack)
  then show ?case by (cases d) simp
next
  case (3 by_name keep max_depth p d depth stack x)
  then show ?case using count_steps [of by_name keep p d] by (simp add: count_deeper)
qed simp

definition walk :: "nat \<Rightarrow> dir \<Rightarrow> (string list \<times> dir) list" where
  "walk max_depth root = ([], root) # walk_stack True visible max_depth [([], root, 0)]"

definition rel_path :: "string list \<Rightarrow> string \<Rightarrow> string" where
  "rel_path path name = join ''/'' (path @ [name])"

text \<open>The facts of the lockfiles of one directory, in the order of their names.\<close>

definition directory_facts :: "lock_env \<Rightarrow> string list \<times> dir \<Rightarrow> lockfile_facts list" where
  "directory_facts env = (\<lambda>(path, d).
     concat (map (\<lambda>name.
       case map_of (dir_files d) name of
         None \<Rightarrow> []
       | Some content \<Rightarrow> (case parse_lockfile env name content (rel_path path name) of None \<Rightarrow> [] | Some lock \<Rightarrow> [lock]))
       (sort (map fst LOCKFILE_PARSERS))))"

definition collect_lockfile_facts :: "lock_env \<Rightarrow> nat \<Rightarrow> dir \<Rightarrow> lockfile_facts list" where
  "collect_lockfile_facts env max_depth root = sort_key lf_path (concat (map (directory_facts env) (walk max_depth root)))"

section \<open>The walk visits what it should\<close>

text \<open>The directories that can be reached in at most \<open>k\<close> steps.\<close>

fun reach :: "(string \<Rightarrow> bool) \<Rightarrow> nat \<Rightarrow> string list \<Rightarrow> dir \<Rightarrow> (string list \<times> dir) list" where
  "reach keep 0 p d = [(p, d)]"
| "reach keep (Suc k) p d = (p, d) # concat (map (\<lambda>(q, c). reach keep k q c) (steps_down False keep p d))"

definition below :: "(string \<Rightarrow> bool) \<Rightarrow> nat \<Rightarrow> string list \<times> dir \<times> nat \<Rightarrow> (string list \<times> dir) list" where
  "below keep max_depth = (\<lambda>(p, d, depth). tl (reach keep (max_depth - depth) p d))"

lemma reach_head: "reach keep k p d = (p, d) # tl (reach keep k p d)"
  by (cases k) simp_all

lemma steps_perm: "mset (steps_down by_name keep p d) = mset (steps_down False keep p d)"
  by (simp add: steps_down_def)

lemma mset_concat_map: "mset (concat (map f xs)) = (\<Sum>x\<in>#mset xs. mset (f x))"
  by (induction xs) simp_all

lemma below_step:
  "\<not> max_depth \<le> depth \<Longrightarrow> mset (below keep max_depth (p, d, depth)) =
     mset (steps_down by_name keep p d) +
     mset (concat (map (below keep max_depth) (deeper depth (steps_down by_name keep p d))))"
proof -
  assume d: "\<not> max_depth \<le> depth"
  then have k: "max_depth - depth = Suc (max_depth - Suc depth)" by simp
  have "mset (concat (map (\<lambda>(q, c). reach keep (max_depth - Suc depth) q c) cs)) =
      mset cs + mset (concat (map (below keep max_depth) (deeper depth cs)))" for cs
  proof (induction cs)
    case (Cons x cs)
    obtain q c where x: "x = (q, c)" by force
    have "mset (reach keep (max_depth - Suc depth) q c) = {#(q, c)#} + mset (tl (reach keep (max_depth - Suc depth) q c))"
      by (subst reach_head) simp
    then show ?case using Cons by (simp add: x deeper_def below_def)
  qed (simp add: deeper_def)
  from this [of "steps_down by_name keep p d"] show ?thesis
    by (simp add: below_def k mset_concat_map steps_perm [of by_name])
qed

lemma walk_stack_below: "mset (walk_stack by_name keep max_depth st) = mset (concat (map (below keep max_depth) st))"
proof (induction by_name keep max_depth st rule: walk_stack.induct)
  case (2 by_name keep max_depth p d depth stack)
  show ?case
  proof (cases "max_depth \<le> depth")
    case True
    then show ?thesis using 2 by (simp add: below_def)
  next
    case False
    then show ?thesis using 2 below_step [OF False, of keep p d by_name] by (simp add: Let_def)
  qed
qed simp

lemma walk_stack_reach: "mset (([], root) # walk_stack by_name keep max_depth [([], root, 0)]) = mset (reach keep max_depth [] root)"
proof -
  have "mset (reach keep max_depth [] root) = {#([], root)#} + mset (below keep max_depth ([], root, 0))"
    by (subst reach_head) (simp add: below_def)
  then show ?thesis using walk_stack_below [of by_name keep max_depth "[([], root, 0)]"] by simp
qed

lemma walk_reach: "mset (walk max_depth root) = mset (reach visible max_depth [] root)"
  unfolding walk_def by (rule walk_stack_reach)

text \<open>The facts of a known lockfile in one of some directories.\<close>

definition is_lock_of :: "lock_env \<Rightarrow> (string list \<times> dir) list \<Rightarrow> lockfile_facts \<Rightarrow> bool" where
  "is_lock_of env dirs lock \<longleftrightarrow>
     (\<exists>(path, d)\<in>set dirs. \<exists>name content. map_of (dir_files d) name = Some content \<and>
        parse_lockfile env name content (rel_path path name) = Some lock)"

lemma directory_facts_iff:
  "lock \<in> set (directory_facts env (path, d)) \<longleftrightarrow>
     (\<exists>name content. map_of (dir_files d) name = Some content \<and>
        parse_lockfile env name content (rel_path path name) = Some lock)"
proof -
  have known: "name \<in> fst ` set LOCKFILE_PARSERS" if "parse_lockfile env name content rel = Some lock" for name content rel
  proof (rule ccontr)
    assume "name \<notin> fst ` set LOCKFILE_PARSERS"
    then have "map_of LOCKFILE_PARSERS name = None" by (simp add: map_of_eq_None_iff)
    then show False using that by (simp add: parse_lockfile_def)
  qed
  have "lock \<in> set (directory_facts env (path, d)) \<longleftrightarrow>
      (\<exists>name\<in>fst ` set LOCKFILE_PARSERS. \<exists>content. map_of (dir_files d) name = Some content \<and>
        parse_lockfile env name content (rel_path path name) = Some lock)"
    unfolding directory_facts_def by (force split: option.splits)
  then show ?thesis using known by blast
qed

lemma collected_iff: "lock \<in> set (collect_lockfile_facts env max_depth root) \<longleftrightarrow> is_lock_of env (reach visible max_depth [] root) lock"
proof -
  have "lock \<in> set (collect_lockfile_facts env max_depth root) \<longleftrightarrow>
      (\<exists>x\<in>set (reach visible max_depth [] root). lock \<in> set (directory_facts env x))"
    using mset_eq_setD [OF walk_reach [of max_depth root]] by (simp add: collect_lockfile_facts_def)
  also have "\<dots> \<longleftrightarrow> is_lock_of env (reach visible max_depth [] root) lock"
    unfolding is_lock_of_def by (intro bex_cong refl) (simp only: split_paired_all prod.case directory_facts_iff)
  finally show ?thesis .
qed

text \<open>
  C31: What is collected is exactly the facts of the known lockfiles in the directories that can be
  reached, at most \<open>max_depth\<close> below the root and not through a skipped or hidden directory; the
  work list visits each of these directories once, and the facts come in the order of their paths.
\<close>

theorem lockfiles_are_collected:
  "(lock \<in> set (collect_lockfile_facts env max_depth root) \<longleftrightarrow> is_lock_of env (reach visible max_depth [] root) lock) \<and>
   mset (walk max_depth root) = mset (reach visible max_depth [] root) \<and>
   sorted (map lf_path (collect_lockfile_facts env max_depth root))"
  by (simp add: collected_iff walk_reach) (simp add: collect_lockfile_facts_def)

end
