(* ===== verification/Rule_Packs.thy ===== *)
theory Rule_Packs
  imports Rules Advisories Lockfiles
begin

text \<open>
  \<open>src/devrepro/rules/packs/*.py\<close>, the thirteen built-in rule packs, and their registration in
  \<open>src/devrepro/rules/base.py\<close>. A pack is a function of the rule context; what the pipeline hands over
  beside the machine (lockfile facts, framework requirements, native dependencies) is the extra
  part of the context. The texts \<open>repr\<close> quotes are quoted by the argument \<open>quote\<close>. A dash outside
  Latin-1 in three of the texts is written as a hyphen.
\<close>

section \<open>What the packs look at\<close>

record framework_requirement =
  fr_framework :: string
  fr_version :: string
  fr_tool :: string
  fr_required :: string
  fr_source :: string
  fr_detail :: string

record pack_extra =
  px_lockfiles :: "lockfile_facts list"
  px_frameworks :: "framework_requirement list"
  px_native :: "(string \<times> string \<times> string \<times> string) list"

type_synonym pack_context = "pack_extra rule_context"

text \<open>The truth of an optional string and its rendering in an f-string.\<close>

definition given :: "string option \<Rightarrow> bool" where
  "given v \<longleftrightarrow> v \<noteq> None \<and> v \<noteq> Some []"

definition shown :: "string option \<Rightarrow> string" where
  "shown v = (case v of None \<Rightarrow> ''None'' | Some s \<Rightarrow> s)"

definition file_evidence :: "string \<Rightarrow> string \<Rightarrow> evidence" where
  "file_evidence path excerpt =
     \<lparr>e_source = ''file'', e_command = None, e_path = Some path, e_excerpt = Some excerpt, e_redacted = False\<rparr>"

definition run_evidence :: "string list \<Rightarrow> string \<Rightarrow> evidence" where
  "run_evidence command excerpt =
     \<lparr>e_source = ''command'', e_command = Some command, e_path = None, e_excerpt = Some excerpt, e_redacted = False\<rparr>"

definition get :: "(string \<times> 'a) list \<Rightarrow> string \<Rightarrow> 'a option" where
  "get d k = map_of d k"

section \<open>The shared rules\<close>

definition requirement_for :: "'x rule_context \<Rightarrow> string \<Rightarrow> string \<Rightarrow> project_requirement option" where
  "requirement_for ctx ecosystem name = find (\<lambda>r. r_ecosystem r = ecosystem \<and> r_name r = name) (rc_requirements ctx)"

definition known_bad_of :: "'x rule_context \<Rightarrow> string \<Rightarrow> string list" where
  "known_bad_of ctx key =
     (case rc_policy ctx of None \<Rightarrow> []
      | Some p \<Rightarrow> (case get (p_known_bad_versions p) key of None \<Rightarrow> [] | Some bad \<Rightarrow> bad))"

text \<open>The range a runtime is held to and where it comes from.\<close>

definition runtime_spec :: "'x rule_context \<Rightarrow> string \<Rightarrow> string \<Rightarrow> string \<Rightarrow> string option \<times> string" where
  "runtime_spec ctx pack tool key =
     (let (spec, source) =
            (case requirement_for ctx pack tool of None \<Rightarrow> (None, [])
             | Some req \<Rightarrow> (Some (r_spec req), r_source_file req));
          policy_spec = (case rc_policy ctx of None \<Rightarrow> None | Some p \<Rightarrow> get (p_required_runtimes p) key)
      in if given policy_spec then
           (if spec = None \<or> spec = Some ''*'' then policy_spec else spec,
            if source = [] then ''.devrepro.toml'' else source)
         else (spec, source))"

definition runtime_findings ::
  "(string \<Rightarrow> string) \<Rightarrow> 'x rule_context \<Rightarrow> string \<Rightarrow> string \<Rightarrow> string option \<Rightarrow> finding_state \<Rightarrow> finding list" where
  "runtime_findings quote ctx pack tool policy_key missing_state =
     (let key = (if given policy_key then the policy_key else tool) in
      case runtime_spec ctx pack tool key of
        (None, source) \<Rightarrow> []
      | (Some spec, source) \<Rightarrow>
          check_version_requirement quote pack tool (active_tool ctx tool) spec (known_bad_of ctx key) source
            missing_state (tool @ '' --version resolved via PATH''))"

definition tool_findings ::
  "(string \<Rightarrow> string) \<Rightarrow> 'x rule_context \<Rightarrow> string \<Rightarrow> string \<Rightarrow> finding_state \<Rightarrow> finding list" where
  "tool_findings quote ctx pack tool missing_state =
     (case rc_policy ctx of
        None \<Rightarrow> []
      | Some p \<Rightarrow>
          (case get (p_required_tools p) tool of
             None \<Rightarrow> []
           | Some spec \<Rightarrow>
               check_version_requirement quote pack tool (active_tool ctx tool) spec (known_bad_of ctx tool)
                 ''.devrepro.toml [required_tools]'' missing_state (tool @ '' --version resolved via PATH'')))"

section \<open>The language packs\<close>

definition python_versions :: "'x rule_context \<Rightarrow> string list" where
  "python_versions ctx =
     sort (remdups (concat (map (\<lambda>t. if t_name t = ''python'' \<and> given (t_version t) then [the (t_version t)] else [])
       (rc_tools ctx))))"

definition python_pack :: "(string \<Rightarrow> string) \<Rightarrow> 'x rule_context \<Rightarrow> finding list" where
  "python_pack quote ctx =
     runtime_findings quote ctx ''python'' ''python'' None BLOCKED @
     (let vs = python_versions ctx; active = active_tool ctx ''python'' in
      if length vs > 1 then
        [make_finding ''python/multiple-versions'' WARN
           (''Multiple Python versions installed: '' @ join '', '' vs @ ''. Active: '' @
            (case active of None \<Rightarrow> ''?'' | Some t \<Rightarrow> shown (t_version t)) @ '' ('' @
            (case active of None \<Rightarrow> ''?'' | Some t \<Rightarrow> shown (t_install_source t)) @ '').'')
           [text_evidence ''command'' ''which -a python / where python'']
           (Some (join '', '' vs)) None (Some ''python'')
           (Some (''Use pyenv/uv to pin per-project versions; keep one '' @
                  ''system-wide install. See `devrepro which --all python`.'')) []]
      else [])"

definition node_pack :: "(string \<Rightarrow> string) \<Rightarrow> 'x rule_context \<Rightarrow> finding list" where
  "node_pack quote ctx =
     runtime_findings quote ctx ''node'' ''node'' None BLOCKED @
     (if list_ex (\<lambda>r. r_ecosystem r = ''node'' \<and> r_name r = ''npm'') (rc_requirements ctx)
      then runtime_findings quote ctx ''node'' ''npm'' None BLOCKED else []) @
     tool_findings quote ctx ''node'' ''git'' WARN"

definition language_pack :: "(string \<Rightarrow> string) \<Rightarrow> string \<Rightarrow> string \<Rightarrow> 'x rule_context \<Rightarrow> finding list" where
  "language_pack quote ecosystem tool ctx =
     (if \<not> list_ex (\<lambda>r. r_ecosystem r = ecosystem) (rc_requirements ctx) \<and>
         \<not> (case rc_policy ctx of None \<Rightarrow> False | Some p \<Rightarrow> given (get (p_required_runtimes p) ecosystem))
      then [] else runtime_findings quote ctx ecosystem tool None BLOCKED)"

definition dotnet_pack :: "(string \<Rightarrow> string) \<Rightarrow> 'x rule_context \<Rightarrow> finding list" where
  "dotnet_pack quote = language_pack quote ''dotnet'' ''dotnet''"

definition go_pack :: "(string \<Rightarrow> string) \<Rightarrow> 'x rule_context \<Rightarrow> finding list" where
  "go_pack quote = language_pack quote ''go'' ''go''"

definition java_pack :: "(string \<Rightarrow> string) \<Rightarrow> 'x rule_context \<Rightarrow> finding list" where
  "java_pack quote = language_pack quote ''java'' ''java''"

definition rust_pack :: "(string \<Rightarrow> string) \<Rightarrow> 'x rule_context \<Rightarrow> finding list" where
  "rust_pack quote = language_pack quote ''rust'' ''rustc''"

definition cpp_pack :: "(string \<Rightarrow> string) \<Rightarrow> 'x rule_context \<Rightarrow> finding list" where
  "cpp_pack quote ctx =
     (if \<not> list_ex (\<lambda>r. r_ecosystem r = ''cpp'') (rc_requirements ctx) then []
      else
        (if requirement_for ctx ''cpp'' ''cmake'' \<noteq> None
         then runtime_findings quote ctx ''cpp'' ''cmake'' None BLOCKED else []) @
        (if \<not> list_ex (\<lambda>t. t_name t \<in> {''gcc'', ''clang'', ''cl''}) (rc_tools ctx) then
           [make_finding ''cpp/no-compiler'' BLOCKED
              ''C/C++ project present but no compiler (gcc/clang/MSVC cl) found on PATH.''
              [text_evidence ''command'' ''checked gcc, clang, cl on PATH''] None None (Some ''cpp'')
              (Some (''Install a toolchain: MSVC Build Tools (Windows), '' @
                     ''build-essential (Debian/Ubuntu), Xcode CLT (macOS).'')) []]
         else []))"

section \<open>Containers, WSL and accelerators\<close>

definition container_reqs :: "'x rule_context \<Rightarrow> project_requirement list" where
  "container_reqs ctx = filter (\<lambda>r. r_ecosystem r = ''container'') (rc_requirements ctx)"

definition needs_docker :: "'x rule_context \<Rightarrow> bool" where
  "needs_docker ctx \<longleftrightarrow> container_reqs ctx \<noteq> [] \<or>
     (case rc_policy ctx of None \<Rightarrow> False
      | Some p \<Rightarrow> require_devcontainer (p_containers p) \<or> require_compose (p_containers p) \<or>
          get (p_required_tools p) ''docker'' \<noteq> None)"

definition docker_findings :: "container_state \<Rightarrow> finding list" where
  "docker_findings c =
     (if \<not> given (c_docker_cli_version c) \<and> \<not> given (c_podman_version c) then
        [make_finding ''containers/docker-missing'' BLOCKED
           ''Project requires containers but neither Docker nor Podman CLI found.''
           [text_evidence ''command'' ''docker --version / podman --version''] None None (Some ''docker'')
           (Some (''Install Docker Desktop (or Podman) - MEDIUM risk; DevRepro will not install it automatically.'')) []]
      else if \<not> c_docker_daemon_ok c \<and> given (c_docker_cli_version c) then
        [make_finding ''containers/docker-daemon-unreachable'' BLOCKED
           (''Docker CLI '' @ shown (c_docker_cli_version c) @ '' present but daemon unreachable. '' @
            join ''; '' (c_errors c))
           [run_evidence [''docker'', ''info''] ''daemon did not respond''] None None (Some ''docker'')
           (Some ''Start Docker Desktop / systemctl start docker, then re-scan.'') []]
      else [])"

definition containers_pack :: "(string \<Rightarrow> string) \<Rightarrow> 'x rule_context \<Rightarrow> finding list" where
  "containers_pack quote ctx =
     (if \<not> needs_docker ctx then []
      else
        (case rc_containers ctx of
           None \<Rightarrow>
             [make_finding ''containers/state-unknown'' UNKNOWN
                ''Container requirements exist but container probe data is unavailable.''
                [text_evidence ''system'' ''no container probe result''] None None (Some ''docker'') None []]
         | Some c \<Rightarrow>
             docker_findings c @
             (if (case rc_policy ctx of None \<Rightarrow> False | Some p \<Rightarrow> require_devcontainer (p_containers p)) \<and>
                 \<not> list_ex (\<lambda>r. r_name r = ''devcontainer'') (container_reqs ctx) then
                [make_finding ''containers/devcontainer-required'' WARN
                   ''Policy requires a devcontainer definition but none was found.''
                   [file_evidence ''.devcontainer/devcontainer.json'' ''not found''] None None (Some ''devcontainer'')
                   (Some ''Add .devcontainer/devcontainer.json to the repository.'') []]
              else []) @
             tool_findings quote ctx ''containers'' ''docker'' WARN))"

definition wsl_pack :: "'x rule_context \<Rightarrow> finding list" where
  "wsl_pack ctx =
     (case rc_wsl ctx of
        None \<Rightarrow> []
      | Some w \<Rightarrow>
          if \<not> w_available w then []
          else
            (if w_default_distro w = None \<and> w_distros w \<noteq> [] then
               [make_finding ''wsl/no-default-distro'' WARN ''WSL distros exist but no default is set.''
                  [run_evidence [''wsl'', ''--status''] ''default distro unset''] None None (Some ''wsl'')
                  (Some ''`wsl --set-default <distro>` (SAFE).'') []]
             else []) @
            (if w_interop_enabled w = Some False then
               [make_finding ''wsl/interop-disabled'' WARN
                  ''WSL interop appears disabled; Windows/Linux tool mixing will fail.''
                  [run_evidence [''wsl'', ''-e'', ''test'', ''-e'', ''/init''] ''interop check failed''] None None (Some ''wsl'')
                  (Some (''Enable interop in /etc/wsl.conf ([interop] enabled=true), '' @
                         ''then `wsl --shutdown`. LOW risk.'')) []]
             else []))"

definition ai_requirement :: "project_requirement \<Rightarrow> bool" where
  "ai_requirement r \<longleftrightarrow> r_ecosystem r \<in> {''python'', ''generic''} \<and>
     list_ex (contains (py_lower (r_name r))) [''torch'', ''tensorflow'', ''cuda'', ''onnxruntime'', ''jax'']"

definition ai_gpu_pack :: "'x rule_context \<Rightarrow> finding list" where
  "ai_gpu_pack ctx =
     (let ai = list_ex ai_requirement (rc_requirements ctx) in
      case rc_gpu ctx of
        None \<Rightarrow>
          (if ai then
             [make_finding ''gpu/state-unknown'' UNKNOWN
                ''AI dependencies declared but GPU stack could not be probed.''
                [text_evidence ''system'' ''no gpu probe result''] None None (Some ''gpu'') None []]
           else [])
      | Some g \<Rightarrow>
          (if ai \<and> \<not> (given (g_nvidia_driver g) \<or> given (g_rocm g) \<or> given (g_oneapi g) \<or> given (g_metal g)) then
             [make_finding ''gpu/no-accelerator'' WARN
                (''AI frameworks are project dependencies but no GPU/AI accelerator '' @
                 ''stack was detected; training/inference will fall back to CPU.'')
                [text_evidence ''command'' ''nvidia-smi/rocminfo/sycl-ls all absent''] None None (Some ''gpu'') None []]
           else []) @
          (if given (g_nvidia_driver g) \<and> g_cuda_toolkit g = None \<and> ai then
             [make_finding ''gpu/cuda-toolkit-missing'' INFO
                (''NVIDIA driver '' @ shown (g_nvidia_driver g) @ '' present but CUDA toolkit (nvcc) '' @
                 ''not found - building CUDA extensions from source will fail.'')
                [run_evidence [''nvcc'', ''--version''] ''nvcc not found''] None None (Some ''cuda'')
                (Some (''Install the CUDA toolkit matching your framework'' @ [CHR 0x27] @ ''s supported versions (MEDIUM risk).'')) []]
           else []))"

section \<open>Lockfiles\<close>

definition lock_evidence :: "lockfile_facts \<Rightarrow> string \<Rightarrow> evidence list" where
  "lock_evidence lock excerpt = [file_evidence (lf_path lock) excerpt]"

text \<open>\<open>parse_spec(spec).satisfied_by(parse_version(version))\<close>.\<close>

definition version_in :: "string \<Rightarrow> string \<Rightarrow> bool py" where
  "version_in spec ver = bind_res (parse_spec spec) (\<lambda>s. bind_res (parse_version ver) (\<lambda>v. Inr (spec_satisfied s v)))"

definition format_findings :: "(string \<Rightarrow> string) \<Rightarrow> 'x rule_context \<Rightarrow> lockfile_facts \<Rightarrow> finding list" where
  "format_findings quote ctx lock =
     (if \<not> given (lf_minimum_tool lock) then []
      else
        (let minimum = the (lf_minimum_tool lock); tool = lf_tool lock; path = lf_path lock;
             described = path @ '' is format '' @ shown (lf_format_version lock);
             evs = lock_evidence lock (if lf_note lock \<noteq> [] then lf_note lock else described)
         in case active_tool ctx tool of
              None \<Rightarrow>
                [make_finding ''lockfiles/manager-missing'' WARN
                   (path @ '' is a '' @ tool @ '' lockfile, but '' @ tool @ '' is not on PATH.'')
                   evs None (Some (tool @ '' '' @ minimum)) (Some tool)
                   (Some (''Install '' @ tool @ '', or remove the lockfile if the project has moved '' @
                          ''to a different package manager.''))
                   [''lockfile '' @ path]]
            | Some installed \<Rightarrow>
                if \<not> given (t_version installed) then
                  [make_finding ''lockfiles/format-unknown'' UNKNOWN
                     (tool @ '' is installed at '' @ shown (t_exe_path installed) @ '', but did not report a '' @
                      ''version, so support for '' @ path @ '' could not be confirmed.'')
                     evs None (Some minimum) (Some tool) None []]
                else
                  (let ver = the (t_version installed) in
                   case version_in minimum ver of
                     Inl e \<Rightarrow>
                       [make_finding ''lockfiles/format-unknown'' UNKNOWN
                          (''Could not compare '' @ tool @ '' '' @ quote ver @ '' against '' @ quote minimum @ '' for '' @ path @ ''.'')
                          evs (Some ver) (Some minimum) (Some tool) None []]
                   | Inr True \<Rightarrow>
                       [make_finding ''lockfiles/format-supported'' PASS
                          (tool @ '' '' @ ver @ '' can use '' @ path @ '' (format '' @ shown (lf_format_version lock) @ '').'')
                          evs (Some ver) (Some minimum) (Some tool) None []]
                   | Inr False \<Rightarrow>
                       [make_finding ''lockfiles/tool-too-old'' ERROR
                          (tool @ '' '' @ ver @ '' is below '' @ minimum @ '', which '' @ path @ '' (format '' @
                           shown (lf_format_version lock) @ '') requires.'')
                          evs (Some ver) (Some minimum) (Some tool)
                          (Some (''Upgrade '' @ tool @ '' to '' @ minimum @ ''. Installing with the older '' @
                                 ''version can rewrite the lockfile instead of failing, which lands the '' @
                                 ''damage in a pull request rather than in this terminal.''))
                          [''lockfile '' @ path, lf_note lock]])))"

definition lock_runtime_findings :: "(string \<Rightarrow> string) \<Rightarrow> 'x rule_context \<Rightarrow> lockfile_facts \<Rightarrow> finding list" where
  "lock_runtime_findings quote ctx lock =
     (case lf_requires_runtime lock of
        None \<Rightarrow> []
      | Some (runtime, spec) \<Rightarrow>
          (case active_tool ctx runtime of
             None \<Rightarrow> []
           | Some installed \<Rightarrow>
               if \<not> given (t_version installed) then []
               else
                 (let ver = the (t_version installed); path = lf_path lock;
                      evs = lock_evidence lock (runtime @ '' '' @ spec)
                  in case version_in spec ver of
                       Inl e \<Rightarrow>
                         [make_finding ''lockfiles/runtime-spec-unparseable'' UNKNOWN
                            (path @ '' pins '' @ runtime @ '' '' @ quote spec @ '', which could not be parsed.'')
                            evs (Some ver) (Some spec) (Some runtime) None []]
                     | Inr True \<Rightarrow> []
                     | Inr False \<Rightarrow>
                         [make_finding ''lockfiles/runtime-mismatch'' ERROR
                            (path @ '' was locked for '' @ runtime @ '' '' @ spec @ '', but '' @ runtime @ '' '' @ ver @ '' is active.'')
                            evs (Some ver) (Some spec) (Some runtime)
                            (Some (''Switch to '' @ runtime @ '' '' @ spec @ '' for this project, or re-resolve the lockfile '' @
                                   ''on '' @ runtime @ '' '' @ ver @ '' and commit the result.''))
                            [''lockfile '' @ path]])))"

definition lockfile_findings :: "(string \<Rightarrow> string) \<Rightarrow> 'x rule_context \<Rightarrow> lockfile_facts \<Rightarrow> finding list" where
  "lockfile_findings quote ctx lock =
     (if lf_unreadable lock then
        [make_finding ''lockfiles/unreadable'' UNKNOWN (lf_path lock @ '' '' @ lf_note lock @ ''.'')
           (lock_evidence lock (lf_note lock)) None None (Some (lf_tool lock))
           (Some (''A lockfile that cannot be parsed cannot be trusted to reproduce '' @
                  ''anything; regenerate it with its package manager.'')) []]
      else format_findings quote ctx lock @ lock_runtime_findings quote ctx lock)"

definition lockfiles_pack :: "(string \<Rightarrow> string) \<Rightarrow> pack_context \<Rightarrow> finding list" where
  "lockfiles_pack quote ctx = concat (map (lockfile_findings quote ctx) (px_lockfiles (rc_extra ctx)))"

section \<open>Advisories and frameworks\<close>

definition installed_versions :: "'x rule_context \<Rightarrow> (string \<times> string option) list" where
  "installed_versions ctx = fold active_step (rc_tools ctx) []"

definition hit_finding :: "string \<times> string \<times> advisory \<Rightarrow> finding" where
  "hit_finding = (\<lambda>(name, ver, a).
     make_finding (name @ ''/known-advisory'') WARN
       (name @ '' '' @ ver @ '' is covered by '' @ ad_id a @ '': '' @ ad_summary a)
       [text_evidence ''system'' (name @ '' '' @ ver @ ''; fixed in '' @ join '', '' (ad_fixed a))]
       (Some ver) (Some (join '' or '' (ad_fixed a))) (Some name)
       (Some (''Upgrade '' @ name @ '' to '' @ hd (ad_fixed a) @ '' or later on its branch. '' @
              ''This compares versions offline and does not check whether your '' @
              ''distribution backported the fix, which many do.''))
       [ad_reference a])"

definition advisories_pack :: "advisory_bundle \<Rightarrow> 'x pack" where
  "advisories_pack active ctx =
     (case affected_tools (installed_versions ctx) active of
        Inl e \<Rightarrow> Inl (''ValueError'', ''invalid version'')
      | Inr hits \<Rightarrow> Inr
          (make_finding ''advisories/coverage'' INFO
             (''Toolchain advisory data: '' @ ab_source active @ '', reviewed '' @ ab_published active @
              '', covering '' @ (if ab_covers active \<noteq> [] then join '', '' (ab_covers active) else ''nothing'') @ ''.'')
             [text_evidence ''system'' (str_nat (length (ab_advisories active)) @ '' advisories loaded; '' @
                str_nat (length (installed_versions ctx)) @ '' active tools checked'')]
             None None None
             (Some (''Tools outside that list got no answer rather than a clean one. '' @
                    ''Replace the set with `devrepro advisories --db <bundle.json>`.''))
             [''https://webdevsamran.github.io/devrepro-doctor/COMPLIANCE/''] # map hit_finding hits))"

definition framework_finding :: "'x rule_context \<Rightarrow> framework_requirement \<Rightarrow> finding list" where
  "framework_finding ctx fr =
     (let evs = [file_evidence (fr_source fr) (fr_framework fr @ '' '' @ fr_version fr)];
          version_text = (case active_tool ctx (fr_tool fr) of None \<Rightarrow> None | Some t \<Rightarrow> t_version t)
      in if \<not> given version_text then
           [make_finding (fr_framework fr @ ''/runtime-missing'') BLOCKED
              (fr_framework fr @ '' '' @ fr_version fr @ '' needs '' @ fr_tool fr @ '' '' @ fr_required fr @ '', and '' @
               fr_tool fr @ '' does not resolve on PATH.'')
              evs None (Some (fr_required fr)) (Some (fr_tool fr)) (Some (fr_detail fr)) []]
         else
           (let ver = the version_text in
            case satisfies ver (fr_required fr) of
              Inl e \<Rightarrow> []
            | Inr True \<Rightarrow>
                [make_finding (fr_framework fr @ ''/runtime-ok'') PASS
                   (fr_tool fr @ '' '' @ ver @ '' satisfies what '' @ fr_framework fr @ '' '' @ fr_version fr @
                    '' requires ('' @ fr_required fr @ '').'')
                   evs (Some ver) (Some (fr_required fr)) (Some (fr_tool fr)) None []]
            | Inr False \<Rightarrow>
                [make_finding (fr_framework fr @ ''/runtime-too-old'') BLOCKED
                   (fr_framework fr @ '' '' @ fr_version fr @ '' requires '' @ fr_tool fr @ '' '' @ fr_required fr @
                    ''; this machine has '' @ ver @ ''.'')
                   evs (Some ver) (Some (fr_required fr)) (Some (fr_tool fr)) (Some (fr_detail fr)) []]))"

definition native_finding :: "string \<times> string \<times> string \<times> string \<Rightarrow> finding" where
  "native_finding = (\<lambda>(name, source, needs, why).
     make_finding (name @ ''/needs-toolchain'') INFO
       (name @ '' needs '' @ needs @ '' to install from source on this machine.'')
       [file_evidence source name] None None (Some ''native'')
       (Some (why @ '' Reported as information rather than a problem: a machine with '' @
              ''a working toolchain, or one where a prebuilt binary matches, installs it without noticing.'')) [])"

definition frameworks_pack :: "pack_context \<Rightarrow> finding list" where
  "frameworks_pack ctx =
     concat (map (framework_finding ctx) (px_frameworks (rc_extra ctx))) @
     map native_finding (px_native (rc_extra ctx))"

section \<open>The built-in engine\<close>

definition builtin_packs :: "(string \<Rightarrow> string) \<Rightarrow> (string \<times> pack_extra pack) list" where
  "builtin_packs quote =
     [(''python'', Inr \<circ> python_pack quote), (''node'', Inr \<circ> node_pack quote), (''dotnet'', Inr \<circ> dotnet_pack quote),
      (''java'', Inr \<circ> java_pack quote), (''cpp'', Inr \<circ> cpp_pack quote), (''go'', Inr \<circ> go_pack quote),
      (''rust'', Inr \<circ> rust_pack quote), (''containers'', Inr \<circ> containers_pack quote), (''wsl'', Inr \<circ> wsl_pack),
      (''ai-gpu'', Inr \<circ> ai_gpu_pack), (''lockfiles'', Inr \<circ> lockfiles_pack quote),
      (''advisories'', advisories_pack bundled_bundle), (''frameworks'', Inr \<circ> frameworks_pack)]"

definition load_builtin_packs :: "(string \<Rightarrow> string) \<Rightarrow> pack_extra engine \<Rightarrow> pack_extra engine" where
  "load_builtin_packs quote engine = fold (\<lambda>(name, func). register name func) (builtin_packs quote) engine"

definition PACK_NAMES :: "string list" where
  "PACK_NAMES = [''python'', ''node'', ''dotnet'', ''java'', ''cpp'', ''go'', ''rust'', ''containers'', ''wsl'',
     ''ai-gpu'', ''lockfiles'', ''advisories'', ''frameworks'']"

section \<open>What the findings of a pack may be\<close>

text \<open>A component the project, the policy, a lockfile or a framework asks something of.\<close>

definition demanded :: "pack_context \<Rightarrow> string \<Rightarrow> bool" where
  "demanded ctx c \<longleftrightarrow>
     (\<exists>r\<in>set (rc_requirements ctx). r_name r = c \<or> (r_ecosystem r = ''container'' \<and> c = ''docker'') \<or>
        (r_ecosystem r = ''cpp'' \<and> c = ''cpp'')) \<or>
     (\<exists>p. rc_policy ctx = Some p \<and> (c \<in> fst ` set (p_required_runtimes p) \<or> c \<in> fst ` set (p_required_tools p) \<or>
        (c = ''docker'' \<and> (require_devcontainer (p_containers p) \<or> require_compose (p_containers p))))) \<or>
     (\<exists>f\<in>set (px_lockfiles (rc_extra ctx)). lf_tool f = c \<or> (\<exists>spec. lf_requires_runtime f = Some (c, spec))) \<or>
     (\<exists>f\<in>set (px_frameworks (rc_extra ctx)). fr_tool f = c)"

lemma demanded_requirement: "r \<in> set (rc_requirements ctx) \<Longrightarrow> demanded ctx (r_name r)"
  unfolding demanded_def by blast

lemma demanded_policy:
  assumes "rc_policy ctx = Some p" and "map_of (p_required_runtimes p) c = Some s \<or> map_of (p_required_tools p) c = Some s"
  shows "demanded ctx c"
proof -
  have "c \<in> fst ` set (p_required_runtimes p) \<or> c \<in> fst ` set (p_required_tools p)"
    using assms(2) by (metis map_of_eq_None_iff option.distinct(1))
  then show ?thesis using assms(1) unfolding demanded_def by blast
qed

text \<open>Valid, and grave only about something that is demanded.\<close>

definition proper :: "(string \<Rightarrow> bool) \<Rightarrow> finding \<Rightarrow> bool" where
  "proper D f \<longleftrightarrow> valid_finding f \<and>
     (f_state f \<in> {BLOCKED, ERROR} \<longrightarrow> (case f_component f of None \<Rightarrow> False | Some c \<Rightarrow> D c))"

lemma proper_make [simp]:
  "proper D (make_finding r st sm evs d q c h refs) \<longleftrightarrow>
     (evs \<noteq> [] \<and> list_all valid_evidence evs) \<and>
     (st \<in> {BLOCKED, ERROR} \<longrightarrow> (case c of None \<Rightarrow> False | Some x \<Rightarrow> D x))"
  by (auto simp: proper_def make_finding_def valid_finding_def)

lemma valid_evidence_made [simp]:
  "src \<in> set allowed_sources \<Longrightarrow> valid_evidence (text_evidence src x)"
  "valid_evidence (file_evidence p x)" "valid_evidence (run_evidence cmd x)"
  by (simp_all add: valid_evidence_def text_evidence_def file_evidence_def run_evidence_def allowed_sources_def)

lemma allowed_names [simp]: "''command'' \<in> set allowed_sources" "''system'' \<in> set allowed_sources"
  by (simp_all add: allowed_sources_def)

lemma proper_version_rule: "D tool \<Longrightarrow> list_all (proper D) (check_version_requirement quote p tool active spec bad src st ex)"
  by (auto simp: check_version_requirement_def Let_def split: option.split sum.split)

lemma requirement_for_demands: "requirement_for ctx e name = Some r \<Longrightarrow> demanded ctx name"
  using demanded_requirement [of r ctx] by (auto simp: requirement_for_def find_Some_iff)

lemma runtime_demands:
  assumes "runtime_spec ctx pack tool tool = (Some spec, src)"
  shows "demanded ctx tool"
proof (cases "requirement_for ctx pack tool")
  case None
  then obtain p s where "rc_policy ctx = Some p" "map_of (p_required_runtimes p) tool = Some s"
    using assms by (auto simp: runtime_spec_def get_def given_def Let_def split: option.splits if_splits)
  then show ?thesis using demanded_policy by blast
qed (rule requirement_for_demands)

lemma proper_runtime: "list_all (proper (demanded ctx)) (runtime_findings quote ctx pack tool None st)"
  using runtime_demands [of ctx pack tool]
  by (auto simp: runtime_findings_def given_def Let_def intro!: proper_version_rule split: prod.split option.split)

lemma proper_tool: "list_all (proper (demanded ctx)) (tool_findings quote ctx pack tool st)"
proof -
  have "demanded ctx tool" if "rc_policy ctx = Some p" "get (p_required_tools p) tool = Some spec" for p spec
    using that demanded_policy [of ctx p tool spec] by (simp add: get_def)
  then show ?thesis by (auto simp: tool_findings_def intro!: proper_version_rule split: option.split)
qed

lemma proper_language: "list_all (proper (demanded ctx)) (language_pack quote e tool ctx)"
  by (simp add: language_pack_def proper_runtime)

lemma proper_python: "list_all (proper (demanded ctx)) (python_pack quote ctx)"
  by (simp add: python_pack_def proper_runtime Let_def)

lemma proper_node: "list_all (proper (demanded ctx)) (node_pack quote ctx)"
  by (simp add: node_pack_def proper_runtime proper_tool)

lemma proper_cpp: "list_all (proper (demanded ctx)) (cpp_pack quote ctx)"
proof -
  have "demanded ctx ''cpp''" if "list_ex (\<lambda>r. r_ecosystem r = ''cpp'') (rc_requirements ctx)"
    using that unfolding demanded_def list_ex_iff by blast
  then show ?thesis by (auto simp: cpp_pack_def proper_runtime)
qed

lemma demanded_containers:
  "rc_policy ctx = Some p \<Longrightarrow> require_devcontainer (p_containers p) \<or> require_compose (p_containers p) \<Longrightarrow>
     demanded ctx ''docker''"
  unfolding demanded_def by blast

lemma needs_docker_demands: "needs_docker ctx \<Longrightarrow> demanded ctx ''docker''"
proof (cases "container_reqs ctx = []")
  case True
  assume "needs_docker ctx"
  with True obtain p where p: "rc_policy ctx = Some p" and d: "require_devcontainer (p_containers p) \<or> require_compose (p_containers p) \<or>
      (\<exists>s. map_of (p_required_tools p) ''docker'' = Some s)"
    by (auto simp: needs_docker_def get_def split: option.splits)
  from d show ?thesis
  proof (elim disjE exE)
    fix s assume "map_of (p_required_tools p) ''docker'' = Some s"
    then show ?thesis using p demanded_policy by blast
  qed (use p demanded_containers in blast)+
next
  case False
  then obtain r where "r \<in> set (rc_requirements ctx)" "r_ecosystem r = ''container''"
    by (auto simp: container_reqs_def filter_empty_conv)
  then show ?thesis unfolding demanded_def by blast
qed

lemma proper_docker: "D ''docker'' \<Longrightarrow> list_all (proper D) (docker_findings c)"
  by (simp add: docker_findings_def)

lemma proper_containers: "list_all (proper (demanded ctx)) (containers_pack quote ctx)"
  using needs_docker_demands [of ctx]
  by (auto simp: containers_pack_def proper_tool proper_docker split: option.split)

lemma proper_wsl: "list_all (proper D) (wsl_pack ctx)"
  by (simp add: wsl_pack_def split: option.split)

lemma proper_gpu: "list_all (proper D) (ai_gpu_pack ctx)"
  by (simp add: ai_gpu_pack_def Let_def split: option.split)

lemma proper_format: "D (lf_tool lock) \<Longrightarrow> list_all (proper D) (format_findings quote ctx lock)"
  by (simp add: format_findings_def lock_evidence_def Let_def split: option.split sum.split bool.split)

lemma proper_lock_runtime:
  "(\<And>runtime spec. lf_requires_runtime lock = Some (runtime, spec) \<Longrightarrow> D runtime) \<Longrightarrow>
     list_all (proper D) (lock_runtime_findings quote ctx lock)"
  by (simp add: lock_runtime_findings_def lock_evidence_def Let_def split: option.split sum.split bool.split)

lemma proper_lockfiles: "list_all (proper (demanded ctx)) (lockfiles_pack quote ctx)"
proof -
  have "list_all (proper (demanded ctx)) (lockfile_findings quote ctx lock)" if "lock \<in> set (px_lockfiles (rc_extra ctx))" for lock
  proof -
    have "demanded ctx (lf_tool lock)" "\<And>c spec. lf_requires_runtime lock = Some (c, spec) \<Longrightarrow> demanded ctx c"
      using that unfolding demanded_def by blast+
    then show ?thesis
      by (auto simp: lockfile_findings_def lock_evidence_def intro!: proper_format proper_lock_runtime)
  qed
  then show ?thesis by (auto simp: lockfiles_pack_def list_all_iff)
qed

lemma proper_framework: "D (fr_tool fr) \<Longrightarrow> list_all (proper D) (framework_finding ctx fr)"
  by (simp add: framework_finding_def Let_def split: sum.split bool.split)

lemma proper_frameworks: "list_all (proper (demanded ctx)) (frameworks_pack ctx)"
proof -
  have "list_all (proper (demanded ctx)) (framework_finding ctx fr)" if "fr \<in> set (px_frameworks (rc_extra ctx))" for fr
    using that by (intro proper_framework) (unfold demanded_def, blast)
  then show ?thesis by (auto simp: frameworks_pack_def native_finding_def list_all_iff case_prod_unfold)
qed

lemma proper_advisories: "\<exists>fs. advisories_pack bundled_bundle ctx = Inr fs \<and> list_all (proper D) fs"
  using bundled_comparison_total [of "installed_versions ctx"]
  by (auto simp: advisories_pack_def hit_finding_def list_all_iff case_prod_unfold)

section \<open>The engine with its built-in packs\<close>

lemma builtin_engine: "load_builtin_packs quote [] = builtin_packs quote"
  by (simp add: load_builtin_packs_def builtin_packs_def register_def)

lemma builtin_names: "map fst (builtin_packs quote) = PACK_NAMES"
  by (simp add: builtin_packs_def PACK_NAMES_def)

lemma builtin_proper:
  "(name, func) \<in> set (builtin_packs quote) \<Longrightarrow> \<exists>fs. func ctx = Inr fs \<and> list_all (proper (demanded ctx)) fs"
  using proper_advisories [of ctx "demanded ctx"]
  by (auto simp: builtin_packs_def dotnet_pack_def go_pack_def java_pack_def rust_pack_def proper_python proper_node
      proper_language proper_cpp proper_containers proper_wsl proper_gpu proper_lockfiles proper_frameworks)

lemma builtin_total:
  "\<exists>fs. evaluate (load_builtin_packs quote []) ctx None = fs \<and> list_all valid_finding fs \<and>
     (\<forall>(name, func) \<in> set (load_builtin_packs quote []). \<exists>gs. func ctx = Inr gs \<and> set gs \<subseteq> set fs)"
proof -
  let ?packs = "builtin_packs quote"
  have total: "\<exists>fs. func ctx = Inr fs \<and> list_all (proper (demanded ctx)) fs" if "(name, func) \<in> set ?packs" for name func
    by (rule builtin_proper [OF that])
  have d: "distinct (map fst ?packs)" unfolding builtin_names by (simp add: PACK_NAMES_def)
  have names: "set (pack_names ?packs) = fst ` set ?packs" by (simp add: pack_names_def)
  have ev: "evaluate ?packs ctx None = concat (map (\<lambda>n. pack_step ?packs ctx n []) (pack_names ?packs))"
    by (simp add: evaluate_def fold_pack_step)
  have step: "pack_step ?packs ctx name [] = gs" if "(name, func) \<in> set ?packs" "func ctx = Inr gs" for name func gs
    using that d by (simp add: pack_step_def)
  have sub: "set gs \<subseteq> set (evaluate ?packs ctx None)" if m: "(name, func) \<in> set ?packs" "func ctx = Inr gs" for name func gs
  proof -
    have "name \<in> set (pack_names ?packs)" using m(1) names by force
    then show ?thesis unfolding ev using step [OF m] by auto
  qed
  have "list_all valid_finding (pack_step ?packs ctx name [])" if "name \<in> fst ` set ?packs" for name
  proof -
    obtain func where m: "(name, func) \<in> set ?packs" using \<open>name \<in> fst ` set ?packs\<close> by auto
    obtain gs where "func ctx = Inr gs" "list_all (proper (demanded ctx)) gs" using total [OF m] by blast
    then show ?thesis using step [OF m] by (auto simp: list_all_iff proper_def)
  qed
  then have valid: "list_all valid_finding (evaluate ?packs ctx None)"
    unfolding ev using names by (auto simp: list_all_iff)
  have "case x of (name, func) \<Rightarrow> \<exists>gs. func ctx = Inr gs \<and> set gs \<subseteq> set (evaluate ?packs ctx None)"
    if "x \<in> set ?packs" for x
  proof -
    obtain name func where x: "x = (name, func)" by force
    with that have m: "(name, func) \<in> set ?packs" by simp
    from total [OF m] obtain gs where "func ctx = Inr gs" by auto
    then show ?thesis using sub [OF m] x by auto
  qed
  then show ?thesis unfolding builtin_engine using valid by simp
qed

lemma builtin_sub:
  "\<exists>fs. evaluate (load_builtin_packs quote []) ctx None = fs \<and>
     (\<forall>(name, func) \<in> set (load_builtin_packs quote []). \<exists>gs. func ctx = Inr gs \<and> set gs \<subseteq> set fs)"
  using builtin_total [of quote ctx] by simp


text \<open>
  C15: Nothing is blocked that nobody asked for: a finding that is BLOCKED or an ERROR is about a
  component that a requirement of the project, the policy, a lockfile or a framework demands.
\<close>

theorem grave_findings_are_demanded:
  assumes "f \<in> set (evaluate (load_builtin_packs quote []) ctx None)" and "f_state f \<in> {BLOCKED, ERROR}"
  shows "\<exists>c. f_component f = Some c \<and> demanded ctx c"
proof -
  let ?packs = "builtin_packs quote"
  obtain name where "name \<in> fst ` set ?packs" "f \<in> set (pack_step ?packs ctx name [])"
    using assms(1) by (auto simp: builtin_engine evaluate_def fold_pack_step pack_names_def)
  moreover then obtain func where m: "(name, func) \<in> set ?packs" by auto
  moreover have "distinct (map fst ?packs)" unfolding builtin_names by (simp add: PACK_NAMES_def)
  moreover obtain gs where "func ctx = Inr gs" "list_all (proper (demanded ctx)) gs" using builtin_proper [OF m] by blast
  ultimately have "proper (demanded ctx) f" by (auto simp: pack_step_def list_all_iff)
  then show ?thesis using assms(2) by (auto simp: proper_def split: option.splits)
qed

text \<open>
  A policy that requires a version of \<open>rust\<close> is not enforced: the pack starts for it, and then
  looks for a range under the name \<open>rustc\<close>, so it says nothing, whatever is installed.
\<close>

theorem rust_policy_is_not_enforced:
  assumes "rc_policy ctx = Some p" and "map_of (p_required_runtimes p) ''rust'' = Some spec"
    and "map_of (p_required_runtimes p) ''rustc'' = None" and "requirement_for ctx ''rust'' ''rustc'' = None"
  shows "rust_pack quote ctx = []"
  using assms by (simp add: rust_pack_def language_pack_def runtime_findings_def runtime_spec_def given_def get_def Let_def)

section \<open>The verdict on a lockfile format\<close>

lemma format_states:
  assumes "\<not> lf_unreadable lock" and "lf_minimum_tool lock = Some minimum" and "minimum \<noteq> []"
    and "lf_requires_runtime lock = None"
  shows "map f_state (lockfile_findings quote ctx lock) =
    [case active_tool ctx (lf_tool lock) of
       None \<Rightarrow> WARN
     | Some t \<Rightarrow>
         (case (if given (t_version t) then version_in minimum (the (t_version t)) else Inl ValueError) of
            Inl e \<Rightarrow> UNKNOWN | Inr ok \<Rightarrow> if ok then PASS else ERROR)]"
proof -
  have st: "f_state (make_finding r st sm e d q c h rf) = st" for r st sm e d q c h rf
    by (simp add: make_finding_def)
  have given: "given (Some minimum)" using assms(3) by (simp add: given_def)
  have "lockfile_findings quote ctx lock = format_findings quote ctx lock"
    using assms(1,4) by (simp add: lockfile_findings_def lock_runtime_findings_def)
  moreover have "map f_state (format_findings quote ctx lock) =
    [case active_tool ctx (lf_tool lock) of
       None \<Rightarrow> WARN
     | Some t \<Rightarrow>
         (case (if given (t_version t) then version_in minimum (the (t_version t)) else Inl ValueError) of
            Inl e \<Rightarrow> UNKNOWN | Inr ok \<Rightarrow> if ok then PASS else ERROR)]"
  proof (cases "active_tool ctx (lf_tool lock)")
    case (Some t)
    show ?thesis
    proof (cases "given (t_version t)")
      case True
      then show ?thesis
        by (cases "version_in minimum (the (t_version t))")
          (simp_all add: format_findings_def given Some assms(2) Let_def st split: bool.split)
    qed (simp add: format_findings_def given Some assms(2) Let_def st)
  qed (simp add: format_findings_def given assms(2) Let_def st)
  ultimately show ?thesis by simp
qed

text \<open>
  A readable lockfile with a known floor gets exactly one verdict on its format: WARN when the
  package manager is absent, UNKNOWN when it reports no version or the comparison is impossible,
  otherwise PASS exactly when the version is in the range and ERROR when it is not.
\<close>

theorem format_verdict:
  assumes "\<not> lf_unreadable lock" and "lf_minimum_tool lock = Some minimum" and "minimum \<noteq> []"
    and "lf_requires_runtime lock = None"
  shows "map f_state (lockfile_findings quote ctx lock) =
    [case active_tool ctx (lf_tool lock) of
       None \<Rightarrow> WARN
     | Some t \<Rightarrow>
         (case (if given (t_version t) then version_in minimum (the (t_version t)) else Inl ValueError) of
            Inl e \<Rightarrow> UNKNOWN | Inr ok \<Rightarrow> if ok then PASS else ERROR)]"
  by (rule format_states [OF assms])

section \<open>Concrete instances\<close>

definition demo_policy :: policy where
  "demo_policy = \<lparr>p_supported_os = \<lparr>os_windows = True, os_linux = True, os_macos = True\<rparr>,
     p_required_runtimes = [(''rust'', ''>=1.70'')], p_required_tools = [], p_optional_tools = [],
     p_known_bad_versions = [], p_containers = \<lparr>require_devcontainer = False, require_compose = False\<rparr>,
     p_required_env_names = []\<rparr>"

definition demo_lock :: lockfile_facts where
  "demo_lock = \<lparr>lf_path = ''package-lock.json'', lf_ecosystem = ''node'', lf_tool = ''npm'', lf_format_version = Some ''3'',
     lf_minimum_tool = Some ''>=7'', lf_produced_by = None, lf_requires_runtime = None, lf_entries = None,
     lf_note = [], lf_unreadable = False\<rparr>"

definition demo_context :: pack_context where
  "demo_context = \<lparr>rc_platform_info = \<lparr>pl_os_name = ''linux'', pl_os_version = ''6'', pl_arch = ''x'', pl_kernel = None,
       pl_shell = None, pl_is_wsl = False\<rparr>,
     rc_tools = [\<lparr>t_name = ''npm'', t_version = Some ''6.14.0'', t_exe_path = None, t_install_source = None,
       t_is_active = True, t_precedence = None\<rparr>],
     rc_requirements = [], rc_policy = Some demo_policy, rc_path_analysis = None, rc_containers = None, rc_wsl = None,
     rc_gpu = None, rc_active_manager = None,
     rc_extra = \<lparr>px_lockfiles = [demo_lock], px_frameworks = [], px_native = []\<rparr>\<rparr>"

lemma demo_lock_readable: "\<not> lf_unreadable demo_lock" "lf_minimum_tool demo_lock = Some ''>=7''" "''>=7'' \<noteq> []"
  "lf_requires_runtime demo_lock = None"
  by (simp_all add: demo_lock_def)

theorem format_verdict_witness:
  "map f_state (lockfile_findings (\<lambda>s. s) demo_context demo_lock) = [ERROR]"
proof -
  have v: "version_in ''>=7'' ''6.14.0'' = Inr False" by code_simp
  show ?thesis
    using format_verdict [OF demo_lock_readable, of "\<lambda>s. s" demo_context] v
    by (simp add: demo_context_def demo_lock_def active_tool_def given_def)
qed

theorem rust_policy_is_not_enforced_witness: "rust_pack (\<lambda>s. s) demo_context = []"
  by (rule rust_policy_is_not_enforced [of demo_context demo_policy "''>=1.70''"])
    (simp_all add: demo_context_def demo_policy_def requirement_for_def)

theorem grave_findings_are_demanded_witness:
  "\<exists>f\<in>set (evaluate (load_builtin_packs (\<lambda>s. s) []) demo_context None). f_state f = ERROR \<and>
     (\<exists>c. f_component f = Some c \<and> demanded demo_context c)"
proof -
  obtain fs where fs: "evaluate (load_builtin_packs (\<lambda>s. s) []) demo_context None = fs"
    "\<forall>(name, func) \<in> set (load_builtin_packs (\<lambda>s. s) []). \<exists>gs. func demo_context = Inr gs \<and> set gs \<subseteq> set fs"
    using builtin_sub [of "\<lambda>s. s" demo_context] by blast
  have "(''lockfiles'', Inr \<circ> lockfiles_pack (\<lambda>s. s)) \<in> set (load_builtin_packs (\<lambda>s. s) [])"
    unfolding builtin_engine by (simp add: builtin_packs_def)
  then have sub: "set (lockfiles_pack (\<lambda>s. s) demo_context) \<subseteq> set fs" using fs(2) by fastforce
  have "ERROR \<in> f_state ` set (lockfiles_pack (\<lambda>s. s) demo_context)" by code_simp
  then obtain f where f: "f \<in> set fs" "f_state f = ERROR" using sub by force
  have "f \<in> set (evaluate (load_builtin_packs (\<lambda>s. s) []) demo_context None)" using f fs(1) by simp
  from grave_findings_are_demanded [OF this] f fs(1) show ?thesis by auto
qed


section \<open>From the file to the verdict\<close>

lemma version_in_satisfies:
  "strip spec \<noteq> ''*'' \<Longrightarrow> strip spec \<noteq> [] \<Longrightarrow> strip spec \<noteq> ''any'' \<Longrightarrow> version_in spec ver = satisfies ver spec"
  by (simp add: satisfies_def version_in_def)

lemma npm_lock_facts:
  assumes "loads content = Some (JObj d)" and "as_int (dict_get d ''lockfileVersion'') = Some v" and "v = 2 \<or> v = 3"
  shows "lf_minimum_tool (npm_lock env (Some content) rel) = Some ''>=7''"
    and "lf_tool (npm_lock env (Some content) rel) = ''npm''"
    and "\<not> lf_unreadable (npm_lock env (Some content) rel)"
  using assms
  by (auto simp: npm_lock_def json_object_def NPM_LOCK_VERSIONS_def plain_facts_def Let_def split: json.split)

text \<open>
  From the text of the lockfile to the verdict: a \<open>package-lock.json\<close> of format 2 or 3 on a machine
  whose npm reports a release is supported exactly when its major version is at least 7, and an
  ERROR otherwise (for format 2 although its note says that npm 6 can still install from it).
\<close>

theorem npm_lock_verdict:
  assumes "loads content = Some (JObj d)" and "as_int (dict_get d ''lockfileVersion'') = Some v" and "v = 2 \<or> v = 3"
    and "lf_requires_runtime (npm_lock env (Some content) rel) = None"
    and "active_tool ctx ''npm'' = Some npm" and "t_version npm = Some (join ''.'' (map str_nat ns))" and "ns \<noteq> []"
  shows "map f_state (lockfile_findings quote ctx (npm_lock env (Some content) rel)) = [if 7 \<le> hd ns then PASS else ERROR]"
proof -
  note lock = npm_lock_facts [OF assms(1-3), of env rel]
  have "str_nat 7 = ''7''" by code_simp
  moreover have "strip ''>=7'' = ''>=7''" by code_simp
  ultimately have "version_in ''>=7'' (join ''.'' (map str_nat ns)) = Inr (7 \<le> hd ns)"
    using version_in_satisfies [of "''>=7''"] major_range_semantics_facts(2) [OF assms(7), of 7] by simp
  moreover have "given (t_version npm)"
  proof -
    have "join ''.'' (map str_nat ns) \<noteq> []" using assms(7) by (cases ns; cases "tl ns") (auto simp: str_nat_nonempty)
    then show ?thesis by (simp add: given_def assms(6))
  qed
  ultimately show ?thesis
    using format_states [OF lock(3,1) _ assms(4), of quote ctx] by (simp add: lock(2) assms(5,6))
qed

theorem npm_lock_verdict_witness:
  "map f_state (lockfile_findings (\<lambda>s. s) demo_context
     (npm_lock \<lparr>le_json_error = (\<lambda>s. s), le_toml = Inl\<rparr> (Some ''{\"lockfileVersion\": 3}'') ''package-lock.json'')) = [ERROR]"
proof -
  let ?env = "\<lparr>le_json_error = (\<lambda>s. s), le_toml = Inl\<rparr>"
  have c: "loads ''{\"lockfileVersion\": 3}'' = Some (JObj [(''lockfileVersion'', JInt 3)])"
    "as_int (dict_get [(''lockfileVersion'', JInt 3)] ''lockfileVersion'') = Some 3"
    "lf_requires_runtime (npm_lock ?env (Some ''{\"lockfileVersion\": 3}'') ''package-lock.json'') = None"
    by code_simp+
  obtain npm where npm: "active_tool demo_context ''npm'' = Some npm" "t_version npm = Some ''6.14.0''"
    by (simp add: demo_context_def active_tool_def)
  moreover have "''6.14.0'' = join ''.'' (map str_nat [6, 14, 0])" by code_simp
  ultimately show ?thesis
    using npm_lock_verdict [OF c(1,2) _ c(3) npm(1), of "[6, 14, 0]" "\<lambda>s. s"] by simp
qed

text \<open>
  No lockfile is silently skipped: one that cannot be parsed, wherever it lies within reach of the
  walk, is named in a finding of the lockfile pack.
\<close>

theorem unreadable_lockfile_is_reported:
  assumes "is_lock_of env (reach visible MAX_DEPTH [] root) lock" and "lf_unreadable lock"
    and "px_lockfiles (rc_extra ctx) = collect_lockfile_facts env MAX_DEPTH root"
  shows "\<exists>f\<in>set (lockfiles_pack quote ctx). f_state f = UNKNOWN \<and> f_component f = Some (lf_tool lock) \<and>
    f_summary f = lf_path lock @ '' '' @ lf_note lock @ ''.''"
proof -
  have "lock \<in> set (collect_lockfile_facts env MAX_DEPTH root)" using assms(1) by (simp add: collected_iff)
  moreover have "\<exists>f\<in>set (lockfile_findings quote ctx lock). f_state f = UNKNOWN \<and> f_component f = Some (lf_tool lock) \<and>
      f_summary f = lf_path lock @ '' '' @ lf_note lock @ ''.''"
    using assms(2) by (simp add: lockfile_findings_def make_finding_def)
  ultimately show ?thesis using assms(3) by (auto simp: lockfiles_pack_def)
qed

definition demo_lock_env :: lock_env where
  "demo_lock_env = \<lparr>le_json_error = (\<lambda>s. ''Expecting value''), le_toml = (\<lambda>s. Inl s)\<rparr>"

definition demo_root :: dir where
  "demo_root = Dir [] True [(''web'', Dir [(''uv.lock'', Some ''x'')] True []), (''vendor'', Dir [(''uv.lock'', None)] True [])]"

theorem unreadable_lockfile_is_reported_witness:
  "\<exists>f\<in>set (lockfiles_pack (\<lambda>s. s) (demo_context
       \<lparr>rc_extra := \<lparr>px_lockfiles = collect_lockfile_facts demo_lock_env MAX_DEPTH demo_root, px_frameworks = [], px_native = []\<rparr>\<rparr>)).
     f_state f = UNKNOWN \<and> f_component f = Some ''uv'' \<and> f_summary f = ''web/uv.lock is not valid TOML: x.''"
proof -
  let ?lock = "unreadable ''web/uv.lock'' ''python'' ''uv'' ''is not valid TOML: x''"
  have l: "lf_unreadable ?lock" "lf_tool ?lock = ''uv''" "lf_path ?lock @ '' '' @ lf_note ?lock @ ''.'' = ''web/uv.lock is not valid TOML: x.''"
    by code_simp+
  have "collect_lockfile_facts demo_lock_env MAX_DEPTH demo_root = [?lock]" by code_simp
  then have "is_lock_of demo_lock_env (reach visible MAX_DEPTH [] demo_root) ?lock" by (simp flip: collected_iff)
  from unreadable_lockfile_is_reported [OF this l(1), of "demo_context
       \<lparr>rc_extra := \<lparr>px_lockfiles = collect_lockfile_facts demo_lock_env MAX_DEPTH demo_root, px_frameworks = [], px_native = []\<rparr>\<rparr>"]
  show ?thesis unfolding l by simp
qed

end
