(* ===== verification/Agent_Manifest.thy ===== *)
theory Agent_Manifest
  imports Json Models
begin

text \<open>
  \<open>src/devrepro/agents/manifest.py\<close>: the commands an agent manifest declares, their resolution on
  this machine and their comparison with what CI runs. The regular expressions of the module have
  no choice to take back, so each is written as the scan it makes. Resolution on \<open>PATH\<close>, the files
  of the repository and Python's import system are arguments, and so is the quoting of \<open>repr\<close>.
\<close>

section \<open>Words of a command line\<close>

definition quotes :: string where
  "quotes = [CHR 0x22, CHR 0x27]"

definition AGENT_MANIFESTS :: "string list" where
  "AGENT_MANIFESTS = [''AGENTS.md'', ''CLAUDE.md'', ''.cursorrules'', ''.cursor/rules'',
     ''.github/copilot-instructions.md'', ''.windsurfrules'', ''GEMINI.md'']"

definition SHELL_FENCES :: "string list" where
  "SHELL_FENCES = [''bash'', ''sh'', ''shell'', ''zsh'', ''console'', ''shell-session'', ''terminal'', []]"

definition SHELL_KEYWORDS :: "string list" where
  "SHELL_KEYWORDS = [''if'', ''then'', ''else'', ''elif'', ''fi'', ''for'', ''while'', ''do'', ''done'', ''case'', ''esac'',
     ''function'', ''return'', ''export'', ''source'', ''set'', ''unset'', ''alias'', ''local'', ''read'', ''shift'',
     ''trap'', ''eval'', ''exec'', ''continue'', ''break'', ''wait'', ''declare'', ''typeset'']"

definition SHELL_BUILTINS :: "string list" where
  "SHELL_BUILTINS = [''cd'', ''echo'', ''true'', ''false'', ''test'', ''pwd'', ''exit'', '':'']"

section \<open>Declared commands\<close>

record declared_command =
  dc_raw :: string
  dc_program :: string
  dc_manifest :: string
  dc_line :: nat
  dc_cwd :: string

definition is_runnable :: "declared_command \<Rightarrow> bool" where
  "is_runnable c \<longleftrightarrow> dc_program c \<noteq> [] \<and> dc_program c \<notin> set SHELL_KEYWORDS"

record agent_manifest =
  am_path :: string
  am_commands :: "declared_command list"

text \<open>\<open>_FENCE\<close>: the language of a fence.\<close>

definition fence_char :: "char \<Rightarrow> bool" where
  "fence_char c \<longleftrightarrow> is_alnum c \<or> c = CHR ''_'' \<or> c = CHR ''-''"

definition fence_language :: "string \<Rightarrow> string option" where
  "fence_language line =
     (let s = lstrip line in
      if prefix ''```'' s then
        (let r = drop 3 s in
         if list_all is_space (dropWhile fence_char r) then Some (takeWhile fence_char r) else None)
      else None)"

text \<open>\<open>_PROMPT.sub("", line)\<close>.\<close>

definition drop_prompt :: "string \<Rightarrow> string" where
  "drop_prompt line =
     (let s = lstrip line;
          after = (case s of
             [] \<Rightarrow> None
           | c # r \<Rightarrow>
               if c = CHR ''$'' \<or> c = CHR ''>'' then Some r
               else if c = CHR ''#'' \<and> prefix ''$'' (lstrip r) then Some (tl (lstrip r))
               else None)
      in case after of
           None \<Rightarrow> line
         | Some r \<Rightarrow> if r \<noteq> [] \<and> is_space (hd r) then lstrip r else line)"

text \<open>\<open>re.split\<close> on the shell operators.\<close>

fun split_ops :: "string \<Rightarrow> string \<Rightarrow> string list" where
  "split_ops acc [] = [rev acc]"
| "split_ops acc (c # s) =
     (if c = CHR '';'' then rev acc # split_ops [] s
      else
        (case s of
           [] \<Rightarrow> split_ops (c # acc) s
         | d # t \<Rightarrow>
             if c = d \<and> (c = CHR ''&'' \<or> c = CHR ''|'') then rev acc # split_ops [] t
             else split_ops (c # acc) s))"

text \<open>The text in front of the first \<open>" #"\<close>.\<close>

definition before_comment :: "string \<Rightarrow> string" where
  "before_comment s = (if contains s '' #'' then strip (hd (split_on '' #'' s)) else s)"

definition split_command_line :: "string \<Rightarrow> string list" where
  "split_command_line line =
     (let stripped = strip (drop_prompt line) in
      if stripped = [] \<or> hd stripped = CHR ''#'' then []
      else
        (let bare = before_comment (strip (rstrip_chars [CHR 0x5C] stripped)) in
         filter (\<lambda>p. p \<noteq> []) (map strip (split_ops [] bare))))"

text \<open>A leading \<open>VAR=value\<close> assignment.\<close>

definition assignment :: "string \<Rightarrow> bool" where
  "assignment token \<longleftrightarrow>
     token \<noteq> [] \<and> (is_upper (hd token) \<or> is_lower (hd token) \<or> hd token = CHR ''_'') \<and>
     prefix ''='' (dropWhile word_char (tl token))"

definition program_of :: "string \<Rightarrow> string" where
  "program_of command =
     (case find (\<lambda>t. \<not> assignment t) (words command) of None \<Rightarrow> [] | Some t \<Rightarrow> strip_chars quotes t)"

text \<open>\<open>_apply_cd\<close>.\<close>

fun enter_segment :: "string list \<Rightarrow> string \<Rightarrow> string list" where
  "enter_segment parts seg =
     (if seg = [] \<or> seg = ''.'' then parts
      else if seg = ''..'' then butlast parts
      else parts @ [seg])"

definition or_dot :: "string \<Rightarrow> string" where
  "or_dot s = (if s = [] then ''.'' else s)"

definition apply_cd :: "string \<Rightarrow> string \<Rightarrow> string" where
  "apply_cd cwd command =
     (case words command of
        _ # t # _ \<Rightarrow>
          (let target = strip_chars quotes t in
           if prefix ''/'' target \<or> prefix ''~'' target \<or> (length target > 1 \<and> target ! 1 = CHR '':'') then ''.''
           else
             (let parts = (if cwd = ''.'' then [] else split_on ''/'' cwd) in
              or_dot (join ''/'' (foldl enter_segment parts (split_on ''/'' (replace_char (CHR 0x5C) ''/'' target))))))
      | _ \<Rightarrow> ''.'')"

fun line_commands :: "string \<Rightarrow> nat \<Rightarrow> string \<Rightarrow> string list \<Rightarrow> declared_command list" where
  "line_commands manifest n cwd [] = []"
| "line_commands manifest n cwd (part # parts) =
     (let program = program_of part in
      if program = [] then line_commands manifest n cwd parts
      else
        \<lparr>dc_raw = part, dc_program = program, dc_manifest = manifest, dc_line = n, dc_cwd = cwd\<rparr> #
        line_commands manifest n (if program = ''cd'' then apply_cd cwd part else cwd) parts)"

text \<open>The loop over the lines; the first argument is \<open>in_shell_block\<close>.\<close>

fun parse_lines :: "bool \<Rightarrow> nat \<Rightarrow> string \<Rightarrow> string list \<Rightarrow> declared_command list" where
  "parse_lines in_shell n manifest [] = []"
| "parse_lines in_shell n manifest (line # lines) =
     (case fence_language line of
        Some language \<Rightarrow>
          parse_lines (\<not> in_shell \<and> py_lower language \<in> set SHELL_FENCES) (n + 1) manifest lines
      | None \<Rightarrow>
          if in_shell then
            line_commands manifest n ''.'' (split_command_line line) @ parse_lines in_shell (n + 1) manifest lines
          else parse_lines in_shell (n + 1) manifest lines)"

definition parse_declared_commands :: "string \<Rightarrow> string \<Rightarrow> declared_command list" where
  "parse_declared_commands content manifest = parse_lines False 1 manifest (splitlines content)"

text \<open>\<open>files\<close> gives the text of each manifest that is there and readable.\<close>

definition discover_manifests :: "(string \<Rightarrow> string option) \<Rightarrow> agent_manifest list" where
  "discover_manifests files =
     concat (map (\<lambda>rel. case files rel of None \<Rightarrow> []
       | Some content \<Rightarrow> [\<lparr>am_path = rel, am_commands = parse_declared_commands content rel\<rparr>]) AGENT_MANIFESTS)"

section \<open>Resolving the programs\<close>

record command_check =
  cc_command :: declared_command
  cc_status :: string
  cc_detail :: string
  cc_resolved :: "string option"

definition check_ok :: "command_check \<Rightarrow> bool" where
  "check_ok c \<longleftrightarrow> cc_status c \<in> {''ok'', ''shell-builtin''}"

definition looks_like_path :: "string \<Rightarrow> bool" where
  "looks_like_path program \<longleftrightarrow> CHR ''/'' \<in> set program \<or> CHR 0x5C \<in> set program"

definition check_path_program ::
  "(string \<Rightarrow> string) \<Rightarrow> (string \<Rightarrow> string option) \<Rightarrow> declared_command \<Rightarrow> command_check" where
  "check_path_program quote in_root c =
     (case in_root (dc_program c) of
        Some target \<Rightarrow>
          \<lparr>cc_command = c, cc_status = ''ok'', cc_detail = quote (dc_program c) @ '' exists in the repository.'',
            cc_resolved = Some target\<rparr>
      | None \<Rightarrow>
          \<lparr>cc_command = c, cc_status = ''path-absent'',
            cc_detail = quote (dc_program c) @ '' does not exist yet. This is often expected: a '' @
              ''setup step usually creates it, so it only matters if an earlier command in the same block did not run.'',
            cc_resolved = None\<rparr>)"

definition check_one ::
  "(string \<Rightarrow> string) \<Rightarrow> (string \<Rightarrow> string option) \<Rightarrow> (string \<Rightarrow> string list) \<Rightarrow> (string \<Rightarrow> string option) \<Rightarrow>
    declared_command \<Rightarrow> command_check" where
  "check_one quote in_root on_path importable c =
     (if looks_like_path (dc_program c) then check_path_program quote in_root c
      else if dc_program c \<in> set SHELL_BUILTINS then
        \<lparr>cc_command = c, cc_status = ''shell-builtin'',
          cc_detail = quote (dc_program c) @ '' is a shell builtin; always available.'', cc_resolved = None\<rparr>
      else
        (case on_path (dc_program c) of
           m # ms \<Rightarrow>
             \<lparr>cc_command = c, cc_status = ''ok'',
               cc_detail = quote (dc_program c) @ '' resolves on PATH.'' @
                 (if ms \<noteq> [] then '' '' @ str_nat (Suc (length ms)) @ '' installations found; the first wins.'' else []),
               cc_resolved = Some m\<rparr>
         | [] \<Rightarrow>
             (case importable (dc_program c) of
                Some module \<Rightarrow>
                  \<lparr>cc_command = c, cc_status = ''not-on-path'',
                    cc_detail = quote (dc_program c) @ '' is installed but not on PATH in this '' @
                      ''shell. `python -m '' @ module @ ''` works, so this is a PATH '' @
                      ''problem, not a missing dependency -- activate the virtualenv or add the scripts directory to PATH.'',
                    cc_resolved = None\<rparr>
              | None \<Rightarrow>
                  \<lparr>cc_command = c, cc_status = ''missing'',
                    cc_detail = quote (dc_program c) @ '' is not on PATH and is not importable as a '' @
                      ''Python module. The agent will fail on this command.'',
                    cc_resolved = None\<rparr>)))"

fun check_from ::
  "(string \<Rightarrow> string) \<Rightarrow> (string \<Rightarrow> string option) \<Rightarrow> (string \<Rightarrow> string list) \<Rightarrow> (string \<Rightarrow> string option) \<Rightarrow>
    (string \<times> string) list \<Rightarrow> declared_command list \<Rightarrow> command_check list" where
  "check_from quote in_root on_path importable seen [] = []"
| "check_from quote in_root on_path importable seen (c # cs) =
     (if \<not> is_runnable c \<or> (dc_program c, dc_manifest c) \<in> set seen
      then check_from quote in_root on_path importable seen cs
      else check_one quote in_root on_path importable c #
        check_from quote in_root on_path importable ((dc_program c, dc_manifest c) # seen) cs)"

definition check_declared_commands ::
  "(string \<Rightarrow> string) \<Rightarrow> (string \<Rightarrow> string option) \<Rightarrow> (string \<Rightarrow> string list) \<Rightarrow> (string \<Rightarrow> string option) \<Rightarrow>
    declared_command list \<Rightarrow> command_check list" where
  "check_declared_commands quote in_root on_path importable cs = check_from quote in_root on_path importable [] cs"

section \<open>What CI runs\<close>

text \<open>\<open>_RUN_SCALAR\<close> and \<open>_RUN_BLOCK\<close>: the key \<open>run:\<close>, behind a list dash or not.\<close>

definition after_run_key :: "string \<Rightarrow> string option" where
  "after_run_key line =
     (let s = lstrip line; s = (if prefix ''-'' s then lstrip (tl s) else s) in
      if prefix ''run:'' s then Some (lstrip (drop 4 s)) else None)"

definition run_scalar :: "string \<Rightarrow> string option" where
  "run_scalar line =
     (case after_run_key line of
        Some (c # r) \<Rightarrow> if c = CHR ''|'' \<or> c = CHR ''>'' then None else Some (rstrip (c # r))
      | _ \<Rightarrow> None)"

definition run_block :: "string \<Rightarrow> nat option" where
  "run_block line =
     (case after_run_key line of
        Some (c # r) \<Rightarrow>
          if c = CHR ''|'' \<or> c = CHR ''>'' then
            (let r = (case r of d # t \<Rightarrow> if d = CHR ''-'' \<or> d = CHR ''+'' then t else r | [] \<Rightarrow> r) in
             if list_all is_space r then Some (length line - length (lstrip line)) else None)
          else None
      | _ \<Rightarrow> None)"

definition ends_block :: "nat \<Rightarrow> string \<Rightarrow> bool" where
  "ends_block indent body \<longleftrightarrow> strip body \<noteq> [] \<and> length body - length (lstrip body) \<le> indent"

function run_steps :: "string list \<Rightarrow> string list" where
  "run_steps lines =
     (case lines of
        [] \<Rightarrow> []
      | line # rest \<Rightarrow>
          (case run_scalar line of
             Some cmd \<Rightarrow> split_command_line cmd @ run_steps rest
           | None \<Rightarrow>
               (case run_block line of
                  Some indent \<Rightarrow>
                    concat (map split_command_line (takeWhile (\<lambda>b. \<not> ends_block indent b) rest)) @
                    run_steps (dropWhile (\<lambda>b. \<not> ends_block indent b) rest)
                | None \<Rightarrow> run_steps rest)))"
  by pat_completeness auto
termination
  by (relation "measure length") (auto simp: less_Suc_eq_le intro: length_dropWhile_le)

declare run_steps.simps [simp del]

definition gates_a_pull_request :: "string \<Rightarrow> bool" where
  "gates_a_pull_request content \<longleftrightarrow>
     (let trigger = hd (split_on ''jobs:'' content) in
      contains trigger ''pull_request'' \<or> (contains trigger ''push:'' \<and> contains trigger ''branches''))"

text \<open>The workflows in the order their files are read.\<close>

definition ci_declared_commands :: "string option list \<Rightarrow> string list" where
  "ci_declared_commands workflows =
     concat (map (\<lambda>w. case w of None \<Rightarrow> []
       | Some content \<Rightarrow> if gates_a_pull_request content then run_steps (splitlines content) else []) workflows)"

definition PLUMBING :: "string list" where
  "PLUMBING = [''awk'', ''basename'', ''cat'', ''chmod'', ''cp'', ''curl'', ''cut'', ''date'', ''diff'', ''dirname'', ''du'',
     ''env'', ''find'', ''grep'', ''head'', ''id'', ''jq'', ''ln'', ''ls'', ''mkdir'', ''mv'', ''printf'', ''rm'', ''sed'',
     ''seq'', ''sha256sum'', ''sleep'', ''sort'', ''tail'', ''tar'', ''tee'', ''touch'', ''tr'', ''uname'', ''uniq'', ''wc'',
     ''which'', ''xargs'', ''zip'', ''unzip'']"

text \<open>\<open>PurePosixPath(text).stem\<close>.\<close>

definition path_stem :: "string \<Rightarrow> string" where
  "path_stem p =
     (let parts = filter (\<lambda>x. x \<noteq> [] \<and> x \<noteq> ''.'') (split_on ''/'' p);
          name = (if parts = [] then [] else last parts);
          ext = takeWhile (\<lambda>c. c \<noteq> CHR ''.'') (rev name);
          base = take (length name - length ext - 1) name
      in if CHR ''.'' \<in> set name \<and> ext \<noteq> [] \<and> base \<noteq> [] then base else name)"

definition module_form :: "string list \<Rightarrow> string list" where
  "module_form raw =
     (case raw of
        a # b # rest \<Rightarrow>
          if rest \<noteq> [] \<and> path_stem a \<in> {''python'', ''python3'', ''py''} \<and> b = ''-m'' then rest else raw
      | _ \<Rightarrow> raw)"

definition command_key :: "string \<Rightarrow> string" where
  "command_key command =
     (case filter (\<lambda>t. \<not> prefix ''-'' t) (module_form (words command)) of
        [] \<Rightarrow> []
      | t # ts \<Rightarrow>
          (let program = strip_chars ''()[]{};,'' (strip_chars quotes t) in
           if program = [] \<or> CHR ''='' \<in> set program then []
           else if \<not> (py_isalnum_char (hd program) \<or> hd program \<in> set ''./_'') then []
           else if contains command ''$('' \<and> \<not> py_isalnum_char (hd program) then []
           else if program \<in> set SHELL_BUILTINS \<or> program \<in> set SHELL_KEYWORDS \<or> program \<in> set PLUMBING then []
           else (case ts of [] \<Rightarrow> program | t2 # _ \<Rightarrow> program @ '' '' @ t2)))"

fun missing_from :: "string set \<Rightarrow> string list \<Rightarrow> string list \<Rightarrow> string list" where
  "missing_from declared missing [] = missing"
| "missing_from declared missing (command # ci) =
     (let key = command_key command in
      if key = [] \<or> key \<in> declared \<or> key \<in> command_key ` set missing then missing_from declared missing ci
      else missing_from declared (missing @ [command]) ci)"

definition manifest_vs_ci :: "declared_command list \<Rightarrow> string list \<Rightarrow> string list" where
  "manifest_vs_ci declared ci = missing_from ((command_key \<circ> dc_raw) ` set declared) [] ci"

section \<open>The directory of a command\<close>

text \<open>A directory inside the repository: the root, or components that neither stay nor go up.\<close>

definition plain_segment :: "string \<Rightarrow> bool" where
  "plain_segment s \<longleftrightarrow> s \<noteq> [] \<and> s \<noteq> ''.'' \<and> s \<noteq> ''..'' \<and> CHR ''/'' \<notin> set s"

definition inside_root :: "string \<Rightarrow> bool" where
  "inside_root d \<longleftrightarrow> d = ''.'' \<or> (\<exists>parts. parts \<noteq> [] \<and> list_all plain_segment parts \<and> d = join ''/'' parts)"

lemma split_on_segments: "x \<in> set (split_on [c] s) \<Longrightarrow> c \<notin> set x"
proof -
  have "c \<notin> set x" if "x \<in> set (split_from [c] acc s)" "c \<notin> set acc" for acc
    using that
  proof (induction s arbitrary: acc)
    case (Cons d s)
    show ?case
      using Cons.IH [of "[]"] Cons.IH [of "d # acc"] Cons.prems by (cases "c = d") (auto simp: split_from_Cons)
  qed auto
  then show "x \<in> set (split_on [c] s) \<Longrightarrow> c \<notin> set x" by (simp add: split_on_def)
qed

lemma plain_enter:
  "list_all plain_segment parts \<Longrightarrow> CHR ''/'' \<notin> set seg \<Longrightarrow> list_all plain_segment (enter_segment parts seg)"
  by (auto simp: plain_segment_def list_all_iff dest: in_set_butlastD)

lemma plain_walk:
  "list_all plain_segment parts \<Longrightarrow> (\<And>s. s \<in> set segs \<Longrightarrow> CHR ''/'' \<notin> set s) \<Longrightarrow>
     list_all plain_segment (foldl enter_segment parts segs)"
proof (induction segs arbitrary: parts)
  case (Cons s segs)
  then show ?case using plain_enter [of parts s] by (auto simp del: enter_segment.simps)
qed simp

lemma inside_or_dot:
  assumes "list_all plain_segment parts"
  shows "inside_root (or_dot (join ''/'' parts))"
proof (cases "parts = []")
  case False
  moreover have "join ''/'' parts \<noteq> []"
    using assms False by (cases parts) (auto simp: join_Cons plain_segment_def)
  ultimately show ?thesis using assms by (auto simp: or_dot_def inside_root_def)
qed (simp add: or_dot_def inside_root_def)

lemma inside_apply_cd:
  assumes "inside_root cwd"
  shows "inside_root (apply_cd cwd command)"
proof -
  let ?parts = "if cwd = ''.'' then [] else split_on ''/'' cwd"
  have parts: "list_all plain_segment ?parts"
  proof (cases "cwd = ''.''")
    case False
    then obtain ps where ps: "ps \<noteq> []" "list_all plain_segment ps" "cwd = join ''/'' ps"
      using assms by (auto simp: inside_root_def)
    then have "split_on ''/'' cwd = ps"
      by (auto simp: list_all_iff plain_segment_def intro!: split_on_join)
    then show ?thesis using False ps(2) by simp
  qed simp
  have walk: "inside_root (or_dot (join ''/'' (foldl enter_segment ?parts (split_on ''/'' t))))" for t
    by (intro inside_or_dot plain_walk parts) (rule split_on_segments)
  have dot: "inside_root ''.''" by (simp add: inside_root_def)
  show ?thesis
    unfolding apply_cd_def Let_def using walk dot by (auto split: list.split simp del: enter_segment.simps)
qed

lemma inside_line_commands:
  "inside_root cwd \<Longrightarrow> c \<in> set (line_commands m n cwd parts) \<Longrightarrow> inside_root (dc_cwd c)"
proof (induction parts arbitrary: cwd)
  case (Cons p parts)
  then show ?case using inside_apply_cd by (auto simp: Let_def split: if_splits)
qed simp

text \<open>
  C30: A declared command is never attributed to a directory outside the repository: whatever \<open>cd\<close>s a
  manifest strings together, with \<open>..\<close>, backslashes or absolute targets, the directory kept for a
  command is the root or a path of plain components below it.
\<close>

theorem commands_stay_inside_the_root:
  "list_all (\<lambda>c. inside_root (dc_cwd c)) (parse_declared_commands content manifest)"
proof -
  have dot: "inside_root ''.''" by (simp add: inside_root_def)
  have "list_all (\<lambda>c. inside_root (dc_cwd c)) (parse_lines b n manifest ls)" for b n ls
  proof (induction ls arbitrary: b n)
    case (Cons l ls)
    then show ?case
      using inside_line_commands [OF dot] by (auto simp: list_all_iff split: option.split)
  qed simp
  then show ?thesis by (simp add: parse_declared_commands_def)
qed

section \<open>The gap to CI\<close>

lemma missing_from_facts:
  assumes "distinct (map command_key missing)" and "[] \<notin> command_key ` set missing" and "command_key ` set missing \<inter> declared = {}"
  shows "distinct (map command_key (missing_from declared missing ci)) \<and>
     command_key ` set (missing_from declared missing ci) =
       command_key ` set missing \<union> (command_key ` set ci - declared - {[]}) \<and>
     (\<exists>more. missing_from declared missing ci = missing @ more \<and> subseq more ci)"
  using assms
proof (induction ci arbitrary: missing)
  case (Cons c ci)
  let ?k = "command_key c"
  show ?case
  proof (cases "?k = [] \<or> ?k \<in> declared \<or> ?k \<in> command_key ` set missing")
    case True
    then show ?thesis using Cons.IH [OF Cons.prems] by (auto simp: Let_def)
  next
    case False
    then have "distinct (map command_key (missing @ [c]))" "[] \<notin> command_key ` set (missing @ [c])"
      "command_key ` set (missing @ [c]) \<inter> declared = {}"
      using Cons.prems by auto
    from Cons.IH [OF this] False show ?thesis by (auto simp: Let_def)
  qed
qed auto

text \<open>
  The gap between a manifest and CI is exact: every command CI runs whose key no manifest
  declares is reported once, by its first occurrence and in the order of the workflow, and
  nothing else is.
\<close>

theorem ci_gap_is_exact:
  "command_key ` set (manifest_vs_ci declared ci) =
     command_key ` set ci - (command_key \<circ> dc_raw) ` set declared - {[]} \<and>
   distinct (map command_key (manifest_vs_ci declared ci)) \<and> subseq (manifest_vs_ci declared ci) ci"
  using missing_from_facts [of "[]" "(command_key \<circ> dc_raw) ` set declared" ci]
  by (auto simp: manifest_vs_ci_def)

section \<open>Fences\<close>

text \<open>
  After a block of another language the roles of the fences are exchanged: the fence that closes
  a \<open>json\<close> block opens a block of commands, so the prose behind it is read as commands, and the
  next \<open>bash\<close> block is skipped.
\<close>

theorem closing_fence_opens_a_block:
  assumes "list_all (\<lambda>l. fence_language l = None) data" and "list_all (\<lambda>l. fence_language l = None) prose"
    and "list_all (\<lambda>l. fence_language l = None) commands"
  shows "parse_lines False n manifest ([''```json''] @ data @ [''```''] @ prose @ [''```bash''] @ commands) =
     concat (map (\<lambda>(i, l). line_commands manifest i ''.'' (split_command_line l))
       (zip [n + length data + 2..<n + length data + 2 + length prose] prose))"
proof -
  have f: "fence_language ''```json'' = Some ''json''" "fence_language ''```'' = Some []" "fence_language ''```bash'' = Some ''bash''"
    by code_simp+
  have l: "py_lower ''json'' \<notin> set SHELL_FENCES" "py_lower [] \<in> set SHELL_FENCES"
    by code_simp+
  have skip: "parse_lines False k manifest (ls @ rest) = parse_lines False (k + length ls) manifest rest"
    if "list_all (\<lambda>l. fence_language l = None) ls" for ls k rest
    using that by (induction ls arbitrary: k) auto
  have read: "parse_lines True k manifest (ls @ rest) =
      concat (map (\<lambda>(i, l). line_commands manifest i ''.'' (split_command_line l)) (zip [k..<k + length ls] ls)) @
      parse_lines True (k + length ls) manifest rest"
    if "list_all (\<lambda>l. fence_language l = None) ls" for ls k rest
    using that
  proof (induction ls arbitrary: k)
    case (Cons x ls)
    then show ?case using Cons.IH [of "Suc k"] by (simp add: upt_conv_Cons del: upt_Suc)
  qed simp
  have "parse_lines False n manifest ([''```json''] @ data @ [''```''] @ prose @ [''```bash''] @ commands) =
      parse_lines True (n + length data + 2) manifest (prose @ [''```bash''] @ commands)"
    using skip [OF assms(1), of "n + 1" "[''```''] @ prose @ [''```bash''] @ commands"] f l by simp
  moreover have "parse_lines False k manifest commands = []" for k
    using skip [OF assms(3), of k "[]"] by simp
  ultimately show ?thesis
    using read [OF assms(2), of "n + length data + 2"] f l by simp
qed

theorem closing_fence_opens_a_block_witness:
  "parse_lines False 1 ''AGENTS.md'' ([''```json''] @ [''{}''] @ [''```''] @ [''Never run rm''] @ [''```bash''] @ [''pytest -q'']) =
     [\<lparr>dc_raw = ''Never run rm'', dc_program = ''Never'', dc_manifest = ''AGENTS.md'', dc_line = 4, dc_cwd = ''.''\<rparr>]"
proof -
  have h: "list_all (\<lambda>l. fence_language l = None) [''{}'']" "list_all (\<lambda>l. fence_language l = None) [''Never run rm'']"
    "list_all (\<lambda>l. fence_language l = None) [''pytest -q'']"
    by code_simp+
  have "line_commands ''AGENTS.md'' 4 ''.'' (split_command_line ''Never run rm'') =
      [\<lparr>dc_raw = ''Never run rm'', dc_program = ''Never'', dc_manifest = ''AGENTS.md'', dc_line = 4, dc_cwd = ''.''\<rparr>]"
    by code_simp
  moreover have "zip [1 + length [''{}''] + 2..<1 + length [''{}''] + 2 + length [''Never run rm'']] [''Never run rm''] =
      [(4, ''Never run rm'')]"
    by code_simp
  ultimately show ?thesis
    unfolding closing_fence_opens_a_block [OF h]
    by (simp only: list.map concat.simps prod.case append_Nil2)
qed

end
