(* ===== verification/Agent_Readiness.thy ===== *)
theory Agent_Readiness
  imports Agent_Manifest Privacy
begin

text \<open>
  How ready a repository is for an agent: \<open>agents/freshness.py\<close> (do the declared commands still
  exist), \<open>agents/score.py\<close>, \<open>agents/tokencost.py\<close>, \<open>agents/blast_radius.py\<close> (what an agent could
  reach) and \<open>agents/gate.py\<close> (whether a session may start). Files, the TOML parser, the runner of
  commands and \<open>repr\<close> are arguments.
\<close>

section \<open>Freshness of the declared commands\<close>

record stale_command =
  sc_raw :: string
  sc_runner :: string
  sc_target :: string
  sc_manifest :: string
  sc_line :: nat
  sc_available :: "string list"

record disagreement =
  md_command :: string
  md_present_in :: "string list"
  md_absent_from :: "string list"

definition stale_summary :: "(string \<Rightarrow> string) \<Rightarrow> stale_command \<Rightarrow> string" where
  "stale_summary quote s =
     (let known = join '', '' (take 6 (sc_available s)) in
      quote (sc_raw s) @ '' refers to '' @ sc_runner s @ '' target '' @ quote (sc_target s) @
      '', which this project does not define (available: '' @ (if known = [] then ''none defined'' else known) @ '')'')"

datatype freshness_error = Attribute_Error

definition sorted_set :: "string list \<Rightarrow> string list" where
  "sorted_set xs = sort (remdups xs)"

definition name_char_dash :: "char \<Rightarrow> bool" where
  "name_char_dash c \<longleftrightarrow> word_char c \<or> c = CHR ''-''"

definition make_target :: "string \<Rightarrow> (string \<times> string \<times> string) list" where
  "make_target = m_grouped (m_seq (m_one is_alnum) (m_star (\<lambda>c. name_char_dash c \<or> c = CHR ''.'')))
     (m_seqs [m_star is_space, m_lit '':'', m_not_next (\<lambda>c. c = CHR ''='')])"

definition just_recipe :: "string \<Rightarrow> (string \<times> string \<times> string) list" where
  "just_recipe = m_grouped (m_seq (m_one is_alnum) (m_star name_char_dash)) (m_seqs [m_star is_space, m_lit '':''])"

text \<open>\<open>files\<close> gives what \<open>read_text_safe\<close> reads; the first of some files that has any text.\<close>

fun first_text :: "(string \<Rightarrow> string option) \<Rightarrow> string list \<Rightarrow> string" where
  "first_text files [] = []"
| "first_text files (n # ns) = (case files n of Some (c # t) \<Rightarrow> c # t | _ \<Rightarrow> first_text files ns)"

definition npm_scripts :: "string \<Rightarrow> (string \<times> string list) list" where
  "npm_scripts t =
     (case loads t of
        Some (JObj d) \<Rightarrow> (case dict_get d ''scripts'' of JObj es \<Rightarrow> [(''npm'', sort (map fst es))] | _ \<Rightarrow> [])
      | _ \<Rightarrow> [])"

definition console_scripts :: "(string \<Rightarrow> (string \<times> json) list option) \<Rightarrow> string \<Rightarrow> freshness_error + (string \<times> string list) list" where
  "console_scripts toml t =
     (case dict_get_or (case toml t of None \<Rightarrow> [] | Some d \<Rightarrow> d) ''project'' (JObj []) of
        JObj project \<Rightarrow>
          Inr (case dict_get_or project ''scripts'' (JObj []) of
                 JObj (e # es) \<Rightarrow> [(''python-console'', sort (map fst (e # es)))]
               | _ \<Rightarrow> [])
      | _ \<Rightarrow> Inl Attribute_Error)"

definition project_script_names ::
  "(string \<Rightarrow> (string \<times> json) list option) \<Rightarrow> (string \<Rightarrow> string option) \<Rightarrow> freshness_error + (string \<times> string list) list" where
  "project_script_names toml files =
     (let npm = (let t = first_text files [''package.json''] in if t = [] then [] else npm_scripts t);
          make = (let t = first_text files [''Makefile'', ''makefile'', ''GNUmakefile''] in
                  if t = [] then [] else [(''make'', sorted_set (find_groups make_target True t))]);
          py = (let t = first_text files [''pyproject.toml''] in if t = [] then Inr [] else console_scripts toml t);
          just = (let t = first_text files [''justfile'', ''Justfile''] in
                  if t = [] then [] else [(''just'', sorted_set (find_groups just_recipe True t))])
      in bind_res py (\<lambda>console. Inr (npm @ make @ console @ just)))"

definition RUNNER_OFFSETS :: "(string list \<times> nat) list" where
  "RUNNER_OFFSETS =
     [([''npm'', ''run''], 2), ([''pnpm'', ''run''], 2), ([''yarn'', ''run''], 2), ([''bun'', ''run''], 2),
      ([''make''], 1), ([''just''], 1)]"

fun runner_target :: "(string list \<times> nat) list \<Rightarrow> string list \<Rightarrow> (string \<times> string) option" where
  "runner_target [] tokens = None"
| "runner_target ((start, offset) # rest) tokens =
     (if take (length start) tokens = start \<and> length tokens > offset
      then Some (if hd start \<in> {''npm'', ''pnpm'', ''yarn'', ''bun''} then ''npm'' else hd start, tokens ! offset)
      else runner_target rest tokens)"

definition plain_tokens :: "string \<Rightarrow> string list" where
  "plain_tokens command = filter (\<lambda>t. \<not> prefix ''-'' t) (words command)"

definition target_of :: "string \<Rightarrow> (string \<times> string) option" where
  "target_of command = (if plain_tokens command = [] then None else runner_target RUNNER_OFFSETS (plain_tokens command))"

definition available_for :: "(string \<times> string list) list \<Rightarrow> string \<Rightarrow> string list" where
  "available_for scripts runner = (case map_of scripts runner of None \<Rightarrow> [] | Some ts \<Rightarrow> ts)"

text \<open>\<open>known\<close> gives the scripts of a directory.\<close>

fun stale_commands ::
  "(string \<Rightarrow> freshness_error + (string \<times> string list) list) \<Rightarrow> declared_command list \<Rightarrow>
    freshness_error + stale_command list" where
  "stale_commands known [] = Inr []"
| "stale_commands known (c # cs) =
     (case target_of (dc_raw c) of
        None \<Rightarrow> stale_commands known cs
      | Some (runner, target) \<Rightarrow>
          bind_res (known (dc_cwd c)) (\<lambda>scripts.
            let available = available_for scripts runner in
            if available = [] \<or> target \<in> set available then stale_commands known cs
            else bind_res (stale_commands known cs) (\<lambda>ss.
              Inr (\<lparr>sc_raw = dc_raw c, sc_runner = runner, sc_target = target, sc_manifest = dc_manifest c,
                    sc_line = dc_line c, sc_available = available\<rparr> # ss))))"

text \<open>\<open>_command_key\<close> of this module: the program and its first argument that is no option.\<close>

definition simple_key :: "string \<Rightarrow> string" where
  "simple_key command = (case plain_tokens command of [] \<Rightarrow> [] | [t] \<Rightarrow> t | t # u # _ \<Rightarrow> t @ '' '' @ u)"

definition manifest_keys :: "agent_manifest \<Rightarrow> string list" where
  "manifest_keys m = filter (\<lambda>k. k \<noteq> []) (map (simple_key \<circ> dc_raw) (am_commands m))"

definition keys_by_manifest :: "agent_manifest list \<Rightarrow> (string \<times> string list) list" where
  "keys_by_manifest ms = dict_of (map (\<lambda>m. (am_path m, manifest_keys m)) ms)"

definition disagreement_about :: "(string \<times> string list) list \<Rightarrow> string \<Rightarrow> disagreement" where
  "disagreement_about by_manifest command =
     \<lparr>md_command = command,
      md_present_in = sort (map fst (filter (\<lambda>(p, ks). command \<in> set ks) by_manifest)),
      md_absent_from = sort (map fst (filter (\<lambda>(p, ks). command \<notin> set ks) by_manifest))\<rparr>"

definition compare_manifests :: "agent_manifest list \<Rightarrow> disagreement list" where
  "compare_manifests ms =
     (if length ms < 2 then []
      else
        (let by_manifest = keys_by_manifest ms in
         filter (\<lambda>d. md_present_in d \<noteq> [] \<and> md_absent_from d \<noteq> [])
           (map (disagreement_about by_manifest) (sorted_set (concat (map snd by_manifest))))))"

section \<open>The readiness score\<close>

record readiness_factor =
  rf_name :: string
  rf_earned :: nat
  rf_possible :: nat
  rf_explanation :: string

record agent_readiness =
  ar_total :: nat
  ar_possible :: nat
  ar_factors :: "readiness_factor list"

text \<open>\<open>round\<close> of a quotient: to the nearest, a tie to the even neighbour.\<close>

definition round_div :: "nat \<Rightarrow> nat \<Rightarrow> nat" where
  "round_div a b =
     (let q = a div b; r = a mod b in
      if 2 * r < b then q else if 2 * r > b then q + 1 else if even q then q else q + 1)"

definition ar_percent :: "agent_readiness \<Rightarrow> nat" where
  "ar_percent a = (if ar_possible a \<noteq> 0 then round_div (100 * ar_total a) (ar_possible a) else 0)"

definition ar_grade :: "agent_readiness \<Rightarrow> string" where
  "ar_grade a =
     (let pct = ar_percent a in
      if pct \<ge> 90 then ''ready'' else if pct \<ge> 60 then ''workable'' else if pct \<ge> 30 then ''rough'' else ''unprepared'')"

definition factor :: "string \<Rightarrow> nat \<Rightarrow> nat \<Rightarrow> string \<Rightarrow> readiness_factor" where
  "factor name earned possible explanation =
     \<lparr>rf_name = name, rf_earned = earned, rf_possible = possible, rf_explanation = explanation\<rparr>"

definition runnable_checks :: "command_check list \<Rightarrow> command_check list" where
  "runnable_checks checks = filter (\<lambda>c. dc_program (cc_command c) \<notin> {''cd'', ''echo''}) checks"

definition with_status :: "string \<Rightarrow> command_check list \<Rightarrow> command_check list" where
  "with_status st checks = filter (\<lambda>c. cc_status c = st) checks"

definition manifest_factor :: "agent_manifest list \<Rightarrow> readiness_factor" where
  "manifest_factor ms =
     (if ms \<noteq> [] then factor ''manifest-present'' 3 3 (''Agent instructions found: '' @ join '', '' (map am_path ms) @ ''.'')
      else factor ''manifest-present'' 0 3
        (''No AGENTS.md, CLAUDE.md or equivalent. An agent has to infer how '' @
         ''to set up, build and test this project, which is where turns and tokens go.''))"

definition declared_factor :: "command_check list \<Rightarrow> readiness_factor" where
  "declared_factor checks =
     (if runnable_checks checks \<noteq> []
      then factor ''commands-declared'' 2 2 (str_nat (length (runnable_checks checks)) @ '' command(s) declared.'')
      else factor ''commands-declared'' 0 2
        (''The manifest declares no runnable commands, so it tells an agent nothing it can act on.''))"

definition resolve_factor :: "command_check list \<Rightarrow> readiness_factor" where
  "resolve_factor checks =
     (let missing = with_status ''missing'' checks; off_path = with_status ''not-on-path'' checks in
      if runnable_checks checks = [] then factor ''commands-resolve'' 0 4 ''No commands to resolve.''
      else if missing \<noteq> [] then factor ''commands-resolve'' 0 4
        (str_nat (length missing) @ '' declared command(s) name a program that is not installed: '' @
         join '', '' (sorted_set (map (dc_program \<circ> cc_command) missing)) @ ''. An agent fails on these immediately.'')
      else if off_path \<noteq> [] then factor ''commands-resolve'' 2 4
        (str_nat (length off_path) @ '' program(s) are installed but not on PATH in this '' @
         ''shell. An agent cannot tell that apart from missing, and will try to install what is already there.'')
      else factor ''commands-resolve'' 4 4 ''Every declared command resolves on this machine.'')"

definition current_factor :: "stale_command list \<Rightarrow> readiness_factor" where
  "current_factor stale =
     (if stale \<noteq> [] then factor ''commands-current'' 0 3
        (str_nat (length stale) @ '' declared command(s) name a script or target '' @
         ''this project no longer defines. The program exists, so nothing catches it until the agent runs it.'')
      else factor ''commands-current'' 3 3 ''Declared targets all exist in the project.'')"

definition ci_factor :: "string list \<Rightarrow> readiness_factor" where
  "ci_factor drift =
     (if drift \<noteq> [] then factor ''matches-ci'' 0 3
        (''CI enforces '' @ str_nat (length drift) @ '' gate(s) no manifest mentions. An agent '' @
         ''can run everything it was told to, see green, and still be failed by the pull request.'')
      else factor ''matches-ci'' 3 3 ''The manifest covers every gate CI runs.'')"

definition agree_factor :: "agent_manifest list \<Rightarrow> disagreement list \<Rightarrow> readiness_factor" where
  "agree_factor ms ds =
     (if length ms < 2 then factor ''manifests-agree'' 2 2 ''One manifest, so nothing can disagree with it.''
      else if ds \<noteq> [] then factor ''manifests-agree'' 0 2
        (str_nat (length ds) @ '' command(s) appear in one manifest and not '' @
         ''another. Which instructions an agent follows depends on its vendor.'')
      else factor ''manifests-agree'' 2 2 ''All manifests declare the same commands.'')"

definition score_readiness ::
  "agent_manifest list \<Rightarrow> command_check list \<Rightarrow> string list \<Rightarrow> stale_command list \<Rightarrow> disagreement list \<Rightarrow> agent_readiness" where
  "score_readiness ms checks drift stale ds =
     (let factors = [manifest_factor ms, declared_factor checks, resolve_factor checks, current_factor stale,
                     ci_factor drift, agree_factor ms ds]
      in \<lparr>ar_total = sum_list (map rf_earned factors), ar_possible = sum_list (map rf_possible factors),
          ar_factors = factors\<rparr>)"

section \<open>What the gaps cost\<close>

definition TOKENS_PER_TURN :: nat where
  "TOKENS_PER_TURN = 8000"

definition COST_MODEL :: "(string \<times> nat \<times> string) list" where
  "COST_MODEL =
     [(''no-manifest'', 6, ''With no AGENTS.md the agent reconstructs the build from the source '' @
         ''tree: read the manifest, guess the test command, run it, read the failure, try again.''),
      (''failing-command'', 3, ''A declared command that does not work here costs the attempt, the '' @
         ''error, and the search for what the command should have been.''),
      (''stale-command'', 4, ''Worse than an absent command: the agent was told something confidently '' @
         ''and has to disbelieve the manifest before it looks elsewhere.''),
      (''undeclared-ci-gate'', 5, ''Discovered when the pull request goes red. That is a full cycle -- push, '' @
         ''wait, read the log, fix, push -- and the agent had no way to know.''),
      (''manifest-disagreement'', 2, ''Two manifests saying different things; the agent picks one and finds out later which.'')]"

record token_estimate =
  te_turns :: nat
  te_tokens :: nat
  te_contributions :: "(string \<times> nat \<times> nat \<times> string) list"

definition rounded_tokens :: "token_estimate \<Rightarrow> nat" where
  "rounded_tokens e = (if te_tokens e = 0 then 0 else max 5000 (round_div (te_tokens e) 5000 * 5000))"

definition signal_counts ::
  "agent_manifest list \<Rightarrow> command_check list \<Rightarrow> stale_command list \<Rightarrow> string list \<Rightarrow> disagreement list \<Rightarrow> string \<Rightarrow> nat" where
  "signal_counts ms checks stale drift ds name =
     (if name = ''no-manifest'' then (if ms = [] then 1 else 0)
      else if name = ''failing-command'' then length (filter (\<lambda>c. \<not> check_ok c) checks)
      else if name = ''stale-command'' then length stale
      else if name = ''undeclared-ci-gate'' then length drift
      else if name = ''manifest-disagreement'' then length ds
      else 0)"

definition estimate_token_cost ::
  "agent_manifest list \<Rightarrow> command_check list \<Rightarrow> stale_command list \<Rightarrow> string list \<Rightarrow> disagreement list \<Rightarrow> token_estimate" where
  "estimate_token_cost ms checks stale drift ds =
     (let parts = filter (\<lambda>(name, n, turns, why). n \<noteq> 0)
            (map (\<lambda>(name, turns, why). (name, signal_counts ms checks stale drift ds name, turns, why)) COST_MODEL);
          total = sum_list (map (\<lambda>(name, n, turns, why). n * turns) parts)
      in \<lparr>te_turns = total, te_tokens = total * TOKENS_PER_TURN, te_contributions = parts\<rparr>)"

section \<open>Stale commands and disagreements\<close>

definition is_stale :: "(string \<Rightarrow> (string \<times> string list) list) \<Rightarrow> declared_command \<Rightarrow> bool" where
  "is_stale scripts c \<longleftrightarrow>
     (\<exists>runner target. target_of (dc_raw c) = Some (runner, target) \<and>
        available_for (scripts (dc_cwd c)) runner \<noteq> [] \<and> target \<notin> set (available_for (scripts (dc_cwd c)) runner))"

text \<open>
  A declared command is reported as stale exactly when it names a target of a runner that has
  targets in the directory of the command, and the target is none of them; the report keeps the
  order of the commands.
\<close>

theorem stale_commands_are_exact:
  assumes "\<And>c. c \<in> set cs \<Longrightarrow> known (dc_cwd c) = Inr (scripts (dc_cwd c))"
  shows "\<exists>ss. stale_commands known cs = Inr ss \<and> map sc_raw ss = map dc_raw (filter (is_stale scripts) cs) \<and>
    map sc_line ss = map dc_line (filter (is_stale scripts) cs)"
  using assms
proof (induction cs)
  case (Cons c cs)
  then obtain ss where ss: "stale_commands known cs = Inr ss" "map sc_raw ss = map dc_raw (filter (is_stale scripts) cs)"
    "map sc_line ss = map dc_line (filter (is_stale scripts) cs)"
    by fastforce
  have k: "known (dc_cwd c) = Inr (scripts (dc_cwd c))" using Cons.prems by simp
  show ?case
  proof (cases "target_of (dc_raw c)")
    case None
    then have "\<not> is_stale scripts c" by (simp add: is_stale_def)
    then show ?thesis using None ss by simp
  next
    case (Some rt)
    obtain runner target where rt: "rt = (runner, target)" by force
    have "is_stale scripts c \<longleftrightarrow>
        \<not> (available_for (scripts (dc_cwd c)) runner = [] \<or> target \<in> set (available_for (scripts (dc_cwd c)) runner))"
      by (simp add: is_stale_def Some rt)
    then show ?thesis using Some rt ss k by (simp add: Let_def)
  qed
qed simp

text \<open>
  The manifests disagree about a command exactly when one declares it and another does not; with
  fewer than two manifests there is nothing to compare.
\<close>

definition declares :: "agent_manifest list \<Rightarrow> string \<Rightarrow> string \<Rightarrow> bool" where
  "declares ms path k \<longleftrightarrow> (\<exists>m\<in>set ms. am_path m = path \<and> k \<in> set (manifest_keys m))"

lemma keys_by_manifest_distinct:
  "distinct (map am_path ms) \<Longrightarrow> keys_by_manifest ms = map (\<lambda>m. (am_path m, manifest_keys m)) ms"
  unfolding keys_by_manifest_def by (rule dict_of_distinct) (simp add: comp_def)

lemma disagreement_sides:
  assumes "distinct (map am_path ms)"
  shows "set (md_present_in (disagreement_about (keys_by_manifest ms) k)) = {p. declares ms p k}"
    and "set (md_absent_from (disagreement_about (keys_by_manifest ms) k)) = am_path ` set ms - {p. declares ms p k}"
proof -
  have inj: "m = m'" if "m \<in> set ms" "m' \<in> set ms" "am_path m = am_path m'" for m m'
    using assms that by (auto simp: distinct_map inj_on_def)
  show "set (md_present_in (disagreement_about (keys_by_manifest ms) k)) = {p. declares ms p k}"
    by (auto simp: disagreement_about_def keys_by_manifest_distinct [OF assms] declares_def image_iff) blast
  show "set (md_absent_from (disagreement_about (keys_by_manifest ms) k)) = am_path ` set ms - {p. declares ms p k}"
    using inj by (force simp: disagreement_about_def keys_by_manifest_distinct [OF assms] declares_def image_iff)
qed

theorem disagreements_are_exact:
  assumes "distinct (map am_path ms)"
  shows "md_command ` set (compare_manifests ms) =
      {k. (\<exists>p. declares ms p k) \<and> (\<exists>p\<in>am_path ` set ms. \<not> declares ms p k)} \<and>
    (\<forall>d\<in>set (compare_manifests ms). set (md_present_in d) = {p. declares ms p (md_command d)})"
proof -
  let ?by = "keys_by_manifest ms"
  have keys: "set (sorted_set (concat (map snd ?by))) = {k. \<exists>p. declares ms p k}"
    by (auto simp: sorted_set_def keys_by_manifest_distinct [OF assms] declares_def)
  have two: "length ms \<ge> 2" if "declares ms p k" "q \<in> am_path ` set ms" "\<not> declares ms q k" for p q k
  proof -
    from that(1) obtain m where m: "m \<in> set ms" "am_path m = p" by (auto simp: declares_def)
    from that(2) obtain m' where m': "m' \<in> set ms" "am_path m' = q" by auto
    have "p \<noteq> q" using that by auto
    then have "m \<noteq> m'" using m(2) m'(2) by blast
    then have "card {m, m'} = 2" by simp
    moreover have "card {m, m'} \<le> card (set ms)" using m m' by (intro card_mono) auto
    ultimately show ?thesis using card_length [of ms] by linarith
  qed
  have ne: "md_present_in (disagreement_about ?by k) \<noteq> [] \<longleftrightarrow> (\<exists>p. declares ms p k)"
    "md_absent_from (disagreement_about ?by k) \<noteq> [] \<longleftrightarrow> (\<exists>p\<in>am_path ` set ms. \<not> declares ms p k)" for k
    using disagreement_sides [OF assms, of k] by (auto simp flip: set_empty)
  have cmd: "md_command (disagreement_about ?by k) = k" for k by (simp add: disagreement_about_def)
  have all: "set (compare_manifests ms) =
      (if length ms < 2 then {} else disagreement_about ?by ` {k. (\<exists>p. declares ms p k) \<and> (\<exists>p\<in>am_path ` set ms. \<not> declares ms p k)})"
    unfolding compare_manifests_def Let_def using keys ne by auto
  have "md_command ` set (compare_manifests ms) =
      {k. (\<exists>p. declares ms p k) \<and> (\<exists>p\<in>am_path ` set ms. \<not> declares ms p k)}"
    unfolding all using two by (force simp: cmd image_iff)
  moreover have "set (md_present_in d) = {p. declares ms p (md_command d)}" if "d \<in> set (compare_manifests ms)" for d
    using that disagreement_sides(1) [OF assms] cmd unfolding all by (auto split: if_splits)
  ultimately show ?thesis by blast
qed

text \<open>
  The key of a command is its program and its first argument, so \<open>npm run build\<close> and \<open>npm run test\<close>
  are the same command: manifests that name different scripts agree.
\<close>

theorem script_names_are_not_compared:
  assumes "simple_key a = simple_key b"
  shows "compare_manifests
     [\<lparr>am_path = p, am_commands = [c\<lparr>dc_raw := a\<rparr>]\<rparr>, \<lparr>am_path = q, am_commands = [d\<lparr>dc_raw := b\<rparr>]\<rparr>] = []"
proof (cases "p = q")
  case True
  then show ?thesis using assms
    by (simp add: compare_manifests_def keys_by_manifest_def manifest_keys_def dict_of_def sorted_set_def disagreement_about_def Let_def)
next
  case False
  then show ?thesis using assms
    by (simp add: compare_manifests_def keys_by_manifest_def manifest_keys_def dict_of_def sorted_set_def disagreement_about_def Let_def)
qed

section \<open>The score\<close>

lemma factor_possible [simp]: "rf_possible (factor n e p x) = p" "rf_earned (factor n e p x) = e"
  by (simp_all add: factor_def)

text \<open>The six conditions.\<close>

definition perfectly_ready ::
  "agent_manifest list \<Rightarrow> command_check list \<Rightarrow> string list \<Rightarrow> stale_command list \<Rightarrow> disagreement list \<Rightarrow> bool" where
  "perfectly_ready ms checks drift stale ds \<longleftrightarrow>
     ms \<noteq> [] \<and> runnable_checks checks \<noteq> [] \<and>
     list_all (\<lambda>c. cc_status c \<noteq> ''missing'' \<and> cc_status c \<noteq> ''not-on-path'') checks \<and>
     stale = [] \<and> drift = [] \<and> (length ms < 2 \<or> ds = [])"

lemma with_status_Nil: "with_status st checks = [] \<longleftrightarrow> list_all (\<lambda>c. cc_status c \<noteq> st) checks"
  by (auto simp: with_status_def filter_empty_conv list_all_iff)

lemma round_div_le: "round_div a b \<le> a div b + 1"
  by (simp add: round_div_def Let_def)

lemma ready_percent:
  assumes "t \<le> 17"
  shows "90 \<le> round_div (100 * t) 17 \<longleftrightarrow> 16 \<le> t"
proof (cases "16 \<le> t")
  case True
  then have "t = 16 \<or> t = 17" using assms by auto
  then show ?thesis by (auto simp: round_div_def)
next
  case False
  then have "100 * t div 17 \<le> 88" by auto
  then show ?thesis using round_div_le [of "100 * t" 17] False by simp
qed

text \<open>
  The grade \<open>ready\<close> is reserved for a repository without a gap: no single gap leaves enough points.
  The score never exceeds what is possible, which is 17.
\<close>

theorem ready_means_perfect:
  "(ar_grade (score_readiness ms checks drift stale ds) = ''ready'' \<longleftrightarrow> perfectly_ready ms checks drift stale ds) \<and>
   ar_total (score_readiness ms checks drift stale ds) \<le> ar_possible (score_readiness ms checks drift stale ds) \<and>
   ar_possible (score_readiness ms checks drift stale ds) = 17"
proof -
  let ?r = "score_readiness ms checks drift stale ds"
  have p: "ar_possible ?r = 17"
    by (simp add: score_readiness_def Let_def manifest_factor_def declared_factor_def resolve_factor_def current_factor_def
        ci_factor_def agree_factor_def)
  have le: "ar_total ?r \<le> 17"
    by (simp add: score_readiness_def Let_def manifest_factor_def declared_factor_def resolve_factor_def current_factor_def
        ci_factor_def agree_factor_def)
  have total: "16 \<le> ar_total ?r \<longleftrightarrow> perfectly_ready ms checks drift stale ds"
    by (simp add: score_readiness_def Let_def manifest_factor_def declared_factor_def resolve_factor_def current_factor_def
        ci_factor_def agree_factor_def perfectly_ready_def with_status_Nil list_all_iff) blast
  have "ar_grade ?r = ''ready'' \<longleftrightarrow> 90 \<le> ar_percent ?r" by (simp add: ar_grade_def Let_def)
  also have "\<dots> \<longleftrightarrow> 16 \<le> ar_total ?r" using ready_percent [OF le] by (simp add: ar_percent_def p)
  finally show ?thesis using total p le by simp
qed

section \<open>The estimate\<close>

lemma round_div_near: "b \<noteq> 0 \<Longrightarrow> 2 * (b * round_div a b) \<le> 2 * a + b \<and> 2 * a \<le> 2 * (b * round_div a b) + b"
proof -
  assume b: "b \<noteq> 0"
  have a: "a = b * (a div b) + a mod b" by simp
  have r: "a mod b < b" using b by simp
  let ?q = "a div b" and ?r = "a mod b"
  have "round_div a b = ?q \<and> 2 * ?r \<le> b \<or> round_div a b = ?q + 1 \<and> b \<le> 2 * ?r"
    by (auto simp: round_div_def Let_def not_less)
  then show ?thesis
  proof (elim disjE conjE)
    assume d: "round_div a b = ?q" "2 * ?r \<le> b"
    have "b * round_div a b = b * ?q" using d(1) by simp
    then show ?thesis using a d(2) by (intro conjI) linarith+
  next
    assume d: "round_div a b = ?q + 1" "b \<le> 2 * ?r"
    have "b * round_div a b = b * ?q + b" using d(1) by (simp add: algebra_simps)
    then show ?thesis using a r d(2) by (intro conjI) linarith+
  qed
qed

lemma tokens_multiple: "te_tokens (estimate_token_cost ms checks stale drift ds) = 8000 * te_turns (estimate_token_cost ms checks stale drift ds)"
  by (simp add: estimate_token_cost_def Let_def TOKENS_PER_TURN_def)

definition weighted_gaps ::
  "agent_manifest list \<Rightarrow> command_check list \<Rightarrow> stale_command list \<Rightarrow> string list \<Rightarrow> disagreement list \<Rightarrow> nat" where
  "weighted_gaps ms checks stale drift ds =
     (if ms = [] then 6 else 0) + 3 * length (filter (\<lambda>c. \<not> check_ok c) checks) + 4 * length stale +
     5 * length drift + 2 * length ds"

lemma turns_weighted: "te_turns (estimate_token_cost ms checks stale drift ds) = weighted_gaps ms checks stale drift ds"
  by (simp add: estimate_token_cost_def Let_def COST_MODEL_def signal_counts_def weighted_gaps_def)

text \<open>
  The published figure is zero exactly when nothing was found, otherwise a multiple of 5000 within
  2500 of the model's count of 8000 tokens for every weighted gap.
\<close>

theorem rounded_estimate_is_close:
  assumes "e = estimate_token_cost ms checks stale drift ds"
  shows "te_tokens e = 8000 * weighted_gaps ms checks stale drift ds \<and> 5000 dvd rounded_tokens e \<and>
    \<bar>int (rounded_tokens e) - int (te_tokens e)\<bar> \<le> 2500 \<and>
    (rounded_tokens e = 0 \<longleftrightarrow> weighted_gaps ms checks stale drift ds = 0)"
proof -
  let ?w = "weighted_gaps ms checks stale drift ds"
  have t: "te_tokens e = 8000 * ?w" using tokens_multiple turns_weighted assms by metis
  show ?thesis
  proof (cases "?w = 0")
    case True
    then show ?thesis using t by (simp add: rounded_tokens_def)
  next
    case False
    note near = round_div_near [of 5000 "te_tokens e"]
    have "8000 \<le> te_tokens e" using False t by simp
    then have "5000 \<le> round_div (te_tokens e) 5000 * 5000" using near by simp
    then have "rounded_tokens e = round_div (te_tokens e) 5000 * 5000"
      using False t by (simp add: rounded_tokens_def)
    then show ?thesis using near t False by auto
  qed
qed

section \<open>Examples\<close>

definition demo_command :: "string \<Rightarrow> declared_command" where
  "demo_command raw = \<lparr>dc_raw = raw, dc_program = program_of raw, dc_manifest = ''AGENTS.md'', dc_line = 1, dc_cwd = ''.''\<rparr>"

theorem stale_commands_are_exact_witness:
  "\<exists>ss. stale_commands (\<lambda>_. Inr [(''npm'', [''build''])]) [demo_command ''npm run build'', demo_command ''npm run lint''] = Inr ss \<and>
     map sc_raw ss = [''npm run lint'']"
proof -
  let ?cs = "[demo_command ''npm run build'', demo_command ''npm run lint'']"
  have t: "target_of ''npm run build'' = Some (''npm'', ''build'')" "target_of ''npm run lint'' = Some (''npm'', ''lint'')"
    by code_simp+
  have "filter (is_stale (\<lambda>_. [(''npm'', [''build''])])) ?cs = [demo_command ''npm run lint'']"
    by (simp add: is_stale_def demo_command_def t available_for_def)
  moreover have "dc_raw (demo_command x) = x" for x by (simp add: demo_command_def)
  ultimately show ?thesis
    using stale_commands_are_exact [of ?cs "\<lambda>_. Inr [(''npm'', [''build''])]" "\<lambda>_. [(''npm'', [''build''])]"]
    by (auto simp del: stale_commands.simps filter.simps)
qed

theorem disagreements_are_exact_witness:
  "md_command ` set (compare_manifests
     [\<lparr>am_path = ''AGENTS.md'', am_commands = [demo_command ''make test'']\<rparr>, \<lparr>am_path = ''CLAUDE.md'', am_commands = []\<rparr>]) =
   {''make test''}"
proof -
  let ?ms = "[\<lparr>am_path = ''AGENTS.md'', am_commands = [demo_command ''make test'']\<rparr>, \<lparr>am_path = ''CLAUDE.md'', am_commands = []\<rparr>]"
  have k: "simple_key ''make test'' = ''make test''" by code_simp
  have "declares ?ms p x \<longleftrightarrow> p = ''AGENTS.md'' \<and> x = ''make test''" for p x
    by (auto simp: declares_def manifest_keys_def demo_command_def k)
  then show ?thesis using disagreements_are_exact [of ?ms] by auto
qed

theorem script_names_are_not_compared_witness:
  "compare_manifests
     [\<lparr>am_path = ''AGENTS.md'', am_commands = [demo_command []\<lparr>dc_raw := ''npm run build''\<rparr>]\<rparr>,
      \<lparr>am_path = ''CLAUDE.md'', am_commands = [demo_command []\<lparr>dc_raw := ''npm run test''\<rparr>]\<rparr>] = []"
  by (rule script_names_are_not_compared) code_simp

theorem rounded_estimate_is_close_witness:
  "rounded_tokens (estimate_token_cost [] [] [] [''npm test''] []) \<noteq> 0"
  using rounded_estimate_is_close [OF refl, of "[]" "[]" "[]" "[''npm test'']" "[]"] by (simp add: weighted_gaps_def)

end
