(* ===== verification/Agent_Gate.thy ===== *)
theory Agent_Gate
  imports Agent_Readiness
begin

text \<open>
  \<open>agents/blast_radius.py\<close>: what an agent could reach from here, and \<open>agents/gate.py\<close>: whether its
  session may start. The environment is a list of variables; the runner, \<open>repr\<close>, the files of the
  home directory and the rights of the process are arguments.
\<close>

section \<open>The briefing\<close>

record exposure =
  ex_kind :: string
  ex_severity :: string
  ex_summary :: string
  ex_detail :: string
  ex_evidence :: "string option"

record blast_radius =
  br_root :: string
  br_exposures :: "exposure list"
  br_uncommitted :: nat
  br_unpushed :: int
  br_credential_names :: "string list"


definition PRODUCTION_MARKERS :: "string list" where
  "PRODUCTION_MARKERS = [''prod'', ''production'', ''live'', ''prd'']"

definition ENV_TARGET_VARS :: "string list" where
  "ENV_TARGET_VARS = [''NODE_ENV'', ''RAILS_ENV'', ''DJANGO_SETTINGS_MODULE'', ''ASPNETCORE_ENVIRONMENT'', ''APP_ENV'',
     ''ENVIRONMENT'', ''DEPLOY_ENV'', ''STAGE'', ''AWS_PROFILE'', ''AWS_DEFAULT_PROFILE'', ''GOOGLE_CLOUD_PROJECT'',
     ''AZURE_SUBSCRIPTION_ID'', ''VERCEL_ENV'', ''FLY_APP_NAME'']"

definition AMBIENT_CREDENTIAL_FILES :: "(string \<times> string) list" where
  "AMBIENT_CREDENTIAL_FILES =
     [(''.aws/credentials'', ''AWS CLI credentials''), (''.config/gcloud/credentials.db'', ''gcloud credentials''),
      (''.azure/msal_token_cache.json'', ''Azure CLI token cache''), (''.kube/config'', ''Kubernetes cluster credentials''),
      (''.docker/config.json'', ''Docker registry credentials''), (''.npmrc'', ''npm registry token''),
      (''.pypirc'', ''PyPI upload credentials'')]"

text \<open>What the briefing asks of the machine: a command gives whether it succeeded and its output.\<close>

record machine =
  mn_run :: "string list \<Rightarrow> bool \<times> string"
  mn_home_file :: "string \<Rightarrow> bool"
  mn_root :: bool

definition looks_production :: "string \<Rightarrow> bool" where
  "looks_production v \<longleftrightarrow> list_ex (\<lambda>marker. contains (py_lower v) marker) PRODUCTION_MARKERS"

definition status_command :: "string \<Rightarrow> string list" where
  "status_command root = [''git'', ''-C'', root, ''status'', ''--porcelain'']"

definition unpushed_command :: "string \<Rightarrow> string list" where
  "unpushed_command root = [''git'', ''-C'', root, ''rev-list'', ''--count'', [CHR 0x40] @ ''{upstream}..HEAD'']"

definition context_command :: "string list" where
  "context_command = [''kubectl'', ''config'', ''current-context'']"

definition uncommitted_exposure :: "nat \<Rightarrow> exposure" where
  "uncommitted_exposure n =
     \<lparr>ex_kind = ''uncommitted-work'', ex_severity = (if n < 20 then ''medium'' else ''high''),
      ex_summary = str_nat n @ '' uncommitted change(s) in the working tree.'',
      ex_detail = ''An agent that resets, checks out or cleans will destroy work '' @
        ''that exists nowhere else. Commit or stash before handing the repository over.'',
      ex_evidence = Some (str_nat n @ '' entries from `git status --porcelain`'')\<rparr>"

definition unpushed_exposure :: "int \<Rightarrow> exposure" where
  "unpushed_exposure n =
     \<lparr>ex_kind = ''unpushed-commits'', ex_severity = ''medium'',
      ex_summary = str_int n @ '' commit(s) not pushed to the upstream branch.'',
      ex_detail = ''These exist only on this machine. A hard reset or a force-push by an agent loses them.'',
      ex_evidence = Some (''git rev-list --count '' @ [CHR 0x40] @ ''{upstream}..HEAD'')\<rparr>"

text \<open>\<open>_git_state\<close>: the counts and the exposures; \<open>int()\<close> fails on digits that \<open>isdigit\<close> accepts.\<close>

definition git_state :: "machine \<Rightarrow> string \<Rightarrow> (nat \<times> int \<times> exposure list) py" where
  "git_state mc root =
     (case mn_run mc (status_command root) of
        (False, out) \<Rightarrow> Inr (0, 0, [])
      | (True, out) \<Rightarrow>
          (let changed = length (filter (\<lambda>l. strip l \<noteq> []) (splitlines out));
               exposed = (if changed \<noteq> 0 then [uncommitted_exposure changed] else []);
               (ok, rev_out) = mn_run mc (unpushed_command root)
           in if ok \<and> py_isdigit (strip rev_out) then
                bind_res (int_of_text (strip rev_out)) (\<lambda>n.
                  Inr (changed, n, exposed @ (if n \<noteq> 0 then [unpushed_exposure n] else [])))
              else Inr (changed, 0, exposed)))"

definition credential_names :: "(string \<times> string) list \<Rightarrow> string list" where
  "credential_names env = sort (filter looks_like_credential_name (map fst env))"

definition credential_exposure :: "string list \<Rightarrow> exposure list" where
  "credential_exposure names =
     (if names = [] then []
      else [\<lparr>ex_kind = ''inherited-credentials'', ex_severity = (if length names > 3 then ''high'' else ''medium''),
        ex_summary = str_nat (length names) @ '' credential-shaped variable(s) in this environment.'',
        ex_detail = ''Every subprocess an agent starts inherits these. Anything it '' @
          ''runs -- a build script, a test, a package postinstall -- can use '' @
          ''them. Values are never read by devrepro; only the names are listed.'',
        ex_evidence = Some (join '', '' (take 8 names))\<rparr>])"

definition pointing_vars :: "(string \<times> string) list \<Rightarrow> string list" where
  "pointing_vars env =
     concat (map (\<lambda>var. case map_of env var of None \<Rightarrow> []
       | Some v \<Rightarrow> if v \<noteq> [] \<and> looks_production v then [var @ ''='' @ v] else []) ENV_TARGET_VARS)"

definition production_exposure :: "(string \<times> string) list \<Rightarrow> exposure list" where
  "production_exposure env =
     (if pointing_vars env = [] then []
      else [\<lparr>ex_kind = ''production-target'', ex_severity = ''high'',
        ex_summary = ''This shell is configured against a production target.'',
        ex_detail = ''An agent inherits this. A command that would be harmless '' @
          ''against a development environment is not harmless here -- this is '' @
          ''the configuration behind the published incidents where an agent deleted a production database.'',
        ex_evidence = Some (join ''; '' (pointing_vars env))\<rparr>])"

definition context_exposure :: "(string \<Rightarrow> string) \<Rightarrow> machine \<Rightarrow> exposure list" where
  "context_exposure quote mc =
     (case mn_run mc context_command of
        (ok, out) \<Rightarrow>
          if ok \<and> strip out \<noteq> [] then
            [\<lparr>ex_kind = ''kubernetes-context'',
              ex_severity = (if looks_production (strip out) then ''high'' else ''info''),
              ex_summary = ''kubectl is pointed at '' @ quote (strip out) @ ''.'',
              ex_detail = ''Any kubectl an agent runs goes to this cluster.'' @
                (if looks_production (strip out) then '' The context name suggests production.''
                 else '' The name does not look like production, but confirm it.''),
              ex_evidence = Some ''kubectl config current-context''\<rparr>]
          else [])"

definition ambient_exposure :: "machine \<Rightarrow> exposure list" where
  "ambient_exposure mc =
     (let present = map snd (filter (\<lambda>(rel, label). mn_home_file mc rel) AMBIENT_CREDENTIAL_FILES) in
      if present = [] then []
      else [\<lparr>ex_kind = ''ambient-credentials'', ex_severity = ''medium'',
        ex_summary = str_nat (length present) @ '' authenticated CLI credential store(s) on this machine.'',
        ex_detail = ''An agent does not need a token in the environment to use '' @
          ''these; the CLI reads them from disk. Nothing in the shell reveals that the authority is present.'',
        ex_evidence = Some (join '', '' present)\<rparr>])"

definition privilege_exposure :: "machine \<Rightarrow> exposure list" where
  "privilege_exposure mc =
     (if mn_root mc then
        [\<lparr>ex_kind = ''elevated-privileges'', ex_severity = ''high'', ex_summary = ''Running as root.'',
          ex_detail = ''An agent'' @ [CHR 0x27] @ ''s mistakes are unbounded by file permissions here. '' @
            ''There is rarely a reason to develop as root, and every reason not to hand root to an autonomous process.'',
          ex_evidence = Some ''os.geteuid() == 0''\<rparr>]
      else [])"

definition assess_blast_radius ::
  "(string \<Rightarrow> string) \<Rightarrow> machine \<Rightarrow> string \<Rightarrow> (string \<times> string) list \<Rightarrow> blast_radius py" where
  "assess_blast_radius quote mc root env =
     bind_res (git_state mc root) (\<lambda>(uncommitted, unpushed, git).
       let names = credential_names env in
       Inr \<lparr>br_root = root,
            br_exposures = git @ credential_exposure names @ production_exposure env @ context_exposure quote mc @
              ambient_exposure mc @ privilege_exposure mc,
            br_uncommitted = uncommitted, br_unpushed = unpushed, br_credential_names = names\<rparr>)"

section \<open>The gate\<close>

definition DEFAULT_THRESHOLD :: nat where
  "DEFAULT_THRESHOLD = 60"

record gate_verdict =
  gv_allowed :: bool
  gv_score :: nat
  gv_threshold :: nat
  gv_reasons :: "string list"

definition readiness_reason :: "agent_readiness \<Rightarrow> nat \<Rightarrow> string list" where
  "readiness_reason readiness threshold =
     (if ar_percent readiness < threshold then
        (let failing = map rf_name (filter (\<lambda>f. rf_earned f < rf_possible f) (ar_factors readiness));
             weakest = join '', '' (take 3 failing)
         in [''Agent readiness is '' @ str_nat (ar_percent readiness) @ ''% ('' @ ar_grade readiness @ ''), below the '' @
             str_nat threshold @ ''% threshold. Weakest: '' @ (if weakest = [] then ''unknown'' else weakest) @ ''.''])
      else [])"

definition production_exposures :: "blast_radius \<Rightarrow> exposure list" where
  "production_exposures b = filter (\<lambda>e. contains (ex_kind e) ''production'') (br_exposures b)"

definition production_reason :: "blast_radius option \<Rightarrow> bool \<Rightarrow> string list" where
  "production_reason radius block_on_production =
     (case radius of
        None \<Rightarrow> []
      | Some b \<Rightarrow>
          if block_on_production \<and> production_exposures b \<noteq> [] then
            [''This shell carries production-adjacent context: '' @ join ''; '' (map ex_detail (take 2 (production_exposures b))) @
             ''. An agent starting here can reach it.'']
          else [])"

definition evaluate_gate :: "agent_readiness \<Rightarrow> blast_radius option \<Rightarrow> nat \<Rightarrow> bool \<Rightarrow> gate_verdict" where
  "evaluate_gate readiness radius threshold block_on_production =
     (let reasons = readiness_reason readiness threshold @ production_reason radius block_on_production in
      \<lparr>gv_allowed = (reasons = []), gv_score = ar_percent readiness, gv_threshold = threshold, gv_reasons = reasons\<rparr>)"

section \<open>The briefing reads no values\<close>

text \<open>
  Two environments with the same variables, which agree on the variables that name a deployment
  target, give the same briefing: the value of a credential cannot show in it.
\<close>

theorem values_are_not_read:
  assumes "map fst env = map fst env'" and "\<And>var. var \<in> set ENV_TARGET_VARS \<Longrightarrow> map_of env var = map_of env' var"
  shows "assess_blast_radius quote mc root env = assess_blast_radius quote mc root env'"
proof -
  have "credential_names env = credential_names env'" using assms(1) by (simp add: credential_names_def)
  moreover have "pointing_vars env = pointing_vars env'"
    unfolding pointing_vars_def by (intro arg_cong [of _ _ concat] map_cong refl) (simp add: assms(2))
  ultimately show ?thesis by (simp add: assess_blast_radius_def production_exposure_def)
qed

section \<open>What the gate decides on\<close>



text \<open>
  The gate opens on a repository none of whose declared programs is installed: one manifest, whose
  targets and CI gates are in order, scores 13 of 17 points, which is 76 percent.
\<close>

theorem gate_opens_without_the_programs:
  assumes "length ms = 1" and "runnable_checks checks \<noteq> []" and "with_status ''missing'' checks \<noteq> []"
  shows "ar_percent (score_readiness ms checks [] [] ds) = 76 \<and>
    gv_allowed (evaluate_gate (score_readiness ms checks [] [] ds) None DEFAULT_THRESHOLD True)"
proof -
  have "ms \<noteq> []" using assms(1) by auto
  then have "ar_total (score_readiness ms checks [] [] ds) = 13" "ar_possible (score_readiness ms checks [] [] ds) = 17"
    using assms
    by (simp_all add: score_readiness_def Let_def manifest_factor_def declared_factor_def resolve_factor_def current_factor_def
        ci_factor_def agree_factor_def)
  then have p: "ar_percent (score_readiness ms checks [] [] ds) = 76" by (simp add: ar_percent_def round_div_def)
  then show ?thesis
    by (simp add: evaluate_gate_def Let_def readiness_reason_def production_reason_def DEFAULT_THRESHOLD_def)
qed

section \<open>Examples\<close>

definition demo_machine :: machine where
  "demo_machine = \<lparr>mn_run = (\<lambda>cmd. if cmd = context_command then (True, ''prod-eu'') else (False, [])),
     mn_home_file = (\<lambda>f. False), mn_root = False\<rparr>"

definition demo_check :: command_check where
  "demo_check = \<lparr>cc_command = \<lparr>dc_raw = ''tox'', dc_program = ''tox'', dc_manifest = ''AGENTS.md'', dc_line = 3, dc_cwd = ''.''\<rparr>,
     cc_status = ''missing'', cc_detail = [], cc_resolved = None\<rparr>"

theorem values_are_not_read_witness:
  "assess_blast_radius (\<lambda>s. s) demo_machine ''.'' [(''API_TOKEN'', ''a''), (''STAGE'', ''dev'')] =
   assess_blast_radius (\<lambda>s. s) demo_machine ''.'' [(''API_TOKEN'', ''b''), (''STAGE'', ''dev'')]"
  by (rule values_are_not_read) (auto simp: ENV_TARGET_VARS_def)


theorem gate_opens_without_the_programs_witness:
  "gv_allowed (evaluate_gate (score_readiness [\<lparr>am_path = ''AGENTS.md'', am_commands = []\<rparr>] [demo_check] [] [] []) None 60 True)"
  using gate_opens_without_the_programs [of "[\<lparr>am_path = ''AGENTS.md'', am_commands = []\<rparr>]" "[demo_check]" "[]"]
  by (simp add: runnable_checks_def with_status_def demo_check_def DEFAULT_THRESHOLD_def)

end
