(* ===== verification/Contract.thy ===== *)
theory Contract
  imports Models Json
begin

text \<open>
  \<open>core/contract.py\<close>: the part of a report and of the exit codes a consumer may rely on, as data and
  as a check. The meanings of the exit codes are those of \<open>core/exit_codes.py\<close>.
\<close>

section \<open>The contract\<close>

definition CONTRACT_VERSION :: string where
  "CONTRACT_VERSION = ''1.0''"

definition REQUIRED_REPORT_FIELDS :: "(string \<times> string) list" where
  "REQUIRED_REPORT_FIELDS =
     [(''schema_version'', ''str''), (''devrepro_version'', ''str''), (''created_at'', ''str''), (''platform'', ''dict''),
      (''findings'', ''list''), (''tools'', ''list'')]"

definition REQUIRED_FINDING_FIELDS :: "(string \<times> string) list" where
  "REQUIRED_FINDING_FIELDS = [(''rule_id'', ''str''), (''state'', ''str''), (''summary'', ''str''), (''evidence'', ''list'')]"

definition FINDING_STATES :: "string list" where
  "FINDING_STATES = [''PASS'', ''INFO'', ''WARN'', ''ERROR'', ''BLOCKED'', ''UNKNOWN'']"

definition GUARANTEED :: "string list" where
  "GUARANTEED =
     [''Exit codes are append-only. The meaning of an existing code never changes.'',
      ''Every major command accepts `--json` and writes valid JSON to stdout.'',
      ''A rule id, once emitted, keeps its spelling. Ids are added, not renamed.'',
      ''Every finding carries at least one piece of evidence.'',
      ''The JSON report validates against the published schema for its '' @
      ''`schema_version`, and that version is in the payload.'',
      ''`--quiet` suppresses stdout entirely and communicates only by exit code.'',
      ''No command contacts the network unless a flag asks it to by name.'']"

definition NOT_GUARANTEED :: "string list" where
  "NOT_GUARANTEED =
     [''Human-readable output. It is reformatted whenever it reads badly, and '' @
      ''parsing it is the most common way an integration breaks.'',
      ''Which findings a scan produces. Rules are added; a machine that was '' @
      ''clean last release may report a new WARN in this one.'',
      ''The set of tools probed for, or the order they appear in.'',
      ''Field ordering in JSON output.'',
      ''Anything under `privacy`, which describes how sanitisation ran and is '' @
      ''diagnostic rather than structural.'']"

fun meaning :: "exit_code \<Rightarrow> string" where
  "meaning READY = ''Scan succeeded with no blocking problems.''"
| "meaning READY_WITH_WARNINGS = ''Scan succeeded but warnings were found.''"
| "meaning EXIT_BLOCKED = ''One or more BLOCKED/ERROR findings prevent a clean build.''"
| "meaning INTERNAL_ERROR = ''DevRepro itself failed (bug, unreadable input, bad arguments).''"
| "meaning USAGE_ERROR = ''Invalid command-line usage.''"

definition check_exit_code :: "int \<Rightarrow> string option" where
  "check_exit_code code = map_option exit_name (find (\<lambda>e. exit_int e = code) exit_codes)"

definition contract_document :: json where
  "contract_document = JObj
     [(''contract_version'', JStr CONTRACT_VERSION),
      (''exit_codes'', JList (map (\<lambda>e. JObj [(''code'', JInt (exit_int e)), (''name'', JStr (exit_name e)),
         (''meaning'', JStr (meaning e))]) exit_codes)),
      (''finding_states'', JList (map JStr FINDING_STATES)),
      (''report_fields'', JList (map JStr (sort (map fst REQUIRED_REPORT_FIELDS)))),
      (''finding_fields'', JList (map JStr (sort (map fst REQUIRED_FINDING_FIELDS)))),
      (''guaranteed'', JList (map JStr GUARANTEED)),
      (''not_guaranteed'', JList (map JStr NOT_GUARANTEED))]"

section \<open>The check of a report\<close>

text \<open>A field that is missing or of another type; \<open>f"{expected}"\<close> is the text of the class.\<close>

definition field_problem :: "(string \<Rightarrow> string) \<Rightarrow> (string \<times> json) list \<Rightarrow> string \<Rightarrow> string \<times> string \<Rightarrow> string list" where
  "field_problem quote payload loc = (\<lambda>(field, expected).
     case map_of payload field of
       None \<Rightarrow> [loc @ '': missing required field '' @ quote field]
     | Some v \<Rightarrow>
         if type_name v \<noteq> expected then
           [loc @ '': '' @ quote field @ '' is '' @ type_name v @ '', contract says <class '' @ quote expected @ ''>'']
         else [])"

definition field_problems ::
  "(string \<Rightarrow> string) \<Rightarrow> (string \<times> json) list \<Rightarrow> (string \<times> string) list \<Rightarrow> string \<Rightarrow> string list" where
  "field_problems quote payload required loc = concat (map (field_problem quote payload loc) required)"

definition finding_problems :: "(string \<Rightarrow> string) \<Rightarrow> nat \<times> json \<Rightarrow> string list" where
  "finding_problems quote = (\<lambda>(index, finding).
     let loc = ''findings['' @ str_nat index @ '']'' in
     case finding of
       JObj f \<Rightarrow>
         field_problems quote f REQUIRED_FINDING_FIELDS loc @
         (case dict_get f ''state'' of
            JStr state \<Rightarrow> if state \<notin> set FINDING_STATES then [loc @ '': state '' @ quote state @ '' is not in the contract''] else []
          | _ \<Rightarrow> []) @
         (case dict_get f ''evidence'' of
            JList [] \<Rightarrow> [loc @ '': evidence is empty; every finding must carry some'']
          | _ \<Rightarrow> [])
     | _ \<Rightarrow> [loc @ '': not an object''])"

definition check_report :: "(string \<Rightarrow> string) \<Rightarrow> (string \<times> json) list \<Rightarrow> string list" where
  "check_report quote payload =
     field_problems quote payload REQUIRED_REPORT_FIELDS ''report'' @
     (case dict_get payload ''findings'' of
        JList findings \<Rightarrow> concat (map (finding_problems quote) (enumerate 0 findings))
      | _ \<Rightarrow> [])"

section \<open>What a report without problems is\<close>

text \<open>A required field is there with its type.\<close>

definition has_fields :: "(string \<times> string) list \<Rightarrow> (string \<times> json) list \<Rightarrow> bool" where
  "has_fields required d \<longleftrightarrow>
     list_all (\<lambda>(field, expected). map_option type_name (map_of d field) = Some expected) required"

text \<open>A finding as the scan model makes them: its fields, a state of the enumeration, evidence.\<close>

definition promised_finding :: "json \<Rightarrow> bool" where
  "promised_finding j \<longleftrightarrow>
     (\<exists>f s evs. j = JObj f \<and> has_fields REQUIRED_FINDING_FIELDS f \<and>
        map_of f ''state'' = Some (JStr (state_value s)) \<and> map_of f ''evidence'' = Some (JList evs) \<and> evs \<noteq> [])"

definition promised_report :: "(string \<times> json) list \<Rightarrow> bool" where
  "promised_report payload \<longleftrightarrow> has_fields REQUIRED_REPORT_FIELDS payload \<and>
     (\<exists>fs. map_of payload ''findings'' = Some (JList fs) \<and> list_all promised_finding fs)"

lemma finding_states_complete: "x \<in> set FINDING_STATES \<longleftrightarrow> (\<exists>s. x = state_value s)"
proof
  show "\<exists>s. x = state_value s" if "x \<in> set FINDING_STATES"
    using that by (auto simp: FINDING_STATES_def intro: state_value.simps [symmetric])
  show "x \<in> set FINDING_STATES" if "\<exists>s. x = state_value s"
  proof -
    from that obtain s where "x = state_value s" by blast
    then show ?thesis by (cases s) (simp_all add: FINDING_STATES_def)
  qed
qed

lemma no_field_problems: "field_problems quote d required loc = [] \<longleftrightarrow> has_fields required d"
  by (auto simp: field_problems_def field_problem_def has_fields_def list_all_iff split: option.splits if_splits)

lemma type_is:
  "type_name v = ''str'' \<longleftrightarrow> (\<exists>s. v = JStr s)" "type_name v = ''list'' \<longleftrightarrow> (\<exists>vs. v = JList vs)"
  by (cases v; simp)+

lemma finding_fields: "has_fields REQUIRED_FINDING_FIELDS f \<Longrightarrow>
  (\<exists>s. map_of f ''state'' = Some (JStr s)) \<and> (\<exists>evs. map_of f ''evidence'' = Some (JList evs))"
  by (auto simp: has_fields_def REQUIRED_FINDING_FIELDS_def type_is)

lemma no_finding_problems: "finding_problems quote (i, j) = [] \<longleftrightarrow> promised_finding j"
proof (cases j)
  case (JObj f)
  show ?thesis
  proof (cases "has_fields REQUIRED_FINDING_FIELDS f")
    case True
    then obtain s evs where se: "map_of f ''state'' = Some (JStr s)" "map_of f ''evidence'' = Some (JList evs)"
      using finding_fields by blast
    have "finding_problems quote (i, j) = [] \<longleftrightarrow> s \<in> set FINDING_STATES \<and> evs \<noteq> []"
      using True by (cases evs) (simp_all add: finding_problems_def Let_def JObj no_field_problems dict_get_def se)
    also have "\<dots> \<longleftrightarrow> promised_finding j"
      using True by (simp add: promised_finding_def JObj se finding_states_complete)
    finally show ?thesis .
  qed (simp add: finding_problems_def promised_finding_def Let_def JObj no_field_problems)
qed (simp_all add: finding_problems_def promised_finding_def Let_def)

text \<open>
  The check reports nothing exactly for the reports that keep the promises: every required field with
  its type, and every finding an object with its fields, a state of the scan model and at least one
  piece of evidence.
\<close>

theorem contract_check_is_exact: "check_report quote payload = [] \<longleftrightarrow> promised_report payload"
proof (cases "has_fields REQUIRED_REPORT_FIELDS payload")
  case True
  then obtain fs where fs: "map_of payload ''findings'' = Some (JList fs)"
    by (auto simp: has_fields_def REQUIRED_REPORT_FIELDS_def type_is)
  have "concat (map (finding_problems quote) (enumerate n fs)) = [] \<longleftrightarrow> list_all promised_finding fs" for n
    by (induction fs arbitrary: n) (simp_all add: no_finding_problems)
  then show ?thesis
    using True fs by (simp add: check_report_def no_field_problems dict_get_def promised_report_def)
qed (simp add: check_report_def no_field_problems promised_report_def)

text \<open>Every exit code has its documented name, and nothing else has one.\<close>

theorem documented_exit_codes: "check_exit_code code = Some name \<longleftrightarrow> (\<exists>e. exit_int e = code \<and> exit_name e = name)"
proof
  show "\<exists>e. exit_int e = code \<and> exit_name e = name" if "check_exit_code code = Some name"
    using that by (auto simp: check_exit_code_def find_Some_iff)
  show "check_exit_code code = Some name" if "\<exists>e. exit_int e = code \<and> exit_name e = name"
  proof -
    from that obtain e where "exit_int e = code" "exit_name e = name" by blast
    then show ?thesis by (cases e) (auto simp: check_exit_code_def exit_codes_def)
  qed
qed

end
