(* ===== verification/Snapshot_Protocol.thy ===== *)
theory Snapshot_Protocol
  imports Json
begin

text \<open>
  \<open>snapshots/protocol.py\<close>: the classes of the fields of a snapshot, the fingerprint of a project's
  requirements, and the migration of a version 1 payload. The hash is an argument.
\<close>

section \<open>Fields\<close>

definition PROTOCOL_VERSION :: string where
  "PROTOCOL_VERSION = ''2.0''"

datatype field_class = PUBLIC | MACHINE_SENSITIVE | SECRET_FORBIDDEN

fun field_class_value :: "field_class \<Rightarrow> string" where
  "field_class_value PUBLIC = ''public''"
| "field_class_value MACHINE_SENSITIVE = ''machine-sensitive''"
| "field_class_value SECRET_FORBIDDEN = ''secret-forbidden''"

definition FIELD_CLASSES :: "(string \<times> field_class) list" where
  "FIELD_CLASSES =
     [(''schema_version'', PUBLIC), (''protocol_version'', PUBLIC), (''created_at'', PUBLIC), (''devrepro_version'', PUBLIC),
      (''platform'', MACHINE_SENSITIVE), (''tools'', MACHINE_SENSITIVE), (''path_analysis'', MACHINE_SENSITIVE),
      (''compilers'', MACHINE_SENSITIVE), (''requirements_fingerprint'', PUBLIC), (''containers'', MACHINE_SENSITIVE),
      (''wsl'', MACHINE_SENSITIVE), (''gpu'', MACHINE_SENSITIVE), (''virtualenvs'', MACHINE_SENSITIVE), (''score'', PUBLIC),
      (''privacy'', PUBLIC), (''env_values'', SECRET_FORBIDDEN), (''credentials'', SECRET_FORBIDDEN), (''tokens'', SECRET_FORBIDDEN)]"

definition classify_payload :: "(string \<times> json) list \<Rightarrow> (string \<times> string) list" where
  "classify_payload payload =
     map (\<lambda>(key, v). (key, case map_of FIELD_CLASSES key of None \<Rightarrow> ''unclassified'' | Some fc \<Rightarrow> field_class_value fc)) payload"

section \<open>Provenance and fingerprint\<close>

definition provenance_dict :: "string \<Rightarrow> json" where
  "provenance_dict producer_version = JObj
     [(''producer'', JStr ''devrepro-doctor''), (''producer_version'', JStr producer_version), (''scan_mode'', JStr ''local''),
      (''redacted'', JBool True), (''policy_version'', JNull)]"

text \<open>One requirement in canonical form; \<open>r.get\<close> fails on what is no dictionary.\<close>

datatype protocol_error = Attribute_Error | Unsupported_Version string | Not_Json | Not_Object

definition canonical :: "json \<Rightarrow> protocol_error + string" where
  "canonical r =
     (case r of
        JObj d \<Rightarrow> Inr (dump_spaced (sort_keys (JObj
          [(''eco'', dict_get d ''ecosystem''), (''name'', dict_get d ''name''), (''spec'', dict_get d ''spec'')])))
      | _ \<Rightarrow> Inl Attribute_Error)"

definition project_fingerprint :: "(string \<Rightarrow> string) \<Rightarrow> json list \<Rightarrow> protocol_error + string" where
  "project_fingerprint sha requirements =
     bind_res (map_res canonical requirements) (\<lambda>canon.
       Inr (take 16 (sha (dump_spaced (JList (map JStr (sort canon)))))))"

section \<open>Migration\<close>

definition set_default :: "string \<Rightarrow> json \<Rightarrow> (string \<times> json) list \<Rightarrow> (string \<times> json) list" where
  "set_default k v d = (if map_of d k = None then dict_set k v d else d)"

definition with_provenance :: "(string \<times> json) list \<Rightarrow> (string \<times> json) list" where
  "with_provenance d =
     (if map_of d ''provenance'' = None
      then dict_set ''provenance'' (provenance_dict (py_str (dict_get_or d ''devrepro_version'' (JStr [])))) d else d)"

definition with_fingerprint :: "(string \<Rightarrow> string) \<Rightarrow> (string \<times> json) list \<Rightarrow> protocol_error + (string \<times> json) list" where
  "with_fingerprint sha d =
     (if map_of d ''project_fingerprint'' \<noteq> None then Inr d
      else
        (case or_json (dict_get d ''requirements_fingerprint'') (JList []) of
           JList (JObj r # rs) \<Rightarrow>
             bind_res (project_fingerprint sha (JObj r # rs)) (\<lambda>fp. Inr (dict_set ''project_fingerprint'' (JStr fp) d))
         | _ \<Rightarrow> Inr d))"

definition payload_version :: "(string \<times> json) list \<Rightarrow> string" where
  "payload_version payload = py_str (dict_get_or payload ''schema_version'' (JStr ''1.0''))"

definition migrate_snapshot :: "(string \<Rightarrow> string) \<Rightarrow> (string \<times> json) list \<Rightarrow> protocol_error + (string \<times> json) list" where
  "migrate_snapshot sha payload =
     (let ver = payload_version payload in
      if prefix ''2.'' ver then Inr payload
      else if \<not> prefix ''1.'' ver then Inl (Unsupported_Version ver)
      else
        with_fingerprint sha
          (with_provenance
            (set_default ''protocol_version'' (JStr PROTOCOL_VERSION)
              (dict_set ''schema_version'' (JStr PROTOCOL_VERSION) payload))))"

definition load_snapshot_any_version :: "(string \<Rightarrow> string) \<Rightarrow> string \<Rightarrow> protocol_error + (string \<times> json) list" where
  "load_snapshot_any_version sha raw =
     (case loads raw of
        None \<Rightarrow> Inl Not_Json
      | Some (JObj d) \<Rightarrow> migrate_snapshot sha d
      | Some _ \<Rightarrow> Inl Not_Object)"

section \<open>The fingerprint does not depend on the order\<close>

lemma map_res_perm:
  assumes "map_res f xs = Inr ys" and "mset xs = mset xs'"
  shows "\<exists>ys'. map_res f xs' = Inr ys' \<and> mset ys' = mset ys"
proof -
  define g where "g x = (case f x of Inr y \<Rightarrow> y | Inl e \<Rightarrow> undefined)" for x
  have fx: "f x = Inr (g x)" if "x \<in> set xs" for x
    using assms(1) that by (induction xs arbitrary: ys) (auto simp: result_simps g_def)
  have "map_res f xs' = Inr (map g xs')"
    by (rule map_res_Inr) (use fx mset_eq_setD [OF assms(2)] in auto)
  moreover have "ys = map g xs" using assms(1) map_res_Inr [of xs f g] fx by simp
  ultimately show ?thesis using assms(2) by (metis mset_map)
qed

text \<open>What the canonical form looks at.\<close>

definition requirement_key :: "json \<Rightarrow> (json \<times> json \<times> json) option" where
  "requirement_key r = (case r of JObj d \<Rightarrow> Some (dict_get d ''ecosystem'', dict_get d ''name'', dict_get d ''spec'') | _ \<Rightarrow> None)"

definition canonical_of :: "(json \<times> json \<times> json) option \<Rightarrow> protocol_error + string" where
  "canonical_of k =
     (case k of
        Some (eco, name, spec) \<Rightarrow> Inr (dump_spaced (sort_keys (JObj [(''eco'', eco), (''name'', name), (''spec'', spec)])))
      | None \<Rightarrow> Inl Attribute_Error)"

lemma canonical_key: "canonical = canonical_of \<circ> requirement_key"
  by (rule ext) (simp add: canonical_def canonical_of_def requirement_key_def split: json.split)

lemma map_res_comp: "map_res (f \<circ> g) xs = map_res f (map g xs)"
  by (induction xs) simp_all

text \<open>
  The fingerprint of a project is a function of what it requires: whatever order the detectors list
  the requirements in, and whatever else they say about them, the same names and ranges give the same
  fingerprint.
\<close>

theorem fingerprint_is_of_the_requirements:
  assumes "mset (map requirement_key rs) = mset (map requirement_key rs')"
    and "project_fingerprint sha rs = Inr fp"
  shows "project_fingerprint sha rs' = Inr fp"
proof -
  obtain canon where c: "map_res canonical_of (map requirement_key rs) = Inr canon"
    and fp: "fp = take 16 (sha (dump_spaced (JList (map JStr (sort canon)))))"
    using assms(2) by (auto simp: project_fingerprint_def canonical_key map_res_comp result_simps)
  obtain canon' where c': "map_res canonical_of (map requirement_key rs') = Inr canon'" "mset canon' = mset canon"
    using map_res_perm [OF c assms(1)] by blast
  have "sort canon' = sort canon" using c'(2) by (metis properties_for_sort mset_sort sorted_sort)
  then show ?thesis by (simp add: project_fingerprint_def canonical_key map_res_comp c' fp)
qed

theorem fingerprint_is_of_the_requirements_witness:
  "project_fingerprint (\<lambda>s. s)
     [JObj [(''name'', JStr ''b'')], JObj [(''name'', JStr ''a''), (''source_file'', JStr ''x'')]] =
   project_fingerprint (\<lambda>s. s) [JObj [(''name'', JStr ''a'')], JObj [(''name'', JStr ''b'')]]"
proof -
  let ?rs = "[JObj [(''name'', JStr ''a'')], JObj [(''name'', JStr ''b'')]]"
  obtain fp where "project_fingerprint (\<lambda>s. s) ?rs = Inr fp" by (simp add: project_fingerprint_def canonical_def)
  moreover have "project_fingerprint (\<lambda>s. s)
      [JObj [(''name'', JStr ''b'')], JObj [(''name'', JStr ''a''), (''source_file'', JStr ''x'')]] = Inr fp"
    by (rule fingerprint_is_of_the_requirements [OF _ calculation]) (simp add: requirement_key_def dict_get_def add_mset_commute)
  ultimately show ?thesis by simp
qed

section \<open>What a migration keeps\<close>

text \<open>The dictionary has gained fields at most.\<close>

definition extends :: "(string \<times> json) list \<Rightarrow> (string \<times> json) list \<Rightarrow> bool" where
  "extends d q \<longleftrightarrow> (\<forall>k v. map_of d k = Some v \<longrightarrow> map_of q k = Some v)"

lemma extendsD: "extends d q \<Longrightarrow> map_of d k = Some v \<Longrightarrow> map_of q k = Some v"
  by (simp add: extends_def)

lemma extends_refl: "extends d d"
  by (simp add: extends_def)

lemma extends_set: "map_of d k = None \<Longrightarrow> extends d (dict_set k v d)"
  by (auto simp: extends_def)

lemma extends_trans: "extends a b \<Longrightarrow> extends b c \<Longrightarrow> extends a c"
  by (simp add: extends_def)

lemma fingerprint_extends: "with_fingerprint sha d = Inr q \<Longrightarrow> extends d q"
  by (auto simp: with_fingerprint_def result_simps intro: extends_refl extends_set
      split: if_splits json.splits list.splits)

lemma provenance_extends: "extends d (with_provenance d)"
  by (simp add: with_provenance_def extends_refl extends_set)

lemma default_extends: "extends d (set_default k v d)"
  by (simp add: set_default_def extends_refl extends_set)

lemma migration_extends:
  assumes "migrate_snapshot sha p = Inr q" and "\<not> prefix ''2.'' (payload_version p)"
  shows "extends (dict_set ''schema_version'' (JStr PROTOCOL_VERSION) p) q"
proof -
  have "with_fingerprint sha (with_provenance (set_default ''protocol_version'' (JStr PROTOCOL_VERSION)
      (dict_set ''schema_version'' (JStr PROTOCOL_VERSION) p))) = Inr q"
    using assms by (simp add: migrate_snapshot_def Let_def split: if_splits)
  from fingerprint_extends [OF this] show ?thesis
    using provenance_extends default_extends extends_trans by blast
qed

text \<open>
  A migrated payload is one of version 2: migrating it again changes nothing, what the old payload
  said is kept in every field but the schema version.
\<close>

theorem migration_is_idempotent:
  assumes "migrate_snapshot sha p = Inr q"
  shows "migrate_snapshot sha q = Inr q \<and> prefix ''2.'' (payload_version q) \<and>
    (\<forall>k v. k \<noteq> ''schema_version'' \<longrightarrow> map_of p k = Some v \<longrightarrow> map_of q k = Some v)"
proof (cases "prefix ''2.'' (payload_version p)")
  case True
  then have "q = p" using assms by (simp add: migrate_snapshot_def Let_def)
  then show ?thesis using True by (simp add: migrate_snapshot_def Let_def)
next
  case False
  note m = extendsD [OF migration_extends [OF assms False]]
  have "payload_version q = PROTOCOL_VERSION"
    using m [of "''schema_version''" "JStr PROTOCOL_VERSION"] by (simp add: payload_version_def dict_get_or_def)
  moreover have "prefix ''2.'' PROTOCOL_VERSION" by (simp add: PROTOCOL_VERSION_def)
  ultimately have v: "prefix ''2.'' (payload_version q)" by simp
  moreover have "map_of q k = Some v" if "k \<noteq> ''schema_version''" "map_of p k = Some v" for k v
    using m [of k v] that by simp
  ultimately show ?thesis by (simp add: migrate_snapshot_def Let_def)
qed

theorem migration_is_idempotent_witness:
  "\<exists>q. migrate_snapshot (\<lambda>s. s) [(''schema_version'', JStr ''1.0''), (''tools'', JList [])] = Inr q \<and>
     migrate_snapshot (\<lambda>s. s) q = Inr q \<and> map_of q ''tools'' = Some (JList [])"
proof -
  let ?p = "[(''schema_version'', JStr ''1.0''), (''tools'', JList [])]"
  obtain q where q: "migrate_snapshot (\<lambda>s. s) ?p = Inr q"
    by (simp add: migrate_snapshot_def payload_version_def dict_get_or_def with_fingerprint_def with_provenance_def
        set_default_def dict_get_def or_json_def)
  from migration_is_idempotent [OF q] have "migrate_snapshot (\<lambda>s. s) q = Inr q" "map_of q ''tools'' = Some (JList [])" by auto
  then show ?thesis using q by blast
qed

end
