(* ===== verification/Auth.thy ===== *)
theory Auth
  imports Server_Schema Regex Json
begin

text \<open>
  \<open>server/auth.py\<close>: the configuration of an OIDC provider, the mapping of its claims to roles, the
  identity of a service account, and the facts read from SAML metadata. The XML parser is an argument.
\<close>

section \<open>Configuration\<close>

datatype auth_error = Auth_Error string | Validation_Error

definition KNOWN_ROLES :: "string list" where
  "KNOWN_ROLES = [''admin'', ''maintainer'', ''member'', ''viewer'']"

record oidc_config =
  oc_issuer_url :: string
  oc_client_id :: string
  oc_role_claim_path :: string
  oc_groups_to_roles :: "(string \<times> string) list"

record auth_identity =
  ai_subject :: string
  ai_roles :: "string list"
  ai_method :: string
  ai_org_scopes :: "int list"
  ai_display_name :: "string option"

definition https_only :: "string \<Rightarrow> auth_error + string" where
  "https_only v = (if prefix ''https://'' v then Inr (rev (dropWhile (\<lambda>c. c = CHR ''/'') (rev v))) else Inl Validation_Error)"

definition claim_char :: "char \<Rightarrow> bool" where
  "claim_char c \<longleftrightarrow> is_alnum c \<or> c = CHR ''_''"

text \<open>\<open>re.fullmatch\<close>: some match takes the whole text.\<close>

definition claim_path :: matcher where
  "claim_path = m_seq (m_plus claim_char) (m_rep (m_seq (m_lit ''.'') (m_plus claim_char)))"

definition sane_claim :: "string \<Rightarrow> auth_error + string" where
  "sane_claim v = (if list_ex (\<lambda>(x, r). r = []) (claim_path v) then Inr v else Inl Validation_Error)"

definition oidc_config :: "string \<Rightarrow> string \<Rightarrow> string \<Rightarrow> (string \<times> string) list \<Rightarrow> auth_error + oidc_config" where
  "oidc_config issuer client path groups =
     bind_res (https_only issuer) (\<lambda>url.
     bind_res (if client = [] then Inl Validation_Error else Inr client) (\<lambda>cl.
     bind_res (sane_claim path) (\<lambda>p.
       Inr \<lparr>oc_issuer_url = url, oc_client_id = cl, oc_role_claim_path = p, oc_groups_to_roles = groups\<rparr>)))"

section \<open>Roles from claims\<close>

abbreviation quoted :: "string \<Rightarrow> string" where
  "quoted s \<equiv> [CHR 0x27] @ s @ [CHR 0x27]"

fun validate_role_mapping :: "(string \<times> string) list \<Rightarrow> auth_error + (string \<times> string) list" where
  "validate_role_mapping [] = Inr []"
| "validate_role_mapping ((grp, role) # rest) =
     (if role \<notin> set KNOWN_ROLES then Inl (Auth_Error (''unknown role '' @ quoted role @ '' for group '' @ quoted grp))
      else bind_res (validate_role_mapping rest) (\<lambda>m. Inr ((grp, role) # m)))"

fun claim_node :: "string list \<Rightarrow> json \<Rightarrow> json option" where
  "claim_node [] node = Some node"
| "claim_node (segment # segments) node =
     (case node of
        JObj d \<Rightarrow> (case map_of d segment of None \<Rightarrow> None | Some v \<Rightarrow> claim_node segments v)
      | _ \<Rightarrow> None)"

definition claimed_groups :: "(string \<times> json) list \<Rightarrow> oidc_config \<Rightarrow> string list option" where
  "claimed_groups claims config =
     (case claim_node (split_on ''.'' (oc_role_claim_path config)) (JObj claims) of
        Some (JList gs) \<Rightarrow> Some (map py_str gs)
      | Some (JStr s) \<Rightarrow> Some [s]
      | _ \<Rightarrow> None)"

text \<open>The roles as a list without duplicates.\<close>

definition roles_of_groups :: "(string \<times> string) list \<Rightarrow> string list \<Rightarrow> string list" where
  "roles_of_groups m groups =
     remdups (concat (map (\<lambda>g. case map_of m g of None \<Rightarrow> [] | Some role \<Rightarrow> if role \<noteq> [] then [role] else []) groups))"

definition map_claims_to_roles :: "(string \<times> json) list \<Rightarrow> oidc_config \<Rightarrow> auth_error + string list" where
  "map_claims_to_roles claims config =
     (case claimed_groups claims config of
        None \<Rightarrow> Inr []
      | Some groups \<Rightarrow>
          bind_res (validate_role_mapping (oc_groups_to_roles config)) (\<lambda>m. Inr (roles_of_groups m groups)))"

section \<open>Identities of service accounts\<close>

definition local_identity_from_token :: "(string \<times> json) list \<Rightarrow> auth_error + auth_identity" where
  "local_identity_from_token token_record =
     (let role = py_str (dict_get_or token_record ''role'' (JStr [])) in
      if role \<notin> set KNOWN_ROLES then Inl (Auth_Error (''service account carries unknown role '' @ quoted role))
      else
        Inr \<lparr>ai_subject = py_str (dict_get_or token_record ''name'' (JStr ''unknown'')), ai_roles = [role], ai_method = ''local'',
             ai_org_scopes = (case dict_get token_record ''org_id'' of
                JInt i \<Rightarrow> [i] | JBool b \<Rightarrow> [if b then 1 else 0] | _ \<Rightarrow> []),
             ai_display_name = None\<rparr>)"

text \<open>What \<open>authenticate_service_token\<close> of the database returns, as a dictionary.\<close>

definition identity_record :: "service_identity \<Rightarrow> (string \<times> json) list" where
  "identity_record ident =
     [(''id'', JInt (si_id ident)), (''org_id'', JInt (si_org_id ident)), (''name'', JStr (si_name ident)), (''role'', JStr (si_role ident))]"

section \<open>SAML metadata\<close>

datatype xml = Elem (el_tag: string) (el_attrs: "(string \<times> string) list") (el_children: "xml list")

text \<open>\<open>Element.iter\<close>: the element and everything below it, in the order of the document.\<close>

fun iter :: "xml \<Rightarrow> xml list" where
  "iter (Elem t a cs) = Elem t a cs # concat (map iter cs)"

record saml_metadata =
  sm_entity_id :: string
  sm_sso_urls :: "string list"

definition MAX_METADATA_BYTES :: nat where
  "MAX_METADATA_BYTES = 512 * 1024"

definition attr :: "xml \<Rightarrow> string \<Rightarrow> string" where
  "attr el name = (case map_of (el_attrs el) name of None \<Rightarrow> [] | Some v \<Rightarrow> v)"

definition entity_id :: "xml \<Rightarrow> string" where
  "entity_id root =
     (if attr root ''entityID'' \<noteq> [] then attr root ''entityID''
      else (case find (\<lambda>el. ends_with (el_tag el) ''EntityDescriptor'' \<and> attr el ''entityID'' \<noteq> []) (iter root) of
              None \<Rightarrow> [] | Some el \<Rightarrow> attr el ''entityID''))"

definition sso_urls :: "xml \<Rightarrow> string list" where
  "sso_urls root = filter (prefix ''https://'')
     (map (\<lambda>el. attr el ''Location'') (filter (\<lambda>el. ends_with (el_tag el) ''SingleSignOnService'') (iter root)))"

definition parse_saml_metadata :: "(string \<Rightarrow> string + xml) \<Rightarrow> string \<Rightarrow> auth_error + saml_metadata" where
  "parse_saml_metadata parse bytes =
     (if length bytes > MAX_METADATA_BYTES then Inl (Auth_Error ''metadata document exceeds 512 KiB safety limit'')
      else
        (case parse bytes of
           Inl e \<Rightarrow> Inl (Auth_Error (''invalid SAML metadata XML: '' @ e))
         | Inr root \<Rightarrow>
             if entity_id root = [] then Inl (Auth_Error ''metadata has no entityID'')
             else Inr \<lparr>sm_entity_id = entity_id root, sm_sso_urls = sso_urls root\<rparr>))"

section \<open>Nothing is granted that was not configured\<close>

lemma known_mapping: "list_all (\<lambda>(g, r). r \<in> set KNOWN_ROLES) m \<Longrightarrow> validate_role_mapping m = Inr m"
  by (induction m rule: validate_role_mapping.induct) (simp_all add: result_simps)

lemma unknown_mapping:
  "\<not> list_all (\<lambda>(g, r). r \<in> set KNOWN_ROLES) m \<Longrightarrow> \<exists>e. validate_role_mapping m = Inl e"
proof (induction m rule: validate_role_mapping.induct)
  case (2 g role rest)
  show ?case
  proof (cases "role \<in> set KNOWN_ROLES")
    case True
    then obtain e where "validate_role_mapping rest = Inl e" using 2 by auto
    then show ?thesis using True by (simp add: result_simps)
  qed simp
qed simp

lemma validated: "validate_role_mapping m = Inr m' \<longleftrightarrow> m' = m \<and> list_all (\<lambda>(g, r). r \<in> set KNOWN_ROLES) m"
proof (cases "list_all (\<lambda>(g, r). r \<in> set KNOWN_ROLES) m")
  case True
  show ?thesis using known_mapping [OF True] True by auto
next
  case False
  show ?thesis using unknown_mapping [OF False] False by auto
qed

lemma empty_role_unknown: "[] \<notin> set KNOWN_ROLES"
  by (simp add: KNOWN_ROLES_def)

text \<open>
  C29: Deny by default: the roles a token of an identity provider gives are the known roles that the
  configuration maps one of its groups to, and no other; an identity whose claim is missing or of
  another form has none.
\<close>

theorem roles_are_configured:
  assumes "map_claims_to_roles claims config = Inr roles"
  shows "set roles \<subseteq> set KNOWN_ROLES \<and>
    (\<forall>role. role \<in> set roles \<longleftrightarrow>
       (\<exists>groups g. claimed_groups claims config = Some groups \<and> g \<in> set groups \<and>
          map_of (oc_groups_to_roles config) g = Some role))"
proof (cases "claimed_groups claims config")
  case None
  then show ?thesis using assms by (simp add: map_claims_to_roles_def)
next
  case (Some groups)
  let ?m = "oc_groups_to_roles config"
  have known: "list_all (\<lambda>(g, r). r \<in> set KNOWN_ROLES) ?m" and roles: "roles = roles_of_groups ?m groups"
    using assms Some by (auto simp: map_claims_to_roles_def result_simps validated)
  have ok: "role \<in> set KNOWN_ROLES" if "map_of ?m g = Some role" for g role
    using known map_of_SomeD [OF that] by (auto simp: list_all_iff)
  have "role \<in> set roles \<longleftrightarrow> (\<exists>g\<in>set groups. map_of ?m g = Some role)" for role
    using ok empty_role_unknown by (force simp: roles roles_of_groups_def split: option.splits)
  then show ?thesis using ok Some by auto
qed

theorem roles_are_configured_witness:
  "\<exists>roles. map_claims_to_roles [(''realm'', JObj [(''roles'', JList [JStr ''devs'', JStr ''others''])])]
     \<lparr>oc_issuer_url = ''https://idp'', oc_client_id = ''c'', oc_role_claim_path = ''realm.roles'',
      oc_groups_to_roles = [(''devs'', ''member'')]\<rparr> = Inr roles \<and> ''member'' \<in> set roles \<and> ''admin'' \<notin> set roles"
proof -
  let ?claims = "[(''realm'', JObj [(''roles'', JList [JStr ''devs'', JStr ''others''])])]"
  let ?config = "\<lparr>oc_issuer_url = ''https://idp'', oc_client_id = ''c'', oc_role_claim_path = ''realm.roles'',
      oc_groups_to_roles = [(''devs'', ''member'')]\<rparr>"
  have g: "claimed_groups ?claims ?config = Some [''devs'', ''others'']" by code_simp
  then obtain roles where r: "map_claims_to_roles ?claims ?config = Inr roles"
    by (simp add: map_claims_to_roles_def KNOWN_ROLES_def)
  then show ?thesis using roles_are_configured [OF r] g by auto
qed

text \<open>
  The database and the identities disagree about roles: an account whose role is \<open>agent\<close>, which the
  schema allows and the server authenticates, has no identity; every other role of the schema has one.
\<close>

theorem agent_accounts_have_no_identity:
  assumes "si_role ident \<in> {''admin'', ''maintainer'', ''viewer'', ''agent''}"
  shows "(\<exists>e. local_identity_from_token (identity_record ident) = Inl e) \<longleftrightarrow> si_role ident = ''agent''"
  using assms by (auto simp: local_identity_from_token_def identity_record_def dict_get_or_def KNOWN_ROLES_def Let_def)

theorem agent_accounts_have_no_identity_witness:
  "\<exists>e. local_identity_from_token (identity_record \<lparr>si_id = 1, si_org_id = 1, si_name = ''ci'', si_role = ''agent''\<rparr>) = Inl e"
  using agent_accounts_have_no_identity [of "\<lparr>si_id = 1, si_org_id = 1, si_name = ''ci'', si_role = ''agent''\<rparr>"] by simp

end
