(* ===== verification/Detectors.thy ===== *)
theory Detectors
  imports Lockfiles Models Version_Check
begin

text \<open>
  \<open>src/devrepro/project/detectors.py\<close>: the requirements a project declares, read from its manifests.
  A project is a directory tree; the TOML parser and the texts of JSON errors are arguments. TOML
  floats and dates are not values of the model, and a directory is not named like a manifest.
\<close>

section \<open>Errors and dynamic access\<close>

text \<open>An unreadable manifest ends the detection; any other exception is caught with its type and text.\<close>

datatype detect_error = Project_Parse_Error string | Crash (crash_type: string) (crash_text: string)

definition no_attribute :: "json \<Rightarrow> string \<Rightarrow> detect_error" where
  "no_attribute v name =
     Crash ''AttributeError'' ([CHR 0x27] @ type_name v @ [CHR 0x27] @ '' object has no attribute '' @ [CHR 0x27] @ name @ [CHR 0x27])"

text \<open>\<open>v.get(key, default)\<close>, \<open>v.items()\<close> and \<open>for x in v\<close> on whatever was read.\<close>

definition get_of :: "json \<Rightarrow> string \<Rightarrow> json \<Rightarrow> detect_error + json" where
  "get_of v key dflt = (case v of JObj d \<Rightarrow> Inr (dict_get_or d key dflt) | _ \<Rightarrow> Inl (no_attribute v ''get''))"

definition items_of :: "json \<Rightarrow> detect_error + (string \<times> json) list" where
  "items_of v = (case v of JObj d \<Rightarrow> Inr d | _ \<Rightarrow> Inl (no_attribute v ''items''))"

definition elements_of :: "json \<Rightarrow> detect_error + json list" where
  "elements_of v =
     (case py_elements v of
        Inr vs \<Rightarrow> Inr vs
      | Inl e \<Rightarrow> Inl (Crash ''TypeError'' ([CHR 0x27] @ type_name v @ [CHR 0x27] @ '' object is not iterable'')))"

record detect_env =
  de_json_error :: "string \<Rightarrow> string"
  de_toml :: "string \<Rightarrow> string + (string \<times> json) list"

definition json_data :: "detect_env \<Rightarrow> string \<Rightarrow> string \<Rightarrow> detect_error + json" where
  "json_data env name t =
     (case loads t of
        None \<Rightarrow> Inl (Project_Parse_Error (''invalid '' @ name @ '': '' @ de_json_error env t))
      | Some v \<Rightarrow> Inr v)"

definition toml_data :: "detect_env \<Rightarrow> string \<Rightarrow> string \<Rightarrow> detect_error + json" where
  "toml_data env name t =
     (case de_toml env t of
        Inl e \<Rightarrow> Inl (Project_Parse_Error (''invalid '' @ name @ '': '' @ e))
      | Inr d \<Rightarrow> Inr (JObj d))"

section \<open>Files of the project\<close>

text \<open>A project is its directory and the text of its path; \<open>str(root / a / b)\<close>.\<close>

record project =
  pj_root :: string
  pj_dir :: dir

definition source_of :: "project \<Rightarrow> string list \<Rightarrow> string" where
  "source_of pj parts =
     (if parts = [] then pj_root pj
      else if pj_root pj = ''.'' then join ''/'' parts
      else if ends_with (pj_root pj) ''/'' then pj_root pj @ join ''/'' parts
      else pj_root pj @ ''/'' @ join ''/'' parts)"

fun dir_at :: "dir \<Rightarrow> string list \<Rightarrow> dir option" where
  "dir_at d [] = Some d"
| "dir_at d (n # ns) = (case map_of (dir_children d) n of None \<Rightarrow> None | Some c \<Rightarrow> dir_at c ns)"

text \<open>\<open>p.is_file()\<close> and \<open>_read(p)\<close>, for \<open>p\<close> a name in a directory of the project.\<close>

definition is_file :: "project \<Rightarrow> string list \<Rightarrow> string \<Rightarrow> bool" where
  "is_file pj path name = (case dir_at (pj_dir pj) path of None \<Rightarrow> False | Some d \<Rightarrow> map_of (dir_files d) name \<noteq> None)"

definition read_at :: "project \<Rightarrow> string list \<Rightarrow> string \<Rightarrow> string option" where
  "read_at pj path name =
     (case dir_at (pj_dir pj) path of None \<Rightarrow> None | Some d \<Rightarrow> (case map_of (dir_files d) name of None \<Rightarrow> None | Some t \<Rightarrow> t))"

text \<open>\<open>if text:\<close> and \<open>_read(p) or ""\<close>: a missing, unreadable or empty file is no text.\<close>

definition text_at :: "project \<Rightarrow> string list \<Rightarrow> string \<Rightarrow> string" where
  "text_at pj path name = (case read_at pj path name of None \<Rightarrow> [] | Some t \<Rightarrow> t)"

text \<open>\<open>glob\<close> of a pattern with one star: the files that are listed.\<close>

definition glob :: "dir \<Rightarrow> string \<Rightarrow> string \<Rightarrow> string list" where
  "glob d start ending =
     (if dir_listable d then
        filter (\<lambda>n. prefix start n \<and> suffix ending n \<and> length start + length ending \<le> length n) (map fst (dir_files d))
      else [])"

section \<open>Requirements\<close>

definition req :: "string \<Rightarrow> string \<Rightarrow> string \<Rightarrow> requirement_kind \<Rightarrow> string \<Rightarrow> project_requirement" where
  "req ecosystem name spec kind source =
     \<lparr>r_ecosystem = ecosystem, r_name = name, r_spec = (if spec \<noteq> [] then spec else ''*''), r_kind = kind,
      r_source_file = source, r_optional = False, r_note = None\<rparr>"

text \<open>\<open>_pep508_split\<close>: the name, the extras and what follows; the whole text when it has another form.\<close>

definition pep508_name :: matcher where
  "pep508_name = m_plus (\<lambda>c. is_alnum c \<or> c \<in> set ''._-'')"

definition pep508_extras :: matcher where
  "pep508_extras = m_opt (m_seqs [m_lit ''['', m_star (\<lambda>c. c \<noteq> CHR '']''), m_lit '']''])"

definition not_newline :: "char \<Rightarrow> bool" where
  "not_newline c \<longleftrightarrow> c \<noteq> CHR 0x0A"

definition pep508_matches :: "string \<Rightarrow> (string \<times> string \<times> string) list" where
  "pep508_matches s =
     [(name, extras, spec). (name, r) \<leftarrow> pep508_name s, (_, r1) \<leftarrow> m_star is_space r, (extras, r2) \<leftarrow> pep508_extras r1,
        (_, r3) \<leftarrow> m_star is_space r2, (spec, r4) \<leftarrow> m_star not_newline r3, at_end r4]"

definition pep508_split :: "string \<Rightarrow> string \<times> string \<times> string" where
  "pep508_split dep =
     (case pep508_matches (strip dep) of
        [] \<Rightarrow> (strip dep, [], [])
      | (name, extras, spec) # _ \<Rightarrow> (name, extras, strip spec))"

text \<open>A range that is a text.\<close>

definition string_req :: "string \<Rightarrow> string \<Rightarrow> string \<Rightarrow> json \<Rightarrow> project_requirement list" where
  "string_req ecosystem name source v = (case v of JStr s \<Rightarrow> [req ecosystem name s RUNTIME source] | _ \<Rightarrow> [])"

section \<open>Python\<close>

definition pep508_req :: "string \<Rightarrow> string \<Rightarrow> project_requirement" where
  "pep508_req source dep = (let (name, extras, spec) = pep508_split dep in req ''python'' name spec RUNTIME source)"

definition poetry_req :: "string \<Rightarrow> string \<times> json \<Rightarrow> project_requirement" where
  "poetry_req source = (\<lambda>(name, spec).
     req ''python'' name (dropWhile (\<lambda>c. c \<in> set ''^~'') (case spec of JStr s \<Rightarrow> s | _ \<Rightarrow> ''*'')) RUNTIME source)"

definition pyproject_deps :: "detect_env \<Rightarrow> string \<Rightarrow> string \<Rightarrow> detect_error + project_requirement list" where
  "pyproject_deps env source t =
     bind_res (toml_data env ''pyproject.toml'' t) (\<lambda>data.
     bind_res (get_of data ''project'' (JObj [])) (\<lambda>project.
     bind_res (get_of project ''requires-python'' JNull) (\<lambda>rp.
     bind_res (get_of project ''dependencies'' (JList [])) (\<lambda>deps.
     bind_res (elements_of (or_json deps (JList []))) (\<lambda>ds.
     bind_res (get_of data ''tool'' (JObj [])) (\<lambda>tool.
     bind_res (get_of tool ''poetry'' (JObj [])) (\<lambda>poetry.
     bind_res (get_of poetry ''dependencies'' JNull) (\<lambda>pdeps.
     bind_res (items_of (or_json pdeps (JObj []))) (\<lambda>ps.
       Inr (string_req ''python'' ''python'' source rp @
            map (\<lambda>d. pep508_req source (py_str d)) ds @
            map (poetry_req source) (filter (\<lambda>(n, v). n \<noteq> ''python'') ps)))))))))))"

definition requirement_lines :: "string \<Rightarrow> string list" where
  "requirement_lines t =
     filter (\<lambda>l. l \<noteq> [] \<and> \<not> prefix ''#'' l \<and> \<not> prefix ''-'' l) (map strip (splitlines t))"

definition requirements_txt :: "project \<Rightarrow> project_requirement list" where
  "requirements_txt pj =
     concat (map (\<lambda>n. map (pep508_req (source_of pj [n])) (requirement_lines (text_at pj [] n)))
       (sort (glob (pj_dir pj) ''requirements'' ''.txt'')))"

definition python_deps :: "detect_env \<Rightarrow> project \<Rightarrow> detect_error + project_requirement list" where
  "python_deps env pj =
     bind_res (case read_at pj [] ''pyproject.toml'' of
                 None \<Rightarrow> Inr []
               | Some t \<Rightarrow> pyproject_deps env (source_of pj [''pyproject.toml'']) t) (\<lambda>out.
       Inr (out @ requirements_txt pj))"

section \<open>Lockfiles\<close>

definition LOCK_MARKERS :: "(string \<times> string \<times> string) list" where
  "LOCK_MARKERS =
     [(''poetry.lock'', ''python'', ''poetry-lock''), (''uv.lock'', ''python'', ''uv-lock''),
      (''Pipfile.lock'', ''python'', ''pipenv-lock''), (''package-lock.json'', ''node'', ''npm-lock''),
      (''pnpm-lock.yaml'', ''node'', ''pnpm-lock''), (''yarn.lock'', ''node'', ''yarn-lock''),
      (''bun.lockb'', ''node'', ''bun-lock''), (''go.sum'', ''go'', ''go-sum''), (''Cargo.lock'', ''rust'', ''cargo-lock''),
      (''composer.lock'', ''php'', ''composer-lock''), (''Gemfile.lock'', ''ruby'', ''bundler-lock''),
      (''poetry.toml'', ''python'', ''poetry-config'')]"

definition MAX_LOCKFILE_DEPTH :: nat where
  "MAX_LOCKFILE_DEPTH = 3"

text \<open>\<open>SKIP_DIRS\<close> of \<open>project/monorepo.py\<close>.\<close>

definition MONOREPO_SKIP_DIRS :: "string list" where
  "MONOREPO_SKIP_DIRS = [''.git'', ''node_modules'', ''.venv'', ''venv'', ''__pycache__'', ''target'', ''dist'', ''build'', ''.tox'']"

definition project_dir :: "string \<Rightarrow> bool" where
  "project_dir name \<longleftrightarrow> name \<notin> set MONOREPO_SKIP_DIRS \<and> \<not> prefix ''.'' name"

definition nested_dirs :: "nat \<Rightarrow> dir \<Rightarrow> (string list \<times> dir) list" where
  "nested_dirs max_depth root = walk_stack False project_dir max_depth [([], root, 0)]"

definition lock_req :: "string \<Rightarrow> string \<Rightarrow> string \<Rightarrow> project_requirement" where
  "lock_req ecosystem name source = (req ecosystem name ''*'' TOOL source)\<lparr>r_note := Some ''lockfile present''\<rparr>"

definition lock_reqs_in :: "project \<Rightarrow> string list \<times> dir \<Rightarrow> project_requirement list" where
  "lock_reqs_in pj = (\<lambda>(path, d).
     map (\<lambda>(n, ecosystem, label).
         lock_req ecosystem (if path = [] then label else label @ ''@'' @ join ''/'' path) (source_of pj (path @ [n])))
       (filter (\<lambda>(n, e, l). map_of (dir_files d) n \<noteq> None) LOCK_MARKERS))"

definition lockfile_reqs :: "project \<Rightarrow> project_requirement list" where
  "lockfile_reqs pj =
     lock_reqs_in pj ([], pj_dir pj) @ concat (map (lock_reqs_in pj) (nested_dirs MAX_LOCKFILE_DEPTH (pj_dir pj)))"

section \<open>Node\<close>

definition package_section :: "string \<Rightarrow> json \<Rightarrow> string \<Rightarrow> detect_error + project_requirement list" where
  "package_section source data sec =
     bind_res (get_of data sec JNull) (\<lambda>v.
     bind_res (items_of (or_json v (JObj []))) (\<lambda>ds.
       Inr (map (\<lambda>(name, spec). (req ''node'' name (py_str spec) RUNTIME source)\<lparr>r_optional := (sec = ''devDependencies'')\<rparr>) ds)))"

definition package_json_deps :: "detect_env \<Rightarrow> string \<Rightarrow> string \<Rightarrow> detect_error + project_requirement list" where
  "package_json_deps env source t =
     bind_res (json_data env ''package.json'' t) (\<lambda>data.
     bind_res (get_of data ''engines'' JNull) (\<lambda>e.
     let engines = or_json e (JObj []) in
     bind_res (get_of engines ''node'' JNull) (\<lambda>node.
     bind_res (get_of engines ''npm'' JNull) (\<lambda>npm.
     bind_res (package_section source data ''dependencies'') (\<lambda>deps.
     bind_res (package_section source data ''devDependencies'') (\<lambda>devs.
       Inr (string_req ''node'' ''node'' source node @ string_req ''node'' ''npm'' source npm @ deps @ devs)))))))"

text \<open>A file that holds one version.\<close>

definition version_file :: "project \<Rightarrow> string \<Rightarrow> string \<Rightarrow> (string \<Rightarrow> string) \<Rightarrow> string \<Rightarrow> project_requirement list" where
  "version_file pj ecosystem name clean fname =
     (let t = strip (text_at pj [] fname) in
      if t = [] then [] else [req ecosystem name (clean t) RUNTIME (source_of pj [fname])])"

definition node_deps :: "detect_env \<Rightarrow> project \<Rightarrow> detect_error + project_requirement list" where
  "node_deps env pj =
     bind_res (case read_at pj [] ''package.json'' of
                 None \<Rightarrow> Inr []
               | Some t \<Rightarrow> package_json_deps env (source_of pj [''package.json'']) t) (\<lambda>out.
       Inr (out @ concat (map (version_file pj ''node'' ''node'' (dropWhile (\<lambda>c. c = CHR ''v''))) [''.nvmrc'', ''.node-version''])))"

section \<open>The other languages\<close>

definition target_framework :: "string \<Rightarrow> (string \<times> string) list" where
  "target_framework = m_within (m_lit ''<TargetFramework>'') (m_plus (\<lambda>c. c \<noteq> CHR ''<'')) (m_lit ''</TargetFramework>'')"

definition csproj_reqs :: "project \<Rightarrow> project_requirement list" where
  "csproj_reqs pj =
     concat (map (\<lambda>n. map (\<lambda>fw. req ''dotnet'' ''target-framework'' (strip fw) RUNTIME (source_of pj [n]))
         (find_all target_framework (text_at pj [] n)))
       (take 10 (glob (pj_dir pj) [] ''.csproj'')))"

definition dotnet_deps :: "detect_env \<Rightarrow> project \<Rightarrow> detect_error + project_requirement list" where
  "dotnet_deps env pj =
     (let t = text_at pj [] ''global.json'' in
      bind_res
        (if t = [] then Inr []
         else bind_res (json_data env ''global.json'' t) (\<lambda>data.
              bind_res (get_of data ''sdk'' JNull) (\<lambda>sdk.
              bind_res (get_of (or_json sdk (JObj [])) ''version'' JNull) (\<lambda>v.
                Inr (string_req ''dotnet'' ''dotnet-sdk'' (source_of pj [''global.json'']) v)))))
        (\<lambda>out. Inr (out @ csproj_reqs pj)))"

definition go_directive :: "string \<Rightarrow> string list" where
  "go_directive = m_capture (m_seqs [m_lit ''go'', m_plus is_space])
     (m_seqs [m_plus is_digit, m_lit ''.'', m_plus is_digit, m_opt (m_seqs [m_lit ''.'', m_plus is_digit])])"

definition go_deps :: "detect_env \<Rightarrow> project \<Rightarrow> detect_error + project_requirement list" where
  "go_deps env pj =
     Inr (case search_lines go_directive True (text_at pj [] ''go.mod'') of
            None \<Rightarrow> []
          | Some v \<Rightarrow> [req ''go'' ''go'' (''>='' @ v) RUNTIME (source_of pj [''go.mod''])])"

definition rust_version :: "string \<Rightarrow> (string \<times> string) list" where
  "rust_version = m_within (m_seqs [m_lit ''rust-version'', m_star is_space, m_lit ''='', m_star is_space]) (m_plus not_newline) m_empty"

definition unquote :: "string \<Rightarrow> string" where
  "unquote s = strip_chars [CHR 0x27] (strip_chars [CHR 0x22] s)"

definition cargo_req :: "project \<Rightarrow> project_requirement list" where
  "cargo_req pj =
     (case search_group rust_version (text_at pj [] ''Cargo.toml'') of
        None \<Rightarrow> []
      | Some v \<Rightarrow> [req ''rust'' ''rustc'' (unquote (strip v)) RUNTIME (source_of pj [''Cargo.toml''])])"

definition rust_deps :: "detect_env \<Rightarrow> project \<Rightarrow> detect_error + project_requirement list" where
  "rust_deps env pj =
     (let t = text_at pj [] ''rust-toolchain.toml'' in
      bind_res
        (if t = [] then Inr (version_file pj ''rust'' ''rust-toolchain'' (\<lambda>v. v) ''rust-toolchain'')
         else bind_res (toml_data env ''rust-toolchain.toml'' t) (\<lambda>data.
              bind_res (get_of data ''toolchain'' (JObj [])) (\<lambda>toolchain.
              bind_res (get_of toolchain ''channel'' JNull) (\<lambda>channel.
                Inr (string_req ''rust'' ''rust-toolchain'' (source_of pj [''rust-toolchain.toml'']) channel)))))
        (\<lambda>out. Inr (out @ cargo_req pj)))"

definition tool_versions_reqs :: "project \<Rightarrow> project_requirement list" where
  "tool_versions_reqs pj =
     concat (map (\<lambda>line. case words line of
         name # v # _ \<Rightarrow> [req ''generic'' (''tool-versions:'' @ name) v TOOL (source_of pj [''.tool-versions''])]
       | _ \<Rightarrow> []) (splitlines (text_at pj [] ''.tool-versions'')))"

definition mise_matches :: "string \<Rightarrow> (string \<times> string) list" where
  "mise_matches s =
     [(name, v). (_, r) \<leftarrow> m_star is_space s, (name, r1) \<leftarrow> m_plus (\<lambda>c. word_char c \<or> c = CHR ''-'') r,
        (_, r2) \<leftarrow> m_seqs [m_star is_space, m_lit ''='', m_star is_space] r1, (v, r3) \<leftarrow> m_plus not_newline r2, at_end r3]"

definition mise_reqs :: "project \<Rightarrow> project_requirement list" where
  "mise_reqs pj =
     concat (map (\<lambda>line. case mise_matches line of
         (name, v) # _ \<Rightarrow> [req ''generic'' (''mise:'' @ name) (unquote v) TOOL (source_of pj [''mise.toml''])]
       | [] \<Rightarrow> []) (splitlines (text_at pj [] ''mise.toml'')))"

definition php_ruby_java_deps :: "detect_env \<Rightarrow> project \<Rightarrow> detect_error + project_requirement list" where
  "php_ruby_java_deps env pj =
     (let t = text_at pj [] ''composer.json'' in
      bind_res
        (if t = [] then Inr []
         else bind_res (json_data env ''composer.json'' t) (\<lambda>data.
              bind_res (get_of data ''require'' JNull) (\<lambda>r.
              bind_res (get_of (or_json r (JObj [])) ''php'' JNull) (\<lambda>v.
                Inr (string_req ''php'' ''php'' (source_of pj [''composer.json'']) v)))))
        (\<lambda>out. Inr (out @ version_file pj ''ruby'' ''ruby'' (\<lambda>v. v) ''.ruby-version'' @
                    version_file pj ''java'' ''java'' (\<lambda>v. v) ''.java-version'' @ tool_versions_reqs pj @ mise_reqs pj)))"

definition cmake_minimum :: "string \<Rightarrow> (string \<times> string) list" where
  "cmake_minimum = m_within
     (m_seqs [m_lit ''cmake_minimum_required'', m_star is_space, m_lit ''('', m_star is_space, m_lit ''VERSION'', m_plus is_space])
     (m_plus (\<lambda>c. is_digit c \<or> c = CHR ''.'')) m_empty"

text \<open>A file whose presence is the requirement.\<close>

definition marker_req :: "project \<Rightarrow> string list \<Rightarrow> string \<Rightarrow> string \<Rightarrow> string \<Rightarrow> requirement_kind \<Rightarrow> project_requirement list" where
  "marker_req pj path fname ecosystem name kind =
     (if is_file pj path fname then [req ecosystem name ''*'' kind (source_of pj (path @ [fname]))] else [])"

definition cpp_deps :: "detect_env \<Rightarrow> project \<Rightarrow> detect_error + project_requirement list" where
  "cpp_deps env pj =
     Inr ((case search_group cmake_minimum (text_at pj [] ''CMakeLists.txt'') of
             None \<Rightarrow> []
           | Some v \<Rightarrow> [req ''cpp'' ''cmake'' (''>='' @ v) COMPILER (source_of pj [''CMakeLists.txt''])]) @
          marker_req pj [] ''vcpkg.json'' ''cpp'' ''vcpkg-manifest'' TOOL @ marker_req pj [] ''conanfile.txt'' ''cpp'' ''conan'' TOOL)"

section \<open>Containers and CI\<close>

definition first_marker :: "project_requirement list list \<Rightarrow> project_requirement list" where
  "first_marker rs = take 1 (concat rs)"

definition container_deps :: "project \<Rightarrow> project_requirement list" where
  "container_deps pj =
     marker_req pj [] ''Dockerfile'' ''container'' ''docker-build'' CONTAINER @
     first_marker (map (\<lambda>n. marker_req pj [] n ''container'' ''docker-compose'' CONTAINER)
       [''compose.yaml'', ''compose.yml'', ''docker-compose.yml'', ''docker-compose.yaml'']) @
     first_marker [marker_req pj [''.devcontainer''] ''devcontainer.json'' ''container'' ''devcontainer'' CONTAINER,
                   marker_req pj [] ''.devcontainer.json'' ''container'' ''devcontainer'' CONTAINER]"

definition ci_version :: "string \<Rightarrow> string \<Rightarrow> (string \<times> string) list" where
  "ci_version key = m_within (m_seqs [m_lit key, m_star is_space]) (m_plus (\<lambda>c. \<not> is_space c)) m_empty"

definition CI_VERSION_RE :: "(string \<times> string) list" where
  "CI_VERSION_RE = [(''python'', ''python-version:''), (''node'', ''node-version:''), (''go'', ''go-version:'')]"

definition workflow_reqs :: "string \<Rightarrow> string \<Rightarrow> project_requirement list" where
  "workflow_reqs source t =
     concat (map (\<lambda>(eco, key). case find (\<lambda>v. v \<noteq> [] \<and> v \<noteq> ''$'') (map strip (find_all (ci_version key) t)) of
         None \<Rightarrow> []
       | Some v \<Rightarrow> [req eco (''ci:'' @ eco) v RUNTIME source]) CI_VERSION_RE)"

definition ci_deps :: "project \<Rightarrow> project_requirement list" where
  "ci_deps pj =
     (case dir_at (pj_dir pj) [''.github'', ''workflows''] of
        None \<Rightarrow> []
      | Some d \<Rightarrow>
          concat (map (\<lambda>n. workflow_reqs (source_of pj [''.github'', ''workflows'', n]) (text_at pj [''.github'', ''workflows''] n))
            (sort (glob d [] ''.yml'') @ sort (glob d [] ''.yaml''))))"

section \<open>The detection\<close>

definition BUILTIN_DETECTORS :: "(string \<times> (detect_env \<Rightarrow> project \<Rightarrow> detect_error + project_requirement list)) list" where
  "BUILTIN_DETECTORS =
     [(''_python_deps'', python_deps), (''_node_deps'', node_deps), (''_dotnet_deps'', dotnet_deps), (''_go_deps'', go_deps),
      (''_rust_deps'', rust_deps), (''_php_ruby_java_deps'', php_ruby_java_deps), (''_cpp_deps'', cpp_deps)]"

definition failed_req :: "project \<Rightarrow> string \<Rightarrow> string \<Rightarrow> string \<Rightarrow> project_requirement" where
  "failed_req pj name exc message =
     \<lparr>r_ecosystem = ''generic'', r_name = ''parse-error:'' @ name, r_spec = ''*'', r_kind = TOOL, r_source_file = pj_root pj,
      r_optional = False, r_note = Some (''detector failed: '' @ exc @ '': '' @ message)\<rparr>"

definition run_detector ::
  "detect_env \<Rightarrow> project \<Rightarrow> string \<times> (detect_env \<Rightarrow> project \<Rightarrow> detect_error + project_requirement list) \<Rightarrow>
    detect_error + project_requirement list" where
  "run_detector env pj = (\<lambda>(name, detector).
     case detector env pj of
       Inr rs \<Rightarrow> Inr rs
     | Inl (Project_Parse_Error e) \<Rightarrow> Inl (Project_Parse_Error e)
     | Inl (Crash exc message) \<Rightarrow> Inr [failed_req pj name exc message])"

definition detect_requirements :: "detect_env \<Rightarrow> project \<Rightarrow> detect_error + project_requirement list" where
  "detect_requirements env pj =
     bind_res (map_res (run_detector env pj) BUILTIN_DETECTORS) (\<lambda>outs.
       Inr (concat outs @ lockfile_reqs pj @ container_deps pj @ ci_deps pj))"

definition KIND_MARKERS :: "(string \<times> (string \<times> string) list \<times> string list) list" where
  "KIND_MARKERS =
     [(''python'', [([], ''.py'')], [''pyproject.toml'', ''requirements.txt'']), (''node'', [], [''package.json'']),
      (''dotnet'', [([], ''.csproj''), ([], ''.sln'')], [''global.json'']), (''go'', [], [''go.mod'']),
      (''rust'', [], [''Cargo.toml'']), (''php'', [], [''composer.json'']), (''ruby'', [], [''Gemfile'']),
      (''java'', [], [''pom.xml'', ''build.gradle'', ''build.gradle.kts'']), (''cpp'', [], [''CMakeLists.txt'', ''Makefile'']),
      (''containers'', [], [''Dockerfile'', ''compose.yaml'', ''docker-compose.yml''])]"

definition detect_project_kind :: "project \<Rightarrow> string list" where
  "detect_project_kind pj = map fst (filter (\<lambda>(kind, patterns, names).
     list_ex (is_file pj []) names \<or> list_ex (\<lambda>(a, b). glob (pj_dir pj) a b \<noteq> []) patterns) KIND_MARKERS)"

section \<open>Every requirement is of a documented ecosystem\<close>

text \<open>The ecosystems \<open>core/models.py\<close> documents.\<close>

definition ECOSYSTEMS :: "string list" where
  "ECOSYSTEMS = [''python'', ''node'', ''dotnet'', ''go'', ''rust'', ''php'', ''ruby'', ''java'', ''cpp'', ''container'', ''generic'']"

definition proper_req :: "project_requirement \<Rightarrow> bool" where
  "proper_req r \<longleftrightarrow> r_ecosystem r \<in> set ECOSYSTEMS \<and> r_spec r \<noteq> []"

named_theorems proper_reqs \<open>the requirements of each detector are proper\<close>

lemma proper_made: "proper_req (req eco name spec kind source) \<longleftrightarrow> eco \<in> set ECOSYSTEMS"
  by (simp add: proper_req_def req_def)

lemma proper_optional [simp]: "proper_req (r\<lparr>r_optional := b\<rparr>) = proper_req r" "proper_req (r\<lparr>r_note := n\<rparr>) = proper_req r"
  by (simp_all add: proper_req_def)

lemma ecosystems:
  "''python'' \<in> set ECOSYSTEMS" "''node'' \<in> set ECOSYSTEMS" "''dotnet'' \<in> set ECOSYSTEMS" "''go'' \<in> set ECOSYSTEMS"
  "''rust'' \<in> set ECOSYSTEMS" "''php'' \<in> set ECOSYSTEMS" "''ruby'' \<in> set ECOSYSTEMS" "''java'' \<in> set ECOSYSTEMS"
  "''cpp'' \<in> set ECOSYSTEMS" "''container'' \<in> set ECOSYSTEMS" "''generic'' \<in> set ECOSYSTEMS"
  by (simp_all add: ECOSYSTEMS_def)

lemma proper_pep508 [proper_reqs]: "proper_req (pep508_req source dep)"
  by (simp add: pep508_req_def proper_made ecosystems split: prod.splits)

lemma proper_poetry [proper_reqs]: "proper_req (poetry_req source x)"
  by (simp add: poetry_req_def proper_made ecosystems split: prod.splits)

lemma proper_strings [proper_reqs]: "eco \<in> set ECOSYSTEMS \<Longrightarrow> list_all proper_req (string_req eco name source v)"
  by (simp add: string_req_def proper_made split: json.splits)

lemma proper_version_file [proper_reqs]: "eco \<in> set ECOSYSTEMS \<Longrightarrow> list_all proper_req (version_file pj eco name f n)"
  by (simp add: version_file_def proper_made Let_def)

lemma proper_marker [proper_reqs]: "eco \<in> set ECOSYSTEMS \<Longrightarrow> list_all proper_req (marker_req pj path n eco name kind)"
  by (simp add: marker_req_def proper_made)

lemma proper_pyproject [proper_reqs]: "pyproject_deps env source t = Inr rs \<Longrightarrow> list_all proper_req rs"
  by (auto simp: pyproject_deps_def result_simps list_all_append proper_strings ecosystems)
    (simp_all add: list_all_iff proper_pep508 proper_poetry)

lemma proper_requirements_txt [proper_reqs]: "list_all proper_req (requirements_txt pj)"
  by (simp add: requirements_txt_def list_all_iff proper_pep508)

lemma proper_python_deps [proper_reqs]: "python_deps env pj = Inr rs \<Longrightarrow> list_all proper_req rs"
  using proper_requirements_txt [of pj]
  by (auto simp: python_deps_def result_simps list_all_append split: option.splits dest: proper_pyproject)

lemma proper_section: "package_section source data sec = Inr rs \<Longrightarrow> list_all proper_req rs"
  by (auto simp: package_section_def result_simps list_all_iff proper_made ecosystems)

lemma proper_package [proper_reqs]: "package_json_deps env source t = Inr rs \<Longrightarrow> list_all proper_req rs"
  by (auto simp: package_json_deps_def Let_def result_simps list_all_append proper_strings ecosystems dest: proper_section)

lemma proper_node_deps [proper_reqs]: "node_deps env pj = Inr rs \<Longrightarrow> list_all proper_req rs"
  by (auto simp: node_deps_def result_simps list_all_append proper_version_file ecosystems split: option.splits dest: proper_package)

lemma proper_csproj [proper_reqs]: "list_all proper_req (csproj_reqs pj)"
  by (auto simp: csproj_reqs_def list_all_iff proper_made ecosystems)

lemma proper_dotnet [proper_reqs]: "dotnet_deps env pj = Inr rs \<Longrightarrow> list_all proper_req rs"
  by (auto simp: dotnet_deps_def Let_def result_simps list_all_append proper_csproj proper_strings ecosystems split: if_splits)

lemma proper_go [proper_reqs]: "go_deps env pj = Inr rs \<Longrightarrow> list_all proper_req rs"
  by (auto simp: go_deps_def proper_made ecosystems split: option.splits)

lemma proper_rust [proper_reqs]: "rust_deps env pj = Inr rs \<Longrightarrow> list_all proper_req rs"
  by (auto simp: rust_deps_def cargo_req_def Let_def result_simps list_all_append proper_made ecosystems proper_strings
      proper_version_file split: if_splits option.splits)

lemma proper_tool_versions [proper_reqs]: "list_all proper_req (tool_versions_reqs pj)"
  by (auto simp: tool_versions_reqs_def list_all_iff proper_made ecosystems split: list.splits)

lemma proper_mise [proper_reqs]: "list_all proper_req (mise_reqs pj)"
  by (auto simp: mise_reqs_def list_all_iff proper_made ecosystems split: list.splits)

lemma proper_php_ruby_java [proper_reqs]: "php_ruby_java_deps env pj = Inr rs \<Longrightarrow> list_all proper_req rs"
  by (auto simp: php_ruby_java_deps_def Let_def result_simps list_all_append proper_strings proper_version_file ecosystems
      proper_tool_versions proper_mise split: if_splits)

lemma proper_cpp_deps [proper_reqs]: "cpp_deps env pj = Inr rs \<Longrightarrow> list_all proper_req rs"
  by (auto simp: cpp_deps_def list_all_append proper_made ecosystems proper_marker split: option.splits)

lemma list_all_take: "list_all P xs \<Longrightarrow> list_all P (take n xs)"
  by (auto simp: list_all_iff dest: in_set_takeD)

lemma proper_containers_deps [proper_reqs]: "list_all proper_req (container_deps pj)"
  by (auto simp: container_deps_def first_marker_def list_all_append proper_marker ecosystems intro!: list_all_take)

lemma marker_ecosystems: "list_all (\<lambda>(n, eco, l). eco \<in> set ECOSYSTEMS) LOCK_MARKERS"
  by code_simp

lemma proper_locks [proper_reqs]: "list_all proper_req (lockfile_reqs pj)"
proof -
  have "list_all proper_req (lock_reqs_in pj x)" for x
    using marker_ecosystems
    by (cases x) (auto simp: lock_reqs_in_def lock_req_def list_all_iff proper_made)
  then show ?thesis by (simp add: lockfile_reqs_def list_all_append) (simp add: list_all_iff)
qed

lemma proper_ci [proper_reqs]: "list_all proper_req (ci_deps pj)"
proof -
  have "list_all proper_req (workflow_reqs source t)" for source t
    by (auto simp: workflow_reqs_def CI_VERSION_RE_def list_all_append proper_made ecosystems split: option.splits)
  then show ?thesis by (auto simp: ci_deps_def list_all_append list_all_iff split: option.splits)
qed

lemma proper_failed: "proper_req (failed_req pj name exc message)"
  by (simp add: failed_req_def proper_req_def ecosystems)

lemma builtin_cases:
  "(name, d) \<in> set BUILTIN_DETECTORS \<Longrightarrow>
     d \<in> {python_deps, node_deps, dotnet_deps, go_deps, rust_deps, php_ruby_java_deps, cpp_deps}"
  unfolding BUILTIN_DETECTORS_def by (simp only: set_simps insert_iff prod.inject empty_iff) blast

lemma proper_builtin: "(name, d) \<in> set BUILTIN_DETECTORS \<Longrightarrow> d env pj = Inr rs \<Longrightarrow> list_all proper_req rs"
  by (drule builtin_cases, elim insertE emptyE)
    (blast dest: proper_python_deps proper_node_deps proper_dotnet proper_go proper_rust proper_php_ruby_java proper_cpp_deps)+

lemma run_detector_Inr:
  "run_detector env pj (name, d) = Inr rs \<longleftrightarrow>
     d env pj = Inr rs \<or> (\<exists>exc message. d env pj = Inl (Crash exc message) \<and> rs = [failed_req pj name exc message])"
  by (auto simp: run_detector_def split: sum.splits detect_error.splits)


lemma proper_detector: "x \<in> set BUILTIN_DETECTORS \<Longrightarrow> run_detector env pj x = Inr rs \<Longrightarrow> list_all proper_req rs"
  using proper_builtin proper_failed by (cases x) (auto simp: run_detector_Inr)

lemma map_res_list_all:
  assumes "map_res f xs = Inr ys" and "\<And>x y. x \<in> set xs \<Longrightarrow> f x = Inr y \<Longrightarrow> P y"
  shows "list_all P ys"
  using assms
proof (induction xs arbitrary: ys)
  case (Cons x xs)
  then obtain z zs where "f x = Inr z" "map_res f xs = Inr zs" "ys = z # zs" by (auto simp: result_simps)
  moreover from this have "P z" by (intro Cons.prems(2) [of x z]) simp_all
  moreover from calculation have "list_all P zs" by (intro Cons.IH) (auto intro: Cons.prems(2))
  ultimately show ?case by simp
qed simp

lemma detected_proper:
  assumes "detect_requirements env pj = Inr rs"
  shows "list_all proper_req rs"
proof -
  obtain outs where o: "map_res (run_detector env pj) BUILTIN_DETECTORS = Inr outs"
    and rs: "rs = concat outs @ lockfile_reqs pj @ container_deps pj @ ci_deps pj"
    using assms by (auto simp: detect_requirements_def result_simps)
  have "list_all (list_all proper_req) outs" using map_res_list_all [OF o] proper_detector by blast
  then show ?thesis
    using proper_locks proper_containers_deps proper_ci by (simp add: rs list_all_append) (simp add: list_all_iff)
qed

text \<open>
  Whatever is in the project, what is detected is of an ecosystem of the data model and has a range.
\<close>

theorem requirements_are_documented:
  assumes "detect_requirements env pj = Inr rs"
  shows "list_all (\<lambda>r. r_ecosystem r \<in> set ECOSYSTEMS \<and> r_spec r \<noteq> []) rs"
  using detected_proper [OF assms] by (simp add: proper_req_def [abs_def])

section \<open>What stops the detection\<close>


lemma access_is_no_parse_error [simp]:
  "get_of v k dflt \<noteq> Inl (Project_Parse_Error m)" "items_of v \<noteq> Inl (Project_Parse_Error m)"
  "elements_of v \<noteq> Inl (Project_Parse_Error m)"
  by (auto simp: get_of_def items_of_def elements_of_def no_attribute_def split: json.splits sum.splits)

lemma section_is_no_parse_error [simp]: "package_section source data sec \<noteq> Inl (Project_Parse_Error m)"
  by (auto simp: package_section_def result_simps)









lemma map_res_members: "map_res f xs = Inr ys \<Longrightarrow> x \<in> set xs \<Longrightarrow> \<exists>y\<in>set ys. f x = Inr y"
  by (induction xs arbitrary: ys) (auto simp: result_simps)

text \<open>Nothing a detector found is lost because another one raised, and one that raised is reported.\<close>

theorem detectors_are_isolated:
  assumes "detect_requirements env pj = Inr rs" and "(name, d) \<in> set BUILTIN_DETECTORS"
  shows "(\<exists>out. d env pj = Inr out \<and> set out \<subseteq> set rs) \<or>
    (\<exists>exc message. d env pj = Inl (Crash exc message) \<and> failed_req pj name exc message \<in> set rs)"
proof -
  obtain outs where o: "map_res (run_detector env pj) BUILTIN_DETECTORS = Inr outs"
    and rs: "rs = concat outs @ lockfile_reqs pj @ container_deps pj @ ci_deps pj"
    using assms(1) by (auto simp: detect_requirements_def result_simps)
  obtain out where "out \<in> set outs" "run_detector env pj (name, d) = Inr out"
    using map_res_members [OF o assms(2)] by blast
  then have "set out \<subseteq> set rs" and "d env pj = Inr out \<or>
      (\<exists>exc message. d env pj = Inl (Crash exc message) \<and> out = [failed_req pj name exc message])"
    by (auto simp: rs run_detector_Inr)
  then show ?thesis by auto
qed

section \<open>Two walks over the same project\<close>

text \<open>The names lead down from one directory to another, all of them kept.\<close>

fun descends :: "(string \<Rightarrow> bool) \<Rightarrow> dir \<Rightarrow> string list \<Rightarrow> dir \<Rightarrow> bool" where
  "descends keep d [] c \<longleftrightarrow> c = d"
| "descends keep d (n # ns) c \<longleftrightarrow> dir_listable d \<and> keep n \<and> (\<exists>(m, x)\<in>set (dir_children d). m = n \<and> descends keep x ns c)"

lemma reach_descends:
  "(q, c) \<in> set (reach keep k p d) \<longleftrightarrow> (\<exists>ns. q = p @ ns \<and> length ns \<le> k \<and> descends keep d ns c)"
proof (induction k arbitrary: p d)
  case (Suc k)
  have "(q, c) \<in> set (reach keep (Suc k) p d) \<longleftrightarrow> q = p \<and> c = d \<or>
      (\<exists>n x. dir_listable d \<and> keep n \<and> (n, x) \<in> set (dir_children d) \<and> (q, c) \<in> set (reach keep k (p @ [n]) x))"
    by (auto simp: steps_down_def)
  also have "\<dots> \<longleftrightarrow> (\<exists>ns. q = p @ ns \<and> length ns \<le> Suc k \<and> descends keep d ns c)"
  proof
    assume "q = p \<and> c = d \<or>
      (\<exists>n x. dir_listable d \<and> keep n \<and> (n, x) \<in> set (dir_children d) \<and> (q, c) \<in> set (reach keep k (p @ [n]) x))"
    then show "\<exists>ns. q = p @ ns \<and> length ns \<le> Suc k \<and> descends keep d ns c"
    proof (elim disjE exE conjE)
      fix n x assume "dir_listable d" "keep n" "(n, x) \<in> set (dir_children d)" "(q, c) \<in> set (reach keep k (p @ [n]) x)"
      moreover from this obtain ms where "q = (p @ [n]) @ ms" "length ms \<le> k" "descends keep x ms c"
        unfolding Suc.IH by blast
      ultimately show ?thesis by (intro exI [of _ "n # ms"]) auto
    qed (auto intro: exI [of _ "[]"])
  next
    assume "\<exists>ns. q = p @ ns \<and> length ns \<le> Suc k \<and> descends keep d ns c"
    then obtain ns where ns: "q = p @ ns" "length ns \<le> Suc k" "descends keep d ns c" by blast
    then show "q = p \<and> c = d \<or>
      (\<exists>n x. dir_listable d \<and> keep n \<and> (n, x) \<in> set (dir_children d) \<and> (q, c) \<in> set (reach keep k (p @ [n]) x))"
      unfolding Suc.IH by (cases ns) auto
  qed
  finally show ?case .
qed auto

lemma descends_narrow:
  assumes "\<And>n. keep n \<longleftrightarrow> keep' n \<and> n \<notin> S"
  shows "descends keep d ns c \<longleftrightarrow> descends keep' d ns c \<and> set ns \<inter> S = {}"
proof (induction ns arbitrary: d)
  case (Cons n ns)
  show ?case
  proof (cases "set ns \<inter> S = {}")
    case True
    then show ?thesis by (simp add: Cons.IH assms [of n]) blast
  next
    case False
    then show ?thesis by (simp add: Cons.IH)
  qed
qed simp

lemma visible_project_dir: "visible n \<longleftrightarrow> project_dir n \<and> n \<notin> {''vendor'', ''site''}"
proof -
  have "set SKIP_DIRS \<union> {''.git'', ''.venv'', ''.tox''} = set MONOREPO_SKIP_DIRS \<union> {''vendor'', ''site''}" by code_simp
  moreover have "\<forall>m\<in>{''.git'', ''.venv'', ''.tox''}. prefix ''.'' m" by simp
  ultimately show ?thesis unfolding visible_def project_dir_def by blast
qed

lemma nested_reach: "set (walk_stack by_name keep k [([], root, 0)]) \<union> {([], root)} = set (reach keep k [] root)"
  using mset_eq_setD [OF walk_stack_reach [of root by_name keep k]] by auto

text \<open>
  The two searches for lockfiles do not see the same files: what the reproducibility score counts
  includes the lockfiles below a directory called \<open>vendor\<close> or \<open>site\<close>, which the lockfile checks skip;
  apart from these they agree.
\<close>

theorem lockfile_searches_disagree:
  "(path, d) \<in> set (walk Lockfiles.MAX_DEPTH root) \<longleftrightarrow>
     (path, d) \<in> insert ([], root) (set (nested_dirs MAX_LOCKFILE_DEPTH root)) \<and> set path \<inter> {''vendor'', ''site''} = {}"
proof -
  have "(path, d) \<in> set (walk Lockfiles.MAX_DEPTH root) \<longleftrightarrow> length path \<le> 3 \<and> descends visible root path d"
    using mset_eq_setD [OF walk_reach [of Lockfiles.MAX_DEPTH root]] by (simp add: reach_descends Lockfiles.MAX_DEPTH_def)
  moreover have "(path, d) \<in> insert ([], root) (set (nested_dirs MAX_LOCKFILE_DEPTH root)) \<longleftrightarrow>
      length path \<le> 3 \<and> descends project_dir root path d"
    using nested_reach [of False project_dir 3 root]
    by (simp add: nested_dirs_def MAX_LOCKFILE_DEPTH_def reach_descends set_eq_iff)
  ultimately show ?thesis using descends_narrow [OF visible_project_dir, of root path d] by blast
qed

section \<open>Nothing is invented\<close>

text \<open>
  A range is the star, it comes from a structured manifest, or it stands, apart from an added floor,
  in the text of the file it is said to come from.
\<close>

definition STRUCTURED :: "string list" where
  "STRUCTURED = [''pyproject.toml'', ''package.json'', ''global.json'', ''rust-toolchain.toml'', ''composer.json'']"

definition written_in :: "string \<Rightarrow> string \<Rightarrow> bool" where
  "written_in t spec \<longleftrightarrow> spec = ''*'' \<or> sublist spec t \<or> (\<exists>v. spec = ''>='' @ v \<and> sublist v t)"

definition declared_in :: "project \<Rightarrow> project_requirement \<Rightarrow> bool" where
  "declared_in pj r \<longleftrightarrow> r_spec r = ''*'' \<or> (\<exists>n\<in>set STRUCTURED. r_source_file r = source_of pj [n]) \<or>
     (\<exists>path name. r_source_file r = source_of pj (path @ [name]) \<and> written_in (text_at pj path name) (r_spec r))"

lemma declared_star: "r_spec r = ''*'' \<Longrightarrow> declared_in pj r"
  by (simp add: declared_in_def)

lemma declared_structured: "n \<in> set STRUCTURED \<Longrightarrow> r_source_file r = source_of pj [n] \<Longrightarrow> declared_in pj r"
  by (auto simp: declared_in_def)

lemma declared_text:
  "sublist spec (text_at pj path n) \<Longrightarrow> declared_in pj (req eco name spec kind (source_of pj (path @ [n])))"
  by (auto simp: declared_in_def req_def written_in_def)

lemma declared_floor:
  "sublist v (text_at pj path n) \<Longrightarrow> declared_in pj (req eco name (''>='' @ v) kind (source_of pj (path @ [n])))"
  by (auto simp: declared_in_def req_def written_in_def)

lemmas declared_root = declared_text [of _ _ "[]", simplified] declared_floor [of _ _ "[]", simplified]

lemma sublist_trans: "sublist a b \<Longrightarrow> sublist b c \<Longrightarrow> sublist a c"
  by (rule sublist_order.order.trans)

lemma strip_sub: "sublist (strip s) s"
proof -
  have "sublist (rev (dropWhile is_space (rev t))) t" for t by (simp add: sublist_rev_left)
  then show ?thesis unfolding strip_def rstrip_def lstrip_def by (blast intro: sublist_trans)
qed

lemma strip_chars_sub: "sublist (strip_chars cs s) s"
proof -
  have "sublist (rev (dropWhile P (rev t))) t" for P and t :: string by (simp add: sublist_rev_left)
  then show ?thesis unfolding strip_chars_def by (blast intro: sublist_trans)
qed

lemma unquote_sub: "sublist (unquote s) s"
  unfolding unquote_def using strip_chars_sub by (blast intro: sublist_trans)

lemma words_from_sub: "w \<in> set (words_from acc s) \<Longrightarrow> sublist w (rev acc @ s)"
proof (induction acc s rule: words_from.induct)
  case (2 acc c s)
  show ?case
  proof (cases "is_space c")
    case True
    then have "w = rev acc \<or> w \<in> set (words_from [] s)" using 2(4) by (auto split: if_splits)
    moreover have "sublist w (rev acc @ c # s)" if "w \<in> set (words_from [] s)"
    proof -
      have "sublist w s" using 2(1,2) True that by (cases "acc = []") simp_all
      then show ?thesis using sublist_append_leftI [of s "rev acc @ [c]"] by (simp add: sublist_trans)
    qed
    ultimately show ?thesis by auto
  next
    case False
    then show ?thesis using 2(3,4) by simp
  qed
qed (auto split: if_splits)

lemma words_sub: "w \<in> set (words s) \<Longrightarrow> sublist w s"
  using words_from_sub [of w "[]" s] by (simp add: words_def)

lemma splitlines_from_sub: "l \<in> set (splitlines_from acc s) \<Longrightarrow> sublist l (rev acc @ s)"
proof (induction acc s rule: splitlines_from.induct)
  case (2 acc c s)
  have skip: "sublist l (rev acc @ c # s)" if "sublist l t" "suffix t s" for t
    using that by (meson sublist_append_leftI sublist_trans suffix_ConsI suffix_imp_sublist suffix_appendI)
  consider (two) "c = CHR 0x0D \<and> s \<noteq> [] \<and> hd s = CHR 0x0A" | (one) "\<not> (c = CHR 0x0D \<and> s \<noteq> [] \<and> hd s = CHR 0x0A)" "line_break c"
    | (none) "\<not> (c = CHR 0x0D \<and> s \<noteq> [] \<and> hd s = CHR 0x0A)" "\<not> line_break c" by blast
  then show ?case
  proof cases
    case two
    then have "l = rev acc \<or> l \<in> set (splitlines_from [] (tl s))" using 2(4) by (simp del: splitlines_from.simps add: splitlines_from.simps(2))
    then show ?thesis using 2(1) [OF two] skip [of "tl s"] by (auto simp: suffix_tl)
  next
    case one
    then have "l = rev acc \<or> l \<in> set (splitlines_from [] s)" using 2(4) by (simp only: splitlines_from.simps if_False if_True list.set insert_iff)
    then show ?thesis using 2(2) [OF one] skip [of s] by auto
  next
    case none
    then have "l \<in> set (splitlines_from (c # acc) s)" using 2(4) by (simp only: splitlines_from.simps if_False)
    then show ?thesis using 2(3) [OF none] by simp
  qed
qed (auto split: if_splits)

lemma splitlines_sub: "l \<in> set (splitlines s) \<Longrightarrow> sublist l s"
  using splitlines_from_sub [of l "[]" s] by (simp add: splitlines_def)

lemma pep508_sub: "(name, extras, spec) \<in> set (pep508_matches s) \<Longrightarrow> sublist spec s"
proof -
  assume "(name, extras, spec) \<in> set (pep508_matches s)"
  then obtain r x1 r1 r2 x3 r3 r4 where m: "(name, r) \<in> set (pep508_name s)" "(x1, r1) \<in> set (m_star is_space r)"
      "(extras, r2) \<in> set (pep508_extras r1)" "(x3, r3) \<in> set (m_star is_space r2)" "(spec, r4) \<in> set (m_star not_newline r3)"
    by (auto simp: pep508_matches_def split: if_splits)
  have sn: "sound pep508_name" and se: "sound pep508_extras"
    by (simp_all add: pep508_name_def pep508_extras_def pattern_rules del: m_seqs.simps)
  have "s = name @ x1 @ extras @ x3 @ spec @ r4"
    using soundD [where m = pep508_name, OF sn m(1)] soundD [where m = pep508_extras, OF se m(3)]
      m(2,4,5)[unfolded star_match] by simp
  then have "s = (name @ x1 @ extras @ x3) @ spec @ r4" by simp
  then show ?thesis by (metis sublist_appendI)
qed

lemma pep508_spec_sub: "pep508_split dep = (name, extras, spec) \<Longrightarrow> sublist spec dep"
proof -
  assume s: "pep508_split dep = (name, extras, spec)"
  show ?thesis
  proof (cases "pep508_matches (strip dep)")
    case (Cons m ms)
    obtain a b c where m: "m = (a, b, c)" by (cases m) auto
    then have "sublist c (strip dep)" using pep508_sub [of a b c "strip dep"] Cons by simp
    moreover have "spec = strip c" using s Cons m by (simp add: pep508_split_def)
    ultimately show ?thesis using strip_sub by (blast intro: sublist_trans)
  qed (use s in \<open>simp add: pep508_split_def\<close>)
qed

lemma declared_requirements_txt: "list_all (declared_in pj) (requirements_txt pj)"
proof -
  have "declared_in pj (pep508_req (source_of pj [n]) l)" if "l \<in> set (requirement_lines (text_at pj [] n))" for n l
  proof -
    from that obtain k where k: "k \<in> set (splitlines (text_at pj [] n))" "l = strip k" by (auto simp: requirement_lines_def)
    then have "sublist l (text_at pj [] n)" using splitlines_sub strip_sub by (blast intro: sublist_trans)
    moreover obtain name extras spec where p: "pep508_split l = (name, extras, spec)" by (cases "pep508_split l") auto
    ultimately have "sublist spec (text_at pj [] n)" using pep508_spec_sub by (blast intro: sublist_trans)
    then show ?thesis by (simp add: pep508_req_def p declared_root)
  qed
  then show ?thesis by (simp add: requirements_txt_def list_all_iff)
qed

lemma structured: "list_all (\<lambda>r. r_source_file r = source_of pj [n]) rs \<Longrightarrow> n \<in> set STRUCTURED \<Longrightarrow> list_all (declared_in pj) rs"
  by (auto simp: list_all_iff intro: declared_structured)

lemma source_req [simp]: "r_source_file (req eco name spec kind source) = source"
  by (simp add: req_def)

lemma source_string [simp]: "list_all (\<lambda>r. r_source_file r = source) (string_req eco name source v)"
  by (simp add: string_req_def split: json.splits)

lemma source_pyproject: "pyproject_deps env source t = Inr rs \<Longrightarrow> list_all (\<lambda>r. r_source_file r = source) rs"
  by (auto simp: pyproject_deps_def result_simps list_all_append)
    (simp_all add: list_all_iff pep508_req_def poetry_req_def split: prod.splits)

lemma source_section: "package_section source data sec = Inr rs \<Longrightarrow> list_all (\<lambda>r. r_source_file r = source) rs"
  by (auto simp: package_section_def result_simps list_all_iff)

lemma source_package: "package_json_deps env source t = Inr rs \<Longrightarrow> list_all (\<lambda>r. r_source_file r = source) rs"
  by (auto simp: package_json_deps_def Let_def result_simps list_all_append dest: source_section)

lemma declared_version_file:
  assumes "\<And>s. sublist (f s) s"
  shows "list_all (declared_in pj) (version_file pj eco name f n)"
  using strip_sub [of "text_at pj [] n"] assms by (auto simp: version_file_def Let_def intro!: declared_root sublist_trans [OF assms])

lemma declared_marker: "list_all (declared_in pj) (marker_req pj path n eco name kind)"
  by (simp add: marker_req_def declared_star req_def)

lemma declared_python: "python_deps env pj = Inr rs \<Longrightarrow> list_all (declared_in pj) rs"
  using declared_requirements_txt [of pj] structured [of pj "''pyproject.toml''"]
  by (auto simp: python_deps_def result_simps list_all_append STRUCTURED_def split: option.splits dest: source_pyproject)

lemma declared_package:
  "package_json_deps env (source_of pj [''package.json'']) t = Inr rs \<Longrightarrow> list_all (declared_in pj) rs"
  by (erule structured [OF source_package]) (simp add: STRUCTURED_def)

lemma declared_node: "node_deps env pj = Inr rs \<Longrightarrow> list_all (declared_in pj) rs"
  by (auto simp: node_deps_def result_simps list_all_append split: option.splits
      dest: declared_package intro!: declared_version_file)

lemma declared_csproj: "list_all (declared_in pj) (csproj_reqs pj)"
proof -
  have "sublist (strip fw) t" if "fw \<in> set (find_all target_framework t)" for fw t
  proof -
    have "sublist fw t"
      using that by (rule find_all_sub [rotated]) (auto simp: target_framework_def match_sound dest!: within_sub [rotated -1])
    then show ?thesis using strip_sub by (blast intro: sublist_trans)
  qed
  then show ?thesis by (auto simp: csproj_reqs_def list_all_iff intro!: declared_root)
qed

lemma declared_dotnet: "dotnet_deps env pj = Inr rs \<Longrightarrow> list_all (declared_in pj) rs"
  using declared_csproj [of pj] structured [of pj "''global.json''"]
  by (auto simp: dotnet_deps_def Let_def result_simps list_all_append STRUCTURED_def split: if_splits)

lemma declared_go: "go_deps env pj = Inr rs \<Longrightarrow> list_all (declared_in pj) rs"
proof -
  have "sublist v t" if "search_lines go_directive True t = Some v" for v t
    using that by (rule search_lines_sub [rotated]) (auto simp: go_directive_def pattern_rules simp del: m_seqs.simps dest!: capture_sub [rotated -1])
  then show "go_deps env pj = Inr rs \<Longrightarrow> list_all (declared_in pj) rs"
    by (auto simp: go_deps_def declared_root split: option.splits)
qed

lemma declared_cargo: "list_all (declared_in pj) (cargo_req pj)"
proof -
  have "sublist (unquote (strip v)) t" if "search_group rust_version t = Some v" for v t
  proof -
    have "sublist v t"
      using that by (rule search_group_sub [rotated]) (auto simp: rust_version_def pattern_rules simp del: m_seqs.simps dest!: within_sub [rotated -1])
    then show ?thesis using strip_sub unquote_sub by (blast intro: sublist_trans)
  qed
  then show ?thesis by (auto simp: cargo_req_def declared_root split: option.splits)
qed

lemma declared_rust: "rust_deps env pj = Inr rs \<Longrightarrow> list_all (declared_in pj) rs"
  using declared_cargo [of pj] structured [of pj "''rust-toolchain.toml''"]
  by (auto simp: rust_deps_def Let_def result_simps list_all_append STRUCTURED_def split: if_splits intro!: declared_version_file)

lemma declared_tool_versions: "list_all (declared_in pj) (tool_versions_reqs pj)"
proof -
  have "sublist v (text_at pj [] ''.tool-versions'')"
    if "l \<in> set (splitlines (text_at pj [] ''.tool-versions''))" "name # v # ws = words l" for l name v ws
    using that words_sub [of v l] splitlines_sub by (auto dest!: sym [of _ "words l"] intro: sublist_trans)
  then show ?thesis by (auto simp: tool_versions_reqs_def list_all_iff declared_root split: list.splits)
qed

lemma mise_sub: "(name, v) \<in> set (mise_matches s) \<Longrightarrow> sublist v s"
proof -
  assume "(name, v) \<in> set (mise_matches s)"
  then obtain x r r1 y r2 r3 where m: "(x, r) \<in> set (m_star is_space s)" "(name, r1) \<in> set (m_plus (\<lambda>c. word_char c \<or> c = CHR ''-'') r)"
      "(y, r2) \<in> set (m_seqs [m_star is_space, m_lit ''='', m_star is_space] r1)" "(v, r3) \<in> set (m_plus not_newline r2)"
    by (auto simp: mise_matches_def simp del: m_seqs.simps split: if_splits)
  have "r1 = y @ r2"
    using m(3) by (rule soundD [rotated]) (simp add: pattern_rules del: m_seqs.simps)
  then have "s = (x @ name @ y) @ v @ r3" using m(1,2,4)[unfolded star_match plus_match] by simp
  then show ?thesis by (metis sublist_appendI)
qed

lemma declared_mise: "list_all (declared_in pj) (mise_reqs pj)"
proof -
  have "sublist (unquote v) (text_at pj [] ''mise.toml'')"
    if "l \<in> set (splitlines (text_at pj [] ''mise.toml''))" "(name, v) # ms = mise_matches l" for l name v ms
  proof -
    have "sublist v l" using that(2) mise_sub [of name v l] by (auto dest!: sym [of _ "mise_matches l"])
    then show ?thesis using splitlines_sub [OF that(1)] unquote_sub [of v] by (blast intro: sublist_trans)
  qed
  then show ?thesis by (auto simp: mise_reqs_def list_all_iff declared_root split: list.splits)
qed

lemma declared_php_ruby_java: "php_ruby_java_deps env pj = Inr rs \<Longrightarrow> list_all (declared_in pj) rs"
  using declared_tool_versions [of pj] declared_mise [of pj] structured [of pj "''composer.json''"]
  by (auto simp: php_ruby_java_deps_def Let_def result_simps list_all_append STRUCTURED_def split: if_splits
      intro!: declared_version_file)

lemma declared_cpp: "cpp_deps env pj = Inr rs \<Longrightarrow> list_all (declared_in pj) rs"
proof -
  have "sublist v t" if "search_group cmake_minimum t = Some v" for v t
    using that by (rule search_group_sub [rotated]) (auto simp: cmake_minimum_def pattern_rules simp del: m_seqs.simps dest!: within_sub [rotated -1])
  then show "cpp_deps env pj = Inr rs \<Longrightarrow> list_all (declared_in pj) rs"
    by (auto simp: cpp_deps_def list_all_append declared_root declared_marker split: option.splits)
qed

lemma declared_builtin: "(name, d) \<in> set BUILTIN_DETECTORS \<Longrightarrow> d env pj = Inr rs \<Longrightarrow> list_all (declared_in pj) rs"
  by (drule builtin_cases, elim insertE emptyE)
    (blast dest: declared_python declared_node declared_dotnet declared_go declared_rust declared_php_ruby_java declared_cpp)+

lemma declared_detector: "x \<in> set BUILTIN_DETECTORS \<Longrightarrow> run_detector env pj x = Inr rs \<Longrightarrow> list_all (declared_in pj) rs"
  using declared_builtin by (cases x) (auto simp: run_detector_Inr failed_req_def declared_star)

lemma declared_containers: "list_all (declared_in pj) (container_deps pj)"
  by (auto simp: container_deps_def first_marker_def list_all_append declared_marker intro!: list_all_take)

lemma declared_locks: "list_all (declared_in pj) (lockfile_reqs pj)"
proof -
  have "list_all (declared_in pj) (lock_reqs_in pj x)" for x
    by (cases x) (auto simp: lock_reqs_in_def lock_req_def req_def list_all_iff intro!: declared_star)
  then show ?thesis by (simp add: lockfile_reqs_def list_all_append) (simp add: list_all_iff)
qed

lemma declared_ci: "list_all (declared_in pj) (ci_deps pj)"
proof -
  have sub: "sublist v t" if "find P (map strip (find_all (ci_version key) t)) = Some v" for P key v t
  proof -
    have "v \<in> strip ` set (find_all (ci_version key) t)" using that by (metis find_Some_iff image_set nth_mem)
    then obtain g where g: "g \<in> set (find_all (ci_version key) t)" "v = strip g" by blast
    have "sublist g t"
      using g(1) by (rule find_all_sub [rotated]) (auto simp: ci_version_def pattern_rules simp del: m_seqs.simps dest!: within_sub [rotated -1])
    then show ?thesis using g(2) strip_sub by (blast intro: sublist_trans)
  qed
  have "list_all (declared_in pj) (workflow_reqs (source_of pj (path @ [n])) (text_at pj path n))" for path n
    by (auto simp: workflow_reqs_def list_all_iff intro!: declared_text dest!: sub [OF sym] split: option.splits)
  from this [of "[''.github'', ''workflows'']"] show ?thesis
    by (auto simp: ci_deps_def list_all_iff split: option.splits)
qed

text \<open>
  Every range that is detected is the star, is a value of a structured manifest, or stands in the
  text of the file that the requirement names, but for the \<open>>=\<close> put before a minimum.
\<close>

theorem ranges_are_never_invented:
  assumes "detect_requirements env pj = Inr rs" and "r \<in> set rs"
  shows "declared_in pj r"
proof -
  obtain outs where o: "map_res (run_detector env pj) BUILTIN_DETECTORS = Inr outs"
    and rs: "rs = concat outs @ lockfile_reqs pj @ container_deps pj @ ci_deps pj"
    using assms(1) by (auto simp: detect_requirements_def result_simps)
  have "list_all (list_all (declared_in pj)) outs" using map_res_list_all [OF o] declared_detector by blast
  then have "list_all (declared_in pj) rs"
    using declared_locks declared_containers declared_ci by (simp add: rs list_all_append) (simp add: list_all_iff)
  then show ?thesis using assms(2) by (simp add: list_all_iff)
qed

section \<open>Two ranges that are not what was declared\<close>

text \<open>
  A caret of poetry is cut off, so a range becomes one exact version; an expression of a workflow
  matrix, and a quoted version, become ranges that no comparison can read.
\<close>

lemma poetry_caret_becomes_exact:
  "r_spec (poetry_req source (''django'', JStr ''^4.2.0'')) = ''4.2.0'' \<and> satisfies ''4.3.0'' ''4.2.0'' = Inr False"
  by code_simp

lemma workflow_expressions_are_ranges:
  "map r_spec (workflow_reqs source ''node-version: ${{ matrix.node }}'') = [''${{''] \<and>
   satisfies ''20.0.0'' ''${{'' = Inl ValueError"
  by code_simp

lemma workflow_quotes_are_kept:
  "map r_spec (workflow_reqs source (''python-version: '' @ [CHR 0x22] @ ''3.12'' @ [CHR 0x22])) = [[CHR 0x22] @ ''3.12'' @ [CHR 0x22]] \<and>
   satisfies ''3.12.1'' ([CHR 0x22] @ ''3.12'' @ [CHR 0x22]) = Inl ValueError"
  by code_simp

section \<open>Witnesses\<close>

definition demo_env :: detect_env where
  "demo_env = \<lparr>de_json_error = (\<lambda>t. []), de_toml = (\<lambda>t. Inl [])\<rparr>"

definition demo_project :: project where
  "demo_project = \<lparr>pj_root = ''/r'', pj_dir = Dir [(''.nvmrc'', Some ''v20''), (''requirements.txt'', Some ''flask>=2'')] True
     [(''web'', Dir [(''package-lock.json'', Some ''x'')] True []),
      (''.github'', Dir [] True [(''workflows'', Dir [(''ci.yml'', Some ''go-version: 1.22'')] True [])])]\<rparr>"

lemma demo_requirements:
  "detect_requirements demo_env demo_project =
     Inr [req ''python'' ''flask'' ''>=2'' RUNTIME ''/r/requirements.txt'', req ''node'' ''node'' ''20'' RUNTIME ''/r/.nvmrc'',
          lock_req ''node'' ''npm-lock@web'' ''/r/web/package-lock.json'',
          req ''go'' ''ci:go'' ''1.22'' RUNTIME ''/r/.github/workflows/ci.yml'']"
  by code_simp

theorem requirements_are_documented_witness:
  "\<exists>rs. detect_requirements demo_env demo_project = Inr rs \<and> length rs = 4 \<and> list_all (\<lambda>r. r_ecosystem r \<in> set ECOSYSTEMS) rs"
  using requirements_are_documented [OF demo_requirements] by (simp add: demo_requirements)

theorem detectors_are_isolated_witness:
  "\<exists>rs out. detect_requirements demo_env demo_project = Inr rs \<and> python_deps demo_env demo_project = Inr out \<and> set out \<subseteq> set rs"
proof -
  have p: "python_deps demo_env demo_project = Inr [req ''python'' ''flask'' ''>=2'' RUNTIME ''/r/requirements.txt'']" by code_simp
  have "(''_python_deps'', python_deps) \<in> set BUILTIN_DETECTORS" by (simp add: BUILTIN_DETECTORS_def)
  then show ?thesis using detectors_are_isolated [OF demo_requirements, of "''_python_deps''" python_deps] p demo_requirements by auto
qed

theorem ranges_are_never_invented_witness:
  "declared_in demo_project (req ''go'' ''ci:go'' ''1.22'' RUNTIME ''/r/.github/workflows/ci.yml'')"
  using ranges_are_never_invented [OF demo_requirements] by simp

end
