(* ===== verification/Reproduction.thy ===== *)
theory Reproduction
  imports Detectors Json
begin

text \<open>
  \<open>src/devrepro/reproduce/recipe.py\<close>: the recipe of a container that fails the way the machine did,
  built from a scan. A dash outside Latin-1 is written as a hyphen.
\<close>

section \<open>Tables\<close>

text \<open>A template of a base image: what stands before and after \<open>{version}\<close>.\<close>

definition BASE_IMAGES :: "(string \<times> string \<times> string) list" where
  "BASE_IMAGES =
     [(''python'', ''python:'', ''-bookworm''), (''node'', ''node:'', ''-bookworm''), (''go'', ''golang:'', ''-bookworm''),
      (''rust'', ''rust:'', ''-bookworm''), (''java'', ''eclipse-temurin:'', ''-jdk''),
      (''dotnet'', ''mcr.microsoft.com/dotnet/sdk:'', []), (''ruby'', ''ruby:'', ''-bookworm''), (''php'', ''php:'', ''-cli-bookworm'')]"

definition FALLBACK_IMAGE :: string where
  "FALLBACK_IMAGE = ''debian:bookworm-slim''"

definition INSTALL_COMMANDS :: "(string \<times> string \<times> string) list" where
  "INSTALL_COMMANDS =
     [(''npm'', ''package-lock.json'', ''npm ci''), (''pnpm'', ''pnpm-lock.yaml'', ''pnpm install --frozen-lockfile''),
      (''yarn'', ''yarn.lock'', ''yarn install --immutable''), (''poetry'', ''poetry.lock'', ''poetry install --no-interaction''),
      (''uv'', ''uv.lock'', ''uv sync --frozen''), (''pip'', ''requirements.txt'', ''pip install --no-deps -r requirements.txt''),
      (''cargo'', ''Cargo.lock'', ''cargo fetch --locked''), (''go'', ''go.sum'', ''go mod download''),
      (''bundler'', ''Gemfile.lock'', ''bundle install --deployment''), (''composer'', ''composer.lock'', ''composer install --no-interaction'')]"

section \<open>Recipes\<close>

record setup_step =
  su_command :: string
  su_reason :: string
  su_source :: "string option"

record precondition =
  pc_kind :: string
  pc_detail :: string

record reproduction =
  rp_base_image :: string
  rp_base_digest :: "string option"
  rp_steps :: "setup_step list"
  rp_failing_command :: "string option"
  rp_expected_symptom :: "string option"
  rp_preconditions :: "precondition list"
  rp_platform :: string
  rp_metadata :: "(string \<times> string) list"

definition pinned :: "reproduction \<Rightarrow> bool" where
  "pinned r \<longleftrightarrow> rp_base_digest r \<noteq> None"

definition image_reference :: "reproduction \<Rightarrow> string" where
  "image_reference r = (case rp_base_digest r of Some (c # d) \<Rightarrow> c # d | _ \<Rightarrow> rp_base_image r)"

definition reproduces :: "reproduction \<Rightarrow> bool" where
  "reproduces r \<longleftrightarrow> rp_failing_command r \<noteq> None"

definition opt_json :: "string option \<Rightarrow> json" where
  "opt_json v = (case v of None \<Rightarrow> JNull | Some s \<Rightarrow> JStr s)"

definition reproduction_dict :: "reproduction \<Rightarrow> json" where
  "reproduction_dict r = JObj
     [(''base_image'', JStr (rp_base_image r)), (''base_digest'', opt_json (rp_base_digest r)), (''pinned'', JBool (pinned r)),
      (''platform'', JStr (rp_platform r)),
      (''steps'', JList (map (\<lambda>s. JObj [(''command'', JStr (su_command s)), (''reason'', JStr (su_reason s)),
         (''source'', opt_json (su_source s))]) (rp_steps r))),
      (''failing_command'', opt_json (rp_failing_command r)), (''expected_symptom'', opt_json (rp_expected_symptom r)),
      (''preconditions'', JList (map (\<lambda>p. JObj [(''kind'', JStr (pc_kind p)), (''detail'', JStr (pc_detail p))]) (rp_preconditions r))),
      (''reproduces'', JBool (reproduces r)), (''metadata'', JObj (map (\<lambda>(k, v). (k, JStr v)) (rp_metadata r)))]"

section \<open>The base image\<close>

definition version_number :: matcher where
  "version_number = m_seq (m_plus is_digit) (m_rep (m_seq (m_lit ''.'') (m_plus is_digit)))"

definition concrete_version :: "string \<Rightarrow> string option" where
  "concrete_version spec =
     (if spec = [] \<or> strip spec \<in> {''*'', ''latest''} then None
      else if contains spec ''||'' then None
      else map_option fst (m_search version_number spec))"

fun base_for :: "project_requirement list \<Rightarrow> string" where
  "base_for [] = FALLBACK_IMAGE"
| "base_for (r # rs) =
     (case map_of BASE_IMAGES (r_ecosystem r) of
        None \<Rightarrow> base_for rs
      | Some (before_version, after_version) \<Rightarrow>
          (case concrete_version (r_spec r) of
             None \<Rightarrow> base_for rs
           | Some v \<Rightarrow> before_version @ v @ after_version))"

section \<open>The install steps\<close>

definition claims :: "string list \<Rightarrow> string \<Rightarrow> bool" where
  "claims ecosystems e \<longleftrightarrow> e \<in> set ecosystems \<or> e = ''pip'' \<and> ''python'' \<in> set ecosystems"

definition install_step :: "string \<times> string \<Rightarrow> setup_step" where
  "install_step = (\<lambda>(lockfile, command).
     \<lparr>su_command = command,
      su_reason = ''Install from '' @ lockfile @ ''. The locked form, not the resolving one: '' @
        ''a fresh resolve reproduces a different dependency tree from the '' @ ''one that failed.'',
      su_source = Some lockfile\<rparr>)"

text \<open>The loop with the set of the ecosystems already seen.\<close>

fun install_from :: "string list \<Rightarrow> string list \<Rightarrow> string list \<Rightarrow> (string \<times> string \<times> string) list \<Rightarrow> setup_step list" where
  "install_from ecosystems present seen [] = []"
| "install_from ecosystems present seen ((e, lockfile, command) # rest) =
     (if e \<in> set seen \<or> lockfile \<notin> set present \<or> \<not> claims ecosystems e
      then install_from ecosystems present seen rest
      else install_step (lockfile, command) # install_from ecosystems present (e # seen) rest)"

definition install_steps :: "project_requirement list \<Rightarrow> string list \<Rightarrow> setup_step list" where
  "install_steps requirements present = install_from (map r_ecosystem requirements) present [] INSTALL_COMMANDS"

section \<open>What cannot be carried\<close>

definition has_text :: "string option \<Rightarrow> bool" where
  "has_text v \<longleftrightarrow> v \<noteq> None \<and> v \<noteq> Some []"

definition preconditions :: "scan_report \<Rightarrow> precondition list" where
  "preconditions report =
     (case sr_containers report of
        Some c \<Rightarrow> if c_docker_daemon_ok c then
          [\<lparr>pc_kind = ''container-in-container'',
            pc_detail = ''The original environment had a working container engine. If the '' @
              ''failure involves starting containers, this recipe cannot '' @
              ''reproduce it without a mounted socket -- which is a privilege '' @ ''escalation, not a build step.''\<rparr>] else []
      | None \<Rightarrow> []) @
     (case sr_gpu report of
        Some g \<Rightarrow> if has_text (g_nvidia_driver g) \<or> has_text (g_rocm g) then
          [\<lparr>pc_kind = ''gpu'',
            pc_detail = ''The original environment had a GPU stack. A container reproduces '' @
              ''it only with the host'' @ [CHR 0x27] @ ''s driver passed through, and the driver '' @ ''version has to match.''\<rparr>] else []
      | None \<Rightarrow> []) @
     (if py_lower (pl_os_name (sr_platform report)) \<noteq> ''linux'' then
        [\<lparr>pc_kind = ''platform'',
          pc_detail = ''The failure was observed on '' @ pl_os_name (sr_platform report) @ ''. This '' @
            ''recipe runs Linux, so anything platform-specific -- path '' @
            ''separators, case sensitivity, line endings, the Windows path '' @ ''limit -- will not reproduce here.''\<rparr>]
      else [])"

definition no_install_step :: precondition where
  "no_install_step =
     \<lparr>pc_kind = ''no-install-step'',
      pc_detail = ''No lockfile this recipe understands was found, so nothing '' @
        ''installs the project'' @ [CHR 0x27] @ ''s dependencies. The failing command will '' @
        ''most likely die with '' @ [CHR 0x27] @ ''not found'' @ [CHR 0x27] @ '' rather than reproducing the '' @
        ''reported failure. Add the install step by hand before relying '' @ ''on this.''\<rparr>"

definition copy_step :: setup_step where
  "copy_step = \<lparr>su_command = ''COPY . /work'', su_reason = ''The repository as it stands. Nothing outside it travels.'', su_source = None\<rparr>"

definition build_reproduction ::
  "scan_report \<Rightarrow> string option \<Rightarrow> string option \<Rightarrow> string list \<Rightarrow> string option \<Rightarrow> reproduction" where
  "build_reproduction report failing_command expected_symptom present_lockfiles base_digest =
     (let installs = install_steps (sr_requirements report) present_lockfiles in
      \<lparr>rp_base_image = base_for (sr_requirements report), rp_base_digest = base_digest,
       rp_steps = copy_step # installs, rp_failing_command = failing_command, rp_expected_symptom = expected_symptom,
       rp_preconditions = (if installs = [] \<and> has_text failing_command then [no_install_step] else []) @ preconditions report,
       rp_platform = ''linux'',
       rp_metadata = [(''devrepro_version'', sr_devrepro_version report),
         (''observed_on'', pl_os_name (sr_platform report) @ '' '' @ pl_arch (sr_platform report)),
         (''scanned_at'', sr_created_at report)]\<rparr>)"

section \<open>Which installs a recipe has\<close>

lemma install_from_exact:
  assumes "distinct (map fst table)" and "set seen \<inter> set (map fst table) = {}"
  shows "install_from ecosystems present seen table =
    map (\<lambda>(e, l, c). install_step (l, c)) (filter (\<lambda>(e, l, c). l \<in> set present \<and> claims ecosystems e) table)"
  using assms
proof (induction ecosystems present seen table rule: install_from.induct)
  case (2 ecosystems present seen e lockfile command rest)
  then show ?case by auto
qed simp

text \<open>
  A recipe installs exactly from the lockfiles that are present and whose package manager the
  requirements name, in the order of the table, and nothing else; without any of them, a recipe with
  a failing command starts its preconditions with the warning that nothing is installed.
\<close>

theorem recipe_installs_what_is_locked:
  "map su_command (rp_steps (build_reproduction report failing symptom present digest)) =
     ''COPY . /work'' # map (\<lambda>(e, l, c). c)
       (filter (\<lambda>(e, l, c). l \<in> set present \<and> claims (map r_ecosystem (sr_requirements report)) e) INSTALL_COMMANDS) \<and>
   (no_install_step \<in> set (rp_preconditions (build_reproduction report failing symptom present digest)) \<longleftrightarrow>
     has_text failing \<and> (\<nexists>e l c. (e, l, c) \<in> set INSTALL_COMMANDS \<and> l \<in> set present \<and>
       claims (map r_ecosystem (sr_requirements report)) e))"
proof -
  have d: "distinct (map fst INSTALL_COMMANDS)" by code_simp
  have i: "install_steps (sr_requirements report) present = map (\<lambda>(e, l, c). install_step (l, c))
      (filter (\<lambda>(e, l, c). l \<in> set present \<and> claims (map r_ecosystem (sr_requirements report)) e) INSTALL_COMMANDS)"
    unfolding install_steps_def using d by (intro install_from_exact) simp_all
  have "pc_kind p \<noteq> ''no-install-step''" if "p \<in> set (preconditions report)" for p
    using that by (auto simp: preconditions_def split: option.splits if_splits)
  moreover have "pc_kind no_install_step = ''no-install-step''" by (simp add: no_install_step_def)
  ultimately have n: "no_install_step \<notin> set (preconditions report)" by metis
  have c: "su_command (install_step x) = snd x" for x by (simp add: install_step_def split: prod.splits)
  show ?thesis
    using n by (auto simp: build_reproduction_def Let_def i copy_step_def c o_def case_prod_beta filter_empty_conv) blast
qed

text \<open>
  The detectors name languages, the table names package managers: of all the commands only those
  of \<open>pip\<close> and \<open>go\<close> can ever be in a recipe of a scanned project, whatever lockfiles it has.
\<close>

lemma claimed_table:
  "list_all (\<lambda>(e, l, c). e \<in> set ECOSYSTEMS \<or> e = ''pip'' \<longrightarrow> c \<in> {''pip install --no-deps -r requirements.txt'', ''go mod download''})
     INSTALL_COMMANDS"
  by code_simp

theorem node_and_rust_are_never_installed:
  assumes "detect_requirements env pj = Inr (sr_requirements report)"
    and "s \<in> set (rp_steps (build_reproduction report failing symptom present digest))"
  shows "su_command s \<in> {''COPY . /work'', ''pip install --no-deps -r requirements.txt'', ''go mod download''}"
proof -
  have "list_all proper_req (sr_requirements report)" using detected_proper [OF assms(1)] .
  then have eco: "set (map r_ecosystem (sr_requirements report)) \<subseteq> set ECOSYSTEMS"
    by (auto simp: list_all_iff proper_req_def)
  have d: "distinct (map fst INSTALL_COMMANDS)" by code_simp
  have i: "install_steps (sr_requirements report) present = map (\<lambda>(e, l, c). install_step (l, c))
      (filter (\<lambda>(e, l, c). l \<in> set present \<and> claims (map r_ecosystem (sr_requirements report)) e) INSTALL_COMMANDS)"
    unfolding install_steps_def using d by (intro install_from_exact) simp_all
  consider "s = copy_step" | e l c where "(e, l, c) \<in> set INSTALL_COMMANDS" "claims (map r_ecosystem (sr_requirements report)) e"
      "s = install_step (l, c)"
    using assms(2) by (auto simp: build_reproduction_def Let_def i)
  then show ?thesis
  proof cases
    case 1
    then show ?thesis by (simp add: copy_step_def)
  next
    case 2
    then have "e \<in> set ECOSYSTEMS \<or> e = ''pip''" using eco by (auto simp: claims_def)
    then show ?thesis using 2 claimed_table by (auto simp: list_all_iff install_step_def)
  qed
qed

text \<open>
  The base image comes from the first requirement of a language, also when it is a dependency: the
  range of a library becomes the version of the runtime.
\<close>

lemma dependency_becomes_the_runtime:
  "\<exists>rs. detect_requirements demo_env demo_project = Inr rs \<and> base_for rs = ''python:2-bookworm''"
proof -
  have "base_for [req ''python'' ''flask'' ''>=2'' RUNTIME ''/r/requirements.txt'', req ''node'' ''node'' ''20'' RUNTIME ''/r/.nvmrc'',
      lock_req ''node'' ''npm-lock@web'' ''/r/web/package-lock.json'',
      req ''go'' ''ci:go'' ''1.22'' RUNTIME ''/r/.github/workflows/ci.yml''] = ''python:2-bookworm''"
    by code_simp
  then show ?thesis by (simp add: demo_requirements)
qed

definition demo_report :: "project_requirement list \<Rightarrow> scan_report" where
  "demo_report rs =
     \<lparr>sr_schema_version = ''2.0'', sr_created_at = ''2025-01-01T00:00:00'', sr_devrepro_version = ''1'',
      sr_platform = \<lparr>pl_os_name = ''Linux'', pl_os_version = [], pl_arch = ''x86_64'', pl_kernel = None, pl_shell = None, pl_is_wsl = False\<rparr>,
      sr_findings = [], sr_tools = [], sr_path_analysis = None, sr_requirements = rs, sr_policy_applied = False, sr_score = None,
      sr_probe_errors = [], sr_containers = None, sr_wsl = None, sr_gpu = None\<rparr>"

theorem node_and_rust_are_never_installed_witness:
  "\<exists>rs. detect_requirements demo_env demo_project = Inr rs \<and>
     su_command (last (rp_steps (build_reproduction (demo_report rs) None None [''package-lock.json'', ''requirements.txt''] None)))
       \<in> {''COPY . /work'', ''pip install --no-deps -r requirements.txt'', ''go mod download''}"
proof -
  obtain rs where rs: "detect_requirements demo_env demo_project = Inr rs" using demo_requirements by blast
  then have r: "detect_requirements demo_env demo_project = Inr (sr_requirements (demo_report rs))" by (simp add: demo_report_def)
  let ?steps = "rp_steps (build_reproduction (demo_report rs) None None [''package-lock.json'', ''requirements.txt''] None)"
  have "?steps \<noteq> []" by (simp add: build_reproduction_def Let_def)
  then show ?thesis using node_and_rust_are_never_installed [OF r, of "last ?steps" None None "[''package-lock.json'', ''requirements.txt'']" None] rs
    by (intro exI conjI) (assumption, simp only: last_in_set not_False_eq_True)
qed

end
