(* ===== verification/Recipe_Emit.thy ===== *)
theory Recipe_Emit
  imports Reproduction Json_Layout
begin

text \<open>
  \<open>src/devrepro/reproduce/emit.py\<close> and \<open>adapters.py\<close>: the files a recipe is rendered to, and the
  comparison of rendered files with those on disk in \<open>cli/commands/reproduction.py\<close>.
\<close>

section \<open>Text\<close>

definition NL :: string where
  "NL = [CHR 0x0A]"

text \<open>\<open>_NL.join(lines) + _NL\<close>.\<close>

definition as_text :: "string list \<Rightarrow> string" where
  "as_text lines = join NL lines @ NL"

definition EMIT_FORMATS :: "string list" where
  "EMIT_FORMATS = [''dockerfile'', ''script'', ''compose'', ''devcontainer'', ''nix'']"

definition quotation :: "string \<Rightarrow> string" where
  "quotation s = [CHR 0x22] @ s @ [CHR 0x22]"

definition PROVENANCE_PREFIXES :: "string list" where
  "PROVENANCE_PREFIXES = [''Scanned at:'', quotation ''//generated-at'']"

definition is_provenance :: "string \<Rightarrow> bool" where
  "is_provenance line \<longleftrightarrow> list_ex (contains line) PROVENANCE_PREFIXES"

definition strip_provenance :: "string \<Rightarrow> string" where
  "strip_provenance content = join NL (filter (\<lambda>l. \<not> is_provenance l) (splitlines content))"

section \<open>The header\<close>

definition meta :: "reproduction \<Rightarrow> string \<Rightarrow> string \<Rightarrow> string" where
  "meta r key dflt = (case map_of (rp_metadata r) key of None \<Rightarrow> dflt | Some v \<Rightarrow> v)"

definition origin_lines :: "reproduction \<Rightarrow> string \<Rightarrow> string list" where
  "origin_lines r c =
     [c @ '' Generated by devrepro '' @ meta r ''devrepro_version'' ''?'' @ ''.'',
      c @ '' Observed on: '' @ meta r ''observed_on'' ''unknown'']"

definition scan_line :: "reproduction \<Rightarrow> string \<Rightarrow> string" where
  "scan_line r c = c @ '' Scanned at:  '' @ meta r ''scanned_at'' ''unknown''"

definition notice_lines :: "reproduction \<Rightarrow> string \<Rightarrow> string list" where
  "notice_lines r c =
     [c @ '' REVIEW BEFORE RUNNING. This is a draft of a reproduction, not a'',
      c @ '' verified one -- nothing here has been built or executed.''] @
     (if pinned r then []
      else [c @ '' NOT PINNED: the base image is referenced by a mutable tag, so'',
            c @ '' this file can produce a different container next month. Re-run'',
            c @ '' with a reachable container engine to resolve a digest.'']) @
     (if reproduces r then []
      else [c @ '' NO FAILING COMMAND was supplied, so this sets up an environment'',
            c @ '' and stops. Pass --failing-command to make it a reproduction:'',
            c @ '' one that stops working when somebody fixes the cause.'']) @
     map (\<lambda>p. c @ '' PRECONDITION ['' @ pc_kind p @ '']: '' @ pc_detail p) (rp_preconditions r)"

definition header :: "reproduction \<Rightarrow> string list" where
  "header r = origin_lines r ''#'' @ scan_line r ''#'' # notice_lines r ''#''"

section \<open>Dockerfile\<close>

definition is_directive :: "string \<Rightarrow> bool" where
  "is_directive command \<longleftrightarrow> list_ex (\<lambda>p. prefix p command) [''COPY '', ''ADD '', ''ENV '', ''ARG '']"

definition step_directive :: "setup_step \<Rightarrow> string" where
  "step_directive s = (if is_directive (su_command s) then su_command s else ''RUN '' @ su_command s)"

definition step_lines :: "setup_step \<Rightarrow> string list" where
  "step_lines s =
     [''# '' @ su_reason s] @ (if has_text (su_source s) then [''# source: '' @ the (su_source s)] else []) @
     [step_directive s, []]"

definition command_line :: "string \<Rightarrow> string" where
  "command_line command = ''CMD ['' @ quotation ''sh'' @ '', '' @ quotation ''-c'' @ '', '' @ dump_string command @ '']''"

definition failing_lines :: "reproduction \<Rightarrow> string list" where
  "failing_lines r =
     (if has_text (rp_failing_command r) then
        [''# The command that failed. CMD rather than RUN on purpose: a RUN'',
         ''# that fails aborts the build, which looks the same as a broken'',
         ''# recipe. This way the container exits with the failure'' @ [CHR 0x27] @ ''s status.''] @
        (if has_text (rp_expected_symptom r) then [''# Expected: '' @ the (rp_expected_symptom r)] else []) @
        [command_line (the (rp_failing_command r))]
      else [])"

definition dockerfile_lines :: "reproduction \<Rightarrow> string list" where
  "dockerfile_lines r =
     header r @ [[], ''FROM '' @ image_reference r, ''WORKDIR /work'', []] @ concat (map step_lines (rp_steps r)) @ failing_lines r"

definition render_dockerfile :: "reproduction \<Rightarrow> string" where
  "render_dockerfile r = as_text (dockerfile_lines r)"

section \<open>The other formats\<close>

definition script_body :: "reproduction \<Rightarrow> string list" where
  "script_body r =
     [[], ''TAG='' @ quotation ''devrepro-repro:$(date +%s)'', ''docker build -t '' @ quotation ''$TAG'' @ '' -f Dockerfile.repro .'', []] @
     (if has_text (rp_failing_command r) then
        [''set +e'', ''docker run --rm '' @ quotation ''$TAG'', ''status=$?'', ''set -e'', [], ''if [ $status -eq 0 ]; then'',
         ''  echo '' @ quotation ''NOT REPRODUCED: the command succeeded in this container.'',
         ''  echo '' @ quotation ''Either the cause is not in the environment this recipe'',
         ''  echo '' @ quotation ''captures, or it has already been fixed.'', ''  exit 1'', ''fi'',
         ''echo '' @ quotation ''REPRODUCED: exited $status, as reported.''] @
        (if has_text (rp_expected_symptom r)
         then [''echo '' @ quotation (''Expected symptom: '' @ the (rp_expected_symptom r))] else []) @
        [''echo '' @ quotation ''Note: check the failure matches. A different failure is not'',
         ''echo '' @ quotation ''a reproduction, and is the usual way this wastes time.'', ''exit 0'']
      else [''docker run --rm -it '' @ quotation ''$TAG'' @ '' bash''])"

definition render_repro_script :: "reproduction \<Rightarrow> string" where
  "render_repro_script r = as_text ([''#!/usr/bin/env bash'', ''set -euo pipefail''] @ header r @ script_body r)"

definition compose_body :: "(string \<times> int) list \<Rightarrow> string list" where
  "compose_body services =
     [[], ''services:'', ''  repro:'', ''    build:'', ''      context: .'', ''      dockerfile: Dockerfile.repro''] @
     (if services \<noteq> [] then ''    depends_on:'' # map (\<lambda>(name, port). ''      - '' @ name) services else []) @ [[]] @
     concat (map (\<lambda>(name, port).
       [''  '' @ name @ '':'', ''    image: '' @ name @ '':latest  # REVIEW: pin this before relying on it'', ''    ports:'',
        ''      - '' @ quotation (str_int port @ '':'' @ str_int port), []]) services) @
     (if services = [] then
        [''# No additional services: nothing in this project declared any.'',
         ''# A reproduction that starts a database nobody asked for is one'', ''# more thing that can fail for the wrong reason.'']
      else [])"

definition render_compose :: "(string \<times> int) list \<Rightarrow> reproduction \<Rightarrow> string" where
  "render_compose services r = as_text (header r @ compose_body services)"

definition devcontainer_payload :: "(string \<times> string) list \<Rightarrow> reproduction \<Rightarrow> json" where
  "devcontainer_payload features r = JObj
     ([(''//'', JStr (''Generated by devrepro - REVIEW REQUIRED. Opens a shell in the environment '' @
          ''where the failure was reported, rather than running the failure.'')),
       (''name'', JStr ''devrepro-reproduction''), (''image'', JStr (image_reference r))] @
      (if pinned r then []
       else [(''//pinning'', JStr ''Referenced by a mutable tag. The same file can open a different container next month.'')]) @
      (if features \<noteq> [] then [(''features'', JObj (map (\<lambda>(k, v). (k, JStr v)) features))] else []) @
      (if has_text (rp_failing_command r) then [(''//failing-command'', JStr (the (rp_failing_command r)))] else []) @
      (if rp_preconditions r \<noteq> [] then [(''//preconditions'', JList (map (\<lambda>p. JStr (pc_detail p)) (rp_preconditions r)))] else []))"

definition render_devcontainer :: "(string \<times> string) list \<Rightarrow> reproduction \<Rightarrow> string" where
  "render_devcontainer features r = dump_indent (devcontainer_payload features r) @ NL"

definition nix_body :: "string list \<Rightarrow> string list" where
  "nix_body packages =
     [[], ''{'', ''  description = '' @ quotation ''Reproduction environment drafted by devrepro - REVIEW REQUIRED'' @ '';'', [],
      ''  inputs.nixpkgs.url = '' @ quotation ''github:NixOS/nixpkgs/nixos-unstable'' @ '';'',
      ''  # REVIEW: `nixos-unstable` is a moving target. Pin it to a revision'',
      ''  # before relying on this, or the flake reproduces something else.'', [], ''  outputs = { self, nixpkgs }:'', ''    let'',
      ''      system = '' @ quotation ''x86_64-linux'' @ '';'', ''      pkgs = nixpkgs.legacyPackages.${system};'', ''    in {'',
      ''      devShells.${system}.default = pkgs.mkShell {'',
      (if packages \<noteq> [] then ''        packages = [ '' @ join '' '' (map (\<lambda>n. ''pkgs.'' @ n) packages) @ '' ];''
       else ''        packages = [ ];  # nothing detected that maps to a nixpkgs name''),
      ''      };'', ''    };'', ''}'']"

definition render_nix_flake :: "string list \<Rightarrow> reproduction \<Rightarrow> string" where
  "render_nix_flake packages r = as_text (header r @ nix_body packages)"

section \<open>Adapters\<close>

datatype adapter_error = Unknown_Sandbox string

definition ADAPTERS :: "(string \<times> string \<times> string) list" where
  "ADAPTERS =
     [(''e2b'', ''e2b.Dockerfile'', ''E2B builds a custom template from a Dockerfile.''),
      (''daytona'', ''.devcontainer/devcontainer.json'', ''Daytona reads a standard devcontainer; no bespoke format is needed.''),
      (''container-use'', ''container-use.json'', ''dagger'' @ [CHR 0x27] @ ''s container-use takes a base image and a setup command list.'')]"

definition cmd_marker :: string where
  "cmd_marker = ''CMD ['' @ quotation ''sh'' @ '', '' @ quotation ''-c''"

definition e2b_file :: "reproduction \<Rightarrow> string" where
  "e2b_file r =
     (let body = render_dockerfile r in
      if has_text (rp_failing_command r) then
        m_sub (m_lit cmd_marker)
          (as_text [''# E2B starts sessions from this template rather than running it, so'',
             ''# the failing command belongs in the session, not in the image:'', ''#   '' @ the (rp_failing_command r)] @
           ''# '' @ cmd_marker) body
      else body)"

definition container_use_payload :: "reproduction \<Rightarrow> json" where
  "container_use_payload r = JObj
     ([(''//'', JStr (''Generated by devrepro - REVIEW REQUIRED. A draft written from public '' @ ''documentation, not a certified configuration.'')),
       (''image'', JStr (image_reference r)),
       (''setup'', JList (map JStr (filter (\<lambda>c. \<not> prefix ''COPY '' c) (map su_command (rp_steps r))))),
       (''command'', opt_json (rp_failing_command r)), (''notes'', JList (map (\<lambda>p. JStr (pc_detail p)) (rp_preconditions r)))] @
      (if pinned r then []
       else [(''//pinning'', JStr (''The base image is a mutable tag; the sandbox can start a different '' @ ''container next month.''))]))"

definition render_adapter :: "(string \<Rightarrow> string) \<Rightarrow> string \<Rightarrow> reproduction \<Rightarrow> adapter_error + string \<times> string" where
  "render_adapter quote name r =
     (case map_of ADAPTERS name of
        None \<Rightarrow> Inl (Unknown_Sandbox (''unknown sandbox '' @ quote name @ '': '' @ join '', '' (sort (map fst ADAPTERS))))
      | Some (filename, description) \<Rightarrow>
          Inr (filename,
            if name = ''e2b'' then e2b_file r
            else if name = ''daytona'' then render_devcontainer [] r
            else dump_indent (container_use_payload r) @ NL))"

section \<open>The check of the files on disk\<close>

definition RENDERERS :: "(string \<times> string \<times> (reproduction \<Rightarrow> string)) list" where
  "RENDERERS =
     [(''dockerfile'', ''Dockerfile.repro'', render_dockerfile), (''script'', ''repro.sh'', render_repro_script),
      (''compose'', ''compose.repro.yaml'', render_compose []), (''devcontainer'', ''.devcontainer/devcontainer.json'', render_devcontainer []),
      (''nix'', ''flake.nix'', render_nix_flake [])]"

definition recipe_files :: "string \<Rightarrow> reproduction \<Rightarrow> (string \<times> string) list" where
  "recipe_files emit_format r =
     map (\<lambda>(n, fname, render). (fname, render r)) (filter (\<lambda>(n, fname, render). emit_format = ''all'' \<or> n = emit_format) RENDERERS)"

text \<open>The stale and the missing files; \<open>disk\<close> gives the text of a file.\<close>

definition check_files :: "(string \<Rightarrow> string option) \<Rightarrow> (string \<times> string) list \<Rightarrow> string list \<times> string list" where
  "check_files disk files =
     (concat (map (\<lambda>(name, content). case disk name of
         None \<Rightarrow> [] | Some t \<Rightarrow> if strip_provenance t \<noteq> strip_provenance content then [name] else []) files),
      map fst (filter (\<lambda>(name, content). disk name = None) files))"

section \<open>What a Dockerfile runs\<close>

text \<open>
  The directives of a Dockerfile: the lines that are neither blank nor comments. (A backslash that
  ends a line would continue it; no line here ends in one but the last.)
\<close>

definition directives :: "string \<Rightarrow> string list" where
  "directives t = filter (\<lambda>l. lstrip l \<noteq> [] \<and> hd (lstrip l) \<noteq> CHR ''#'') (split_on NL t)"

definition one_line :: "string \<Rightarrow> bool" where
  "one_line s \<longleftrightarrow> CHR 0x0A \<notin> set s"

text \<open>No text of the recipe has a newline in it, but perhaps the failing command.\<close>

definition one_line_recipe :: "reproduction \<Rightarrow> bool" where
  "one_line_recipe r \<longleftrightarrow>
     one_line (rp_base_image r) \<and> (\<forall>d. rp_base_digest r = Some d \<longrightarrow> one_line d) \<and>
     (\<forall>s. rp_expected_symptom r = Some s \<longrightarrow> one_line s) \<and> list_all (\<lambda>(k, v). one_line v) (rp_metadata r) \<and>
     list_all (\<lambda>p. one_line (pc_kind p) \<and> one_line (pc_detail p)) (rp_preconditions r) \<and>
     list_all (\<lambda>s. one_line (su_command s) \<and> one_line (su_reason s) \<and> (\<forall>x. su_source s = Some x \<longrightarrow> one_line x) \<and>
       (is_directive (su_command s) \<or> su_command s \<noteq> [])) (rp_steps r)"

named_theorems one_line_rules \<open>texts without a newline\<close>

lemma one_line_append [one_line_rules]: "one_line (a @ b) \<longleftrightarrow> one_line a \<and> one_line b"
  by (auto simp: one_line_def)

lemma one_line_Cons [one_line_rules]: "one_line (c # b) \<longleftrightarrow> c \<noteq> CHR 0x0A \<and> one_line b"
  by (auto simp: one_line_def)

lemma one_line_Nil [one_line_rules]: "one_line []"
  by (simp add: one_line_def)

lemma one_line_dump [one_line_rules]: "one_line (dump_string s)"
proof -
  have "\<not> printable (CHR 0x0A)" by (simp add: printable_def)
  then show ?thesis using printable_string by (auto simp: one_line_def)
qed

lemma one_line_meta: "list_all (\<lambda>(k, v). one_line v) (rp_metadata r) \<Longrightarrow> one_line dflt \<Longrightarrow> one_line (meta r key dflt)"
  by (auto simp: meta_def list_all_iff split: option.splits dest: map_of_SomeD)

definition comment :: "string \<Rightarrow> bool" where
  "comment l \<longleftrightarrow> prefix ''#'' l"

definition live :: "string \<Rightarrow> bool" where
  "live l \<longleftrightarrow> lstrip l \<noteq> [] \<and> hd (lstrip l) \<noteq> CHR ''#''"

lemma comment_not_live: "comment l \<Longrightarrow> \<not> live l"
  by (cases l) (auto simp: comment_def live_def lstrip_def is_space_def)

lemma directives_of_lines:
  assumes "lines \<noteq> []" and "list_all one_line lines"
  shows "directives (as_text lines) = filter live lines"
proof -
  have "split_on NL (join NL lines @ CHR 0x0A # []) = split_on NL (join NL lines) @ split_on NL []"
    unfolding NL_def by (rule split_on_append)
  moreover have "split_on NL (join NL lines) = lines"
    unfolding NL_def using assms by (intro split_on_join) (auto simp: list_all_iff one_line_def)
  ultimately show ?thesis
    by (simp add: directives_def as_text_def NL_def live_def [abs_def] split_on_def split_from_Nil lstrip_def)
qed

lemma hash_not_live: "\<not> live (CHR ''#'' # t)"
  by (rule comment_not_live) (simp add: comment_def)

lemma blank_not_live: "\<not> live []"
  by (simp add: live_def lstrip_def)

lemma header_lines:
  assumes "one_line_recipe r"
  shows "list_all one_line (header r)" and "filter live (header r) = []"
proof -
  have m: "one_line (meta r key dflt)" if "one_line dflt" for key dflt
    using assms that by (intro one_line_meta) (auto simp: one_line_recipe_def)
  have p: "list_all (\<lambda>p. one_line (pc_kind p) \<and> one_line (pc_detail p)) (rp_preconditions r)"
    using assms by (simp add: one_line_recipe_def)
  show "list_all one_line (header r)"
    using p by (auto simp: header_def origin_lines_def scan_line_def notice_lines_def list_all_append list_all_iff one_line_rules m)
  have "list_all comment (header r)"
    by (auto simp: header_def origin_lines_def scan_line_def notice_lines_def list_all_append list_all_iff comment_def)
  then show "filter live (header r) = []" using comment_not_live by (auto simp: filter_empty_conv list_all_iff)
qed

lemma lstrip_word: "\<not> is_space c \<Longrightarrow> lstrip (c # s) = c # s"
  by (simp add: lstrip_def)

lemma letters_no_space: "\<not> is_space (CHR ''F'')" "\<not> is_space (CHR ''W'')" "\<not> is_space (CHR ''R'')" "\<not> is_space (CHR ''C'')"
    "\<not> is_space (CHR ''A'')" "\<not> is_space (CHR ''E'')"
  by (simp_all add: is_space_def)

lemma live_step: "live (step_directive s)"
proof (cases "is_directive (su_command s)")
  case True
  then show ?thesis
    by (auto simp: step_directive_def is_directive_def live_def prefix_def lstrip_word letters_no_space)
qed (simp add: step_directive_def live_def lstrip_word letters_no_space)

lemma step_lines_live:
  assumes "one_line (su_command s)" "one_line (su_reason s)" "\<And>x. su_source s = Some x \<Longrightarrow> one_line x"
  shows "list_all one_line (step_lines s)" and "filter live (step_lines s) = [step_directive s]"
proof -
  show "list_all one_line (step_lines s)"
    using assms by (auto simp: step_lines_def step_directive_def has_text_def one_line_rules)
  show "filter live (step_lines s) = [step_directive s]"
    by (simp add: step_lines_def live_step hash_not_live blank_not_live)
qed


lemma steps_live:
  assumes "list_all (\<lambda>s. one_line (su_command s) \<and> one_line (su_reason s) \<and> (\<forall>x. su_source s = Some x \<longrightarrow> one_line x)) ss"
  shows "list_all one_line (concat (map step_lines ss))" and "filter live (concat (map step_lines ss)) = map step_directive ss"
  using assms step_lines_live by (induction ss) (auto simp: list_all_append)





section \<open>The time of the scan does not make a recipe stale\<close>

lemma splitlines_from_newline:
  "splitlines_from acc (x @ CHR 0x0A # y) = splitlines_from acc (x @ [CHR 0x0A]) @ splitlines_from [] y"
proof (induction x arbitrary: acc rule: length_induct)
  case (1 x)
  have nl: "line_break (CHR 0x0A)" by (simp add: line_break_def)
  show ?case
  proof (cases x)
    case Nil
    then show ?thesis by (simp add: nl)
  next
    case (Cons c t)
    show ?thesis
    proof (cases "c = CHR 0x0D \<and> t @ [CHR 0x0A] \<noteq> [] \<and> hd (t @ [CHR 0x0A]) = CHR 0x0A")
      case True
      show ?thesis
      proof (cases t)
        case Nil
        then show ?thesis using True Cons by simp
      next
        case (Cons d u)
        then have "splitlines_from [] (u @ CHR 0x0A # y) = splitlines_from [] (u @ [CHR 0x0A]) @ splitlines_from [] y"
          using 1 \<open>x = c # t\<close> by simp
        then show ?thesis using True Cons \<open>x = c # t\<close> by simp
      qed
    next
      case False
      then have "\<not> (c = CHR 0x0D \<and> hd (t @ CHR 0x0A # y) = CHR 0x0A)" by (cases t) auto
      moreover have "splitlines_from b (t @ CHR 0x0A # y) = splitlines_from b (t @ [CHR 0x0A]) @ splitlines_from [] y" for b
        using 1 Cons by simp
      ultimately show ?thesis using False Cons by (cases "line_break c") auto
    qed
  qed
qed

lemma splitlines_newline: "splitlines (x @ CHR 0x0A # y) = splitlines (x @ [CHR 0x0A]) @ splitlines y"
  unfolding splitlines_def by (rule splitlines_from_newline)

definition kept :: "string \<Rightarrow> string list" where
  "kept t = filter (\<lambda>l. \<not> is_provenance l) (splitlines t)"

lemma kept_newline: "kept (x @ CHR 0x0A # y) = kept (x @ [CHR 0x0A]) @ kept y"
  unfolding kept_def splitlines_newline [of x y] by (rule filter_append)

lemma kept_Nil: "kept [] = []"
  by (simp add: kept_def splitlines_def)

lemma kept_as_text: "kept (as_text ls) = concat (map (\<lambda>l. kept (l @ [CHR 0x0A])) ls) @ (if ls = [] then kept [CHR 0x0A] else [])"
proof (induction ls)
  case (Cons l ls)
  show ?case
  proof (cases ls)
    case Nil
    then show ?thesis by (simp add: as_text_def NL_def)
  next
    case more: (Cons m ms)
    then have "as_text (l # ls) = l @ CHR 0x0A # as_text ls" by (simp add: as_text_def NL_def join_Cons)
    then have "kept (as_text (l # ls)) = kept (l @ [CHR 0x0A]) @ kept (as_text ls)"
      using kept_newline [of l "as_text ls"] by simp
    then show ?thesis using Cons more by simp
  qed
qed (simp add: as_text_def NL_def)

lemma kept_scan_line:
  assumes "\<forall>c\<in>set (meta r ''scanned_at'' ''unknown''). \<not> line_break c"
  shows "kept (scan_line r ''#'' @ [CHR 0x0A]) = []"
proof -
  have "\<forall>c\<in>set (scan_line r ''#''). \<not> line_break c" using assms by (auto simp: scan_line_def line_break_def)
  then have "splitlines (scan_line r ''#'' @ [CHR 0x0A]) = [scan_line r ''#'']"
    using splitlines_line [of "scan_line r ''#''" "[]"] by (simp add: splitlines_def)
  moreover have "contains (scan_line r ''#'') ''Scanned at:''"
  proof -
    have "scan_line r ''#'' = ''# '' @ ''Scanned at:'' @ (''  '' @ meta r ''scanned_at'' ''unknown'')" by (simp add: scan_line_def)
    then show ?thesis unfolding contains_def by (metis sublist_appendI)
  qed
  then have "is_provenance (scan_line r ''#'')" by (simp add: is_provenance_def PROVENANCE_PREFIXES_def)
  ultimately show ?thesis by (simp add: kept_def)
qed

text \<open>The recipe of another scan of the same machine.\<close>

definition scanned_at :: "string \<Rightarrow> reproduction \<Rightarrow> reproduction" where
  "scanned_at t r = r\<lparr>rp_metadata := dict_set ''scanned_at'' t (rp_metadata r)\<rparr>"

lemma meta_scanned: "meta (scanned_at t r) key dflt = (if key = ''scanned_at'' then t else meta r key dflt)"
  by (simp add: meta_def scanned_at_def map_of_dict_set)

lemma scanned_parts [simp]:
  "pinned (scanned_at t r) = pinned r" "reproduces (scanned_at t r) = reproduces r" "image_reference (scanned_at t r) = image_reference r"
  "rp_steps (scanned_at t r) = rp_steps r" "rp_failing_command (scanned_at t r) = rp_failing_command r"
  "rp_expected_symptom (scanned_at t r) = rp_expected_symptom r" "rp_preconditions (scanned_at t r) = rp_preconditions r"
  by (simp_all add: scanned_at_def pinned_def reproduces_def image_reference_def split: option.split list.split)

lemma scanned_lines [simp]:
  "origin_lines (scanned_at t r) c = origin_lines r c" "notice_lines (scanned_at t r) c = notice_lines r c"
  "failing_lines (scanned_at t r) = failing_lines r" "script_body (scanned_at t r) = script_body r"
  "render_devcontainer fs (scanned_at t r) = render_devcontainer fs r"
  by (simp_all add: origin_lines_def notice_lines_def failing_lines_def script_body_def meta_scanned
      render_devcontainer_def devcontainer_payload_def)

lemma kept_header:
  assumes "\<forall>c\<in>set t. \<not> line_break c"
  shows "kept (as_text (before_it @ header (scanned_at t r) @ after_it)) =
    concat (map (\<lambda>l. kept (l @ [CHR 0x0A])) (before_it @ origin_lines r ''#'' @ notice_lines r ''#'' @ after_it))"
  using kept_scan_line [of "scanned_at t r"] assms by (simp add: kept_as_text header_def meta_scanned)

lemma strip_kept: "strip_provenance content = join NL (kept content)"
  by (simp add: strip_provenance_def kept_def)

lemma rendered_alike:
  assumes "(n, fname, render) \<in> set RENDERERS" and "\<forall>c\<in>set t. \<not> line_break c" and "\<forall>c\<in>set t'. \<not> line_break c"
  shows "strip_provenance (render (scanned_at t r)) = strip_provenance (render (scanned_at t' r))"
proof -
  note k = kept_header [OF assms(2)] kept_header [OF assms(3)]
  have d: "kept (render_dockerfile (scanned_at t r)) = kept (render_dockerfile (scanned_at t' r))"
    using k [of "[]"] by (simp add: render_dockerfile_def dockerfile_lines_def)
  have s: "kept (render_repro_script (scanned_at t r)) = kept (render_repro_script (scanned_at t' r))"
    using k [of "[''#!/usr/bin/env bash'', ''set -euo pipefail'']" r] by (simp add: render_repro_script_def)
  have c: "kept (render_compose [] (scanned_at t r)) = kept (render_compose [] (scanned_at t' r))"
    using k [of "[]"] by (simp add: render_compose_def)
  have x: "kept (render_nix_flake [] (scanned_at t r)) = kept (render_nix_flake [] (scanned_at t' r))"
    using k [of "[]"] by (simp add: render_nix_flake_def)
  have "render \<in> {render_dockerfile, render_repro_script, render_compose [], render_devcontainer [], render_nix_flake []}"
    using assms(1) by (auto simp: RENDERERS_def)
  then show ?thesis using d s c x by (auto simp: strip_kept)
qed

text \<open>
  C34: A file that was written from a recipe is not stale because the project was scanned again: the
  check of an unchanged project reports nothing, whatever its texts are.
\<close>

theorem fresh_recipes_pass_the_check:
  assumes "\<And>name. disk name = map_of (recipe_files emit_format (scanned_at t r)) name"
    and "\<forall>c\<in>set t. \<not> line_break c" and "\<forall>c\<in>set t'. \<not> line_break c"
  shows "check_files disk (recipe_files emit_format (scanned_at t' r)) = ([], [])"
proof -
  have d: "distinct (map (\<lambda>(n, fname, render). fname) RENDERERS)" by (simp add: RENDERERS_def)
  have key: "disk fname = Some (render (scanned_at t r))" if "(n, fname, render) \<in> set RENDERERS" "emit_format = ''all'' \<or> n = emit_format"
    for n fname render
  proof -
    have "(fname, render (scanned_at t r)) \<in> set (recipe_files emit_format (scanned_at t r))"
      using that by (force simp: recipe_files_def)
    moreover have "map fst (recipe_files emit_format (scanned_at t r)) =
        map (\<lambda>(n, fname, render). fname) (filter (\<lambda>(n, fname, render). emit_format = ''all'' \<or> n = emit_format) RENDERERS)"
      by (simp add: recipe_files_def case_prod_beta o_def)
    then have "distinct (map fst (recipe_files emit_format (scanned_at t r)))" using d by (simp add: distinct_map_filter)
    ultimately show ?thesis using assms(1) by simp
  qed
  have "disk name \<noteq> None \<and> (\<forall>x. disk name = Some x \<longrightarrow> strip_provenance x = strip_provenance content)"
    if "(name, content) \<in> set (recipe_files emit_format (scanned_at t' r))" for name content
  proof -
    from that obtain n render where x: "(n, name, render) \<in> set RENDERERS" "emit_format = ''all'' \<or> n = emit_format"
        "content = render (scanned_at t' r)"
      by (auto simp: recipe_files_def)
    show ?thesis using key [OF x(1,2)] rendered_alike [OF x(1) assms(2,3)] x(3) by auto
  qed
  then show ?thesis by (fastforce simp: check_files_def filter_empty_conv split: option.splits)
qed

section \<open>Recipes of a scan, and a text that is no line\<close>






definition demo_recipe :: "string \<Rightarrow> string \<Rightarrow> reproduction" where
  "demo_recipe command symptom = build_reproduction (demo_report []) (Some command) (Some symptom) [] None"

text \<open>
  The failing command cannot add a directive to the Dockerfile, whatever it is; the second line of a
  symptom is one.
\<close>

lemma join_split: "join NL (a @ (x @ NL @ y) # b) = join NL (a @ x # y # b)"
  by (induction a) (auto simp: join_Cons NL_def)

lemma symptom_adds_a_directive:
  assumes r: "one_line_recipe r" and "has_text (rp_failing_command r)" and "one_line x" and "one_line y" and "live y"
  shows "y \<in> set (directives (render_dockerfile (r\<lparr>rp_expected_symptom := Some (x @ NL @ y)\<rparr>)))"
proof -
  let ?r = "r\<lparr>rp_expected_symptom := Some (x @ NL @ y)\<rparr>"
  have r': "one_line_recipe (r\<lparr>rp_expected_symptom := Some x\<rparr>)" using r assms(3) by (simp add: one_line_recipe_def)
  have h: "header ?r = header r" "image_reference ?r = image_reference r"
    by (simp_all add: header_def origin_lines_def scan_line_def notice_lines_def meta_def pinned_def reproduces_def image_reference_def
        split: option.split list.split)
  obtain pre where pre: "list_all one_line pre"
    and lines: "dockerfile_lines ?r = pre @ (''# Expected: '' @ x @ NL @ y) # [command_line (the (rp_failing_command r))]"
  proof
    let ?pre = "header r @ [[], ''FROM '' @ image_reference r, ''WORKDIR /work'', []] @ concat (map step_lines (rp_steps r)) @
       [''# The command that failed. CMD rather than RUN on purpose: a RUN'',
        ''# that fails aborts the build, which looks the same as a broken'',
        ''# recipe. This way the container exits with the failure'' @ [CHR 0x27] @ ''s status.'']"
    have "one_line (image_reference r)"
      using r by (auto simp: image_reference_def one_line_recipe_def split: option.splits list.splits)
    moreover have "list_all (\<lambda>s. one_line (su_command s) \<and> one_line (su_reason s) \<and> (\<forall>x. su_source s = Some x \<longrightarrow> one_line x)) (rp_steps r)"
      using r by (auto simp: one_line_recipe_def list_all_iff)
    ultimately show "list_all one_line ?pre"
      using header_lines(1) [OF r] steps_live(1) by (simp add: list_all_append one_line_rules)
    have "has_text (rp_expected_symptom ?r)" by (simp add: has_text_def NL_def)
    then show "dockerfile_lines ?r = ?pre @ (''# Expected: '' @ x @ NL @ y) # [command_line (the (rp_failing_command r))]"
      using assms(2) unfolding dockerfile_lines_def h failing_lines_def by simp
  qed
  have "render_dockerfile ?r = as_text (pre @ (''# Expected: '' @ x) # y # [command_line (the (rp_failing_command r))])"
    using join_split [of pre "''# Expected: '' @ x" y] by (simp add: render_dockerfile_def as_text_def lines)
  moreover have "list_all one_line (pre @ (''# Expected: '' @ x) # y # [command_line (the (rp_failing_command r))])"
    using pre assms(3,4) by (simp add: list_all_append one_line_rules command_line_def quotation_def)
  ultimately have "directives (render_dockerfile ?r) =
      filter live (pre @ (''# Expected: '' @ x) # y # [command_line (the (rp_failing_command r))])"
    by (simp only: directives_of_lines append_is_Nil_conv list.distinct not_False_eq_True simp_thms)
  then show ?thesis using assms(5) by simp
qed


theorem fresh_recipes_pass_the_check_witness:
  "check_files (map_of (recipe_files ''all'' (scanned_at ''2025-01-01'' (demo_recipe ''make'' ''wrong''))))
     (recipe_files ''all'' (scanned_at ''2025-01-02'' (demo_recipe ''make'' ''wrong''))) = ([], [])"
  by (rule fresh_recipes_pass_the_check [OF refl]) (simp_all add: line_break_def)

end
