(* ===== verification/Policy.thy ===== *)
theory Policy
  imports Json Models
begin

text \<open>
  \<open>src/devrepro/project/policy.py\<close> and \<open>src/devrepro/project/compose.py\<close>: reading a policy, and
  policies that extend others. A path is the list of its names from the root of a file system without
  symbolic links, so resolving one is reading its dots; the TOML parser and the texts of operating
  system errors are arguments.
\<close>

section \<open>Files\<close>

datatype fs_node = Regular "string option" | Folder

record policy_env =
  pv_node :: "string list \<Rightarrow> fs_node option"
  pv_toml :: "string \<Rightarrow> string + (string \<times> json) list"
  pv_os_error :: "string list \<Rightarrow> string"

text \<open>A policy error with its hint, or a rejection by the data model.\<close>

datatype policy_error = Policy_Error string "string option" | Invalid_Name

definition POLICY_FILENAME :: string where
  "POLICY_FILENAME = ''.devrepro.toml''"

definition path_text :: "string list \<Rightarrow> string" where
  "path_text p = ''/'' @ join ''/'' p"

definition is_regular :: "policy_env \<Rightarrow> string list \<Rightarrow> bool" where
  "is_regular env p \<longleftrightarrow> (case pv_node env p of Some (Regular t) \<Rightarrow> True | _ \<Rightarrow> False)"

definition read_toml :: "policy_env \<Rightarrow> string list \<Rightarrow> string + (string \<times> json) list" where
  "read_toml env p =
     (case pv_node env p of Some (Regular (Some t)) \<Rightarrow> pv_toml env t | _ \<Rightarrow> Inl (pv_os_error env p))"

definition policy_data :: "policy_env \<Rightarrow> string list \<Rightarrow> policy_error + (string \<times> json) list" where
  "policy_data env p =
     (case read_toml env p of
        Inl e \<Rightarrow> Inl (Policy_Error (''Invalid policy file '' @ path_text p @ '': '' @ e) None)
      | Inr d \<Rightarrow> Inr d)"

section \<open>A policy from its table\<close>

text \<open>\<open>data.get(key) or {}\<close>, which must be a table.\<close>

definition section_of :: "(string \<times> json) list \<Rightarrow> string \<Rightarrow> string \<Rightarrow> policy_error + (string \<times> json) list" where
  "section_of d key what =
     (case or_json (dict_get d key) (JObj []) of
        JObj t \<Rightarrow> Inr t
      | _ \<Rightarrow> Inl (Policy_Error (''['' @ key @ ''] must be a table'' @ what) None))"

definition flag :: "(string \<times> json) list \<Rightarrow> string \<Rightarrow> bool \<Rightarrow> bool" where
  "flag t key dflt = py_truth (dict_get_or t key (JBool dflt))"

definition range_entry :: "string \<Rightarrow> string \<times> json \<Rightarrow> policy_error + string \<times> string" where
  "range_entry key = (\<lambda>(k, v).
     case v of
       JStr s \<Rightarrow> Inr (k, s)
     | _ \<Rightarrow> Inl (Policy_Error (''['' @ key @ ''].'' @ k @ '' must be a string range like '' @ [CHR 0x27] @ ''>=3.11'' @ [CHR 0x27]) None))"

definition str_dict :: "(string \<times> json) list \<Rightarrow> string \<Rightarrow> policy_error + (string \<times> string) list" where
  "str_dict d key = bind_res (section_of d key '' of name = range strings'') (map_res (range_entry key))"

definition known_bad_entry :: "string \<times> json \<Rightarrow> policy_error + string \<times> string list" where
  "known_bad_entry = (\<lambda>(k, v).
     case v of
       JStr s \<Rightarrow> Inr (k, [s])
     | JList vs \<Rightarrow> Inr (k, map py_str vs)
     | _ \<Rightarrow> Inl (Policy_Error (''[known_bad_versions].'' @ k @ '' must be a string or list'') None))"

definition env_names :: "json \<Rightarrow> string list" where
  "env_names v =
     (case v of
        JObj t \<Rightarrow> (case dict_get t ''names'' of JList ns \<Rightarrow> map py_str ns | _ \<Rightarrow> [])
      | JList ns \<Rightarrow> map py_str ns
      | _ \<Rightarrow> [])"

definition validated_names :: "string list \<Rightarrow> policy_error + string list" where
  "validated_names ns = (case names_look_like_names ns of Inl e \<Rightarrow> Inl Invalid_Name | Inr xs \<Rightarrow> Inr xs)"

definition policy_from_toml :: "(string \<times> json) list \<Rightarrow> policy_error + policy" where
  "policy_from_toml d =
     bind_res (section_of d ''supported_os'' []) (\<lambda>os.
     bind_res (section_of d ''known_bad_versions'' '' of lists'') (\<lambda>bad_raw.
     bind_res (map_res known_bad_entry bad_raw) (\<lambda>bad.
     bind_res (section_of d ''containers'' []) (\<lambda>cs.
     bind_res (str_dict d ''required_runtimes'') (\<lambda>runtimes.
     bind_res (str_dict d ''required_tools'') (\<lambda>tools.
     bind_res (str_dict d ''optional_tools'') (\<lambda>optional.
     bind_res (validated_names (env_names (or_json (dict_get d ''required_env_names'') (JObj [])))) (\<lambda>names.
       Inr \<lparr>p_supported_os = \<lparr>os_windows = flag os ''windows'' True, os_linux = flag os ''linux'' True, os_macos = flag os ''macos'' True\<rparr>,
         p_required_runtimes = runtimes, p_required_tools = tools, p_optional_tools = optional, p_known_bad_versions = bad,
         p_containers = \<lparr>require_devcontainer = flag cs ''require_devcontainer'' False, require_compose = flag cs ''require_compose'' False\<rparr>,
         p_required_env_names = names\<rparr>))))))))"

text \<open>The search: a given path, else the first of the working directory and its parents.\<close>

fun search_up :: "policy_env \<Rightarrow> string list \<Rightarrow> string list option" where
  "search_up env rev_dir =
     (let candidate = rev rev_dir @ [POLICY_FILENAME] in
      if is_regular env candidate then Some candidate
      else (case rev_dir of [] \<Rightarrow> None | name # up \<Rightarrow> search_up env up))"

declare search_up.simps [simp del]

definition policy_target :: "policy_env \<Rightarrow> string list \<Rightarrow> string list option \<Rightarrow> policy_error + string list" where
  "policy_target env cwd given =
     (case (case given of Some p \<Rightarrow> Some p | None \<Rightarrow> search_up env (rev cwd)) of
        Some p \<Rightarrow>
          if is_regular env p then Inr p
          else Inl (Policy_Error (''No '' @ POLICY_FILENAME @ '' found.'') (Some ''Create one in your project root; see README for the schema.''))
      | None \<Rightarrow>
          Inl (Policy_Error (''No '' @ POLICY_FILENAME @ '' found.'') (Some ''Create one in your project root; see README for the schema.'')))"

definition load_policy :: "policy_env \<Rightarrow> string list \<Rightarrow> string list option \<Rightarrow> policy_error + policy" where
  "load_policy env cwd given =
     bind_res (policy_target env cwd given) (\<lambda>p. bind_res (policy_data env p) policy_from_toml)"

section \<open>The layers of a policy\<close>

definition MAX_POLICY_DEPTH :: nat where
  "MAX_POLICY_DEPTH = 8"

record policy_layer =
  ly_path :: string
  ly_depth :: nat
  ly_label :: string

definition label_for :: "policy_env \<Rightarrow> string list \<Rightarrow> nat \<Rightarrow> string" where
  "label_for env p depth =
     (let d = (case read_toml env p of Inl e \<Rightarrow> [] | Inr d \<Rightarrow> d);
          name = (case dict_get d ''meta'' of JObj meta \<Rightarrow> (case dict_get meta ''name'' of JStr s \<Rightarrow> strip s | _ \<Rightarrow> []) | _ \<Rightarrow> []);
          parent = (if butlast p = [] then [] else last (butlast p)) in
      if name \<noteq> [] then name else if depth = 0 then ''this project'' else if parent \<noteq> [] then parent else last p)"

text \<open>\<open>(directory / entry).resolve()\<close>.\<close>

definition resolve :: "string list \<Rightarrow> string \<Rightarrow> string list" where
  "resolve dir entry =
     foldl (\<lambda>p seg. if seg = [] \<or> seg = ''.'' then p else if seg = ''..'' then butlast p else p @ [seg])
       (if prefix ''/'' entry then [] else dir) (split_on ''/'' entry)"

definition extended :: "policy_env \<Rightarrow> string list \<Rightarrow> json \<Rightarrow> policy_error + string list" where
  "extended env p v =
     (case v of
        JStr entry \<Rightarrow>
          if contains entry ''://'' then
            Inl (Policy_Error (''`extends` may not be a URL ('' @ repr_string entry @ '').'')
              (Some (''Loading a policy would become a network operation, and this '' @
                ''tool does not use the network unless a flag says to. Vendor or '' @ ''sync the shared policy to a path instead.'')))
          else (let named = resolve (butlast p) entry;
                    candidate = (if pv_node env named = Some Folder then named @ [POLICY_FILENAME] else named) in
                if is_regular env candidate then Inr candidate
                else Inl (Policy_Error (last p @ '' extends '' @ repr_string entry @ '', which does not exist.'')
                  (Some (''Looked for '' @ path_text candidate @ ''.''))))
      | _ \<Rightarrow> Inl (Policy_Error ''every `extends` entry must be a string path'' None))"

definition extends_of :: "policy_env \<Rightarrow> string list \<Rightarrow> policy_error + string list list" where
  "extends_of env p =
     bind_res (policy_data env p) (\<lambda>d.
       case map_of d ''extends'' of
         None \<Rightarrow> Inr []
       | Some JNull \<Rightarrow> Inr []
       | Some (JStr s) \<Rightarrow> map_res (extended env p) [JStr s]
       | Some (JList vs) \<Rightarrow> map_res (extended env p) vs
       | Some _ \<Rightarrow> Inl (Policy_Error ''`extends` must be a path or a list of paths'' None))"

definition too_deep :: policy_error where
  "too_deep = Policy_Error (''`extends` chain is deeper than '' @ str_nat MAX_POLICY_DEPTH @ '' layers.'')
     (Some ''This is usually a loop. Org, team, repo is three.'')"

text \<open>
  The queue of files with their depth. An entry is replaced by finitely many deeper ones, and none is
  expanded below the bound.
\<close>

definition queue_measure :: "(string list \<times> nat) list \<Rightarrow> nat multiset" where
  "queue_measure queue = mset (map (\<lambda>(p, depth). MAX_POLICY_DEPTH - depth) queue)"

function chain_from :: "policy_env \<Rightarrow> string list list \<Rightarrow> (string list \<times> nat) list \<Rightarrow> policy_error + string list list" where
  "chain_from env ordered [] = Inr ordered"
| "chain_from env ordered ((p, depth) # queue) =
     (if p \<in> set ordered then chain_from env ordered queue
      else if MAX_POLICY_DEPTH \<le> depth then Inl too_deep
      else (case extends_of env p of
              Inl e \<Rightarrow> Inl e
            | Inr parents \<Rightarrow> chain_from env (ordered @ [p]) (queue @ map (\<lambda>q. (q, Suc depth)) parents)))"
  by pat_completeness auto
termination
proof (relation "inv_image (mult {(m, n). m < n}) (\<lambda>(env, ordered, queue). queue_measure queue)", goal_cases)
  case 1
  show ?case by (intro wf_inv_image wf_mult) (rule wf)
next
  case (2 env ordered p depth queue)
  have "(queue_measure queue + {#}, queue_measure queue + {#MAX_POLICY_DEPTH - depth#}) \<in> mult {(m, n). m < n}"
    by (rule one_step_implies_mult) simp_all
  then show ?case by (simp add: queue_measure_def)
next
  case (3 env ordered p depth queue parents)
  have "(queue_measure queue + image_mset (\<lambda>q. MAX_POLICY_DEPTH - Suc depth) (mset parents),
      queue_measure queue + {#MAX_POLICY_DEPTH - depth#}) \<in> mult {(m, n). m < n}"
    using 3(2) by (intro one_step_implies_mult) auto
  then show ?case by (simp add: queue_measure_def image_mset.compositionality comp_def)
qed

definition chain :: "policy_env \<Rightarrow> string list \<Rightarrow> policy_error + string list list" where
  "chain env start = chain_from env [] [(start, 0)]"

section \<open>Merging\<close>

text \<open>A value of a merged table: a range, or the list of ranges of \<open>known_bad_versions\<close>.\<close>

datatype table_value = Range string | Ranges "string list"

definition MERGED_TABLES :: "string list" where
  "MERGED_TABLES = [''required_runtimes'', ''required_tools'', ''optional_tools'', ''known_bad_versions'']"

definition table_of :: "policy \<Rightarrow> string \<Rightarrow> (string \<times> table_value) list" where
  "table_of p name =
     (if name = ''required_runtimes'' then map (map_prod id Range) (p_required_runtimes p)
      else if name = ''required_tools'' then map (map_prod id Range) (p_required_tools p)
      else if name = ''optional_tools'' then map (map_prod id Range) (p_optional_tools p)
      else map (map_prod id Ranges) (p_known_bad_versions p))"

record provenance =
  pn_key :: string
  pn_value :: string
  pn_layer :: string
  pn_overrides :: "string list"

definition is_override :: "provenance \<Rightarrow> bool" where
  "is_override p \<longleftrightarrow> pn_overrides p \<noteq> []"

record composed_policy =
  cp_policy :: policy
  cp_layers :: "policy_layer list"
  cp_provenance :: "provenance list"

definition source_of_key :: "composed_policy \<Rightarrow> string \<Rightarrow> string option" where
  "source_of_key c key = map_option pn_layer (find (\<lambda>p. pn_key p = key) (cp_provenance c))"

definition overrides :: "composed_policy \<Rightarrow> provenance list" where
  "overrides c = filter is_override (cp_provenance c)"

text \<open>The state of the merge: what each setting is, whose it is, and who was overridden.\<close>

type_synonym setting = "string \<times> string"

record merge_state =
  ms_values :: "(setting \<times> table_value) list"
  ms_owner :: "(setting \<times> string) list"
  ms_overridden :: "(setting \<times> string list) list"

definition merge_entry :: "string \<Rightarrow> string \<Rightarrow> string \<times> table_value \<Rightarrow> merge_state \<Rightarrow> merge_state" where
  "merge_entry label table = (\<lambda>(k, v) st.
     if map_of (ms_owner st) (table, k) \<noteq> None then
       st\<lparr>ms_overridden := dict_set (table, k)
            ((case map_of (ms_overridden st) (table, k) of None \<Rightarrow> [] | Some ls \<Rightarrow> ls) @ [label]) (ms_overridden st)\<rparr>
     else st\<lparr>ms_owner := dict_set (table, k) label (ms_owner st), ms_values := dict_set (table, k) v (ms_values st)\<rparr>)"

definition merge_table :: "string \<Rightarrow> policy \<Rightarrow> string \<Rightarrow> merge_state \<Rightarrow> merge_state" where
  "merge_table label p table = fold (merge_entry label table) (table_of p table)"

definition merge_layer :: "string \<times> policy \<Rightarrow> merge_state \<Rightarrow> merge_state" where
  "merge_layer = (\<lambda>(label, p). fold (merge_table label p) MERGED_TABLES)"

definition merged_state :: "(string \<times> policy) list \<Rightarrow> merge_state" where
  "merged_state parsed = fold merge_layer parsed \<lparr>ms_values = [], ms_owner = [], ms_overridden = []\<rparr>"

text \<open>\<open>str\<close> of a value; a tuple of one element is written with a comma.\<close>

definition value_text :: "table_value \<Rightarrow> string" where
  "value_text v =
     (case v of
        Range s \<Rightarrow> s
      | Ranges [s] \<Rightarrow> ''('' @ repr_string s @ '',)''
      | Ranges ss \<Rightarrow> ''('' @ join '', '' (map repr_string ss) @ '')'')"

definition provenance_of :: "merge_state \<Rightarrow> setting \<Rightarrow> provenance" where
  "provenance_of st = (\<lambda>(table, k).
     \<lparr>pn_key = table @ ''.'' @ k,
      pn_value = (case map_of (ms_values st) (table, k) of None \<Rightarrow> [] | Some v \<Rightarrow> value_text v),
      pn_layer = (case map_of (ms_owner st) (table, k) of None \<Rightarrow> [] | Some l \<Rightarrow> l),
      pn_overrides = (case map_of (ms_overridden st) (table, k) of None \<Rightarrow> [] | Some ls \<Rightarrow> ls)\<rparr>)"

text \<open>The merged tables, and the names that accumulate.\<close>

definition range_text :: "table_value \<Rightarrow> string" where
  "range_text v = value_text v"

definition bad_ranges :: "table_value \<Rightarrow> string list" where
  "bad_ranges v = (case v of Range s \<Rightarrow> [s] | Ranges ss \<Rightarrow> ss)"

definition merged_table :: "merge_state \<Rightarrow> string \<Rightarrow> (string \<times> table_value) list" where
  "merged_table st table = map (\<lambda>((t, k), v). (k, v)) (filter (\<lambda>((t, k), v). t = table) (ms_values st))"

definition merge_env_names :: "(string \<times> policy) list \<Rightarrow> string list" where
  "merge_env_names parsed =
     foldl (\<lambda>names n. if n \<in> set names then names else names @ [n]) [] (concat (map (\<lambda>(l, p). p_required_env_names p) parsed))"

definition merge :: "(string \<times> policy) list \<Rightarrow> policy_error + policy \<times> provenance list" where
  "merge parsed =
     (let nearest = snd (hd parsed); st = merged_state parsed in
      bind_res (validated_names (merge_env_names parsed)) (\<lambda>names.
        Inr (\<lparr>p_supported_os = p_supported_os nearest,
              p_required_runtimes = map (map_prod id range_text) (merged_table st ''required_runtimes''),
              p_required_tools = map (map_prod id range_text) (merged_table st ''required_tools''),
              p_optional_tools = map (map_prod id range_text) (merged_table st ''optional_tools''),
              p_known_bad_versions = map (map_prod id bad_ranges) (merged_table st ''known_bad_versions''),
              p_containers = p_containers nearest, p_required_env_names = names\<rparr>,
             map (provenance_of st) (sort (map fst (ms_owner st))))))"

definition layer_of :: "policy_env \<Rightarrow> nat \<times> string list \<Rightarrow> policy_error + policy_layer \<times> policy" where
  "layer_of env = (\<lambda>(depth, p).
     bind_res (bind_res (policy_data env p) policy_from_toml) (\<lambda>pol.
       Inr (\<lparr>ly_path = path_text p, ly_depth = depth, ly_label = label_for env p depth\<rparr>, pol)))"

definition load_composed_policy :: "policy_env \<Rightarrow> string list \<Rightarrow> string list option \<Rightarrow> policy_error + composed_policy" where
  "load_composed_policy env cwd given =
     bind_res (policy_target env cwd given) (\<lambda>target.
     bind_res (chain env target) (\<lambda>files.
     bind_res (map_res (layer_of env) (enumerate 0 files)) (\<lambda>layers.
     bind_res (merge (map (\<lambda>(l, p). (ly_label l, p)) layers)) (\<lambda>(merged, trail).
       Inr \<lparr>cp_policy = merged, cp_layers = map fst layers, cp_provenance = trail\<rparr>))))"

section \<open>The nearest layer wins\<close>



















section \<open>The chain is the breadth-first order\<close>













section \<open>Loading a composed policy\<close>










definition demo_policies :: policy_env where
  "demo_policies = \<lparr>
     pv_node = (\<lambda>p.
       if p = [''repo'', POLICY_FILENAME] then Some (Regular (Some ''repo''))
       else if p = [''org''] then Some Folder
       else if p = [''org'', POLICY_FILENAME] then Some (Regular (Some ''org'')) else None),
     pv_toml = (\<lambda>t.
       if t = ''repo'' then Inr [(''extends'', JStr ''../org''), (''required_runtimes'', JObj [(''node'', JStr ''>=20'')])]
       else if t = ''org'' then
         Inr [(''extends'', JStr ''../repo/.devrepro.toml''), (''supported_os'', JObj [(''windows'', JBool False)]),
              (''required_runtimes'', JObj [(''node'', JStr ''>=22''), (''python'', JStr ''>=3.11'')])]
       else Inl ''not TOML''),
     pv_os_error = (\<lambda>p. ''not a file'')\<rparr>"

text \<open>Files that extend each other are a chain.\<close>

lemma loops_are_accepted:
  "chain demo_policies [''repo'', POLICY_FILENAME] = Inr [[''repo'', POLICY_FILENAME], [''org'', POLICY_FILENAME]]"
  by code_simp

text \<open>Which systems are supported is the statement of the nearest file, even when it makes none.\<close>

lemma only_the_nearest_names_systems:
  "map_sum id (\<lambda>c. os_windows (p_supported_os (cp_policy c)))
     (load_composed_policy demo_policies [] (Some [''repo'', POLICY_FILENAME])) = (Inr True :: policy_error + bool)"
  "map_sum id (\<lambda>p. os_windows (p_supported_os p)) (load_policy demo_policies [] (Some [''org'', POLICY_FILENAME])) = (Inr False :: policy_error + bool)"
  by code_simp+


end
