(* ===== verification/Watch.thy ===== *)
theory Watch
  imports Lockfiles
begin

text \<open>
  \<open>src/devrepro/project/contract.py\<close> and \<open>src/devrepro/watch.py\<close>: which files declare what the
  environment must provide, which of them a commit changes, and the watcher that waits for such a
  change to settle. Git is an argument (the output of a command, \<open>None\<close> when it fails), the digest is
  one, a directory is a tree, the clock a sequence of readings in whole units.
\<close>

section \<open>Contract files\<close>

text \<open>\<open>fnmatch.fnmatch\<close> on a POSIX system, of patterns whose only wild card is the star; several stars are one.\<close>

fun fnmatch :: "string \<Rightarrow> string \<Rightarrow> bool" where
  "fnmatch [] s = (s = [])"
| "fnmatch (c # p) [] = (c = CHR ''*'' \<and> fnmatch p [])"
| "fnmatch (c # p) (d # s) =
     (if c = CHR ''*'' then
        if p \<noteq> [] \<and> hd p = CHR ''*'' then fnmatch p (d # s) else fnmatch p (d # s) \<or> fnmatch (c # p) s
      else c = d \<and> fnmatch p s)"

definition CONTRACT_PATTERNS :: "(string \<times> string) list" where
  "CONTRACT_PATTERNS =
     [(''.devrepro.toml'', ''policy''), (''**/.devrepro.toml'', ''policy''), (''**/package-lock.json'', ''lockfile''),
      (''**/pnpm-lock.yaml'', ''lockfile''), (''**/yarn.lock'', ''lockfile''), (''**/bun.lockb'', ''lockfile''),
      (''**/poetry.lock'', ''lockfile''), (''**/uv.lock'', ''lockfile''), (''**/Pipfile.lock'', ''lockfile''),
      (''**/Cargo.lock'', ''lockfile''), (''**/composer.lock'', ''lockfile''), (''**/Gemfile.lock'', ''lockfile''),
      (''**/go.sum'', ''lockfile''), (''**/pyproject.toml'', ''manifest''), (''**/package.json'', ''manifest''),
      (''**/go.mod'', ''manifest''), (''**/Cargo.toml'', ''manifest''), (''**/composer.json'', ''manifest''),
      (''**/Gemfile'', ''manifest''), (''**/pom.xml'', ''manifest''), (''**/build.gradle'', ''manifest''),
      (''**/build.gradle.kts'', ''manifest''), (''**/*.csproj'', ''manifest''), (''**/global.json'', ''manifest''),
      (''**/requirements*.txt'', ''manifest''), (''**/.nvmrc'', ''toolchain-pin''),
      (''**/.node-version'', ''toolchain-pin''), (''**/.python-version'', ''toolchain-pin''),
      (''**/.ruby-version'', ''toolchain-pin''), (''**/.java-version'', ''toolchain-pin''),
      (''**/.tool-versions'', ''toolchain-pin''), (''**/mise.toml'', ''toolchain-pin''),
      (''**/.mise.toml'', ''toolchain-pin''), (''**/rust-toolchain'', ''toolchain-pin''),
      (''**/rust-toolchain.toml'', ''toolchain-pin''), (''.github/workflows/*.yml'', ''ci''),
      (''.github/workflows/*.yaml'', ''ci''), (''.gitlab-ci.yml'', ''ci''), (''azure-pipelines.yml'', ''ci''),
      (''Jenkinsfile'', ''ci''), (''**/Dockerfile'', ''container''), (''**/Dockerfile.*'', ''container''),
      (''**/docker-compose*.yml'', ''container''), (''**/compose*.yml'', ''container''),
      (''**/devcontainer.json'', ''container''), (''**/.env.example'', ''env-names''), (''**/.env.sample'', ''env-names''),
      (''AGENTS.md'', ''agent-manifest''), (''CLAUDE.md'', ''agent-manifest''), (''.cursorrules'', ''agent-manifest'')]"

definition normalised :: "string \<Rightarrow> string" where
  "normalised path = (let p = replace_char (CHR 0x5C) ''/'' path in if prefix ''./'' p then drop 2 p else p)"

definition base_name :: "string \<Rightarrow> string" where
  "base_name p = last (split_on ''/'' p)"

definition pattern_matches :: "string \<Rightarrow> string \<Rightarrow> string \<Rightarrow> bool" where
  "pattern_matches p name pattern \<longleftrightarrow>
     fnmatch pattern p \<or> prefix ''**/'' pattern \<and> fnmatch (drop 3 pattern) name \<or> CHR ''/'' \<notin> set pattern \<and> fnmatch pattern name"

definition classify_contract_path :: "string \<Rightarrow> string option" where
  "classify_contract_path path =
     (let p = normalised path; name = base_name p in
      map_option snd (find (\<lambda>(pattern, kind). pattern_matches p name pattern) CONTRACT_PATTERNS))"

section \<open>What a commit changes\<close>

record contract_change =
  cg_path :: string
  cg_kind :: string

text \<open>The path of an entry of \<open>git status\<close>: behind the first arrow, when there is one.\<close>

definition renamed_to :: "string \<Rightarrow> string" where
  "renamed_to entry =
     (case split_on '' -> '' entry of
        old # new # rest \<Rightarrow> strip (join '' -> '' (new # rest))
      | _ \<Rightarrow> entry)"

definition status_path :: "string \<Rightarrow> string list" where
  "status_path line = (let entry = (if length line > 3 then strip (drop 3 line) else []) in if entry = [] then [] else [renamed_to entry])"

definition changed_files :: "(string list \<Rightarrow> string option) \<Rightarrow> string \<Rightarrow> string option \<Rightarrow> string list" where
  "changed_files run root base =
     (case base of
        Some (c # b) \<Rightarrow>
          (let three = run [''git'', ''-C'', root, ''diff'', ''--name-only'', (c # b) @ ''...HEAD''];
               result = (if three = None then run [''git'', ''-C'', root, ''diff'', ''--name-only'', c # b] else three) in
           case result of
             None \<Rightarrow> []
           | Some out \<Rightarrow> filter (\<lambda>l. l \<noteq> []) (map strip (splitlines out)))
      | _ \<Rightarrow>
          (case run [''git'', ''-C'', root, ''status'', ''--porcelain'', ''--untracked-files=all''] of
             None \<Rightarrow> []
           | Some out \<Rightarrow> concat (map status_path (splitlines out))))"

definition add_change :: "contract_change list \<Rightarrow> string \<Rightarrow> contract_change list" where
  "add_change changes path =
     (case classify_contract_path path of
        None \<Rightarrow> changes
      | Some kind \<Rightarrow> if path \<in> cg_path ` set changes then changes else changes @ [\<lparr>cg_path = path, cg_kind = kind\<rparr>])"

definition contract_changes :: "(string list \<Rightarrow> string option) \<Rightarrow> string \<Rightarrow> string option \<Rightarrow> contract_change list" where
  "contract_changes run root base =
     sort_key (\<lambda>c. (cg_kind c, cg_path c)) (foldl add_change [] (changed_files run root base))"

definition RELEVANT_PREFIXES :: "(string \<times> string list) list" where
  "RELEVANT_PREFIXES =
     [(''policy'', []),
      (''lockfile'', [''lockfiles'', ''python'', ''node'', ''go'', ''rust'', ''php'', ''ruby'', ''java'', ''dotnet'', ''path'']),
      (''manifest'', [''lockfiles'', ''python'', ''node'', ''go'', ''rust'', ''php'', ''ruby'', ''java'', ''dotnet'', ''cpp'', ''path'']),
      (''toolchain-pin'', [''lockfiles'', ''python'', ''node'', ''go'', ''rust'', ''php'', ''ruby'', ''java'', ''dotnet'', ''path'', ''shell'']),
      (''ci'', [''python'', ''node'', ''go'', ''rust'', ''java'', ''dotnet'', ''containers'', ''network'']),
      (''container'', [''containers'', ''wsl'', ''virt'']), (''env-names'', [''env'']),
      (''agent-manifest'', [''agents'', ''hygiene'', ''path''])]"

text \<open>The prefixes of the rules that matter, or \<open>None\<close> when all do.\<close>

fun relevant_from :: "string list \<Rightarrow> contract_change list \<Rightarrow> string list option" where
  "relevant_from acc [] = Some acc"
| "relevant_from acc (c # cs) =
     (case map_of RELEVANT_PREFIXES (cg_kind c) of
        None \<Rightarrow> None
      | Some [] \<Rightarrow> None
      | Some ps \<Rightarrow> relevant_from (acc @ ps) cs)"

definition relevant_rule_prefixes :: "contract_change list \<Rightarrow> string list option" where
  "relevant_rule_prefixes changes = map_option remdups (relevant_from [] changes)"

section \<open>The files that are watched\<close>

definition WATCH_SKIP_DIRS :: "string list" where
  "WATCH_SKIP_DIRS =
     [''.git'', ''.hg'', ''.svn'', ''node_modules'', ''.venv'', ''venv'', ''__pycache__'', ''target'', ''dist'', ''build'',
      ''.tox'', ''.mypy_cache'', ''.pytest_cache'', ''vendor'']"

definition WATCH_MAX_DEPTH :: nat where
  "WATCH_MAX_DEPTH = 4"

definition watch_keep :: "string \<Rightarrow> bool" where
  "watch_keep name \<longleftrightarrow> name \<notin> set WATCH_SKIP_DIRS"

definition matches_contract :: "string \<Rightarrow> bool" where
  "matches_contract relative \<longleftrightarrow>
     list_ex (\<lambda>(pattern, kind). fnmatch pattern relative \<or> fnmatch (''**/'' @ pattern) relative \<or>
       prefix ''**/'' pattern \<and> fnmatch (drop 3 pattern) relative) CONTRACT_PATTERNS"

text \<open>The contract files of one directory, with their contents.\<close>

definition contract_files :: "string list \<Rightarrow> dir \<Rightarrow> (string list \<times> string option) list" where
  "contract_files p d =
     (if dir_listable d then
        map (\<lambda>(n, content). (p @ [n], content)) (filter (\<lambda>(n, content). matches_contract (join ''/'' (p @ [n]))) (dir_files d))
      else [])"

text \<open>The stack of directories with their depth, the top first.\<close>

function watch_stack :: "(string list \<times> dir \<times> nat) list \<Rightarrow> (string list \<times> string option) list" where
  "watch_stack [] = []"
| "watch_stack ((p, d, depth) # stack) =
     contract_files p d @
     watch_stack (deeper depth (if depth < WATCH_MAX_DEPTH then steps_down False watch_keep p d else []) @ stack)"
  by pat_completeness auto
termination
proof (relation "measure (\<lambda>st. sum_list (map (\<lambda>(p, d, n). dir_count d) st))", goal_cases)
  case (2 p d depth stack)
  then show ?case using count_steps [of False watch_keep p d] by (cases d) (simp add: count_deeper)
qed simp

definition watched_paths :: "dir \<Rightarrow> (string list \<times> string option) list" where
  "watched_paths root = sort_key fst (watch_stack [([], root, 0)])"

text \<open>A digest per file that can be read, by the text of its path.\<close>

type_synonym fingerprint = "(string \<times> string) list"

definition fingerprint :: "(string \<Rightarrow> string) \<Rightarrow> dir \<Rightarrow> fingerprint" where
  "fingerprint digest root =
     dict_of (concat (map (\<lambda>(p, content). case content of None \<Rightarrow> [] | Some t \<Rightarrow> [(join ''/'' p, digest t)]) (watched_paths root)))"

section \<open>The watcher\<close>

record change =
  ch_added :: "string list"
  ch_removed :: "string list"
  ch_modified :: "string list"

definition moved :: "change \<Rightarrow> bool" where
  "moved c \<longleftrightarrow> ch_added c \<noteq> [] \<or> ch_removed c \<noteq> [] \<or> ch_modified c \<noteq> []"

definition describe :: "change \<Rightarrow> string" where
  "describe c = join ''; ''
     (concat (map (\<lambda>(label, names). if names \<noteq> [] then [label @ '': '' @ join '', '' names] else [])
       [(''added'', ch_added c), (''changed'', ch_modified c), (''removed'', ch_removed c)]))"

text \<open>\<open>sorted(set(names))\<close>.\<close>

definition in_order :: "string list \<Rightarrow> string list" where
  "in_order names = sort (remdups names)"

definition diff_fingerprints :: "fingerprint \<Rightarrow> fingerprint \<Rightarrow> change" where
  "diff_fingerprints before after =
     \<lparr>ch_added = in_order (filter (\<lambda>k. map_of before k = None) (map fst after)),
      ch_removed = in_order (filter (\<lambda>k. map_of after k = None) (map fst before)),
      ch_modified = in_order (filter (\<lambda>k. map_of after k \<noteq> None \<and> map_of before k \<noteq> map_of after k) (map fst before))\<rparr>"

definition merge_changes :: "change \<Rightarrow> change \<Rightarrow> change" where
  "merge_changes a b =
     \<lparr>ch_added = in_order (ch_added a @ ch_added b), ch_removed = in_order (ch_removed a @ ch_removed b),
      ch_modified = in_order (ch_modified a @ ch_modified b)\<rparr>"

record watch_state =
  wa_baseline :: fingerprint
  wa_pending :: "change option"
  wa_settled :: int
  wa_fired :: "change list"

text \<open>One poll: the tree as it is found, and what the clock says when it is asked.\<close>

definition watch_poll :: "(string \<Rightarrow> string) \<Rightarrow> int \<Rightarrow> dir \<times> int \<Rightarrow> watch_state \<Rightarrow> watch_state" where
  "watch_poll digest quiet = (\<lambda>(root, now) st.
     let current = fingerprint digest root; change = diff_fingerprints (wa_baseline st) current in
     if moved change then
       st\<lparr>wa_pending := Some (case wa_pending st of None \<Rightarrow> change | Some p \<Rightarrow> merge_changes p change),
          wa_settled := now + quiet, wa_baseline := current\<rparr>
     else (case wa_pending st of
             None \<Rightarrow> st
           | Some p \<Rightarrow> if wa_settled st \<le> now then st\<lparr>wa_fired := wa_fired st @ [p], wa_pending := None\<rparr> else st))"

definition watch_start :: "(string \<Rightarrow> string) \<Rightarrow> dir \<Rightarrow> watch_state" where
  "watch_start digest root = \<lparr>wa_baseline = fingerprint digest root, wa_pending = None, wa_settled = 0, wa_fired = []\<rparr>"

definition watch_run :: "(string \<Rightarrow> string) \<Rightarrow> int \<Rightarrow> dir \<Rightarrow> (dir \<times> int) list \<Rightarrow> watch_state" where
  "watch_run digest quiet root polls = fold (watch_poll digest quiet) polls (watch_start digest root)"

text \<open>The number of times \<open>on_change\<close> was called.\<close>

definition watch :: "(string \<Rightarrow> string) \<Rightarrow> int \<Rightarrow> dir \<Rightarrow> (dir \<times> int) list \<Rightarrow> nat" where
  "watch digest quiet root polls = length (wa_fired (watch_run digest quiet root polls))"

section \<open>What is watched\<close>

lemma mset_concat_rev: "mset (concat (rev xs)) = mset (concat xs)"
  by (induction xs) simp_all

lemma concat_map_concat: "concat (map f (concat (map g xs))) = concat (map (\<lambda>x. concat (map f (g x))) xs)"
  by (induction xs) auto

lemma watch_stack_below:
  "list_all (\<lambda>(p, d, k). k \<le> WATCH_MAX_DEPTH) st \<Longrightarrow>
     mset (watch_stack st) =
       mset (concat (map (\<lambda>(p, d, k). concat (map (\<lambda>(q, c). contract_files q c) (reach watch_keep (WATCH_MAX_DEPTH - k) p d))) st))"
proof (induction st rule: watch_stack.induct)
  case (2 p d depth stack)
  define here where "here = (if depth < WATCH_MAX_DEPTH then steps_down False watch_keep p d else [])"
  have deeper: "concat (map (\<lambda>(p, d, k). concat (map (\<lambda>(q, c). contract_files q c) (reach watch_keep (WATCH_MAX_DEPTH - k) p d))) (rev (map (\<lambda>(p, c). (p, c, Suc depth)) cs))) =
      concat (rev (map (\<lambda>(q, c). concat (map (\<lambda>(q, c). contract_files q c) (reach watch_keep (WATCH_MAX_DEPTH - Suc depth) q c))) cs))" for cs
    by (induction cs) auto
  have "mset (concat (map (\<lambda>(p, d, k). concat (map (\<lambda>(q, c). contract_files q c) (reach watch_keep (WATCH_MAX_DEPTH - k) p d))) (deeper depth here))) +
      mset (contract_files p d) = mset (concat (map (\<lambda>(q, c). contract_files q c) (reach watch_keep (WATCH_MAX_DEPTH - depth) p d)))"
  proof (cases "depth < WATCH_MAX_DEPTH")
    case True
    then have k: "WATCH_MAX_DEPTH - depth = Suc (WATCH_MAX_DEPTH - Suc depth)" by simp
    show ?thesis using True by (simp add: here_def deeper_def deeper k concat_map_concat mset_concat_rev) (simp add: split_def)
  qed (use 2(2) in \<open>simp add: here_def deeper_def\<close>)
  moreover have "list_all (\<lambda>(p, d, k). k \<le> WATCH_MAX_DEPTH) (deeper depth here @ stack)"
    using 2(2) by (auto simp: here_def deeper_def list_all_iff)
  ultimately show ?case using 2(1) unfolding here_def [symmetric] watch_stack.simps by (simp add: here_def [symmetric] add.assoc [symmetric] add.commute)
qed simp

lemma watched_iff:
  "(q, content) \<in> set (watched_paths root) \<longleftrightarrow>
     (\<exists>p d n. (p, d) \<in> set (reach watch_keep WATCH_MAX_DEPTH [] root) \<and> dir_listable d \<and> (n, content) \<in> set (dir_files d) \<and>
        q = p @ [n] \<and> matches_contract (join ''/'' q))"
proof -
  have "set (watched_paths root) = set (concat (map (\<lambda>(q, c). contract_files q c) (reach watch_keep WATCH_MAX_DEPTH [] root)))"
    using mset_eq_setD [OF watch_stack_below [of "[([], root, 0)]"]] by (simp add: watched_paths_def)
  moreover have "(q, content) \<in> set (contract_files p d) \<longleftrightarrow>
      (\<exists>n. dir_listable d \<and> (n, content) \<in> set (dir_files d) \<and> q = p @ [n] \<and> matches_contract (join ''/'' q))" for p d
    by (auto simp: contract_files_def)
  ultimately show ?thesis by (auto simp: split_beta) (metis fst_conv snd_conv)+
qed

section \<open>Every gated file is watched\<close>

lemma split_Cons: "(\<exists>a b. d # s = a @ b \<and> P b) \<longleftrightarrow> P (d # s) \<or> (\<exists>a b. s = a @ b \<and> P b)"
  by (auto simp: Cons_eq_append_conv)

lemma fnmatch_star: "fnmatch (CHR ''*'' # p) s \<longleftrightarrow> (\<exists>a b. s = a @ b \<and> fnmatch p b)"
proof (induction p arbitrary: s)
  case Nil
  show ?case by (induction s) auto
next
  case (Cons c q)
  show ?case
  proof (cases "c = CHR ''*''")
    case True
    then have "fnmatch (CHR ''*'' # c # q) s \<longleftrightarrow> fnmatch (CHR ''*'' # q) s" by (cases s) auto
    moreover have "(\<exists>a b. s = a @ b \<and> fnmatch (c # q) b) \<longleftrightarrow> fnmatch (CHR ''*'' # q) s"
      unfolding True Cons.IH by (metis append.assoc append_Nil)
    ultimately show ?thesis by simp
  next
    case False
    show ?thesis
    proof (induction s)
      case (Cons d s)
      have "(\<exists>a b. d # s = a @ b \<and> fnmatch (c # q) b) \<longleftrightarrow> fnmatch (c # q) (d # s) \<or> (\<exists>a b. s = a @ b \<and> fnmatch (c # q) b)"
        by (rule split_Cons)
      with Cons False show ?case by simp
    qed simp
  qed
qed

lemma fnmatch_below: "fnmatch (''**/'' @ p) (d @ ''/'' @ s)" if "fnmatch p s"
proof -
  have "fnmatch (''/'' @ p) (''/'' @ s)" using that by simp
  then have "fnmatch (CHR ''*'' # ''/'' @ p) (''/'' @ s)" unfolding fnmatch_star by (intro exI [of _ "[]"] exI [of _ "''/'' @ s"]) simp
  then have "fnmatch (CHR ''*'' # CHR ''*'' # ''/'' @ p) (d @ ''/'' @ s)" by (subst fnmatch_star) blast
  then show ?thesis by simp
qed

lemma split_last:
  assumes "split_on [c] s = ps" and "last ps \<noteq> s"
  shows "\<exists>d. s = d @ [c] @ last ps"
proof -
  have "ps \<noteq> [] \<and> s = join [c] ps" if "split_from [c] acc t = ps" "s = rev acc @ t" for acc t s ps
    using that
  proof (induction t arbitrary: acc ps s)
    case (Cons x t)
    show ?case
    proof (cases "x = c")
      case True
      then have ps: "ps = rev acc # split_from [c] [] t" using Cons.prems(1) by (simp add: split_from_Cons)
      have "split_from [c] [] t \<noteq> [] \<and> t = join [c] (split_from [c] [] t)" using Cons.IH [of "[]" _ t] by simp
      then show ?thesis using ps Cons.prems(2) True by (simp add: join_Cons)
    next
      case False
      then show ?thesis using Cons.IH [of "x # acc" ps s] Cons.prems by (simp add: split_from_Cons)
    qed
  qed auto
  then have ps: "ps \<noteq> []" "s = join [c] ps" using assms(1) by (auto simp: split_on_def)
  moreover have "\<exists>d. join [c] ps = d @ [c] @ last ps" if "butlast ps \<noteq> []"
    using that
  proof (induction ps)
    case (Cons x xs)
    then show ?case
    proof (cases "butlast xs = []")
      case True
      then obtain y where "xs = [y]" using Cons.prems by (cases xs) (auto split: if_splits)
      then show ?thesis by auto
    next
      case False
      then obtain d where "join [c] xs = d @ [c] @ last xs" using Cons.IH by blast
      then show ?thesis using False by (intro exI [of _ "x @ [c] @ d"]) (auto simp: join_Cons)
    qed
  qed simp
  moreover have "butlast ps \<noteq> []" using assms(2) ps by (cases ps) (auto split: if_splits)
  ultimately show ?thesis by blast
qed

lemma base_name_split: "base_name p = p \<or> (\<exists>d. p = d @ ''/'' @ base_name p)"
  using split_last [of "CHR ''/''" p "split_on ''/'' p"] by (auto simp: base_name_def)

lemma found: "find P xs = Some x \<Longrightarrow> x \<in> set xs \<and> P x"
  by (induction xs) (auto split: if_splits)

lemma gated_is_watched:
  assumes "classify_contract_path path = Some kind" and "normalised path = path"
  shows "matches_contract path"
proof -
  obtain pattern where x: "(pattern, kind) \<in> set CONTRACT_PATTERNS" "pattern_matches path (base_name path) pattern"
    using assms by (auto simp: classify_contract_path_def Let_def dest!: found)
  from base_name_split [of path] consider "base_name path = path" | d where "path = d @ ''/'' @ base_name path" by blast
  then have "fnmatch pattern path \<or> fnmatch (''**/'' @ pattern) path \<or> prefix ''**/'' pattern \<and> fnmatch (drop 3 pattern) path"
  proof cases
    case 1
    then show ?thesis using x(2) by (auto simp: pattern_matches_def)
  next
    case (2 d)
    have "fnmatch (''**/'' @ q) path" if "fnmatch q (base_name path)" for q
      using fnmatch_below [OF that, of d] 2 by simp
    moreover have "pattern = ''**/'' @ drop 3 pattern" if "prefix ''**/'' pattern" using that by (auto simp: prefix_def)
    ultimately show ?thesis using x(2) by (metis pattern_matches_def)
  qed
  then show ?thesis using x(1) by (auto simp: matches_contract_def list_ex_iff)
qed

text \<open>Not the other way round, and not every lockfile that is understood is a contract file.\<close>

lemma nested_workflows_are_not_gated:
  "matches_contract ''web/.github/workflows/ci.yml'' \<and> classify_contract_path ''web/.github/workflows/ci.yml'' = None"
  by code_simp

lemma known_lockfiles_outside_the_contract:
  "filter (\<lambda>n. classify_contract_path n = None) (map fst LOCKFILE_PARSERS) = [''bun.lock'', ''npm-shrinkwrap.json'']"
  by code_simp

text \<open>The quotes git puts around a path with a space keep its name from being recognised.\<close>

lemma quoted_paths_are_not_gated:
  "map cg_path (contract_changes (\<lambda>_. Some (''?? '' @ dump_string ''my app/package.json'' @ [CHR 0x0A] @ ''?? web/package.json'')) ''.'' None) =
     [''web/package.json'']"
  by code_simp

section \<open>What the watcher reports\<close>

definition names_of :: "change \<Rightarrow> string set" where
  "names_of c = set (ch_added c) \<union> set (ch_removed c) \<union> set (ch_modified c)"

lemma set_in_order [simp]: "set (in_order xs) = set xs"
  by (simp add: in_order_def)

lemma names_diff: "k \<in> names_of (diff_fingerprints b a) \<longleftrightarrow> map_of b k \<noteq> map_of a k"
proof -
  have dom: "k \<in> set (map fst d) \<longleftrightarrow> map_of d k \<noteq> None" for d :: fingerprint by (simp add: map_of_eq_None_iff)
  show ?thesis by (auto simp: names_of_def diff_fingerprints_def dom [simplified] simp del: not_None_eq)
qed

lemma names_merge: "names_of (merge_changes a b) = names_of a \<union> names_of b"
  by (auto simp: names_of_def merge_changes_def)

lemma moved_names: "moved c \<longleftrightarrow> names_of c \<noteq> {}"
  by (auto simp: moved_def names_of_def)

lemma moved_diff: "moved (diff_fingerprints b a) \<longleftrightarrow> map_of b \<noteq> map_of a"
  unfolding moved_names using names_diff [of _ b a] by (auto simp: fun_eq_iff)

text \<open>The trees seen so far; a name is touched when some poll finds it otherwise than the one before.\<close>

definition trees :: "dir \<Rightarrow> (dir \<times> int) list \<Rightarrow> dir list" where
  "trees root polls = root # map fst polls"

definition content_of :: "(string \<Rightarrow> string) \<Rightarrow> dir \<Rightarrow> string \<rightharpoonup> string" where
  "content_of digest root = map_of (fingerprint digest root)"

definition touched :: "(string \<Rightarrow> string) \<Rightarrow> dir \<Rightarrow> (dir \<times> int) list \<Rightarrow> string set" where
  "touched digest root polls =
     {k. \<exists>i<length polls. content_of digest (trees root polls ! i) k \<noteq> content_of digest (trees root polls ! Suc i) k}"

definition reported :: "watch_state \<Rightarrow> string set" where
  "reported st = (\<Union>c\<in>set (wa_fired st). names_of c)"

definition unreported :: "watch_state \<Rightarrow> string set" where
  "unreported st = (case wa_pending st of None \<Rightarrow> {} | Some c \<Rightarrow> names_of c)"

lemma watch_run_snoc: "watch_run digest quiet root (polls @ [x]) = watch_poll digest quiet x (watch_run digest quiet root polls)"
  by (simp add: watch_run_def)

lemma touched_snoc:
  "touched digest root (polls @ [x]) =
     touched digest root polls \<union> {k. content_of digest (last (trees root polls)) k \<noteq> content_of digest (fst x) k}"
proof -
  have ts: "trees root (polls @ [x]) = trees root polls @ [fst x]" "length (trees root polls) = Suc (length polls)"
    by (simp_all add: trees_def)
  then have nth: "i \<le> length polls \<Longrightarrow> trees root (polls @ [x]) ! i = trees root polls ! i" for i
    by (simp add: nth_append)
  have last: "trees root polls ! length polls = last (trees root polls)"
    using ts(2) by (metis diff_Suc_1 last_conv_nth length_0_conv nat.distinct(1))
  have final: "trees root (polls @ [x]) ! Suc (length polls) = fst x" using ts by (simp add: nth_append)
  have "k \<in> touched digest root (polls @ [x]) \<longleftrightarrow>
      (\<exists>i<length polls. content_of digest (trees root polls ! i) k \<noteq> content_of digest (trees root polls ! Suc i) k) \<or>
      content_of digest (last (trees root polls)) k \<noteq> content_of digest (fst x) k" for k
    unfolding touched_def mem_Collect_eq by (auto simp: less_Suc_eq nth last final)
  then show ?thesis by (auto simp: touched_def)
qed

lemma run_baseline: "map_of (wa_baseline (watch_run digest quiet root polls)) = content_of digest (last (trees root polls))"
proof (induction polls rule: rev_induct)
  case Nil
  show ?case by (simp add: watch_run_def watch_start_def trees_def content_of_def)
next
  case (snoc x polls)
  have "last (trees root (polls @ [x])) = fst x" by (simp add: trees_def)
  with snoc show ?case
    by (cases x) (auto simp: watch_run_snoc watch_poll_def Let_def moved_diff content_of_def split: option.splits)
qed

text \<open>Whether the tree moved at a poll.\<close>

definition moves :: "(string \<Rightarrow> string) \<Rightarrow> dir \<Rightarrow> (dir \<times> int) list \<Rightarrow> dir \<Rightarrow> bool" where
  "moves digest root polls tree \<longleftrightarrow> content_of digest (last (trees root polls)) \<noteq> content_of digest tree"

lemma poll_moves:
  "moved (diff_fingerprints (wa_baseline (watch_run digest quiet root polls)) (fingerprint digest tree)) \<longleftrightarrow> moves digest root polls tree"
  by (simp add: moved_diff run_baseline moves_def content_of_def)

lemma reported_touched: "reported (watch_run digest quiet root polls) \<union> unreported (watch_run digest quiet root polls) = touched digest root polls"
proof (induction polls rule: rev_induct)
  case Nil
  show ?case by (simp add: reported_def unreported_def watch_run_def watch_start_def touched_def)
next
  case (snoc x polls)
  obtain tree now where x: "x = (tree, now)" by force
  let ?st = "watch_run digest quiet root polls"
  let ?change = "diff_fingerprints (wa_baseline ?st) (fingerprint digest tree)"
  have change: "names_of ?change = {k. content_of digest (last (trees root polls)) k \<noteq> content_of digest tree k}"
    using names_diff [of _ "wa_baseline ?st" "fingerprint digest tree"] by (auto simp: run_baseline content_of_def)
  have "reported (watch_poll digest quiet x ?st) \<union> unreported (watch_poll digest quiet x ?st) =
      reported ?st \<union> unreported ?st \<union> names_of ?change"
  proof (cases "moved ?change")
    case True
    then show ?thesis
      by (cases "wa_pending ?st") (auto simp: x watch_poll_def Let_def reported_def unreported_def names_merge)
  next
    case False
    then have "names_of ?change = {}" by (simp add: moved_names)
    with False show ?thesis
      by (cases "wa_pending ?st") (auto simp: x watch_poll_def Let_def reported_def unreported_def)
  qed
  then show ?case using snoc change by (simp add: watch_run_snoc touched_snoc x)
qed

text \<open>A poll at which the watcher calls back.\<close>

definition fires :: "(string \<Rightarrow> string) \<Rightarrow> int \<Rightarrow> dir \<Rightarrow> (dir \<times> int) list \<Rightarrow> dir \<times> int \<Rightarrow> bool" where
  "fires digest quiet root polls x \<longleftrightarrow> watch digest quiet root (polls @ [x]) = Suc (watch digest quiet root polls)"

lemma fires_iff:
  "fires digest quiet root polls (tree, now) \<longleftrightarrow>
     \<not> moves digest root polls tree \<and> wa_pending (watch_run digest quiet root polls) \<noteq> None \<and>
     wa_settled (watch_run digest quiet root polls) \<le> now"
  by (auto simp: fires_def watch_def watch_run_snoc watch_poll_def poll_moves Let_def split: option.splits)

text \<open>While something is pending the tree has been still since a movement, and the deadline is that of the movement.\<close>

definition still :: "(string \<Rightarrow> string) \<Rightarrow> dir \<Rightarrow> (dir \<times> int) list \<Rightarrow> bool" where
  "still digest tree calm \<longleftrightarrow> list_all (\<lambda>(t, now). content_of digest t = content_of digest tree) calm"

lemma pending_since:
  "wa_pending (watch_run digest quiet root polls) \<noteq> None \<Longrightarrow>
     \<exists>earlier tree time calm. polls = earlier @ (tree, time) # calm \<and> moves digest root earlier tree \<and>
       still digest tree calm \<and> wa_settled (watch_run digest quiet root polls) = time + quiet"
proof (induction polls rule: rev_induct)
  case Nil
  then show ?case by (simp add: watch_run_def watch_start_def)
next
  case (snoc x polls)
  obtain tree now where x: "x = (tree, now)" by force
  show ?case
  proof (cases "moves digest root polls tree")
    case True
    then have "wa_settled (watch_run digest quiet root (polls @ [x])) = now + quiet"
      by (simp add: x watch_run_snoc watch_poll_def poll_moves Let_def)
    with True show ?thesis by (intro exI [of _ polls] exI [of _ tree] exI [of _ now] exI [of _ "[]"]) (simp add: x still_def)
  next
    case False
    then have same: "wa_pending (watch_run digest quiet root polls) \<noteq> None"
        "wa_settled (watch_run digest quiet root (polls @ [x])) = wa_settled (watch_run digest quiet root polls)"
      using snoc.prems by (auto simp: x watch_run_snoc watch_poll_def poll_moves Let_def split: option.splits if_splits)
    obtain earlier tree' time calm where d: "polls = earlier @ (tree', time) # calm" "moves digest root earlier tree'" "still digest tree' calm"
        "wa_settled (watch_run digest quiet root polls) = time + quiet" using snoc.IH [OF same(1)] by blast
    have "content_of digest (last (trees root polls)) = content_of digest tree'"
      using d(1,3) by (cases calm rule: rev_cases) (auto simp: trees_def still_def)
    then have "still digest tree' (calm @ [x])" using False d(3) by (simp add: still_def x moves_def)
    with d same show ?thesis by (intro exI [of _ earlier] exI [of _ tree'] exI [of _ time] exI [of _ "calm @ [x]"]) simp
  qed
qed

lemma still_trees:
  assumes "polls = earlier @ (tree, time) # calm" and "still digest tree calm"
  shows "content_of digest (last (trees root polls)) = content_of digest tree"
  using assms by (cases calm rule: rev_cases) (auto simp: trees_def still_def)

lemma two_splits: "xs @ x # ys = us @ y # vs \<Longrightarrow> y = x \<or> y \<in> set xs \<or> (\<exists>ws. us = xs @ x # ws \<and> ys = ws @ y # vs)"
proof (induction xs arbitrary: us)
  case Nil
  then show ?case by (cases us) auto
next
  case (Cons z xs)
  then show ?case by (cases us) auto
qed

text \<open>
  Nothing is lost and nothing is made up: the names in the changes reported, and in the one still held
  back, are exactly those some poll found otherwise than the one before.
\<close>

theorem watch_reports_every_change:
  "reported (watch_run digest quiet root polls) \<union> unreported (watch_run digest quiet root polls) = touched digest root polls"
  by (rule reported_touched)

text \<open>
  No scan of a tree in motion: at a callback the tree is as it was at the last movement, and at least
  the quiet period has passed since.
\<close>

theorem watch_waits_for_quiet:
  assumes "fires digest quiet root polls (tree, now)"
  shows "\<exists>earlier moved_tree time calm. polls = earlier @ (moved_tree, time) # calm \<and> moves digest root earlier moved_tree \<and>
    still digest moved_tree (calm @ [(tree, now)]) \<and> time + quiet \<le> now"
proof -
  from assms have f: "\<not> moves digest root polls tree" "wa_pending (watch_run digest quiet root polls) \<noteq> None"
      "wa_settled (watch_run digest quiet root polls) \<le> now" by (simp_all add: fires_iff)
  obtain earlier moved_tree time calm where d: "polls = earlier @ (moved_tree, time) # calm" "moves digest root earlier moved_tree"
      "still digest moved_tree calm" "wa_settled (watch_run digest quiet root polls) = time + quiet" using pending_since [OF f(2)] by blast
  moreover have "still digest moved_tree (calm @ [(tree, now)])"
    using f(1) d(3) still_trees [OF d(1,3)] by (simp add: still_def moves_def)
  ultimately show ?thesis using f(3) by metis
qed

text \<open>
  C38: Once the tree has been still for the quiet period, by a clock that does not run backwards, every
  change so far has been reported.
\<close>

theorem settled_changes_are_reported:
  assumes "sorted (map snd (earlier @ (tree, time) # calm @ [(final, now)]))"
    and "still digest tree (calm @ [(final, now)])" and "time + quiet \<le> now"
  shows "reported (watch_run digest quiet root (earlier @ (tree, time) # calm @ [(final, now)])) =
    touched digest root (earlier @ (tree, time) # calm @ [(final, now)])"
proof -
  let ?polls = "earlier @ (tree, time) # calm"
  let ?st = "watch_run digest quiet root ?polls"
  have "content_of digest (last (trees root ?polls)) = content_of digest tree"
    using assms(2) by (intro still_trees [OF refl]) (simp add: still_def)
  then have calm: "\<not> moves digest root ?polls final" using assms(2) by (simp add: still_def moves_def)
  have "wa_settled ?st \<le> now" if pending: "wa_pending ?st \<noteq> None"
  proof -
    obtain e m t c where d: "?polls = e @ (m, t) # c" "moves digest root e m" "still digest m c" "wa_settled ?st = t + quiet"
      using pending_since [OF pending] by blast
    have "t \<le> time"
    proof (rule ccontr)
      assume late: "\<not> t \<le> time"
      then have "(m, t) \<noteq> (tree, time)" "(m, t) \<notin> set earlier" using assms(1) by (auto simp: sorted_append)
      then obtain c' where "e = earlier @ (tree, time) # c'" "calm = c' @ (m, t) # c" using two_splits [OF d(1)] by blast
      then have "content_of digest m = content_of digest tree" "content_of digest (last (trees root e)) = content_of digest tree"
        using assms(2) still_trees [of e earlier tree time c' digest root] by (auto simp: still_def)
      then show False using d(2) by (simp add: moves_def)
    qed
    then show ?thesis using d(4) assms(3) by simp
  qed
  then have "wa_pending (watch_run digest quiet root (?polls @ [(final, now)])) = None"
    unfolding watch_run_snoc using calm by (auto simp: watch_poll_def poll_moves Let_def split: option.splits)
  then have "unreported (watch_run digest quiet root (?polls @ [(final, now)])) = {}" by (simp add: unreported_def)
  then show ?thesis using reported_touched [of digest quiet root "?polls @ [(final, now)]"] by simp
qed

section \<open>Which rules a change reopens\<close>

lemma relevant_from_None: "relevant_from acc cs = None \<longleftrightarrow> (\<exists>c\<in>set cs. map_of RELEVANT_PREFIXES (cg_kind c) \<in> {None, Some []})"
  by (induction acc cs rule: relevant_from.induct) (auto split: option.splits list.splits)

lemma contract_kinds: "list_all (\<lambda>(p, kind). map_of RELEVANT_PREFIXES kind \<noteq> None \<and>
    (map_of RELEVANT_PREFIXES kind = Some [] \<longleftrightarrow> kind = ''policy'')) CONTRACT_PATTERNS"
  by code_simp

lemma change_kinds: "c \<in> set (contract_changes run root base) \<Longrightarrow> \<exists>p. (p, cg_kind c) \<in> set CONTRACT_PATTERNS"
proof -
  have "\<exists>p. (p, cg_kind c) \<in> set CONTRACT_PATTERNS" if "c \<in> set (foldl add_change acc files)"
    and "\<forall>c\<in>set acc. \<exists>p. (p, cg_kind c) \<in> set CONTRACT_PATTERNS" for acc files
    using that
  proof (induction files arbitrary: acc)
    case (Cons f files)
    have "\<forall>c\<in>set (add_change acc f). \<exists>p. (p, cg_kind c) \<in> set CONTRACT_PATTERNS"
      using Cons.prems(2) by (auto simp: add_change_def classify_contract_path_def Let_def split: option.splits dest!: found)
    then show ?case using Cons by simp
  qed simp
  then show "c \<in> set (contract_changes run root base) \<Longrightarrow> \<exists>p. (p, cg_kind c) \<in> set CONTRACT_PATTERNS"
    by (auto simp: contract_changes_def)
qed

text \<open>The changes of a commit reopen every rule exactly when the policy is one of them.\<close>

theorem policy_changes_reopen_everything:
  "relevant_rule_prefixes (contract_changes run root base) = None \<longleftrightarrow>
     (\<exists>c\<in>set (contract_changes run root base). cg_kind c = ''policy'')"
proof -
  have "map_of RELEVANT_PREFIXES (cg_kind c) \<in> {None, Some []} \<longleftrightarrow> cg_kind c = ''policy''"
    if c: "c \<in> set (contract_changes run root base)" for c
  proof -
    obtain p where "(p, cg_kind c) \<in> set CONTRACT_PATTERNS" using change_kinds [OF c] by blast
    then show ?thesis using contract_kinds unfolding list_all_iff by fastforce
  qed
  then show ?thesis by (auto simp: relevant_rule_prefixes_def relevant_from_None)
qed

text \<open>What \<open>guard\<close> takes for a contract file, \<open>watch\<close> watches.\<close>

theorem gated_files_are_watched:
  assumes "classify_contract_path path = Some kind" and "normalised path = path"
  shows "matches_contract path"
  by (rule gated_is_watched [OF assms])

text \<open>The watched files are the contract files in the directories within the depth.\<close>

theorem watched_files_are_contract_files:
  "(q, content) \<in> set (watched_paths root) \<longleftrightarrow>
     (\<exists>p d n. (p, d) \<in> set (reach watch_keep WATCH_MAX_DEPTH [] root) \<and> dir_listable d \<and> (n, content) \<in> set (dir_files d) \<and>
        q = p @ [n] \<and> matches_contract (join ''/'' q))"
  by (rule watched_iff)

section \<open>A demonstration\<close>

definition demo_tree :: "string \<Rightarrow> dir" where
  "demo_tree content = Dir [(''package.json'', Some content)] True []"

lemma demo_file: "matches_contract ''package.json''"
  by code_simp

lemma demo_fingerprint [simp]:
  "fingerprint digest (demo_tree content) = [(''package.json'', digest content)]" "fingerprint digest (Dir [] True []) = []"
  by (simp_all add: fingerprint_def watched_paths_def demo_tree_def contract_files_def steps_down_def deeper_def demo_file dict_of_def)

lemmas demo_run = watch_run_def watch_start_def watch_poll_def diff_fingerprints_def moved_def in_order_def merge_changes_def

text \<open>A file that is written anew is both added and removed, not modified, when a poll falls between.\<close>

lemma a_save_is_added_and_removed:
  "wa_fired (watch_run (\<lambda>s. s) 2 (demo_tree ''old'') [(Dir [] True [], 1), (demo_tree ''new'', 2), (demo_tree ''new'', 4)]) =
     [\<lparr>ch_added = [''package.json''], ch_removed = [''package.json''], ch_modified = []\<rparr>]"
  by (simp add: demo_run)

theorem watch_waits_for_quiet_witness:
  "\<exists>earlier moved_tree time calm. [(demo_tree ''new'', 1)] = earlier @ (moved_tree, time) # calm \<and>
     moves (\<lambda>s. s) (demo_tree ''old'') earlier moved_tree \<and> still (\<lambda>s. s) moved_tree (calm @ [(demo_tree ''new'', 3)]) \<and> time + 2 \<le> (3::int)"
proof -
  have "fires (\<lambda>s. s) 2 (demo_tree ''old'') [(demo_tree ''new'', 1)] (demo_tree ''new'', 3)" by (simp add: fires_def watch_def demo_run)
  then show ?thesis by (rule watch_waits_for_quiet)
qed

theorem settled_changes_are_reported_witness:
  "reported (watch_run (\<lambda>s. s) 2 (demo_tree ''old'') ([] @ (demo_tree ''new'', 1) # [] @ [(demo_tree ''new'', 3)])) =
     touched (\<lambda>s. s) (demo_tree ''old'') ([] @ (demo_tree ''new'', 1) # [] @ [(demo_tree ''new'', 3)])"
  by (rule settled_changes_are_reported) (simp_all add: still_def)

theorem gated_files_are_watched_witness: "matches_contract ''web/package.json''"
  by (rule gated_files_are_watched [of _ "''manifest''"]) (code_simp+)

end
