(* ===== verification/CI_Parsers.thy ===== *)
theory CI_Parsers
  imports Detectors
begin

text \<open>
  \<open>src/devrepro/project/ci_parsers.py\<close>: the toolchains that continuous integration declares, read
  line by line from workflows, GitLab and Azure files, the matrices of a workflow, and the comparison
  with the machine. A project is a directory tree, as in theory \<open>Detectors\<close>.
\<close>

section \<open>Patterns\<close>

text \<open>The lazy star and plus over a class: the shortest match first.\<close>

fun m_lazy :: "(char \<Rightarrow> bool) \<Rightarrow> matcher" where
  "m_lazy P [] = [([], [])]"
| "m_lazy P (c # cs) = ([], c # cs) # (if P c then map (\<lambda>(x, r). (c # x, r)) (m_lazy P cs) else [])"

definition m_lazy_plus :: "(char \<Rightarrow> bool) \<Rightarrow> matcher" where
  "m_lazy_plus P = m_seq (m_one P) (m_lazy P)"

text \<open>\<open>$\<close>, and with \<open>re.MULTILINE\<close>; a comment to the end; \<open>(.+?)\s*$\<close> with and without a comment.\<close>

definition m_end :: "(string \<Rightarrow> bool) \<Rightarrow> matcher \<Rightarrow> matcher" where
  "m_end P m s = filter (\<lambda>(x, r). P r) (m s)"

definition at_line_end :: "string \<Rightarrow> bool" where
  "at_line_end r \<longleftrightarrow> r = [] \<or> hd r = CHR 0x0A"

definition comment_end :: matcher where
  "comment_end = m_end at_end (m_seq (m_star is_space) (m_opt (m_seq (m_lit ''#'') (m_star not_newline))))"

definition space_end :: matcher where
  "space_end = m_end at_end (m_star is_space)"

definition first_of :: "('a \<times> 'b) list \<Rightarrow> 'a option" where
  "first_of ms = (case ms of [] \<Rightarrow> None | (g, r) # _ \<Rightarrow> Some g)"

definition key_char :: "char \<Rightarrow> bool" where
  "key_char c \<longleftrightarrow> word_char c \<or> c = CHR ''.'' \<or> c = CHR ''-''"

definition dash_char :: "char \<Rightarrow> bool" where
  "dash_char c \<longleftrightarrow> word_char c \<or> c = CHR ''-''"

text \<open>\<open>_BLOCK_KEY\<close> and the header of a job; \<open>_BLOCK_ITEM\<close>; the value of a key.\<close>

definition block_key :: "string \<Rightarrow> string option" where
  "block_key s = first_of (m_within m_empty (m_plus key_char) (m_seq (m_lit '':'') comment_end) s)"

definition block_item :: "string \<Rightarrow> string option" where
  "block_item s = first_of (m_within (m_seq (m_lit ''-'') (m_star is_space)) (m_lazy_plus not_newline) comment_end s)"

text \<open>A key and a value, as two groups.\<close>

definition keyed :: "matcher \<Rightarrow> matcher \<Rightarrow> matcher \<Rightarrow> matcher \<Rightarrow> matcher \<Rightarrow> string \<Rightarrow> (string \<times> string) option" where
  "keyed lead key between val after s =
     first_of [((k, v), r4). (_, r) \<leftarrow> lead s, (k, r1) \<leftarrow> key r, (_, r2) \<leftarrow> between r1, (v, r3) \<leftarrow> val r2, (_, r4) \<leftarrow> after r3]"

definition flow_list :: "string \<Rightarrow> (string \<times> string) option" where
  "flow_list = keyed m_empty (m_plus key_char) (m_seqs [m_lit '':'', m_star is_space, m_lit ''['']) (m_star not_newline)
     (m_seq (m_lit '']'') comment_end)"

definition include_pair :: "string \<Rightarrow> (string \<times> string) option" where
  "include_pair = keyed (m_seq (m_opt (m_lit ''-'')) (m_star is_space)) (m_plus key_char) (m_seq (m_lit '':'') (m_star is_space))
     (m_lazy_plus not_newline) comment_end"

definition matrix_ref :: "string \<Rightarrow> string option" where
  "matrix_ref = search_group
     (m_within (m_seqs [m_lit (CHR 0x24 # ''{{''), m_star is_space, m_lit ''matrix.'']) (m_plus key_char) (m_seq (m_star is_space) (m_lit ''}}'')))"

definition uses_action :: "string \<Rightarrow> string option" where
  "uses_action s = first_of (m_within
     (m_seqs [m_opt (m_lit ''-''), m_star is_space, m_lit ''uses:'', m_star is_space])
     (m_seqs [m_plus key_char, m_lit ''/'', m_plus key_char]) m_empty s)"

definition with_version :: "string \<Rightarrow> (string \<times> string) option" where
  "with_version = keyed m_empty (m_plus dash_char) (m_seq (m_lit ''-version:'') (m_star is_space)) (m_lazy_plus not_newline) comment_end"

definition runs_on :: "string \<Rightarrow> string option" where
  "runs_on s = first_of (m_within (m_seq (m_lit ''runs-on:'') (m_star is_space)) (m_lazy_plus not_newline) space_end s)"

definition image_of :: "string \<Rightarrow> string option" where
  "image_of s = first_of (m_within (m_seqs [m_alt (m_lit ''image'') (m_lit ''name''), m_lit '':'', m_star is_space])
     (m_lazy_plus not_newline) space_end s)"

section \<open>Matrices\<close>

definition is_template :: "string \<Rightarrow> bool" where
  "is_template v \<longleftrightarrow> contains v (CHR 0x24 # ''{{'')"

definition unquoted :: "string \<Rightarrow> string" where
  "unquoted v = strip (strip_chars [CHR 0x27, CHR 0x22] (strip v))"

definition indent_of :: "string \<Rightarrow> nat" where
  "indent_of line = length line - length (lstrip line)"

definition MATRIX_META :: "string list" where
  "MATRIX_META = [''include'', ''exclude'', ''fail-fast'']"

type_synonym axes = "(string \<times> string list) list"

record matrix_state =
  mx_jobs_indent :: "nat option"
  mx_job :: "string option"
  mx_job_indent :: nat
  mx_matrix_indent :: "nat option"
  mx_axis :: "string option"
  mx_axis_indent :: nat
  mx_in_include :: bool
  mx_matrices :: "(string \<times> axes) list"

definition matrix_start :: matrix_state where
  "matrix_start = \<lparr>mx_jobs_indent = None, mx_job = None, mx_job_indent = 0, mx_matrix_indent = None, mx_axis = None,
     mx_axis_indent = 0, mx_in_include = False, mx_matrices = []\<rparr>"

definition set_axes :: "string \<Rightarrow> axes \<Rightarrow> matrix_state \<Rightarrow> matrix_state" where
  "set_axes job axes st = st\<lparr>mx_matrices := dict_set job axes (mx_matrices st)\<rparr>"

text \<open>\<open>axes.setdefault(key, [])\<close> and the value appended unless it is there.\<close>

definition with_key :: "string \<Rightarrow> axes \<Rightarrow> axes" where
  "with_key k axes = (if map_of axes k = None then dict_set k [] axes else axes)"

definition add_value :: "string \<Rightarrow> string \<Rightarrow> axes \<Rightarrow> axes" where
  "add_value k v axes = (case map_of axes k of None \<Rightarrow> dict_set k [v] axes | Some vs \<Rightarrow> if v \<in> set vs then axes else dict_set k (vs @ [v]) axes)"

definition readable :: "string \<Rightarrow> bool" where
  "readable v \<longleftrightarrow> v \<noteq> [] \<and> \<not> is_template v"

text \<open>A line inside the matrix of a job.\<close>

definition axis_line :: "string \<Rightarrow> nat \<Rightarrow> string \<Rightarrow> axes \<Rightarrow> matrix_state \<Rightarrow> matrix_state" where
  "axis_line job indent t axes st =
     (if t = ''include:'' \<or> t = ''exclude:'' then st\<lparr>mx_in_include := (t = ''include:''), mx_axis := None, mx_axis_indent := indent\<rparr>
      else if mx_in_include st \<and> indent > mx_axis_indent st then
        (case include_pair t of
           Some (k, v) \<Rightarrow>
             if k \<notin> set MATRIX_META \<and> readable (unquoted v) then set_axes job (add_value k (unquoted v) (with_key k axes)) st else st
         | None \<Rightarrow> st)
      else
        (case flow_list t of
           Some (k, vs) \<Rightarrow>
             if k \<notin> set MATRIX_META then (set_axes job (dict_set k (filter readable (map unquoted (split_on '','' vs))) axes) st)\<lparr>mx_axis := None\<rparr>
             else st
         | None \<Rightarrow>
             (case block_key t of
                Some k \<Rightarrow>
                  if k \<notin> set MATRIX_META then (set_axes job (with_key k axes) st)\<lparr>mx_axis := Some k, mx_axis_indent := indent\<rparr> else st
              | None \<Rightarrow>
                  (case mx_axis st of
                     Some a \<Rightarrow>
                       (case block_item t of
                          Some v \<Rightarrow>
                            if indent > mx_axis_indent st \<and> readable (unquoted v) then set_axes job (add_value a (unquoted v) axes) st else st
                        | None \<Rightarrow> st)
                   | None \<Rightarrow> st))))"

text \<open>A line of the file: blank lines and comments are skipped.\<close>

definition job_line :: "nat \<Rightarrow> string \<Rightarrow> matrix_state \<Rightarrow> matrix_state" where
  "job_line indent t st =
     (case mx_job st of
        None \<Rightarrow> st
      | Some job \<Rightarrow>
          (case mx_matrix_indent st of
             None \<Rightarrow>
               if t = ''matrix:'' then
                 (if map_of (mx_matrices st) job = None then set_axes job [] st else st)\<lparr>mx_matrix_indent := Some indent\<rparr>
               else st
           | Some mi \<Rightarrow>
               if indent \<le> mi then st\<lparr>mx_matrix_indent := None, mx_axis := None, mx_in_include := False\<rparr>
               else (case map_of (mx_matrices st) job of
                       None \<Rightarrow> axis_line job indent t [] (set_axes job [] st)
                     | Some axes \<Rightarrow> axis_line job indent t axes st)))"

definition matrix_line :: "string \<Rightarrow> matrix_state \<Rightarrow> matrix_state" where
  "matrix_line raw st =
     (if strip raw = [] \<or> prefix ''#'' (lstrip raw) then st
      else let indent = indent_of raw; t = strip raw in
        case mx_jobs_indent st of
          None \<Rightarrow> if t = ''jobs:'' then st\<lparr>mx_jobs_indent := Some indent\<rparr> else st
        | Some ji \<Rightarrow>
            if indent \<le> ji \<and> t \<noteq> ''jobs:'' then st\<lparr>mx_jobs_indent := None, mx_job := None, mx_matrix_indent := None\<rparr>
            else (case (if (mx_job st = None \<or> indent \<le> mx_job_indent st) \<and> indent > ji then block_key t else None) of
                    Some name \<Rightarrow> st\<lparr>mx_job := Some name, mx_job_indent := indent, mx_matrix_indent := None, mx_axis := None, mx_in_include := False\<rparr>
                  | None \<Rightarrow> job_line indent t st))"

definition parse_workflow_matrices :: "string list \<Rightarrow> (string \<times> axes) list" where
  "parse_workflow_matrices lines =
     map (\<lambda>(job, axes). (job, filter (\<lambda>(k, v). v \<noteq> []) axes)) (mx_matrices (fold matrix_line lines matrix_start))"

definition resolve_matrix_ref :: "string \<Rightarrow> axes \<Rightarrow> string list" where
  "resolve_matrix_ref spec axes =
     (case matrix_ref spec of None \<Rightarrow> [] | Some k \<Rightarrow> (case map_of axes k of None \<Rightarrow> [] | Some vs \<Rightarrow> vs))"

section \<open>Workflows\<close>

record ci_toolchain =
  ct_tool :: string
  ct_spec :: string
  ct_source :: string
  ct_platform :: "string option"

definition CI_TOOLS :: "string list" where
  "CI_TOOLS = [''python'', ''node'', ''go'', ''java'', ''dotnet'', ''ruby'', ''php'']"

definition SETUP_ACTIONS :: "(string \<times> string) list" where
  "SETUP_ACTIONS =
     [(''actions/setup-python'', ''python''), (''actions/setup-node'', ''node''), (''actions/setup-go'', ''go''),
      (''actions/setup-java'', ''java''), (''actions/setup-dotnet'', ''dotnet''), (''actions/setup-ruby'', ''ruby''),
      (''actions/setup-php'', ''php'')]"

text \<open>The axes of all jobs of a file, in one.\<close>

definition merge_axes :: "(string \<times> axes) list \<Rightarrow> axes" where
  "merge_axes matrices =
     fold (\<lambda>(job, axes). fold (\<lambda>(k, vs) merged.
       dict_set k (let old = (case map_of merged k of None \<Rightarrow> [] | Some ws \<Rightarrow> ws) in old @ filter (\<lambda>v. v \<notin> set old) vs) merged) axes) matrices []"

record gha_state =
  ga_action :: "string option"
  ga_indent :: nat
  ga_runs_on :: "string option"
  ga_out :: "ci_toolchain list"

definition emit :: "string \<Rightarrow> string \<Rightarrow> string list \<Rightarrow> gha_state \<Rightarrow> gha_state" where
  "emit rel tool specs st = st\<lparr>ga_out := ga_out st @
     map (\<lambda>v. \<lparr>ct_tool = tool, ct_spec = v, ct_source = rel, ct_platform = ga_runs_on st\<rparr>) specs\<rparr>"

text \<open>A line under an action: a version of a tool, or the version of a set-up action.\<close>

definition input_line :: "string \<Rightarrow> axes \<Rightarrow> string \<Rightarrow> string \<Rightarrow> gha_state \<Rightarrow> gha_state" where
  "input_line rel axes action t st =
     (case with_version t of
        Some (tool, v) \<Rightarrow>
          if tool \<in> set CI_TOOLS then
            (let spec = unquoted v in
             if is_template spec then emit rel tool (if resolve_matrix_ref spec axes = [] then [''*''] else resolve_matrix_ref spec axes) st
             else emit rel tool [spec] st)
          else st
      | None \<Rightarrow>
          (case map_of SETUP_ACTIONS action of
             Some tool \<Rightarrow>
               if prefix ''version:'' t \<and> unquoted (drop 8 t) \<noteq> [] then emit rel tool [unquoted (drop 8 t)] st else st
           | None \<Rightarrow> st))"

definition runner_line :: "axes \<Rightarrow> string \<Rightarrow> gha_state \<Rightarrow> gha_state" where
  "runner_line axes t st =
     (case runs_on t of
        None \<Rightarrow> st
      | Some v \<Rightarrow>
          (let raw = unquoted v in
           st\<lparr>ga_runs_on := Some (if is_template raw \<and> resolve_matrix_ref raw axes \<noteq> [] then join '', '' (resolve_matrix_ref raw axes) else raw)\<rparr>))"

definition gha_line :: "string \<Rightarrow> axes \<Rightarrow> string \<Rightarrow> gha_state \<Rightarrow> gha_state" where
  "gha_line rel axes line st =
     (let t = strip line; indent = indent_of line in
      case uses_action t of
        Some action \<Rightarrow> st\<lparr>ga_action := Some action, ga_indent := indent\<rparr>
      | None \<Rightarrow>
          (let st1 = (case ga_action st of Some action \<Rightarrow> if indent > ga_indent st then input_line rel axes action t st else st | None \<Rightarrow> st);
               st2 = (if indent \<le> ga_indent st then st1\<lparr>ga_action := None\<rparr> else st1)
           in runner_line axes t st2))"

definition parse_github_actions :: "string \<Rightarrow> string option \<Rightarrow> ci_toolchain list" where
  "parse_github_actions rel content =
     (case content of
        None \<Rightarrow> []
      | Some text \<Rightarrow>
          (let lines = splitlines text; axes = merge_axes (parse_workflow_matrices lines) in
           ga_out (fold (gha_line rel axes) lines \<lparr>ga_action = None, ga_indent = 0, ga_runs_on = None, ga_out = []\<rparr>)))"

section \<open>GitLab and Azure\<close>

text \<open>\<open>s.split(sep, 1)\<close>: before the first separator, and behind it when there is one.\<close>

definition cut :: "char \<Rightarrow> string \<Rightarrow> string \<times> string option" where
  "cut c s = (takeWhile (\<lambda>d. d \<noteq> c) s, if c \<in> set s then Some (tl (dropWhile (\<lambda>d. d \<noteq> c) s)) else None)"

definition tool_from_image :: "string \<Rightarrow> (string \<times> string) option" where
  "tool_from_image img =
     (let base = (case cut (CHR ''/'') img of (a, Some b) \<Rightarrow> b | (a, None) \<Rightarrow> a);
          name = fst (cut (CHR ''-'') (fst (cut (CHR '':'') base))) in
      if name \<in> set CI_TOOLS then Some (name, case snd (cut (CHR '':'') base) of Some t \<Rightarrow> t | None \<Rightarrow> ''*'') else None)"

definition parse_gitlab_ci :: "string \<Rightarrow> string option \<Rightarrow> ci_toolchain list" where
  "parse_gitlab_ci rel content =
     (case content of
        None \<Rightarrow> []
      | Some text \<Rightarrow>
          concat (map (\<lambda>line.
            case image_of (strip line) of
              None \<Rightarrow> []
            | Some v \<Rightarrow>
                (case tool_from_image (unquoted v) of
                   None \<Rightarrow> []
                 | Some (tool, tag) \<Rightarrow> [\<lparr>ct_tool = tool, ct_spec = tag, ct_source = rel, ct_platform = Some (unquoted v)\<rparr>])) (splitlines text)))"

definition AZURE_TASKS :: "(string \<times> string) list" where
  "AZURE_TASKS =
     [(''UsePythonVersion'', ''python''), (''UseNode'', ''node''), (''UseGo'', ''go''), (''UseDotNet'', ''dotnet''),
      (''JavaToolInstaller'', ''java'')]"

definition vm_image :: "string \<Rightarrow> string list" where
  "vm_image s = map fst (m_within (m_seq (m_lit ''vmImage:'') (m_star is_space)) (m_lazy_plus not_newline)
     (m_end at_line_end (m_star is_space)) s)"

text \<open>
  A task, with the version that follows it: the wild card crosses lines, and the version is optional
  in the pattern.
\<close>

definition azure_task :: "string \<Rightarrow> ((string \<times> string option) \<times> string) list" where
  "azure_task s =
     [((task, v), r4). (_, r) \<leftarrow> m_seq (m_lit ''task:'') (m_star is_space) s, (task, r1) \<leftarrow> m_plus word_char r,
        (v, r3) \<leftarrow> [(Some v, r3). (_, r2) \<leftarrow> m_seqs [m_lazy (\<lambda>c. True), m_lit ''versionSpec:'', m_star is_space] r1,
                      (v, r3) \<leftarrow> m_lazy_plus (\<lambda>c. True) r2] @ [(None, r1)],
        (_, r4) \<leftarrow> m_end at_line_end (m_star is_space) r3]"

definition parse_azure_pipelines :: "string \<Rightarrow> string option \<Rightarrow> ci_toolchain list" where
  "parse_azure_pipelines rel content =
     (case content of
        None \<Rightarrow> []
      | Some text \<Rightarrow>
          (let platform = map_option unquoted (search_lines vm_image True text) in
           concat (map (\<lambda>(task, v).
             case map_of AZURE_TASKS task of
               None \<Rightarrow> []
             | Some tool \<Rightarrow>
                 (let spec = unquoted (case v of None \<Rightarrow> ''*'' | Some x \<Rightarrow> x) in
                  [\<lparr>ct_tool = tool, ct_spec = (if spec = [] then ''*'' else spec), ct_source = rel, ct_platform = platform\<rparr>]))
             (find_all azure_task text))))"

section \<open>What a project declares\<close>

definition unique_toolchains :: "ci_toolchain list \<Rightarrow> ci_toolchain list" where
  "unique_toolchains ts =
     foldl (\<lambda>out t. if (ct_tool t, ct_spec t, ct_source t) \<in> (\<lambda>u. (ct_tool u, ct_spec u, ct_source u)) ` set out then out else out @ [t]) [] ts"

definition collect_ci_toolchains :: "project \<Rightarrow> ci_toolchain list" where
  "collect_ci_toolchains pj =
     (let wf = [''.github'', ''workflows''];
          names = (case dir_at (pj_dir pj) wf of None \<Rightarrow> [] | Some d \<Rightarrow> sort (glob d [] ''.yml'') @ sort (glob d [] ''.yaml'')) in
      unique_toolchains
        (concat (map (\<lambda>n. parse_github_actions (join ''/'' (wf @ [n])) (read_at pj wf n)) names) @
         (if is_file pj [] ''.gitlab-ci.yml'' then parse_gitlab_ci ''.gitlab-ci.yml'' (read_at pj [] ''.gitlab-ci.yml'') else []) @
         (if is_file pj [] ''azure-pipelines.yml'' then parse_azure_pipelines ''azure-pipelines.yml'' (read_at pj [] ''azure-pipelines.yml'') else [])))"

section \<open>The machine against CI\<close>







section \<open>Writing a workflow\<close>












section \<open>The patterns on what is written\<close>














section \<open>The values that are read\<close>









section \<open>The state between the lines\<close>



















section \<open>A machine against a matrix\<close>












section \<open>What is not read\<close>

text \<open>
  The version of a set-up step is found when the step starts with its action and lost when it starts
  with a name: its inputs are then as deep as the action.
\<close>

lemma unnamed_steps_are_read:
  "map (\<lambda>t. (ct_tool t, ct_spec t)) (parse_github_actions ''ci.yml'' (Some (join [CHR 0x0A]
     [''steps:'', ''- uses: actions/setup-python@v5'', ''  with:'', ''    python-version: 3.11'']))) = [(''python'', ''3.11'')]"
  by code_simp

lemma named_steps_lose_their_version:
  "parse_github_actions ''ci.yml'' (Some (join [CHR 0x0A]
     [''steps:'', ''- name: Python'', ''  uses: actions/setup-python@v5'', ''  with:'', ''    python-version: 3.11''])) = []"
  by code_simp

text \<open>An axis that follows the additional legs is not read.\<close>

lemma axes_after_include_are_lost:
  "parse_workflow_matrices
     [''jobs:'', ''  t:'', ''    matrix:'', ''      include:'', ''        - os: windows'', ''      python:'', ''        - 3.11''] =
     [(''t'', [(''os'', [''windows''])])]"
  by code_simp

text \<open>A task without a version takes the version of the next task, which is lost.\<close>

lemma azure_tasks_take_the_next_version:
  "map (\<lambda>t. (ct_tool t, ct_spec t)) (parse_azure_pipelines ''azure-pipelines.yml'' (Some (join [CHR 0x0A]
     [''- task: UseNode@1'', ''- task: UsePythonVersion@0'', ''  inputs:'', ''    versionSpec: 3.11'']))) = [(''node'', ''3.11'')]"
  by code_simp

end
