(* ===== verification/Spec2Isabelle.thy ===== *)
theory Spec2Isabelle
  imports Bisect Chain Server_DB Mcp Diff_Engine Rules Remediation_Graph Remediation_Planner Drift Baseline
    Fleet Server_API Server_Access Server_Run Server_Schema Backup Signing Advisories Rule_Packs Agent_Manifest Privacy
    Agent_Gate Contract Snapshot_Protocol Auth Recipe_Emit Policy Watch CI_Parsers
begin

text \<open>
  \<^bold>\<open>devrepro-doctor\<close> inspects a development machine and a project, gives a verdict (READY,
  NOT_READY, BLOCKED, UNKNOWN or an internal error), explains it with findings that carry
  evidence, proposes remediations, records snapshots of the machine, compares them, and serves the
  results to an agent (MCP) and to a fleet server. This library models the part of it that decides,
  as definitions a proof can evaluate, and proves what makes each part correct. All paths below are
  under \<open>src/devrepro/\<close>.

  \<^bold>\<open>The parts and how they meet.\<close> Probes and detectors collect facts into a \<open>RuleContext\<close>; the
  rule packs turn it into findings through the version rule; the findings give the score and the
  exit code, and the planner turns them into steps that the graph orders and the guarded executor
  runs. A report is stored as a snapshot: in the local history (a hash chain), in a baseline, or on
  the server, whose HTTP handlers work on the tables of the database layer; the diff, the timeline
  and the fleet readings are computed from stored snapshots. What leaves the machine passes the
  privacy gate. The MCP server answers tool calls with the verdict of the same scan.

  \<^bold>\<open>Theories.\<close>
  \<^item> \<open>Prelude\<close>: results (\<open>error + 'a\<close>, with \<open>bind_res\<close> and \<open>map_res\<close>), strings, association lists,
    stable sorting; \<open>Regex\<close>: the backtracking matcher of \<open>re\<close> as combinators, with search,
    substitution and what a substitution can leave behind; \<open>Json\<close> and \<open>Json_Layout\<close>: JSON values, the
    truth and text of a Python value, \<open>json.dumps\<close> and \<open>json.loads\<close> with their round trip.
  \<^item> \<open>Models\<close>: the records and enumerations of \<open>core/models.py\<close> and \<open>core/exit_codes.py\<close>, the
    validators, \<open>exit_for\<close>.
  \<^item> \<open>Versioning\<close>, \<open>Version_Check\<close>: \<open>core/versioning.py\<close>: parsing of versions and ranges, the order,
    satisfaction. Full ranges mean the comparison they write; series ranges mean what is documented,
    with the exceptions stated; satisfaction is convex and respects equality of versions.
  \<^item> \<open>Rules\<close>: \<open>rules/base.py\<close> and \<open>rules/score.py\<close>; \<open>Rule_Packs\<close>: \<open>rules/packs/*.py\<close>. A raising pack
    costs only itself; no built-in pack raises; a grave finding is about something demanded.
  \<^item> \<open>Advisories\<close>, \<open>Signing\<close>: \<open>compliance/advisories.py\<close> and \<open>snapshots/signing.py\<close>: which versions
    are affected, which bundles are accepted.
  \<^item> \<open>Remediation_Graph\<close>, \<open>Remediation_Planner\<close>: \<open>remediation/*.py\<close>: the order of the steps (a
    permutation that respects the prerequisites, found exactly when there is one), the dry run,
    planning, and execution that never runs a risky or unconfirmed step.
  \<^item> \<open>Bisect\<close>: \<open>reproduce/bisect.py\<close>: bisection ends at a boundary of the failure, delta debugging at
    a one-minimal failing set.
  \<^item> \<open>Chain\<close>: \<open>snapshots/chain.py\<close> and \<open>HistoryStore.save\<close>: a saved history verifies, a verified
    head fixes the history up to collisions of the hash.
  \<^item> \<open>Diff_Engine\<close>, \<open>Drift\<close>, \<open>Baseline\<close>: \<open>diff/engine.py\<close>, \<open>snapshots/history.py\<close>, \<open>drift/*.py\<close>,
    \<open>snapshots/baseline.py\<close>: the diff is symmetric, the timeline replays the snapshots, a baseline
    blocks exactly as documented.
  \<^item> \<open>Server_DB\<close>: \<open>server/db.py\<close>: one table per SQL table (a list of rows with their rowids and the
    next one), one function per method, the step relation \<open>db_step\<close> of all of them, and what is
    invariant under it; \<open>Server_Schema\<close>: the constraints of the schema as such an invariant.
  \<^item> \<open>Server_API\<close>, \<open>Server_Access\<close>: every handler of \<open>server/api.py\<close> with its role guard, the routes,
    and the description of \<open>server/openapi.py\<close>: refusals change nothing, changes are audited,
    organizations are kept apart (with the three exceptions); \<open>Server_Run\<close>: histories of requests
    refine the store.
  \<^item> \<open>Fleet\<close>: \<open>server/fleet.py\<close> and \<open>server/analytics.py\<close>; \<open>Backup\<close>: \<open>server/backup.py\<close>.
  \<^item> \<open>Mcp\<close>: \<open>mcp/protocol.py\<close> and \<open>mcp/stdio.py\<close>: paths are confined to the root, the cache never
    holds what was not scanned, every request is answered in order.
  \<^item> \<open>Agent_Manifest\<close>: \<open>agents/manifest.py\<close>; \<open>Agent_Readiness\<close>: \<open>agents/freshness.py\<close>, \<open>score.py\<close>,
    \<open>tokencost.py\<close>; \<open>Agent_Gate\<close>: \<open>agents/blast_radius.py\<close>, \<open>gate.py\<close>: which commands are stale, which
    manifests disagree, what is perfect, and what the gate decides on.
  \<^item> \<open>Lockfiles\<close>: \<open>project/lockfiles.py\<close>: the thirteen formats and the walk that finds them.
  \<^item> \<open>Detectors\<close>: \<open>project/detectors.py\<close>: the requirements each manifest declares; only an
    unreadable manifest ends the detection.
  \<^item> \<open>Reproduction\<close>, \<open>Recipe_Emit\<close>: \<open>reproduce/recipe.py\<close>, \<open>emit.py\<close>, \<open>adapters.py\<close>: what a
    recipe installs, what its Dockerfile runs, and that an unchanged recipe passes the check.
  \<^item> \<open>Privacy\<close>: \<open>privacy/gate.py\<close>: a redacted text is clean, a credential blocks every context.
  \<^item> \<open>Contract\<close>: \<open>core/contract.py\<close>: the check of a report is exact; \<open>Snapshot_Protocol\<close>:
    \<open>snapshots/protocol.py\<close>: migration is idempotent, the fingerprint ignores the order.
  \<^item> \<open>Auth\<close>: \<open>server/auth.py\<close>: no role is granted that was not configured.

  \<^bold>\<open>Conventions.\<close> Python strings are lists of characters, so texts are over Latin-1; a dash beyond
  it in a message is written as a hyphen. A Python \<open>int\<close> is \<open>int\<close> or \<open>nat\<close>, JSON is without floats,
  and the limit of \<open>int()\<close> on digits is ignored. Dictionaries are association lists in insertion
  order; records have the fields of the classes with a short prefix. Raised exceptions are the left
  of a sum. What is not in the repository is an argument: the hash, HMAC, the clock, the source of
  tokens, \<open>datetime.fromisoformat\<close>, the tar format, \<open>repr\<close>, the scanner, the executor, the file
  system; where a proof needs one of their properties it is a hypothesis and a witness satisfies it
  with a concrete function.

  \<^bold>\<open>Bounds.\<close> \<open>load_value\<close> reads JSON with the length of the text plus one as fuel, and every nested
  call works on a shorter text. \<open>m_rep_n\<close> iterates a group at most as often as there are
  characters, since an iteration must consume. All other loops are structural or end by a measure.

  \<^bold>\<open>Not modelled.\<close> Probes and platform queries (subprocesses and the file system), the parsers of
  TOML, YAML and XML themselves (what is made of their result is modelled for manifests, lockfiles and SAML), rendering of reports and exports, the command line, Fernet encryption, plugin
  loading, watch and benchmark loops; the prose of the rule catalog. Their results enter as data.
\<close>

end
